(* ===== verification/Prelude.thy ===== *)
theory Prelude
  imports Main "HOL-Library.Word" "HOL-Library.AList" "HOL-Library.Char_ord"
    "HOL-Library.List_Lexorder" "HOL-Library.Multiset"
begin

text \<open>
  Shared vocabulary of the tailbus development: Go maps, buffered channels, time stamps, decimal
  formatting, and the interface \<open>kv_map\<close> that every keyed store of the program (Go maps, ordered
  database buckets) is shown to satisfy. The lemma collections \<open>keeps\<close> (an operation keeps an
  invariant) and \<open>frame\<close> (an operation leaves a field alone) are filled by the component theories.
\<close>

named_theorems keeps "operations keep the invariant of their component"
named_theorems frame "operations leave a field of the state unchanged"

section \<open>Keyed stores\<close>

text \<open>
  The contract of a keyed store: a lookup after an insertion or a deletion, and the
  well-formedness both keep.
\<close>

locale kv_map =
  fixes get :: "'m \<Rightarrow> 'k \<Rightarrow> 'v option"
    and put :: "'k \<Rightarrow> 'v \<Rightarrow> 'm \<Rightarrow> 'm"
    and del :: "'k \<Rightarrow> 'm \<Rightarrow> 'm"
    and wf :: "'m \<Rightarrow> bool"
  assumes get_put: "wf m \<Longrightarrow> get (put k v m) = (get m)(k \<mapsto> v)"
    and get_del: "wf m \<Longrightarrow> get (del k m) = (get m)(k := None)"
    and wf_put: "wf m \<Longrightarrow> wf (put k v m)"
    and wf_del: "wf m \<Longrightarrow> wf (del k m)"
begin

lemma wf_fold_put: "wf m \<Longrightarrow> wf (fold (\<lambda>x. put (f x) (g x)) xs m)"
  by (induction xs arbitrary: m) (auto intro: wf_put)

lemma wf_fold_del: "wf m \<Longrightarrow> wf (fold del ks m)"
  by (induction ks arbitrary: m) (auto intro: wf_del)

lemma get_fold_del: "wf m \<Longrightarrow> get (fold del ks m) = (\<lambda>k. if k \<in> set ks then None else get m k)"
  by (induction ks arbitrary: m) (auto simp: get_del wf_del)

lemma get_fold_put_fresh:
  "wf m \<Longrightarrow> k \<notin> f ` set xs \<Longrightarrow> get (fold (\<lambda>x. put (f x) (g x)) xs m) k = get m k"
  by (induction xs arbitrary: m) (auto simp: get_put wf_put)

lemma get_fold_put:
  "wf m \<Longrightarrow> distinct (map f xs) \<Longrightarrow> x \<in> set xs \<Longrightarrow>
     get (fold (\<lambda>x. put (f x) (g x)) xs m) (f x) = Some (g x)"
proof (induction xs arbitrary: m)
  case Nil
  then show ?case by simp
next
  case (Cons y ys)
  have w: "wf (put (f y) (g y) m)"
    using Cons.prems by (simp add: wf_put)
  show ?case
  proof (cases "x \<in> set ys")
    case True
    then show ?thesis
      using Cons.IH [OF w] Cons.prems by simp
  next
    case False
    then have "x = y"
      using Cons.prems by simp
    moreover have "f y \<notin> f ` set ys"
      using Cons.prems by auto
    ultimately show ?thesis
      using get_fold_put_fresh [OF w, of "f y" f ys g] by (simp add: get_put [OF Cons.prems(1)])
  qed
qed

end

section \<open>Go maps\<close>

text \<open>
  A Go map is an association list with distinct keys: the list order stands for the order in which
  one \<open>range\<close> loop happens to visit the entries. Go leaves that order open, so a result that
  must not depend on it is stated for every order.
\<close>

type_synonym ('k, 'v) gomap = "('k \<times> 'v) list"

abbreviation gget :: "('k, 'v) gomap \<Rightarrow> 'k \<Rightarrow> 'v option" where
  "gget \<equiv> map_of"

abbreviation gput :: "'k \<Rightarrow> 'v \<Rightarrow> ('k, 'v) gomap \<Rightarrow> ('k, 'v) gomap" where
  "gput \<equiv> AList.update"

abbreviation gdel :: "'k \<Rightarrow> ('k, 'v) gomap \<Rightarrow> ('k, 'v) gomap" where
  "gdel \<equiv> AList.delete"

abbreviation gkeys :: "('k, 'v) gomap \<Rightarrow> 'k list" where
  "gkeys m \<equiv> map fst m"

abbreviation gvals :: "('k, 'v) gomap \<Rightarrow> 'v list" where
  "gvals m \<equiv> map snd m"

definition gwf :: "('k, 'v) gomap \<Rightarrow> bool" where
  "gwf m \<longleftrightarrow> distinct (gkeys m)"

text \<open>A read with Go's zero value for a missing key.\<close>

definition gget_or :: "'v \<Rightarrow> ('k, 'v) gomap \<Rightarrow> 'k \<Rightarrow> 'v" where
  "gget_or z m k = (case gget m k of None \<Rightarrow> z | Some v \<Rightarrow> v)"

lemma gget_gput [simp]: "gget (gput k v m) = (gget m)(k \<mapsto> v)"
  by (simp add: update_conv')

lemma gget_gdel [simp]: "gget (gdel k m) = (gget m)(k := None)"
  by (simp add: delete_conv')

lemma gwf_Nil [simp, keeps]: "gwf []"
  by (simp add: gwf_def)

lemma gwf_gput [simp, keeps]: "gwf m \<Longrightarrow> gwf (gput k v m)"
  by (simp add: gwf_def distinct_update)

lemma gwf_gdel [simp, keeps]: "gwf m \<Longrightarrow> gwf (gdel k m)"
  by (simp add: gwf_def distinct_delete)

interpretation gomap: kv_map gget gput gdel gwf
  by unfold_locales simp_all

lemma gwf_filter [simp, keeps]: "gwf m \<Longrightarrow> gwf (filter P m)"
  by (induction m) (auto simp: gwf_def)

lemma gget_filter:
  "gwf m \<Longrightarrow> gget (filter P m) k = (case gget m k of Some v \<Rightarrow> (if P (k, v) then Some v else None) | None \<Rightarrow> None)"
proof (induction m)
  case Nil
  then show ?case by simp
next
  case (Cons p m)
  obtain a b where p: "p = (a, b)" by (cases p)
  from Cons.prems have "gwf m" and a: "a \<notin> fst ` set m"
    by (auto simp: gwf_def p)
  then have "gget m a = None"
    by (simp add: map_of_eq_None_iff)
  with Cons.IH [OF \<open>gwf m\<close>] show ?case
    by (auto simp: p split: option.splits)
qed

lemma gget_in_set: "gget m k = Some v \<Longrightarrow> (k, v) \<in> set m"
  by (rule map_of_SomeD)

lemma gget_eq_Some_iff: "gwf m \<Longrightarrow> gget m k = Some v \<longleftrightarrow> (k, v) \<in> set m"
  by (simp add: gwf_def)

lemma gget_None_iff: "gget m k = None \<longleftrightarrow> k \<notin> set (gkeys m)"
  by (simp add: map_of_eq_None_iff)

lemma gkeys_gput [simp]: "set (gkeys (gput k v m)) = insert k (set (gkeys m))"
  by (simp add: dom_update)

lemma gwf_map_snd [simp]: "gwf (map (\<lambda>(k, v). (k, f k v)) m) \<longleftrightarrow> gwf m"
  by (simp add: gwf_def comp_def case_prod_beta')

lemma gget_map_snd: "gget (map (\<lambda>(k, v). (k, f k v)) m) k = map_option (f k) (gget m k)"
  by (induction m) auto

section \<open>Channels\<close>

text \<open>
  A buffered Go channel as the code uses it: \<open>make(chan T, n)\<close>, the non-blocking send
  \<open>select { case ch <- x: default: }\<close>, the receive, and \<open>close\<close>. The identity is what
  Go compares when it compares channels.
\<close>

record 'a chan =
  ch_id :: nat
  ch_cap :: nat
  ch_buf :: "'a list"
  ch_closed :: bool

definition make_chan :: "nat \<Rightarrow> nat \<Rightarrow> 'a chan" where
  "make_chan i n = \<lparr>ch_id = i, ch_cap = n, ch_buf = [], ch_closed = False\<rparr>"

definition has_room :: "'a chan \<Rightarrow> bool" where
  "has_room c \<longleftrightarrow> length (ch_buf c) < ch_cap c"

definition try_send :: "'a \<Rightarrow> 'a chan \<Rightarrow> 'a chan" where
  "try_send x c = (if has_room c then c\<lparr>ch_buf := ch_buf c @ [x]\<rparr> else c)"

definition chan_ok :: "'a chan \<Rightarrow> bool" where
  "chan_ok c \<longleftrightarrow> length (ch_buf c) \<le> ch_cap c"

lemma chan_ok_make [simp]: "chan_ok (make_chan i n)"
  by (simp add: chan_ok_def make_chan_def)

lemma chan_ok_try_send [simp, keeps]: "chan_ok c \<Longrightarrow> chan_ok (try_send x c)"
  by (simp add: chan_ok_def try_send_def has_room_def)

lemma try_send_frame [simp, frame]:
  "ch_id (try_send x c) = ch_id c" "ch_cap (try_send x c) = ch_cap c"
  "ch_closed (try_send x c) = ch_closed c"
  by (simp_all add: try_send_def)

section \<open>Sorting\<close>

text \<open>
  \<open>sort.Slice\<close> with a comparison function. It is not stable, so a caller can rely on the
  result only where the comparison leaves one order: \<open>sort_slice_unique\<close> says when that is.
\<close>

fun insert_by :: "('a \<Rightarrow> 'a \<Rightarrow> bool) \<Rightarrow> 'a \<Rightarrow> 'a list \<Rightarrow> 'a list" where
  "insert_by lt x [] = [x]"
| "insert_by lt x (y # ys) = (if lt y x then y # insert_by lt x ys else x # y # ys)"

definition sort_slice :: "('a \<Rightarrow> 'a \<Rightarrow> bool) \<Rightarrow> 'a list \<Rightarrow> 'a list" where
  "sort_slice lt xs = foldr (insert_by lt) xs []"

text \<open>The comparison orders the elements of a set strictly and totally.\<close>

definition strict_total :: "('a \<Rightarrow> 'a \<Rightarrow> bool) \<Rightarrow> 'a set \<Rightarrow> bool" where
  "strict_total lt A \<longleftrightarrow>
     (\<forall>x\<in>A. \<not> lt x x) \<and>
     (\<forall>x\<in>A. \<forall>y\<in>A. \<forall>z\<in>A. lt x y \<longrightarrow> lt y z \<longrightarrow> lt x z) \<and>
     (\<forall>x\<in>A. \<forall>y\<in>A. x \<noteq> y \<longrightarrow> lt x y \<or> lt y x)"

lemma strict_totalD:
  "strict_total lt A \<Longrightarrow> x \<in> A \<Longrightarrow> \<not> lt x x"
  "strict_total lt A \<Longrightarrow> lt x y \<Longrightarrow> lt y z \<Longrightarrow> x \<in> A \<Longrightarrow> y \<in> A \<Longrightarrow> z \<in> A \<Longrightarrow> lt x z"
  "strict_total lt A \<Longrightarrow> x \<in> A \<Longrightarrow> y \<in> A \<Longrightarrow> x \<noteq> y \<Longrightarrow> lt x y \<or> lt y x"
  "strict_total lt A \<Longrightarrow> lt x y \<Longrightarrow> x \<in> A \<Longrightarrow> y \<in> A \<Longrightarrow> \<not> lt y x"
  unfolding strict_total_def by blast+

lemma strict_total_subset: "strict_total lt A \<Longrightarrow> B \<subseteq> A \<Longrightarrow> strict_total lt B"
  unfolding strict_total_def by blast

lemma mset_insert_by [simp]: "mset (insert_by lt x ys) = add_mset x (mset ys)"
  by (induction ys) auto

lemma mset_sort_slice [simp]: "mset (sort_slice lt xs) = mset xs"
  unfolding sort_slice_def by (induction xs) auto

lemma set_sort_slice [simp]: "set (sort_slice lt xs) = set xs"
  by (metis mset_sort_slice set_mset_mset)

lemma distinct_sort_slice [simp]: "distinct (sort_slice lt xs) \<longleftrightarrow> distinct xs"
  by (metis mset_sort_slice mset_eq_imp_distinct_iff)

lemma set_insert_by [simp]: "set (insert_by lt x ys) = insert x (set ys)"
  by (metis mset_insert_by set_mset_add_mset_insert set_mset_mset)

lemma sorted_insert_by:
  "strict_total lt A \<Longrightarrow> x \<in> A \<Longrightarrow> set ys \<subseteq> A \<Longrightarrow> x \<notin> set ys \<Longrightarrow> sorted_wrt lt ys \<Longrightarrow>
     sorted_wrt lt (insert_by lt x ys)"
proof (induction ys)
  case (Cons y ys)
  show ?case
  proof (cases "lt y x")
    case True
    with Cons show ?thesis by auto
  next
    case False
    then have "lt x y"
      using strict_totalD(3) [OF Cons.prems(1), of x y] Cons.prems by auto
    moreover have "lt x z" if "z \<in> set ys" for z
      using strict_totalD(2) [OF Cons.prems(1) \<open>lt x y\<close>, of z] Cons.prems that by auto
    ultimately have "\<forall>z\<in>set ys. lt x z"
      by simp
    with \<open>lt x y\<close> False Cons.prems show ?thesis by auto
  qed
qed simp

lemma sorted_sort_slice:
  assumes "strict_total lt (set xs)" and "distinct xs"
  shows "sorted_wrt lt (sort_slice lt xs)"
proof -
  have "set ys \<subseteq> set xs \<Longrightarrow> distinct ys \<Longrightarrow> sorted_wrt lt (foldr (insert_by lt) ys [])" for ys
  proof (induction ys)
    case (Cons y ys)
    have "set (foldr (insert_by lt) ys []) = set ys"
      using set_sort_slice [of lt ys] by (simp add: sort_slice_def)
    with Cons show ?case
      using sorted_insert_by [OF assms(1)] by auto
  qed simp
  then show ?thesis
    using assms(2) by (simp add: sort_slice_def)
qed

lemma sorted_wrt_set_unique:
  assumes "strict_total lt (set xs)" and "sorted_wrt lt xs" and "sorted_wrt lt ys" and "set xs = set ys"
  shows "xs = ys"
  using assms
proof (induction xs arbitrary: ys)
  case (Cons x xs)
  then obtain y ys' where ys: "ys = y # ys'" by (cases ys) auto
  have y: "y \<in> set (x # xs)" and x: "x \<in> set (y # ys')"
    using Cons.prems(4) ys by auto
  have irr: "\<not> lt x x"
    using strict_totalD(1) [OF Cons.prems(1)] by simp
  have xy: "x = y"
  proof (rule ccontr)
    assume "x \<noteq> y"
    then have "lt x y" "lt y x"
      using x y Cons.prems(2,3) ys by auto
    then show False
      using strict_totalD(4) [OF Cons.prems(1), of x y] y by auto
  qed
  have "x \<notin> set xs" "x \<notin> set ys'"
    using Cons.prems(2,3) irr xy ys by auto
  then have "set xs = set ys'"
    using Cons.prems(4) xy ys by auto
  then show ?case
    using Cons.IH [of ys'] Cons.prems(2,3) xy ys strict_total_subset [OF Cons.prems(1), of "set xs"]
    by auto
qed auto

lemma sort_slice_unique:
  assumes "strict_total lt (set xs)" and "distinct xs" and "mset xs = mset ys"
  shows "sort_slice lt xs = sort_slice lt ys"
proof -
  have s: "set ys = set xs"
    using assms(3) by (metis set_mset_mset)
  have d: "distinct ys"
    using assms(2,3) by (metis mset_eq_imp_distinct_iff)
  have "sorted_wrt lt (sort_slice lt xs)" "sorted_wrt lt (sort_slice lt ys)"
    using sorted_sort_slice assms(1,2) d s by metis+
  then show ?thesis
    using sorted_wrt_set_unique [of lt "sort_slice lt xs" "sort_slice lt ys"] assms(1) s by simp
qed

section \<open>Time\<close>

text \<open>
  A \<open>time.Time\<close> is its distance from the Unix epoch in nanoseconds, a
  \<open>time.Duration\<close> a number of nanoseconds. \<open>Unix()\<close> rounds down to whole seconds.
\<close>

type_synonym time = int

definition second :: int where
  "second = 1000000000"

definition unix :: "time \<Rightarrow> int" where
  "unix t = t div second"

definition from_unix :: "int \<Rightarrow> time" where
  "from_unix s = s * second"

lemma unix_from_unix [simp]: "unix (from_unix s) = s"
  by (simp add: unix_def from_unix_def second_def)

lemma from_unix_le: "from_unix (unix t) \<le> t"
  by (simp add: unix_def from_unix_def second_def)

lemma from_unix_close: "t - from_unix (unix t) < second"
proof -
  have "t - t div second * second = t mod second"
    by (metis minus_div_mult_eq_mod)
  then show ?thesis
    by (simp add: unix_def from_unix_def second_def)
qed

section \<open>Decimal text\<close>

text \<open>
  \<open>fmt\<close> and \<open>strconv\<close> on decimal integers: \<open>%d\<close>, zero padding (\<open>%020d\<close>),
  \<open>FormatInt\<close> and \<open>ParseInt(s, 10, 64)\<close>.
\<close>

definition digit :: "nat \<Rightarrow> char" where
  "digit n = char_of (48 + n)"

fun dec_nat :: "nat \<Rightarrow> string" where
  "dec_nat n = (if n < 10 then [digit n] else dec_nat (n div 10) @ [digit (n mod 10)])"

declare dec_nat.simps [simp del]

definition pad0 :: "nat \<Rightarrow> string \<Rightarrow> string" where
  "pad0 w s = replicate (w - length s) (CHR ''0'') @ s"

definition fmt0d :: "nat \<Rightarrow> int \<Rightarrow> string" where
  "fmt0d w i = (if i < 0 then ''-'' @ pad0 (w - 1) (dec_nat (nat (- i))) else pad0 w (dec_nat (nat i)))"

definition FormatInt :: "int \<Rightarrow> string" where
  "FormatInt i = (if i < 0 then ''-'' @ dec_nat (nat (- i)) else dec_nat (nat i))"

definition is_digit :: "char \<Rightarrow> bool" where
  "is_digit c \<longleftrightarrow> CHR ''0'' \<le> c \<and> c \<le> CHR ''9''"

definition digits_val :: "string \<Rightarrow> nat" where
  "digits_val s = foldl (\<lambda>a c. 10 * a + (of_char c - 48)) 0 s"

definition ParseInt :: "string \<Rightarrow> int option" where
  "ParseInt s =
     (let neg = (s \<noteq> [] \<and> hd s = CHR ''-'');
          ds = (if s \<noteq> [] \<and> (hd s = CHR ''-'' \<or> hd s = CHR ''+'') then tl s else s);
          v = (if neg then - int (digits_val ds) else int (digits_val ds))
      in if ds = [] \<or> \<not> list_all is_digit ds \<or> v < - (2 ^ 63) \<or> 2 ^ 63 \<le> v then None else Some v)"

text \<open>Fixed-width decimals: the text of \<open>n\<close> in exactly \<open>w\<close> digits.\<close>

primrec decw :: "nat \<Rightarrow> nat \<Rightarrow> string" where
  "decw 0 n = []"
| "decw (Suc w) n = decw w (n div 10) @ [digit (n mod 10)]"

lemma length_decw [simp]: "length (decw w n) = w"
  by (induction w arbitrary: n) auto

lemma of_char_digit [simp]: "n < 10 \<Longrightarrow> of_char (digit n) = 48 + n"
  by (simp add: digit_def)

lemma digit_less_iff [simp]: "m < 10 \<Longrightarrow> n < 10 \<Longrightarrow> digit m < digit n \<longleftrightarrow> m < n"
  by (simp add: less_char_def)

lemma digit_zero: "digit 0 = CHR ''0''"
  by code_simp

lemma decw_zero: "decw w 0 = replicate w (CHR ''0'')"
  by (induction w) (simp_all add: digit_zero replicate_append_same)

lemma pad0_dec_nat: "0 < w \<Longrightarrow> n < 10 ^ w \<Longrightarrow> pad0 w (dec_nat n) = decw w n"
proof (induction w arbitrary: n)
  case (Suc w)
  show ?case
  proof (cases "n < 10")
    case True
    then show ?thesis
      by (simp add: dec_nat.simps [of n] pad0_def decw_zero)
  next
    case False
    have n: "n div 10 < 10 ^ w"
      using Suc.prems by auto
    have w: "0 < w"
      using False Suc.prems by (cases w) auto
    have "pad0 (Suc w) (dec_nat n) = pad0 w (dec_nat (n div 10)) @ [digit (n mod 10)]"
      using False by (simp add: dec_nat.simps [of n] pad0_def)
    then show ?thesis
      using Suc.IH [OF w n] by simp
  qed
qed simp

lemma lex_append:
  fixes xs ys :: "'a::linorder list"
  assumes "xs < ys" and "length xs = length ys"
  shows "xs @ us < ys @ vs"
  using assms unfolding list_less_def by (simp add: lexord_sufI)

lemma decw_mono: "m < n \<Longrightarrow> n < 10 ^ w \<Longrightarrow> decw w m < decw w n"
proof (induction w arbitrary: m n)
  case (Suc w)
  have n: "n div 10 < 10 ^ w"
    using Suc.prems by auto
  show ?case
  proof (cases "m div 10 < n div 10")
    case True
    then show ?thesis
      using Suc.IH [OF True n] by (simp add: lex_append)
  next
    case False
    then have "m div 10 = n div 10"
      using Suc.prems(1) div_le_mono [of m n 10] by simp
    then have "m mod 10 < n mod 10" "m div 10 = n div 10"
      using Suc.prems(1) by (metis div_mult_mod_eq nat_add_left_cancel_less)+
    then show ?thesis
      by (simp add: list_less_def lexord_append_leftI)
  qed
qed simp

lemma decw_less_iff: "m < 10 ^ w \<Longrightarrow> n < 10 ^ w \<Longrightarrow> decw w m < decw w n \<longleftrightarrow> m < n"
  by (metis decw_mono linorder_neqE_nat order_less_asym order_less_irrefl)

lemma decw_inj: "m < 10 ^ w \<Longrightarrow> n < 10 ^ w \<Longrightarrow> decw w m = decw w n \<Longrightarrow> m = n"
  by (metis decw_less_iff linorder_neqE_nat order_less_irrefl)

lemma dec_nat_digits: "list_all is_digit (dec_nat n) \<and> dec_nat n \<noteq> [] \<and> digits_val (dec_nat n) = n"
proof (induction n rule: dec_nat.induct)
  case (1 n)
  have d: "is_digit (digit k)" "of_char (digit k) - 48 = k" if "k < 10" for k
    using that by (simp_all add: is_digit_def less_eq_char_def)
  show ?case
  proof (cases "n < 10")
    case True
    then show ?thesis
      using d by (simp add: dec_nat.simps [of n] digits_val_def)
  next
    case False
    then show ?thesis
      using "1.IH" d [of "n mod 10"] by (simp add: dec_nat.simps [of n] digits_val_def)
  qed
qed

lemma ParseInt_FormatInt: "- (2 ^ 63) \<le> i \<Longrightarrow> i < 2 ^ 63 \<Longrightarrow> ParseInt (FormatInt i) = Some i"
proof -
  assume i: "- (2 ^ 63) \<le> i" "i < 2 ^ 63"
  have hd: "hd (dec_nat n) \<noteq> CHR ''-''" "hd (dec_nat n) \<noteq> CHR ''+''" for n
    using dec_nat_digits [of n] by (cases "dec_nat n"; auto simp: is_digit_def less_eq_char_def)+
  show ?thesis
    using i hd dec_nat_digits [of "nat i"] dec_nat_digits [of "nat (- i)"]
    by (auto simp: ParseInt_def FormatInt_def Let_def)
qed

end
