(* ===== verification/Messages.thy ===== *)
theory Messages
  imports Prelude
begin

text \<open>
  The data that travels between agents, daemons and relays (\<open>api/messagepb\<close>,
  \<open>api/transportpb\<close>): envelopes, rooms, room events and commands, the transport wrapper, and the
  errors of the daemon. An error is represented by a constructor with the values its text is
  formatted from; a wrapped error (\<open>%w\<close>) is an argument of the constructor.
\<close>

section \<open>Errors\<close>

datatype go_err =
    EmptyHandle
  | InvalidHandleName string
  | InvalidDomain string
  | HandleNotInPeerMap string
  | RoomNotInPeerMap string
  | SessionNotOpen string string
  | MarshalFailed
  | UnmarshalFailed
  | DatabaseError
  | ParseFailed string
  | LocalNoSubscribers string
  | ResolveFailed string go_err
  | NoResolver string
  | NoPeerKey string
  | NoRelays string
  | AllRelaysFailed string
  | ConnectFailed string
  | StreamFailed string
  | ReconnectFailed string go_err
  | KeyMismatch string
  | PeerNotInPeerMap string
  | UnknownPeerKey
  | ExtractKeyFailed
  | NotARoomMember string string
  | RoomIs string string
  | UnsupportedRoomCommand
  | NodeNotFound string
  | RoomCommandTimedOut
  | RoomUpsertFailed
  | RoomsNotConfigured
  | Unauthenticated string
  | HandleNotRegistered string
  | HandleOwnedByOther string
  | NotAParticipant string string
  | SessionIsClosed string string
  | SessionNotFound string
  | RouteFailed string go_err

type_synonym 'a result = "go_err + 'a"

section \<open>Envelopes and trace spans\<close>

type_synonym bytes = string

datatype envelope_type =
  ENVELOPE_UNSPECIFIED | ENVELOPE_MESSAGE | SESSION_OPEN | SESSION_RESOLVE | ACK

record envelope =
  MessageId :: string
  SessionId :: string
  FromHandle :: string
  ToHandle :: string
  Payload :: bytes
  ContentType :: string
  SentAtUnix :: int
  EType :: envelope_type
  TraceId :: string
  Sequence :: "64 word"
  AckId :: string
  EnvRelayTargetKey :: bytes

text \<open>Go's zero value of an envelope, from which a composite literal starts.\<close>

definition zero_envelope :: envelope where
  "zero_envelope = \<lparr>MessageId = [], SessionId = [], FromHandle = [], ToHandle = [], Payload = [],
     ContentType = [], SentAtUnix = 0, EType = ENVELOPE_UNSPECIFIED, TraceId = [], Sequence = 0,
     AckId = [], EnvRelayTargetKey = []\<rparr>"

datatype trace_action =
  ACTION_UNSPECIFIED | MESSAGE_CREATED | ROUTED_LOCAL | ROUTED_REMOTE | SENT_TO_TRANSPORT
  | RECEIVED_FROM_TRANSPORT | DELIVERED_TO_SUBSCRIBER

section \<open>Rooms\<close>

record room_info =
  RoomId :: string
  Title :: string
  CreatedBy :: string
  HomeNodeId :: string
  Members :: "string list"
  Status :: string
  NextSeq :: "64 word"
  CreatedAtUnix :: int
  UpdatedAtUnix :: int

datatype room_event_type =
  EVENT_UNSPECIFIED | MEMBER_JOINED | MEMBER_LEFT | MESSAGE_POSTED | ROOM_CLOSED

record room_event =
  EventId :: string
  EvRoomId :: string
  RoomSeq :: "64 word"
  SenderHandle :: string
  SubjectHandle :: string
  EvPayload :: bytes
  EvContentType :: string
  EvSentAtUnix :: int
  EvType :: room_event_type
  EvTraceId :: string
  EvMembers :: "string list"

datatype room_command_type =
  CMD_UNSPECIFIED | CMD_CREATE | CMD_JOIN | CMD_LEAVE | CMD_POST | CMD_REPLAY
  | CMD_LIST_MEMBERS | CMD_CLOSE

record room_command =
  RequestId :: string
  CmdType :: room_command_type
  CmdRoomId :: string
  RequesterHandle :: string
  CmdTitle :: string
  CmdMembers :: "string list"
  CmdSubjectHandle :: string
  CmdPayload :: bytes
  CmdContentType :: string
  CmdTraceId :: string
  SinceSeq :: "64 word"
  RequesterNodeId :: string

text \<open>The empty \<open>Error\<close> text of a successful result is \<open>None\<close>.\<close>

record room_command_result =
  ResRequestId :: string
  ResOk :: bool
  ResError :: "go_err option"
  ResRoom :: "room_info option"
  ResEvent :: "room_event option"
  ResEvents :: "room_event list"
  ResMembers :: "string list"

section \<open>Transport messages\<close>

datatype transport_body =
    BodyEnvelope envelope
  | BodyRoomEvent room_event
  | BodyRoomCommand room_command
  | BodyRoomCommandResult room_command_result

record transport_message =
  RelayTargetKey :: bytes
  Body :: transport_body

definition wrap :: "transport_body \<Rightarrow> transport_message" where
  "wrap b = \<lparr>RelayTargetKey = [], Body = b\<rparr>"

section \<open>Service manifests on the wire\<close>

record pb_command_spec =
  pcName :: string
  pcDescription :: string
  pcParametersSchema :: string

record pb_manifest =
  pmDescription :: string
  pmCommands :: "pb_command_spec list"
  pmTags :: "string list"
  pmVersion :: string
  pmCapabilities :: "string list"
  pmDomains :: "string list"
  pmInputTypes :: "string list"
  pmOutputTypes :: "string list"

end
