(* ===== verification/Handle.thy ===== *)
theory Handle
  imports Messages
begin

text \<open>
  Agent handles (\<open>internal/handle/handle.go\<close>). The two regular expressions are transcribed as
  syntax trees and run by a derivative matcher; the matcher is proved against the languages they
  denote. \<open>strings.ToLower\<close> and \<open>strings.TrimSpace\<close> are modelled on ASCII text; on other
  text they are the two fields of the parameter \<open>unicode\<close>, about which nothing is assumed.
\<close>

section \<open>Regular expressions\<close>

datatype rx = Zero | One | Cls "(char \<times> char) list" | Alt rx rx | Seq rx rx | Star rx

definition in_cls :: "(char \<times> char) list \<Rightarrow> char \<Rightarrow> bool" where
  "in_cls rs c \<longleftrightarrow> list_ex (\<lambda>(a, b). a \<le> c \<and> c \<le> b) rs"

fun nullable :: "rx \<Rightarrow> bool" where
  "nullable Zero = False"
| "nullable One = True"
| "nullable (Cls rs) = False"
| "nullable (Alt r s) = (nullable r \<or> nullable s)"
| "nullable (Seq r s) = (nullable r \<and> nullable s)"
| "nullable (Star r) = True"

fun deriv :: "char \<Rightarrow> rx \<Rightarrow> rx" where
  "deriv c Zero = Zero"
| "deriv c One = Zero"
| "deriv c (Cls rs) = (if in_cls rs c then One else Zero)"
| "deriv c (Alt r s) = Alt (deriv c r) (deriv c s)"
| "deriv c (Seq r s) =
     (if nullable r then Alt (Seq (deriv c r) s) (deriv c s) else Seq (deriv c r) s)"
| "deriv c (Star r) = Seq (deriv c r) (Star r)"

text \<open>\<open>MatchString\<close> of an expression anchored at both ends.\<close>

definition rx_match :: "rx \<Rightarrow> string \<Rightarrow> bool" where
  "rx_match r s \<longleftrightarrow> nullable (fold deriv s r)"

inductive_set star_lang :: "string set \<Rightarrow> string set" for A where
  star_Nil: "[] \<in> star_lang A"
| star_app: "u \<in> A \<Longrightarrow> v \<in> star_lang A \<Longrightarrow> u @ v \<in> star_lang A"

fun lang :: "rx \<Rightarrow> string set" where
  "lang Zero = {}"
| "lang One = {[]}"
| "lang (Cls rs) = {[c] |c. in_cls rs c}"
| "lang (Alt r s) = lang r \<union> lang s"
| "lang (Seq r s) = {u @ v |u v. u \<in> lang r \<and> v \<in> lang s}"
| "lang (Star r) = star_lang (lang r)"

lemma nullable_iff: "nullable r \<longleftrightarrow> [] \<in> lang r"
  by (induction r) (auto intro: star_Nil)

lemma star_Cons_iff: "c # w \<in> star_lang A \<longleftrightarrow> (\<exists>u v. w = u @ v \<and> c # u \<in> A \<and> v \<in> star_lang A)"
proof
  assume "c # w \<in> star_lang A"
  then show "\<exists>u v. w = u @ v \<and> c # u \<in> A \<and> v \<in> star_lang A"
    by (induction "c # w") (auto simp: append_eq_Cons_conv)
next
  assume "\<exists>u v. w = u @ v \<and> c # u \<in> A \<and> v \<in> star_lang A"
  then show "c # w \<in> star_lang A"
    using star_app [of "c # _"] by auto
qed

lemma lang_deriv: "w \<in> lang (deriv c r) \<longleftrightarrow> c # w \<in> lang r"
proof (induction r arbitrary: w)
  case (Seq r s)
  have "c # w \<in> lang (Seq r s) \<longleftrightarrow>
      (\<exists>u v. w = u @ v \<and> c # u \<in> lang r \<and> v \<in> lang s) \<or> ([] \<in> lang r \<and> c # w \<in> lang s)"
    by (auto simp: Cons_eq_append_conv)
  then show ?case
    by (auto simp: nullable_iff Seq.IH)
qed (auto simp: star_Cons_iff)

lemma rx_match_iff: "rx_match r s \<longleftrightarrow> s \<in> lang r"
  unfolding rx_match_def
  by (induction s arbitrary: r) (auto simp: nullable_iff lang_deriv)

fun rx_char :: "rx \<Rightarrow> char \<Rightarrow> bool" where
  "rx_char (Cls rs) c = in_cls rs c"
| "rx_char (Alt r s) c = (rx_char r c \<or> rx_char s c)"
| "rx_char (Seq r s) c = (rx_char r c \<or> rx_char s c)"
| "rx_char (Star r) c = rx_char r c"
| "rx_char _ c = False"

lemma star_chars: "w \<in> star_lang A \<Longrightarrow> (\<And>u. u \<in> A \<Longrightarrow> \<forall>c\<in>set u. P c) \<Longrightarrow> \<forall>c\<in>set w. P c"
  by (induction rule: star_lang.induct) auto

lemma lang_chars: "w \<in> lang r \<Longrightarrow> \<forall>c\<in>set w. rx_char r c"
proof (induction r arbitrary: w)
  case (Star r)
  then show ?case by (auto dest: star_chars [where P = "rx_char r"])
qed auto

definition Opt :: "rx \<Rightarrow> rx" where "Opt r = Alt One r"

primrec upto_times :: "nat \<Rightarrow> rx \<Rightarrow> rx" where
  "upto_times 0 r = One"
| "upto_times (Suc n) r = Opt (Seq r (upto_times n r))"

lemma lang_Seq_Cls:
  "w \<in> lang (Seq (Cls rs) r) \<longleftrightarrow> (\<exists>c v. w = c # v \<and> in_cls rs c \<and> v \<in> lang r)"
proof
  assume "\<exists>c v. w = c # v \<and> in_cls rs c \<and> v \<in> lang r"
  then obtain c v where "w = [c] @ v" "in_cls rs c" "v \<in> lang r" by auto
  moreover from this have "[c] \<in> lang (Cls rs)" by simp
  ultimately show "w \<in> lang (Seq (Cls rs) r)"
    unfolding lang.simps(5) by blast
qed auto

lemma lang_upto_times_Cls:
  "w \<in> lang (upto_times n (Cls rs)) \<longleftrightarrow> length w \<le> n \<and> (\<forall>c\<in>set w. in_cls rs c)"
proof (induction n arbitrary: w)
  case (Suc n)
  have "w \<in> lang (upto_times (Suc n) (Cls rs)) \<longleftrightarrow>
      w = [] \<or> (\<exists>c v. w = c # v \<and> in_cls rs c \<and> v \<in> lang (upto_times n (Cls rs)))"
    by (simp add: Opt_def lang_Seq_Cls del: lang.simps(5))
  then show ?case
    by (cases w) (auto simp: Suc.IH)
qed auto

section \<open>Standard library text functions\<close>

record unicode =
  uLower :: "string \<Rightarrow> string"
  uTrim :: "string \<Rightarrow> string"

definition is_ascii :: "string \<Rightarrow> bool" where
  "is_ascii s \<longleftrightarrow> (\<forall>c\<in>set s. of_char c < (128::nat))"

definition lower :: "char \<Rightarrow> char" where
  "lower c = (if CHR ''A'' \<le> c \<and> c \<le> CHR ''Z'' then char_of (of_char c + (32::nat)) else c)"

definition is_space :: "char \<Rightarrow> bool" where
  "is_space c \<longleftrightarrow> c = CHR '' '' \<or> (9 \<le> (of_char c :: nat) \<and> (of_char c :: nat) \<le> 13)"

definition ToLower :: "unicode \<Rightarrow> string \<Rightarrow> string" where
  "ToLower U s = (if is_ascii s then map lower s else uLower U s)"

definition trim :: "string \<Rightarrow> string" where
  "trim s = rev (dropWhile is_space (rev (dropWhile is_space s)))"

definition TrimSpace :: "unicode \<Rightarrow> string \<Rightarrow> string" where
  "TrimSpace U s = (if is_ascii s then trim s else uTrim U s)"

text \<open>\<open>SplitN(s, sep, 2)\<close> for a one-byte separator: one part, or two.\<close>

definition split2 :: "char \<Rightarrow> string \<Rightarrow> string \<times> string option" where
  "split2 c s = (takeWhile (\<lambda>x. x \<noteq> c) s,
     case dropWhile (\<lambda>x. x \<noteq> c) s of [] \<Rightarrow> None | _ # r \<Rightarrow> Some r)"

section \<open>Handles\<close>

record handle =
  Name :: string
  Domain :: string

definition lowers :: "(char \<times> char) list" where
  "lowers = [(CHR ''a'', CHR ''z'')]"

definition alnum :: "(char \<times> char) list" where
  "alnum = [(CHR ''a'', CHR ''z''), (CHR ''0'', CHR ''9'')]"

definition nameRe :: rx where
  "nameRe = Seq (Cls lowers)
     (upto_times 62 (Cls (alnum @ [(CHR ''_'', CHR ''_''), (CHR ''-'', CHR ''-'')])))"

definition domain_label :: rx where
  "domain_label = Seq (Cls alnum) (Opt (Seq (Star (Cls (alnum @ [(CHR ''-'', CHR ''-'')]))) (Cls alnum)))"

definition domainRe :: rx where
  "domainRe = (let dotted = Seq (Cls [(CHR ''.'', CHR ''.'')]) domain_label
     in Seq domain_label (Seq dotted (Star dotted)))"

definition Parse :: "unicode \<Rightarrow> string \<Rightarrow> handle result" where
  "Parse U s =
     (let s = TrimSpace U (ToLower U s)
      in if s = [] then Inl EmptyHandle
         else case split2 (CHR ''@'') s of (name, rest) \<Rightarrow>
           if \<not> rx_match nameRe name then Inl (InvalidHandleName name)
           else case rest of
             None \<Rightarrow> Inr \<lparr>Name = name, Domain = []\<rparr>
           | Some domain \<Rightarrow>
               if \<not> rx_match domainRe domain then Inl (InvalidDomain domain)
               else Inr \<lparr>Name = name, Domain = domain\<rparr>)"

definition handle_String :: "handle \<Rightarrow> string" where
  "handle_String h = (if Domain h = [] then Name h else Name h @ ''@'' @ Domain h)"

definition IsLocal :: "handle \<Rightarrow> bool" where
  "IsLocal h \<longleftrightarrow> Domain h = []"

definition Validate :: "unicode \<Rightarrow> string \<Rightarrow> go_err option" where
  "Validate U s = (case Parse U s of Inl e \<Rightarrow> Some e | Inr _ \<Rightarrow> None)"

section \<open>Well-formed handles and the parser\<close>

definition valid_name :: "string \<Rightarrow> bool" where
  "valid_name s \<longleftrightarrow> s \<noteq> [] \<and> length s \<le> 63 \<and> in_cls lowers (hd s) \<and>
     (\<forall>c\<in>set (tl s). in_cls (alnum @ [(CHR ''_'', CHR ''_''), (CHR ''-'', CHR ''-'')]) c)"

definition valid_handle :: "handle \<Rightarrow> bool" where
  "valid_handle h \<longleftrightarrow> valid_name (Name h) \<and> (Domain h = [] \<or> rx_match domainRe (Domain h))"

lemma nameRe_iff: "rx_match nameRe s \<longleftrightarrow> valid_name s"
proof -
  have "rx_match nameRe s \<longleftrightarrow> (\<exists>c w. s = c # w \<and> in_cls lowers c \<and> length w \<le> 62 \<and>
      (\<forall>c\<in>set w. in_cls (alnum @ [(CHR ''_'', CHR ''_''), (CHR ''-'', CHR ''-'')]) c))"
    unfolding rx_match_iff nameRe_def lang_Seq_Cls lang_upto_times_Cls ..
  then show ?thesis
    unfolding valid_name_def by (cases s) auto
qed

text \<open>The characters a handle is made of are lower-case ASCII and none of them is a space.\<close>

definition plain :: "char \<Rightarrow> bool" where
  "plain c \<longleftrightarrow> in_cls (alnum @ [(CHR ''_'', CHR ''_''), (CHR ''-'', CHR ''.''), (CHR ''@'', CHR ''@'')]) c"

lemma plain_range: "plain c \<Longrightarrow> of_char c < (128::nat) \<and> lower c = c \<and> \<not> is_space c"
  by (auto simp: plain_def in_cls_def alnum_def lower_def is_space_def less_eq_char_def)

lemma plain_fixed: "\<forall>c\<in>set s. plain c \<Longrightarrow> TrimSpace U (ToLower U s) = s"
proof -
  assume p: "\<forall>c\<in>set s. plain c"
  then have "is_ascii s" and "map lower s = s"
    using plain_range by (auto simp: is_ascii_def intro: map_idI)
  moreover have "dropWhile is_space t = t" if "set t \<subseteq> set s" for t
    using that p plain_range by (cases t) auto
  ultimately show ?thesis
    by (simp add: ToLower_def TrimSpace_def trim_def)
qed

lemma valid_name_plain: "valid_name s \<Longrightarrow> c \<in> set s \<Longrightarrow> plain c \<and> c \<noteq> CHR ''@''"
  by (cases s) (auto simp: valid_name_def plain_def in_cls_def alnum_def lowers_def less_eq_char_def)

lemma domain_plain:
  assumes "rx_match domainRe s"
  shows "s \<noteq> [] \<and> (\<forall>c\<in>set s. plain c)"
proof -
  have s: "s \<in> lang domainRe"
    using assms by (simp add: rx_match_iff)
  then have "s \<noteq> []"
    by (auto simp: domainRe_def domain_label_def Let_def)
  moreover have "\<forall>c\<in>set s. plain c"
    using lang_chars [OF s]
    by (auto simp: domainRe_def domain_label_def Opt_def Let_def plain_def in_cls_def alnum_def less_eq_char_def)
  ultimately show ?thesis by simp
qed

lemma Parse_valid: "Parse U s = Inr h \<Longrightarrow> valid_handle h"
  by (auto simp: Parse_def Let_def valid_handle_def nameRe_iff split: if_splits prod.splits option.splits)

lemma split2_app:
  "c \<notin> set a \<Longrightarrow> split2 c (a @ c # b) = (a, Some b)"
  "c \<notin> set a \<Longrightarrow> split2 c a = (a, None)"
proof -
  assume c: "c \<notin> set a"
  have "takeWhile (\<lambda>x. x \<noteq> c) (a @ c # b) = a"
    using c by (subst takeWhile_append2) auto
  moreover have "dropWhile (\<lambda>x. x \<noteq> c) (a @ c # b) = c # b"
    using c by (subst dropWhile_append2) auto
  ultimately show "split2 c (a @ c # b) = (a, Some b)"
    by (simp add: split2_def)
  show "split2 c a = (a, None)"
  proof -
    have "dropWhile (\<lambda>x. x \<noteq> c) a = []" "takeWhile (\<lambda>x. x \<noteq> c) a = a"
      using c by auto
    then show ?thesis by (simp only: split2_def list.case)
  qed
qed

lemma Parse_String_valid:
  assumes "valid_handle h"
  shows "Parse U (handle_String h) = Inr h"
proof -
  have n: "valid_name (Name h)" and at: "CHR ''@'' \<notin> set (Name h)"
    and np: "\<forall>c\<in>set (Name h). plain c" "Name h \<noteq> []"
    using assms valid_name_plain by (auto simp: valid_handle_def valid_name_def)
  have "\<forall>c\<in>set (handle_String h). plain c"
    using np assms domain_plain [of "Domain h"]
    by (auto simp: handle_String_def valid_handle_def plain_def in_cls_def)
  then have trim: "TrimSpace U (ToLower U (handle_String h)) = handle_String h"
    by (rule plain_fixed)
  show ?thesis
  proof (cases "Domain h = []")
    case True
    then show ?thesis
      using trim n np at split2_app(2) [OF at]
      by (simp add: Parse_def handle_String_def nameRe_iff)
  next
    case False
    then show ?thesis
      using trim n np assms split2_app(1) [OF at, of "Domain h"]
      by (simp add: Parse_def handle_String_def nameRe_iff valid_handle_def)
  qed
qed

text \<open>
  C38. Whatever \<open>Parse\<close> accepts is a well-formed handle (a lower-case name of 1 to 63 characters
  and an empty or well-formed domain), and printing it and parsing the text again gives the same
  handle: \<open>Parse\<close> maps every spelling to one canonical text.
\<close>

theorem Parse_canonical:
  assumes "Parse U s = Inr h"
  shows "valid_handle h \<and> Parse U (handle_String h) = Inr h"
  using Parse_valid [OF assms] Parse_String_valid by blast

theorem Parse_canonical_witness:
  "valid_handle \<lparr>Name = ''ops-1'', Domain = ''acme.io''\<rparr> \<and>
   Parse \<lparr>uLower = id, uTrim = id\<rparr> (handle_String \<lparr>Name = ''ops-1'', Domain = ''acme.io''\<rparr>)
     = Inr \<lparr>Name = ''ops-1'', Domain = ''acme.io''\<rparr>"
proof -
  have "Parse \<lparr>uLower = id, uTrim = id\<rparr> '' Ops-1@ACME.io '' = Inr \<lparr>Name = ''ops-1'', Domain = ''acme.io''\<rparr>"
    by code_simp
  then show ?thesis by (rule Parse_canonical)
qed

end
