(* ===== verification/Resolver.thy ===== *)
theory Resolver
  imports Messages
begin

text \<open>
  The cached peer map of a daemon and structured discovery (\<open>internal/handle/resolver.go\<close>).
  \<open>FindMatches\<close> ranks the manifests of a Go map, whose iteration order is open: the ranking is
  proved to depend on the contents of the map alone and to list exactly the handles that satisfy
  the query.
\<close>

section \<open>Data\<close>

record command_spec =
  cmdName :: string
  cmdDescription :: string
  cmdParametersSchema :: string

record service_manifest =
  mDescription :: string
  mCommands :: "command_spec list"
  mTags :: "string list"
  mVersion :: string
  mCapabilities :: "string list"
  mDomains :: "string list"
  mInputTypes :: "string list"
  mOutputTypes :: "string list"

definition no_manifest :: service_manifest where
  "no_manifest = \<lparr>mDescription = [], mCommands = [], mTags = [], mVersion = [],
     mCapabilities = [], mDomains = [], mInputTypes = [], mOutputTypes = []\<rparr>"

record peer_info =
  pNodeID :: string
  pPublicKey :: bytes
  pAdvertiseAddr :: string
  pManifest :: service_manifest

record relay_info =
  rNodeID :: string
  rPublicKey :: bytes
  rAddr :: string

record node_info =
  nNodeID :: string
  nAdvertiseAddr :: string
  nPublicKey :: bytes

record cached_room =
  cRoomID :: string
  cTitle :: string
  cCreatedBy :: string
  cHomeNodeID :: string
  cMembers :: "string list"
  cStatus :: string
  cNextSeq :: "64 word"
  cCreatedAt :: int
  cUpdatedAt :: int

record find_query =
  qCapabilities :: "string list"
  qDomains :: "string list"
  qTags :: "string list"
  qCommandName :: string
  qVersion :: string
  qLimit :: int

record handle_match =
  hmHandle :: string
  hmManifest :: service_manifest
  hmScore :: int
  hmReasons :: "string list"

record resolver =
  handleTo :: "(string, peer_info) gomap"
  nodes :: "node_info list"
  relays :: "relay_info list"
  rooms :: "(string, cached_room) gomap"

section \<open>The cache\<close>

definition NewResolver :: resolver where
  "NewResolver = \<lparr>handleTo = [], nodes = [], relays = [], rooms = []\<rparr>"

definition UpdatePeerMap :: "(string, peer_info) gomap \<Rightarrow> resolver \<Rightarrow> resolver" where
  "UpdatePeerMap entries r = r\<lparr>handleTo := entries\<rparr>"

definition UpdateNodes :: "node_info list \<Rightarrow> resolver \<Rightarrow> resolver" where
  "UpdateNodes ns r = r\<lparr>nodes := ns\<rparr>"

definition GetNodes :: "resolver \<Rightarrow> node_info list" where
  "GetNodes r = nodes r"

definition GetPeerMap :: "resolver \<Rightarrow> (string, peer_info) gomap" where
  "GetPeerMap r = handleTo r"

definition UpdateRelays :: "relay_info list \<Rightarrow> resolver \<Rightarrow> resolver" where
  "UpdateRelays rs r = r\<lparr>relays := rs\<rparr>"

definition GetRelays :: "resolver \<Rightarrow> relay_info list" where
  "GetRelays r = relays r"

definition UpdateRooms :: "(string, cached_room) gomap \<Rightarrow> resolver \<Rightarrow> resolver" where
  "UpdateRooms rs r = r\<lparr>rooms := rs\<rparr>"

definition ResolveRoom :: "resolver \<Rightarrow> string \<Rightarrow> cached_room result" where
  "ResolveRoom r i = (case gget (rooms r) i of None \<Rightarrow> Inl (RoomNotInPeerMap i) | Some x \<Rightarrow> Inr x)"

definition ListRoomsForMember :: "resolver \<Rightarrow> string \<Rightarrow> cached_room list" where
  "ListRoomsForMember r h = filter (\<lambda>x. list_ex (\<lambda>m. m = h) (cMembers x)) (gvals (rooms r))"

definition Resolve :: "resolver \<Rightarrow> string \<Rightarrow> peer_info result" where
  "Resolve r h = (case gget (handleTo r) h of None \<Rightarrow> Inl (HandleNotInPeerMap h) | Some x \<Rightarrow> Inr x)"

definition GetManifest :: "resolver \<Rightarrow> string \<Rightarrow> service_manifest option" where
  "GetManifest r h = map_option pManifest (gget (handleTo r) h)"

section \<open>Matching\<close>

text \<open>\<open>containsAll\<close> builds a set from the values, then checks the required ones in order.\<close>

definition containsAll :: "string list \<Rightarrow> string list \<Rightarrow> bool" where
  "containsAll values required =
     (if required = [] then True
      else let valueSet = fold (\<lambda>v. gput v True) values []
           in list_all (\<lambda>n. gget_or False valueSet n) required)"

definition matchesTags :: "string list \<Rightarrow> string list \<Rightarrow> bool" where
  "matchesTags handleTags required = containsAll handleTags required"

fun hasCommand :: "command_spec list \<Rightarrow> string \<Rightarrow> bool" where
  "hasCommand [] name = False"
| "hasCommand (c # cs) name = (if cmdName c = name then True else hasCommand cs name)"

definition ListHandlesByTags :: "resolver \<Rightarrow> string list \<Rightarrow> (string, service_manifest) gomap" where
  "ListHandlesByTags r tags =
     fold (\<lambda>(h, info) res. if matchesTags (mTags (pManifest info)) tags
                           then gput h (pManifest info) res else res) (handleTo r) []"

definition add_reasons :: "int \<Rightarrow> string \<Rightarrow> string list \<Rightarrow> handle_match \<Rightarrow> handle_match" where
  "add_reasons points label xs m =
     fold (\<lambda>x m. m\<lparr>hmScore := hmScore m + points, hmReasons := hmReasons m @ [label @ x]\<rparr>) xs m"

definition evaluateMatch :: "string \<Rightarrow> service_manifest \<Rightarrow> find_query \<Rightarrow> handle_match option" where
  "evaluateMatch h manifest q =
     (let m = \<lparr>hmHandle = h, hmManifest = manifest, hmScore = 0, hmReasons = []\<rparr>
      in if \<not> containsAll (mCapabilities manifest) (qCapabilities q) then None
      else let m = add_reasons 100 ''capability:'' (qCapabilities q) m
      in if \<not> containsAll (mDomains manifest) (qDomains q) then None
      else let m = add_reasons 30 ''domain:'' (qDomains q) m
      in if \<not> containsAll (mTags manifest) (qTags q) then None
      else let m = add_reasons 10 ''tag:'' (qTags q) m
      in if qCommandName q \<noteq> [] \<and> \<not> hasCommand (mCommands manifest) (qCommandName q) then None
      else let m = (if qCommandName q \<noteq> [] then add_reasons 20 ''command:'' [qCommandName q] m else m)
      in if qVersion q \<noteq> [] \<and> mVersion manifest \<noteq> qVersion q then None
      else let m = (if qVersion q \<noteq> [] then add_reasons 10 ''version:'' [qVersion q] m else m)
      in Some m)"

definition ranks_before :: "handle_match \<Rightarrow> handle_match \<Rightarrow> bool" where
  "ranks_before a b =
     (if hmScore a \<noteq> hmScore b then hmScore a > hmScore b else hmHandle a < hmHandle b)"

definition all_matches :: "(string, service_manifest) gomap \<Rightarrow> find_query \<Rightarrow> handle_match list" where
  "all_matches entries q = List.map_filter (\<lambda>(h, m). evaluateMatch h m q) entries"

definition FindMatches :: "(string, service_manifest) gomap \<Rightarrow> find_query \<Rightarrow> handle_match list" where
  "FindMatches entries q =
     (let matches = sort_slice ranks_before (all_matches entries q)
      in if qLimit q > 0 \<and> int (length matches) > qLimit q then take (nat (qLimit q)) matches
         else matches)"

definition FindHandles :: "resolver \<Rightarrow> find_query \<Rightarrow> handle_match list" where
  "FindHandles r q = FindMatches (map (\<lambda>(h, info). (h, pManifest info)) (handleTo r)) q"

section \<open>What discovery returns\<close>

lemma containsAll_iff: "containsAll values required \<longleftrightarrow> set required \<subseteq> set values"
proof -
  have "gget (fold (\<lambda>v. gput v True) vs m) k = (if k \<in> set vs then Some True else gget m k)"
    for vs m and k :: string
    by (induction vs arbitrary: m) auto
  then have "gget_or False (fold (\<lambda>v. gput v True) values []) n \<longleftrightarrow> n \<in> set values" for n
    by (simp add: gget_or_def)
  then show ?thesis
    by (auto simp: containsAll_def list_all_iff)
qed

lemma hasCommand_iff: "hasCommand cs name \<longleftrightarrow> (\<exists>c\<in>set cs. cmdName c = name)"
  by (induction cs) auto

text \<open>The meaning of a query, and the score a match is ranked by.\<close>

definition satisfies :: "service_manifest \<Rightarrow> find_query \<Rightarrow> bool" where
  "satisfies m q \<longleftrightarrow>
     set (qCapabilities q) \<subseteq> set (mCapabilities m) \<and> set (qDomains q) \<subseteq> set (mDomains m) \<and>
     set (qTags q) \<subseteq> set (mTags m) \<and>
     (qCommandName q \<noteq> [] \<longrightarrow> (\<exists>c\<in>set (mCommands m). cmdName c = qCommandName q)) \<and>
     (qVersion q \<noteq> [] \<longrightarrow> mVersion m = qVersion q)"

definition query_score :: "find_query \<Rightarrow> int" where
  "query_score q = 100 * int (length (qCapabilities q)) + 30 * int (length (qDomains q)) +
     10 * int (length (qTags q)) + (if qCommandName q \<noteq> [] then 20 else 0) +
     (if qVersion q \<noteq> [] then 10 else 0)"

lemma add_reasons_fields [simp]:
  "hmHandle (add_reasons p l xs m) = hmHandle m" "hmManifest (add_reasons p l xs m) = hmManifest m"
  "hmScore (add_reasons p l xs m) = hmScore m + p * int (length xs)"
  unfolding add_reasons_def by (induction xs arbitrary: m) (auto simp: algebra_simps)

lemma evaluateMatch_Some_iff: "(\<exists>m. evaluateMatch h man q = Some m) \<longleftrightarrow> satisfies man q"
  unfolding evaluateMatch_def satisfies_def Let_def containsAll_iff hasCommand_iff by auto

lemma evaluateMatch_Some:
  "evaluateMatch h man q = Some m \<Longrightarrow> hmHandle m = h \<and> hmManifest m = man \<and> hmScore m = query_score q"
  unfolding evaluateMatch_def Let_def query_score_def by (auto split: if_splits)

lemma set_all_matches: "set (all_matches entries q) =
    {m. \<exists>h man. (h, man) \<in> set entries \<and> evaluateMatch h man q = Some m}"
  unfolding all_matches_def by (force simp: List.map_filter_def)

lemma handles_all_matches:
  "hmHandle ` set (all_matches entries q) = {h. \<exists>man. (h, man) \<in> set entries \<and> satisfies man q}"
proof (intro equalityI subsetI)
  fix h
  assume "h \<in> hmHandle ` set (all_matches entries q)"
  then obtain m man where "(h, man) \<in> set entries" "evaluateMatch h man q = Some m"
    unfolding set_all_matches by (auto dest: evaluateMatch_Some)
  then show "h \<in> {h. \<exists>man. (h, man) \<in> set entries \<and> satisfies man q}"
    using evaluateMatch_Some_iff by blast
next
  fix h
  assume "h \<in> {h. \<exists>man. (h, man) \<in> set entries \<and> satisfies man q}"
  then obtain man m where m: "(h, man) \<in> set entries" "evaluateMatch h man q = Some m"
    using evaluateMatch_Some_iff by blast
  then have "m \<in> set (all_matches entries q)" "hmHandle m = h"
    unfolding set_all_matches by (auto dest: evaluateMatch_Some)
  then show "h \<in> hmHandle ` set (all_matches entries q)" by blast
qed

lemma distinct_all_matches:
  "gwf entries \<Longrightarrow> distinct (map hmHandle (all_matches entries q))"
proof (induction entries)
  case (Cons e es)
  obtain h man where e: "e = (h, man)" by (cases e)
  have "gwf es" and h: "h \<notin> fst ` set es"
    using Cons.prems by (auto simp: gwf_def e)
  have "h \<notin> hmHandle ` set (all_matches es q)"
  proof -
    have "(h, man) \<notin> set es" for man
      using h by (metis fst_conv image_eqI)
    then show ?thesis by (simp add: handles_all_matches)
  qed
  with Cons.IH [OF \<open>gwf es\<close>] show ?case
    by (auto simp: all_matches_def List.map_filter_simps e dest: evaluateMatch_Some split: option.splits)
qed (simp add: all_matches_def List.map_filter_simps)

lemma ranks_before_total:
  assumes "distinct (map hmHandle ms)"
  shows "strict_total ranks_before (set ms)"
proof -
  have "hmHandle x \<noteq> hmHandle y" if "x \<in> set ms" "y \<in> set ms" "x \<noteq> y" for x y
    using assms that by (auto simp: distinct_map inj_on_def)
  then show ?thesis
    unfolding strict_total_def ranks_before_def by (auto split: if_splits dest: neq_iff [THEN iffD1])
qed

lemma ranking:
  assumes "gwf entries"
  shows "sorted_wrt ranks_before (sort_slice ranks_before (all_matches entries q))"
  using distinct_all_matches [OF assms] by (intro sorted_sort_slice ranks_before_total) (auto simp: distinct_map)

definition no_limit :: "find_query \<Rightarrow> find_query" where
  "no_limit q = q\<lparr>qLimit := 0\<rparr>"

lemma qLimit_no_limit [simp]: "qLimit (no_limit q) = 0"
  by (simp add: no_limit_def)

lemma evaluateMatch_no_limit [simp]: "evaluateMatch h m (no_limit q) = evaluateMatch h m q"
  by (simp add: no_limit_def evaluateMatch_def Let_def)

lemma FindMatches_take:
  "FindMatches entries q = (if qLimit q > 0 then take (nat (qLimit q)) (FindMatches entries (no_limit q))
                            else FindMatches entries (no_limit q))"
proof -
  have "all_matches entries (no_limit q) = all_matches entries q"
    by (simp add: all_matches_def)
  then show ?thesis
    by (simp add: FindMatches_def Let_def)
qed

text \<open>
  Structured discovery is exact and deterministic: without a limit \<open>FindMatches\<close> lists
  each handle of the peer map that satisfies the query once and no other, in the ranking order
  (higher score first, then handle name); a positive limit keeps the best-ranked prefix; and the
  result is the same for every order in which Go may iterate over the map.
\<close>

theorem FindMatches_spec:
  assumes "gwf entries"
  shows "set (map hmHandle (FindMatches entries (no_limit q))) = {h. \<exists>man. gget entries h = Some man \<and> satisfies man q}
    \<and> distinct (map hmHandle (FindMatches entries (no_limit q)))
    \<and> sorted_wrt ranks_before (FindMatches entries q)
    \<and> FindMatches entries q =
        (if qLimit q > 0 then take (nat (qLimit q)) (FindMatches entries (no_limit q))
         else FindMatches entries (no_limit q))
    \<and> (\<forall>order. mset order = mset entries \<longrightarrow> FindMatches order q = FindMatches entries q)"
proof (intro conjI allI impI)
  let ?all = "all_matches entries q"
  have nl: "FindMatches entries (no_limit q) = sort_slice ranks_before ?all"
    by (simp add: FindMatches_def all_matches_def Let_def)
  show "set (map hmHandle (FindMatches entries (no_limit q))) =
      {h. \<exists>man. gget entries h = Some man \<and> satisfies man q}"
    by (simp add: nl handles_all_matches gget_eq_Some_iff [OF assms])
  show "distinct (map hmHandle (FindMatches entries (no_limit q)))"
    using distinct_all_matches [OF assms, of q]
    by (simp add: nl flip: distinct_sort_slice) (metis mset_eq_imp_distinct_iff mset_map mset_sort_slice)
  have "sorted_wrt ranks_before (FindMatches entries (no_limit q))"
    unfolding nl by (rule ranking [OF assms])
  then show "sorted_wrt ranks_before (FindMatches entries q)"
    by (subst FindMatches_take) (simp add: sorted_wrt_take)
  show "FindMatches entries q =
      (if qLimit q > 0 then take (nat (qLimit q)) (FindMatches entries (no_limit q))
       else FindMatches entries (no_limit q))"
    by (rule FindMatches_take)
  fix order
  assume "mset order = mset entries"
  then have "mset (all_matches order q) = mset ?all"
    by (simp add: all_matches_def List.map_filter_def mset_filter mset_map [symmetric] del: mset_map)
       (metis (no_types, lifting) mset_filter mset_map)
  then have "sort_slice ranks_before (all_matches order q) = sort_slice ranks_before ?all"
    using distinct_all_matches [OF assms, of q]
    by (intro sort_slice_unique [symmetric] ranks_before_total) (auto simp: distinct_map)
  then show "FindMatches order q = FindMatches entries q"
    by (simp add: FindMatches_def)
qed

theorem FindMatches_spec_witness:
  "let q = \<lparr>qCapabilities = [], qDomains = [], qTags = [''t''], qCommandName = [], qVersion = [], qLimit = 1\<rparr>;
       es = [(''b'', no_manifest\<lparr>mTags := [''t'']\<rparr>), (''a'', no_manifest\<lparr>mTags := [''t'']\<rparr>), (''c'', no_manifest)]
   in map hmHandle (FindMatches (rev es) q) = [''a''] \<and> distinct (map hmHandle (FindMatches es (no_limit q)))"
proof -
  define q where "q = \<lparr>qCapabilities = [], qDomains = [], qTags = [''t''], qCommandName = [], qVersion = [], qLimit = 1\<rparr>"
  define es where "es = [(''b'', no_manifest\<lparr>mTags := [''t'']\<rparr>), (''a'', no_manifest\<lparr>mTags := [''t'']\<rparr>), (''c'', no_manifest)]"
  have wf: "gwf es"
    by (simp add: es_def gwf_def)
  note spec = FindMatches_spec [OF wf, of q]
  have "FindMatches (rev es) q = FindMatches es q"
    using spec by simp
  also have "map hmHandle \<dots> = [''a'']"
    unfolding es_def q_def by code_simp
  finally show ?thesis
    using spec unfolding Let_def q_def [symmetric] es_def [symmetric] by simp
qed

end
