(* ===== verification/Transport.thy ===== *)
theory Transport
  imports Resolver
begin

text \<open>
  Peer-to-peer transport of a daemon (\<open>internal/transport\<close>): verification of peer keys against
  the peer map, lazily opened connections, and the fallback from a direct stream to a relay. gRPC and
  TLS are parameters (record \<open>net\<close>): dialling an address gives the certificates the other side
  presents, sending on a stream succeeds or fails, and \<open>nOthers\<close> is what other goroutines do
  to a connection table while its lock is released. The resolver is shared with the daemon and
  passed in. \<open>accepted\<close> records what a stream took,
  \<open>notified\<close> the calls of the \<open>OnSend\<close> callback.
\<close>

section \<open>Verifying peers\<close>

fun check_peers :: "string \<Rightarrow> bytes \<Rightarrow> peer_info list \<Rightarrow> go_err option option" where
  "check_peers addr pubKey [] = None"
| "check_peers addr pubKey (info # infos) =
     (if pAdvertiseAddr info = addr
      then Some (if pPublicKey info = pubKey then None else Some (KeyMismatch addr))
      else check_peers addr pubKey infos)"

fun check_relays :: "string \<Rightarrow> bytes \<Rightarrow> relay_info list \<Rightarrow> go_err option option" where
  "check_relays addr pubKey [] = None"
| "check_relays addr pubKey (relay # rs) =
     (if rAddr relay = addr
      then Some (if rPublicKey relay = pubKey then None else Some (KeyMismatch addr))
      else check_relays addr pubKey rs)"

definition VerifyPeerKey :: "resolver \<Rightarrow> string \<Rightarrow> bytes \<Rightarrow> go_err option" where
  "VerifyPeerKey r addr pubKey =
     (let peerMap = GetPeerMap r in
      if addr \<noteq> []
      then case check_peers addr pubKey (gvals peerMap) of
             Some res \<Rightarrow> res
           | None \<Rightarrow> (case check_relays addr pubKey (GetRelays r) of
                        Some res \<Rightarrow> res
                      | None \<Rightarrow> Some (PeerNotInPeerMap addr))
      else if list_ex (\<lambda>info. pPublicKey info = pubKey) (gvals peerMap) then None
      else if list_ex (\<lambda>relay. rPublicKey relay = pubKey) (GetRelays r) then None
      else Some UnknownPeerKey)"

text \<open>One address, one key: all handles of a node carry the same key.\<close>

definition one_key_per_addr :: "resolver \<Rightarrow> bool" where
  "one_key_per_addr r \<longleftrightarrow>
     (\<forall>i\<in>set (gvals (handleTo r)). \<forall>j\<in>set (gvals (handleTo r)).
        pAdvertiseAddr i = pAdvertiseAddr j \<longrightarrow> pPublicKey i = pPublicKey j) \<and>
     (\<forall>i\<in>set (relays r). \<forall>j\<in>set (relays r). rAddr i = rAddr j \<longrightarrow> rPublicKey i = rPublicKey j)"

lemma check_peers_ok:
  assumes "\<forall>i\<in>set infos. \<forall>j\<in>set infos. pAdvertiseAddr i = pAdvertiseAddr j \<longrightarrow> pPublicKey i = pPublicKey j"
  shows "check_peers addr k infos =
    (if \<exists>i\<in>set infos. pAdvertiseAddr i = addr
     then Some (if \<exists>i\<in>set infos. pAdvertiseAddr i = addr \<and> pPublicKey i = k then None else Some (KeyMismatch addr))
     else None)"
  using assms
proof (induction infos)
  case (Cons x xs)
  have IH: "check_peers addr k xs =
    (if \<exists>i\<in>set xs. pAdvertiseAddr i = addr
     then Some (if \<exists>i\<in>set xs. pAdvertiseAddr i = addr \<and> pPublicKey i = k then None else Some (KeyMismatch addr))
     else None)"
    by (rule Cons.IH) (meson Cons.prems list.set_intros(2))
  show ?case
  proof (cases "pAdvertiseAddr x = addr")
    case True
    then have "(\<exists>i\<in>set (x # xs). pAdvertiseAddr i = addr \<and> pPublicKey i = k) \<longleftrightarrow> pPublicKey x = k"
      using Cons.prems by (metis list.set_intros(1))
    then show ?thesis using True by simp
  next
    case False
    then show ?thesis using IH by simp
  qed
qed simp

lemma check_relays_ok:
  assumes "\<forall>i\<in>set rs. \<forall>j\<in>set rs. rAddr i = rAddr j \<longrightarrow> rPublicKey i = rPublicKey j"
  shows "check_relays addr k rs =
    (if \<exists>i\<in>set rs. rAddr i = addr
     then Some (if \<exists>i\<in>set rs. rAddr i = addr \<and> rPublicKey i = k then None else Some (KeyMismatch addr))
     else None)"
  using assms
proof (induction rs)
  case (Cons x xs)
  have IH: "check_relays addr k xs =
    (if \<exists>i\<in>set xs. rAddr i = addr
     then Some (if \<exists>i\<in>set xs. rAddr i = addr \<and> rPublicKey i = k then None else Some (KeyMismatch addr))
     else None)"
    by (rule Cons.IH) (meson Cons.prems list.set_intros(2))
  show ?case
  proof (cases "rAddr x = addr")
    case True
    then have "(\<exists>i\<in>set (x # xs). rAddr i = addr \<and> rPublicKey i = k) \<longleftrightarrow> rPublicKey x = k"
      using Cons.prems by (metis list.set_intros(1))
    then show ?thesis using True by simp
  next
    case False
    then show ?thesis using IH by simp
  qed
qed simp

text \<open>
  A peer is accepted exactly when its key is the known one: for an outgoing connection the key
  the peer map has for the address, or the relay list when no peer has it; for an incoming one any
  key of a peer or relay. The verdict does not depend on the iteration order of the peer map.
\<close>

theorem VerifyPeerKey_exact:
  assumes "one_key_per_addr r"
  shows "VerifyPeerKey r addr k = None \<longleftrightarrow>
    (if addr = [] then (\<exists>i\<in>set (gvals (handleTo r)). pPublicKey i = k) \<or> (\<exists>y\<in>set (relays r). rPublicKey y = k)
     else if \<exists>i\<in>set (gvals (handleTo r)). pAdvertiseAddr i = addr
     then \<exists>i\<in>set (gvals (handleTo r)). pAdvertiseAddr i = addr \<and> pPublicKey i = k
     else \<exists>y\<in>set (relays r). rAddr y = addr \<and> rPublicKey y = k)"
proof -
  note p = check_peers_ok [OF assms [unfolded one_key_per_addr_def, THEN conjunct1], of addr k]
    and y = check_relays_ok [OF assms [unfolded one_key_per_addr_def, THEN conjunct2], of addr k]
  show ?thesis
    unfolding VerifyPeerKey_def GetPeerMap_def GetRelays_def Let_def list_ex_iff p y by simp
qed

definition sample_resolver :: resolver where
  "sample_resolver = \<lparr>handleTo = [(''bob'', \<lparr>pNodeID = ''n2'', pPublicKey = ''kB'', pAdvertiseAddr = ''b:1'',
       pManifest = no_manifest\<rparr>)],
     nodes = [], relays = [\<lparr>rNodeID = ''r'', rPublicKey = ''kR'', rAddr = ''r:1''\<rparr>], rooms = []\<rparr>"

lemma one_key_sample: "one_key_per_addr sample_resolver"
  by (simp add: one_key_per_addr_def sample_resolver_def)

theorem VerifyPeerKey_exact_witness:
  "VerifyPeerKey sample_resolver ''b:1'' ''kB'' = None \<and> VerifyPeerKey sample_resolver ''b:1'' ''kR'' \<noteq> None \<and>
   VerifyPeerKey sample_resolver ''r:1'' ''kR'' = None \<and> VerifyPeerKey sample_resolver [] ''kX'' \<noteq> None"
  using VerifyPeerKey_exact [OF one_key_sample] by (simp add: sample_resolver_def)

section \<open>Connections\<close>

record peer_conn =
  pcId :: nat
  pcAddr :: string
  pcKey :: "bytes option"

record 'w net =
  nDial :: "string \<Rightarrow> 'w \<Rightarrow> (go_err + nat \<times> bytes list) \<times> 'w"
  nPubKeyFromCert :: "bytes \<Rightarrow> bytes option"
  nSend :: "peer_conn \<Rightarrow> transport_message \<Rightarrow> 'w \<Rightarrow> go_err option \<times> 'w"
  nClose :: "peer_conn \<Rightarrow> 'w \<Rightarrow> 'w"
  nCtxErr :: "'w \<Rightarrow> go_err option"
  nOthers :: "(string, peer_conn) gomap \<Rightarrow> (string, peer_conn) gomap"

record 'w grpc_transport =
  tlsCert :: bool
  verifierSet :: bool
  resolverSet :: bool
  peers :: "(string, peer_conn) gomap"
  relayConns :: "(string, peer_conn) gomap"
  directFails :: "(string, time) gomap"
  localPubKey :: bytes
  world :: 'w
  accepted :: "(peer_conn \<times> transport_message) list"
  notified :: "transport_message list"

definition NewGRPCTransport :: "bool \<Rightarrow> bool \<Rightarrow> 'w \<Rightarrow> 'w grpc_transport" where
  "NewGRPCTransport cert verifier w = \<lparr>tlsCert = cert, verifierSet = verifier, resolverSet = False, peers = [],
     relayConns = [], directFails = [], localPubKey = [], world = w, accepted = [], notified = []\<rparr>"

definition SetResolver :: "'w grpc_transport \<Rightarrow> 'w grpc_transport" where
  "SetResolver t = t\<lparr>resolverSet := True\<rparr>"

definition SetLocalPubKey :: "bytes \<Rightarrow> 'w grpc_transport \<Rightarrow> 'w grpc_transport" where
  "SetLocalPubKey key t = t\<lparr>localPubKey := key\<rparr>"

definition directFailTTL :: int where
  "directFailTTL = 60 * second"

text \<open>The \<open>VerifyPeerCertificate\<close> callback: the key of the first certificate, checked for the address.\<close>

definition verify_certs :: "'w net \<Rightarrow> resolver \<Rightarrow> 'w grpc_transport \<Rightarrow> string \<Rightarrow> bytes list \<Rightarrow> bytes option result" where
  "verify_certs n r t addr rawCerts =
     (if \<not> tlsCert t \<or> \<not> verifierSet t then Inr None
      else case rawCerts of
             [] \<Rightarrow> Inr None
           | c # _ \<Rightarrow>
               (case nPubKeyFromCert n c of
                  None \<Rightarrow> Inl ExtractKeyFailed
                | Some pubKey \<Rightarrow> (case VerifyPeerKey r addr pubKey of
                                    None \<Rightarrow> Inr (Some pubKey) | Some e \<Rightarrow> Inl e)))"

text \<open>\<open>connect\<close> and \<open>connectRelay\<close>: dial, verify, open the exchange stream.\<close>

definition connect :: "'w net \<Rightarrow> resolver \<Rightarrow> string \<Rightarrow> 'w grpc_transport \<Rightarrow> peer_conn result \<times> 'w grpc_transport" where
  "connect n r addr t =
     (case nDial n addr (world t) of (res, w) \<Rightarrow>
        (case res of
           Inl e \<Rightarrow> (Inl e, t\<lparr>world := w\<rparr>)
         | Inr (i, certs) \<Rightarrow>
             (case verify_certs n r t addr certs of
                Inl e \<Rightarrow> (Inl e, t\<lparr>world := nClose n \<lparr>pcId = i, pcAddr = addr, pcKey = None\<rparr> w\<rparr>)
              | Inr k \<Rightarrow> (Inr \<lparr>pcId = i, pcAddr = addr, pcKey = k\<rparr>, t\<lparr>world := w\<rparr>))))"

definition close_conn :: "'w net \<Rightarrow> peer_conn \<Rightarrow> 'w grpc_transport \<Rightarrow> 'w grpc_transport" where
  "close_conn n pc t = t\<lparr>world := nClose n pc (world t)\<rparr>"

text \<open>Storing a new connection under the lock: another goroutine may have stored one first.\<close>

definition store_peer :: "'w net \<Rightarrow> string \<Rightarrow> peer_conn \<Rightarrow> 'w grpc_transport \<Rightarrow> peer_conn \<times> 'w grpc_transport" where
  "store_peer n addr pc t =
     (let t = t\<lparr>peers := nOthers n (peers t)\<rparr>
      in case gget (peers t) addr of
           Some existing \<Rightarrow> (existing, close_conn n pc t)
         | None \<Rightarrow> (pc, t\<lparr>peers := gput addr pc (peers t)\<rparr>))"

definition getOrConnect :: "'w net \<Rightarrow> resolver \<Rightarrow> string \<Rightarrow> 'w grpc_transport \<Rightarrow> peer_conn result \<times> 'w grpc_transport" where
  "getOrConnect n r addr t =
     (case gget (peers t) addr of
        Some pc \<Rightarrow> (Inr pc, t)
      | None \<Rightarrow>
          (case connect n r addr t of
             (Inl e, t) \<Rightarrow> (Inl e, t)
           | (Inr pc, t) \<Rightarrow> (case store_peer n addr pc t of (pc, t) \<Rightarrow> (Inr pc, t))))"

definition getOrConnectRelay :: "'w net \<Rightarrow> resolver \<Rightarrow> string \<Rightarrow> 'w grpc_transport \<Rightarrow> peer_conn result \<times> 'w grpc_transport" where
  "getOrConnectRelay n r addr t =
     (case gget (relayConns t) addr of
        Some pc \<Rightarrow> (Inr pc, t)
      | None \<Rightarrow>
          (case connect n r addr t of
             (Inl e, t) \<Rightarrow> (Inl e, t)
           | (Inr pc, t) \<Rightarrow>
               (let t = t\<lparr>relayConns := nOthers n (relayConns t)\<rparr>
                in case gget (relayConns t) addr of
                     Some existing \<Rightarrow> (Inr existing, close_conn n pc t)
                   | None \<Rightarrow> (Inr pc, t\<lparr>relayConns := gput addr pc (relayConns t)\<rparr>))))"

fun ConnectToRelays_list :: "'w net \<Rightarrow> resolver \<Rightarrow> relay_info list \<Rightarrow> 'w grpc_transport \<Rightarrow> 'w grpc_transport" where
  "ConnectToRelays_list n r [] t = t"
| "ConnectToRelays_list n r (relay # rs) t =
     ConnectToRelays_list n r rs (snd (getOrConnectRelay n r (rAddr relay) t))"

definition ConnectToRelays :: "'w net \<Rightarrow> resolver \<Rightarrow> 'w grpc_transport \<Rightarrow> 'w grpc_transport" where
  "ConnectToRelays n r t =
     (if resolverSet t then ConnectToRelays_list n r (GetRelays r) t else t)"

text \<open>
  \<open>sendOnConn\<close>: the stream takes the message or fails; when the caller's context ends first, the
  connection is closed and, for a relay, forgotten.
\<close>

definition sendOnConn ::
  "'w net \<Rightarrow> ('w grpc_transport \<Rightarrow> 'w grpc_transport) \<Rightarrow> peer_conn \<Rightarrow> transport_message \<Rightarrow>
     'w grpc_transport \<Rightarrow> go_err option \<times> 'w grpc_transport" where
  "sendOnConn n remove pc msg t =
     (case nSend n pc msg (world t) of
        (None, w) \<Rightarrow> (None, t\<lparr>world := w, accepted := accepted t @ [(pc, msg)]\<rparr>)
      | (Some e, w) \<Rightarrow>
          (let t = t\<lparr>world := w\<rparr>
           in case nCtxErr n w of
                None \<Rightarrow> (Some e, t)
              | Some ctxErr \<Rightarrow> (Some ctxErr, close_conn n pc (remove t))))"

definition forget_peer :: "string \<Rightarrow> peer_conn \<Rightarrow> 'w grpc_transport \<Rightarrow> 'w grpc_transport" where
  "forget_peer addr pc t =
     (if gget (peers t) addr = Some pc then t\<lparr>peers := gdel addr (peers t)\<rparr> else t)"

definition forget_relay :: "string \<Rightarrow> peer_conn \<Rightarrow> 'w grpc_transport \<Rightarrow> 'w grpc_transport" where
  "forget_relay addr pc t =
     (if gget (relayConns t) addr = Some pc then t\<lparr>relayConns := gdel addr (relayConns t)\<rparr> else t)"

definition notify_sent :: "transport_message \<Rightarrow> 'w grpc_transport \<Rightarrow> 'w grpc_transport" where
  "notify_sent msg t = t\<lparr>notified := notified t @ [msg]\<rparr>"

definition sendDirect ::
  "'w net \<Rightarrow> resolver \<Rightarrow> string \<Rightarrow> transport_message \<Rightarrow> 'w grpc_transport \<Rightarrow> go_err option \<times> 'w grpc_transport" where
  "sendDirect n r addr msg t =
     (case getOrConnect n r addr t of
        (Inl e, t) \<Rightarrow> (Some e, t)
      | (Inr pc, t) \<Rightarrow>
          (case sendOnConn n id pc msg t of
             (None, t) \<Rightarrow> (None, notify_sent msg t)
           | (Some e, t) \<Rightarrow>
               (let t = (if gget (peers t) addr = Some pc
                         then close_conn n pc (forget_peer addr pc t) else t)
                in case nCtxErr n (world t) of
                     Some ctxErr \<Rightarrow> (Some ctxErr, t)
                   | None \<Rightarrow>
                       (case connect n r addr t of
                          (Inl e, t) \<Rightarrow> (Some (ReconnectFailed addr e), t)
                        | (Inr pc2, t) \<Rightarrow>
                            (case store_peer n addr pc2 t of (pc2, t) \<Rightarrow>
                               (case sendOnConn n id pc2 msg t of
                                  (Some e, t) \<Rightarrow> (Some e, t)
                                | (None, t) \<Rightarrow> (None, notify_sent msg t)))))))"

fun pubkey_in :: "string \<Rightarrow> peer_info list \<Rightarrow> bytes option" where
  "pubkey_in addr [] = None"
| "pubkey_in addr (info # infos) = (if pAdvertiseAddr info = addr then Some (pPublicKey info) else pubkey_in addr infos)"

definition pubkeyForAddr :: "resolver \<Rightarrow> 'w grpc_transport \<Rightarrow> string \<Rightarrow> bytes option" where
  "pubkeyForAddr r t addr = (if resolverSet t then pubkey_in addr (gvals (GetPeerMap r)) else None)"

fun try_relays ::
  "'w net \<Rightarrow> resolver \<Rightarrow> string \<Rightarrow> transport_message \<Rightarrow> relay_info list \<Rightarrow> 'w grpc_transport \<Rightarrow> go_err option \<times> 'w grpc_transport" where
  "try_relays n r peerAddr msg [] t = (Some (AllRelaysFailed peerAddr), t)"
| "try_relays n r peerAddr msg (relay # rs) t =
     (case getOrConnectRelay n r (rAddr relay) t of
        (Inl e, t) \<Rightarrow> try_relays n r peerAddr msg rs t
      | (Inr pc, t) \<Rightarrow>
          (case sendOnConn n (forget_relay (rAddr relay) pc) pc msg t of
             (Some e, t) \<Rightarrow> try_relays n r peerAddr msg rs t
           | (None, t) \<Rightarrow> (None, notify_sent msg t)))"

definition sendViaRelay ::
  "'w net \<Rightarrow> resolver \<Rightarrow> string \<Rightarrow> transport_message \<Rightarrow> 'w grpc_transport \<Rightarrow> go_err option \<times> 'w grpc_transport" where
  "sendViaRelay n r peerAddr msg t =
     (case pubkeyForAddr r t peerAddr of
        None \<Rightarrow> (Some (NoPeerKey peerAddr), t)
      | Some targetKey \<Rightarrow>
          (let msg = msg\<lparr>RelayTargetKey := targetKey\<rparr>;
               rs = GetRelays r
           in if rs = [] then (Some (NoRelays peerAddr), t)
              else try_relays n r peerAddr msg rs t))"

text \<open>\<open>Send\<close>; \<open>now\<close> is the clock at the call, \<open>failNow\<close> when a direct failure is noted.\<close>

definition Send ::
  "'w net \<Rightarrow> resolver \<Rightarrow> time \<Rightarrow> time \<Rightarrow> string \<Rightarrow> transport_message \<Rightarrow> 'w grpc_transport \<Rightarrow> go_err option \<times> 'w grpc_transport" where
  "Send n r now failNow addr msg t =
     (let stale = (case gget (directFails t) addr of None \<Rightarrow> False | Some ft \<Rightarrow> now - ft > directFailTTL);
          t = (if stale then t\<lparr>directFails := gdel addr (directFails t)\<rparr> else t);
          directFailed = (gget (directFails t) addr \<noteq> None);
          fallback = (\<lambda>t. if \<not> resolverSet t then (Some (NoResolver addr), t)
                          else sendViaRelay n r addr msg t)
      in if \<not> directFailed
         then case sendDirect n r addr msg t of
                (None, t) \<Rightarrow> (None, t)
              | (Some e, t) \<Rightarrow> fallback (t\<lparr>directFails := gput addr failNow (directFails t)\<rparr>)
         else fallback t)"

text \<open>The receive loops: a closed stream removes its own entry only; a relayed message loses its target key.\<close>

definition recvLoop_closed :: "string \<Rightarrow> peer_conn \<Rightarrow> 'w grpc_transport \<Rightarrow> 'w grpc_transport" where
  "recvLoop_closed addr pc t = forget_peer addr pc t"

definition relayRecvLoop_closed :: "string \<Rightarrow> peer_conn \<Rightarrow> 'w grpc_transport \<Rightarrow> 'w grpc_transport" where
  "relayRecvLoop_closed addr pc t = forget_relay addr pc t"

definition relayRecv :: "transport_message \<Rightarrow> transport_message" where
  "relayRecv msg = msg\<lparr>RelayTargetKey := []\<rparr>"

definition ConnectedAddrs :: "'w grpc_transport \<Rightarrow> string list" where
  "ConnectedAddrs t = gkeys (peers t)"

definition ConnectedRelayAddrs :: "'w grpc_transport \<Rightarrow> string list" where
  "ConnectedRelayAddrs t = gkeys (relayConns t)"

definition DirectFailedAddrs :: "time \<Rightarrow> 'w grpc_transport \<Rightarrow> string list" where
  "DirectFailedAddrs now t = map fst (filter (\<lambda>(addr, ft). ft > now - 30 * second) (directFails t))"

definition CloseTransport :: "'w net \<Rightarrow> 'w grpc_transport \<Rightarrow> 'w grpc_transport" where
  "CloseTransport n t =
     (let t = fold (\<lambda>(addr, pc) t. (close_conn n pc t)\<lparr>peers := gdel addr (peers t)\<rparr>) (peers t) t
      in fold (\<lambda>(addr, pc) t. (close_conn n pc t)\<lparr>relayConns := gdel addr (relayConns t)\<rparr>) (relayConns t) t)"

section \<open>One call of Send, at most one message\<close>

text \<open>A connection table maps an address to a connection to that address, also after other goroutines ran.\<close>

definition keyed :: "(string, peer_conn) gomap \<Rightarrow> bool" where
  "keyed m \<longleftrightarrow> (\<forall>a pc. gget m a = Some pc \<longrightarrow> pcAddr pc = a)"

definition others_ok :: "'w net \<Rightarrow> bool" where
  "others_ok n \<longleftrightarrow> (\<forall>m. keyed m \<longrightarrow> keyed (nOthers n m))"

definition conns_ok :: "'w grpc_transport \<Rightarrow> bool" where
  "conns_ok t \<longleftrightarrow> keyed (peers t) \<and> keyed (relayConns t)"

definition quiet :: "'w grpc_transport \<Rightarrow> 'w grpc_transport \<Rightarrow> bool" where
  "quiet t t' \<longleftrightarrow> accepted t' = accepted t \<and> notified t' = notified t \<and> conns_ok t' \<and>
     resolverSet t' = resolverSet t"

definition took :: "peer_conn \<Rightarrow> transport_message \<Rightarrow> 'w grpc_transport \<Rightarrow> 'w grpc_transport \<Rightarrow> bool" where
  "took pc msg t t' \<longleftrightarrow> accepted t' = accepted t @ [(pc, msg)] \<and> notified t' = notified t @ [msg] \<and> conns_ok t' \<and>
     resolverSet t' = resolverSet t"

lemma keyedD: "keyed m \<Longrightarrow> gget m a = Some pc \<Longrightarrow> pcAddr pc = a"
  by (simp add: keyed_def)

lemma keyed_gput: "keyed m \<Longrightarrow> pcAddr pc = a \<Longrightarrow> keyed (gput a pc m)"
  by (simp add: keyed_def)

lemma keyed_gdel: "keyed m \<Longrightarrow> keyed (gdel a m)"
  by (simp add: keyed_def)

lemma quiet_refl: "conns_ok t \<Longrightarrow> quiet t t"
  by (simp add: quiet_def)

lemma quiet_trans: "quiet t u \<Longrightarrow> quiet u v \<Longrightarrow> quiet t v"
  by (simp add: quiet_def)

lemma quiet_took: "quiet t u \<Longrightarrow> took pc m u v \<Longrightarrow> took pc m t v"
  by (simp add: quiet_def took_def)

lemma quiet_conns: "quiet t u \<Longrightarrow> conns_ok u"
  by (simp add: quiet_def)

lemma connect_quiet:
  assumes "conns_ok t" and "connect n r addr t = (res, t')"
  shows "quiet t t'" and "res = Inr pc \<Longrightarrow> pcAddr pc = addr"
  using assms by (auto simp: connect_def quiet_def conns_ok_def split: prod.splits sum.splits)

lemma close_conn_quiet: "conns_ok t \<Longrightarrow> quiet t (close_conn n pc t)"
  by (simp add: close_conn_def quiet_def conns_ok_def)

lemma forget_quiet: "conns_ok t \<Longrightarrow> quiet t (forget_peer a pc t)" "conns_ok t \<Longrightarrow> quiet t (forget_relay a pc t)"
  by (simp_all add: forget_peer_def forget_relay_def quiet_def conns_ok_def keyed_gdel)

lemma store_peer_quiet:
  assumes "others_ok n" and "conns_ok t" and "pcAddr pc = addr" and "store_peer n addr pc t = (pc', t')"
  shows "quiet t t'" and "pcAddr pc' = addr"
proof -
  have k: "keyed (nOthers n (peers t))"
    using assms(1,2) by (simp add: others_ok_def conns_ok_def)
  show "quiet t t'"
    using assms k
    by (auto simp: store_peer_def Let_def quiet_def conns_ok_def close_conn_def keyed_gput split: option.splits)
  show "pcAddr pc' = addr"
    using assms k by (auto simp: store_peer_def Let_def keyed_def split: option.splits)
qed

lemma getOrConnect_quiet:
  assumes "others_ok n" and "conns_ok t" and "getOrConnect n r addr t = (res, t')"
  shows "quiet t t'" and "res = Inr pc \<Longrightarrow> pcAddr pc = addr"
proof -
  have "quiet t t' \<and> (res = Inr pc \<longrightarrow> pcAddr pc = addr)"
  proof (cases "gget (peers t) addr")
    case (Some p)
    then show ?thesis using assms by (auto simp: getOrConnect_def quiet_refl conns_ok_def keyed_def)
  next
    case None
    obtain c t1 where c: "connect n r addr t = (c, t1)" by (cases "connect n r addr t")
    note q = connect_quiet [OF assms(2) c]
    show ?thesis
    proof (cases c)
      case (Inl e)
      then show ?thesis using assms(3) None c q by (simp add: getOrConnect_def)
    next
      case (Inr pc1)
      obtain p t2 where s: "store_peer n addr pc1 t1 = (p, t2)" by (cases "store_peer n addr pc1 t1")
      note sq = store_peer_quiet [OF assms(1) quiet_conns [OF q(1)] q(2) [OF Inr] s]
      show ?thesis
        using assms(3) None c Inr s sq quiet_trans [OF q(1) sq(1)] by (auto simp: getOrConnect_def)
    qed
  qed
  then show "quiet t t'" and "res = Inr pc \<Longrightarrow> pcAddr pc = addr" by simp_all
qed

lemma getOrConnectRelay_quiet:
  assumes "others_ok n" and "conns_ok t" and "getOrConnectRelay n r addr t = (res, t')"
  shows "quiet t t'" and "res = Inr pc \<Longrightarrow> pcAddr pc = addr"
proof -
  have "quiet t t' \<and> (res = Inr pc \<longrightarrow> pcAddr pc = addr)"
  proof (cases "gget (relayConns t) addr")
    case (Some p)
    then show ?thesis using assms by (auto simp: getOrConnectRelay_def quiet_refl conns_ok_def keyed_def)
  next
    case None
    obtain c t1 where c: "connect n r addr t = (c, t1)" by (cases "connect n r addr t")
    note q = connect_quiet [OF assms(2) c]
    show ?thesis
    proof (cases c)
      case (Inl e)
      then show ?thesis using assms(3) None c q by (simp add: getOrConnectRelay_def)
    next
      case (Inr pc1)
      have k: "keyed (nOthers n (relayConns t1))"
        using assms(1) quiet_conns [OF q(1)] by (simp add: others_ok_def conns_ok_def)
      show ?thesis
        using assms(3) None c Inr q k
        by (auto simp: getOrConnectRelay_def Let_def quiet_def conns_ok_def close_conn_def keyed_gput
            split: option.splits dest: keyedD)
    qed
  qed
  then show "quiet t t'" and "res = Inr pc \<Longrightarrow> pcAddr pc = addr" by simp_all
qed

lemma sendOnConn_cases:
  assumes "conns_ok t" and "sendOnConn n remove pc msg t = (res, t')"
    and "\<forall>t. conns_ok t \<longrightarrow> quiet t (remove t)"
  shows "res = None \<Longrightarrow> took pc msg t (notify_sent msg t')" and "res = Some e \<Longrightarrow> quiet t t'"
proof -
  show "res = None \<Longrightarrow> took pc msg t (notify_sent msg t')"
    using assms(1,2)
    by (auto simp: sendOnConn_def took_def notify_sent_def conns_ok_def Let_def split: prod.splits option.splits)
  obtain se w where s: "nSend n pc msg (world t) = (se, w)"
    by (cases "nSend n pc msg (world t)")
  have w: "quiet t (t\<lparr>world := w\<rparr>)"
    using assms(1) by (simp add: quiet_def conns_ok_def)
  have r: "quiet (t\<lparr>world := w\<rparr>) (remove (t\<lparr>world := w\<rparr>))"
    using assms(3) quiet_conns [OF w] by blast
  have rm: "quiet t (close_conn n pc (remove (t\<lparr>world := w\<rparr>)))"
    by (rule quiet_trans [OF quiet_trans [OF w r] close_conn_quiet [OF quiet_conns [OF r]]])
  show "res = Some e \<Longrightarrow> quiet t t'"
    using assms(2) s w rm by (auto simp: sendOnConn_def Let_def split: option.splits)
qed

lemma removes_quiet:
  "\<forall>t. conns_ok t \<longrightarrow> quiet t (id t)" "\<forall>t. conns_ok t \<longrightarrow> quiet t (forget_relay a pc t)"
  by (simp_all add: quiet_refl forget_quiet)

text \<open>The second attempt of a direct send: connect afresh, keep the winner, send on it.\<close>

lemma resend_cases:
  assumes "others_ok n" and "conns_ok t"
    and "(case connect n r addr t of
        (Inl e, t) \<Rightarrow> (Some (ReconnectFailed addr e), t)
      | (Inr pc2, t) \<Rightarrow> (case store_peer n addr pc2 t of (pc2, t) \<Rightarrow>
          (case sendOnConn n id pc2 msg t of
             (Some e, t) \<Rightarrow> (Some e, t) | (None, t) \<Rightarrow> (None, notify_sent msg t)))) = (res, t')"
  shows "(res = None \<longrightarrow> (\<exists>pc. pcAddr pc = addr \<and> took pc msg t t')) \<and> (res \<noteq> None \<longrightarrow> quiet t t')"
proof -
  obtain c t1 where c: "connect n r addr t = (c, t1)" by (cases "connect n r addr t")
  note cq = connect_quiet [OF assms(2) c]
  show ?thesis
  proof (cases c)
    case (Inl _)
    then show ?thesis using assms(3) c cq(1) by auto
  next
    case (Inr pc1)
    obtain p t2 where p: "store_peer n addr pc1 t1 = (p, t2)" by (cases "store_peer n addr pc1 t1")
    note pq = store_peer_quiet [OF assms(1) quiet_conns [OF cq(1)] cq(2) [OF Inr] p]
    obtain s t3 where s: "sendOnConn n id p msg t2 = (s, t3)" by (cases "sendOnConn n id p msg t2")
    note sc = sendOnConn_cases [OF quiet_conns [OF pq(1)] s removes_quiet(1)] and q = quiet_trans [OF cq(1) pq(1)]
    show ?thesis
      using assms(3) c Inr p s pq(2) quiet_took [OF q sc(1)] quiet_trans [OF q sc(2)]
      by (cases s) auto
  qed
qed

lemma sendDirect_cases:
  assumes "others_ok n" and "conns_ok t" and "sendDirect n r addr msg t = (res, t')"
  shows "(res = None \<longrightarrow> (\<exists>pc. pcAddr pc = addr \<and> took pc msg t t')) \<and> (res \<noteq> None \<longrightarrow> quiet t t')"
proof -
  obtain g t1 where g: "getOrConnect n r addr t = (g, t1)" by (cases "getOrConnect n r addr t")
  note gq = getOrConnect_quiet [OF assms(1,2) g]
  show ?thesis
  proof (cases g)
    case (Inl e)
    then show ?thesis using assms(3) g gq by (auto simp: sendDirect_def)
  next
    case (Inr pc)
    obtain s t2 where s: "sendOnConn n id pc msg t1 = (s, t2)" by (cases "sendOnConn n id pc msg t1")
    note sc = sendOnConn_cases [OF quiet_conns [OF gq(1)] s removes_quiet(1)]
    show ?thesis
    proof (cases s)
      case None
      then show ?thesis
        using assms(3) g Inr s quiet_took [OF gq(1) sc(1)] gq(2) [OF Inr] by (auto simp: sendDirect_def)
    next
      case (Some e)
      note q2 = quiet_trans [OF gq(1) sc(2) [OF Some]]
      define t3 where "t3 = (if gget (peers t2) addr = Some pc then close_conn n pc (forget_peer addr pc t2) else t2)"
      have q3: "quiet t t3"
        using q2 quiet_trans [OF quiet_trans [OF q2 forget_quiet(1)] close_conn_quiet]
          quiet_conns [OF q2] quiet_conns [OF forget_quiet(1) [OF quiet_conns [OF q2]]]
        by (auto simp: t3_def)
      note d = assms(3) [unfolded sendDirect_def g prod.case Inr sum.case s Some option.case Let_def t3_def [symmetric]]
      show ?thesis
      proof (cases "nCtxErr n (world t3)")
        case (Some _)
        then show ?thesis using d q3 by auto
      next
        case None
        show ?thesis
          using resend_cases [OF assms(1) quiet_conns [OF q3] d [unfolded None option.case]]
            quiet_took [OF q3] quiet_trans [OF q3] by blast
      qed
    qed
  qed
qed

lemma try_relays_cases:
  assumes "others_ok n"
  shows "conns_ok t \<Longrightarrow> try_relays n r peerAddr msg rs t = (res, t') \<Longrightarrow>
    (res = None \<longrightarrow> (\<exists>pc. pcAddr pc \<in> rAddr ` set rs \<and> took pc msg t t')) \<and> (res \<noteq> None \<longrightarrow> quiet t t')"
proof (induction rs arbitrary: t)
  case Nil
  then show ?case by (auto simp: quiet_refl)
next
  case (Cons y rs)
  obtain g t1 where g: "getOrConnectRelay n r (rAddr y) t = (g, t1)"
    by (cases "getOrConnectRelay n r (rAddr y) t")
  note gq = getOrConnectRelay_quiet [OF assms Cons.prems(1) g]
  have rest: "(res = None \<longrightarrow> (\<exists>pc. pcAddr pc \<in> rAddr ` set (y # rs) \<and> took pc msg t t')) \<and> (res \<noteq> None \<longrightarrow> quiet t t')"
    if "quiet t u" and "try_relays n r peerAddr msg rs u = (res, t')" for u
    using Cons.IH [OF quiet_conns [OF that(1)] that(2)] quiet_took [OF that(1)] quiet_trans [OF that(1)]
    by auto
  show ?case
  proof (cases g)
    case (Inl _)
    then show ?thesis using Cons.prems(2) g rest [OF gq(1)] by simp
  next
    case (Inr pc)
    obtain s t2 where s: "sendOnConn n (forget_relay (rAddr y) pc) pc msg t1 = (s, t2)"
      by (cases "sendOnConn n (forget_relay (rAddr y) pc) pc msg t1")
    note sc = sendOnConn_cases [OF quiet_conns [OF gq(1)] s removes_quiet(2)]
    show ?thesis
      using Cons.prems(2) g Inr s rest [OF quiet_trans [OF gq(1) sc(2)]] quiet_took [OF gq(1) sc(1)] gq(2) [OF Inr]
      by (cases s) auto
  qed
qed

lemma Send_facts:
  assumes "others_ok n" and "conns_ok t" and "Send n r now failNow addr msg t = (res, t')"
  shows "(res = None \<longrightarrow> (\<exists>pc m. accepted t' = accepted t @ [(pc, m)] \<and> notified t' = notified t @ [m] \<and>
      (pcAddr pc = addr \<and> m = msg \<or>
       pcAddr pc \<in> rAddr ` set (relays r) \<and> pubkey_in addr (gvals (handleTo r)) = Some (RelayTargetKey m) \<and>
       m = msg\<lparr>RelayTargetKey := RelayTargetKey m\<rparr>))) \<and>
    (res \<noteq> None \<longrightarrow> accepted t' = accepted t \<and> notified t' = notified t)"
proof -
  define t0 where "t0 = (if (case gget (directFails t) addr of None \<Rightarrow> False | Some ft \<Rightarrow> now - ft > directFailTTL)
    then t\<lparr>directFails := gdel addr (directFails t)\<rparr> else t)"
  have q0: "quiet t t0" using assms(2) by (simp add: t0_def quiet_def conns_ok_def)
  define fb where "fb = (\<lambda>t. if \<not> resolverSet t then (Some (NoResolver addr), t) else sendViaRelay n r addr msg t)"
  have fb: "(res' = None \<longrightarrow> (\<exists>pc k. pcAddr pc \<in> rAddr ` set (relays r) \<and> pubkey_in addr (gvals (handleTo r)) = Some k \<and>
      took pc (msg\<lparr>RelayTargetKey := k\<rparr>) u v)) \<and> (res' \<noteq> None \<longrightarrow> quiet u v)"
    if "conns_ok u" "fb u = (res', v)" for u v res'
    using that try_relays_cases [OF assms(1) that(1)] quiet_refl [OF that(1)]
    by (force simp: fb_def sendViaRelay_def pubkeyForAddr_def GetPeerMap_def GetRelays_def Let_def
        split: if_splits option.splits)
  have fb': ?thesis if "quiet t u" "fb u = (res, t')" for u
    using fb [OF quiet_conns [OF that(1)] that(2)] quiet_took [OF that(1)] quiet_trans [OF that(1)]
    by (fastforce simp: took_def quiet_def)
  have eq: "Send n r now failNow addr msg t =
      (if \<not> gget (directFails t0) addr \<noteq> None
       then case sendDirect n r addr msg t0 of (None, t) \<Rightarrow> (None, t)
            | (Some e, t) \<Rightarrow> fb (t\<lparr>directFails := gput addr failNow (directFails t)\<rparr>)
       else fb t0)"
    unfolding Send_def Let_def t0_def fb_def by (rule refl)
  show ?thesis
  proof (cases "gget (directFails t0) addr")
    case (Some _)
    then show ?thesis using fb' [OF q0] assms(3) eq by simp
  next
    case None
    obtain d t1 where d: "sendDirect n r addr msg t0 = (d, t1)" by (cases "sendDirect n r addr msg t0")
    note dc = sendDirect_cases [OF assms(1) quiet_conns [OF q0] d]
    show ?thesis
    proof (cases d)
      case None
      then obtain pc where "pcAddr pc = addr" "took pc msg t t1"
        using dc quiet_took [OF q0] by auto
      then show ?thesis
        using assms(3) eq \<open>gget (directFails t0) addr = None\<close> d None by (auto simp: took_def)
    next
      case (Some e)
      let ?u = "t1\<lparr>directFails := gput addr failNow (directFails t1)\<rparr>"
      have "quiet t ?u"
        using dc Some quiet_trans [OF q0] by (auto simp: quiet_def conns_ok_def)
      then show ?thesis
        using fb' [of ?u] assms(3) eq None d Some by simp
    qed
  qed
qed


text \<open>A network in which only the relay \<open>r:1\<close> can be dialled, and peers present the certificate \<open>kR\<close>.\<close>

definition relay_only :: "unit net" where
  "relay_only = \<lparr>nDial = (\<lambda>addr w. (if addr = ''r:1'' then Inr (1, [''kR'']) else Inl (ConnectFailed addr), w)),
     nPubKeyFromCert = Some, nSend = (\<lambda>pc msg w. (None, w)), nClose = (\<lambda>pc w. w), nCtxErr = (\<lambda>w. None),
     nOthers = (\<lambda>m. m)\<rparr>"


text \<open>
  Direct failures are remembered for \<open>directFailTTL\<close>: until then \<open>Send\<close> goes to the
  relays without touching a direct connection; afterwards, or without a recorded failure, it tries
  the direct path first and falls back only if that fails, recording the new failure.
\<close>

theorem Send_fallback_policy:
  assumes "resolverSet t"
  shows "if \<exists>ft. gget (directFails t) addr = Some ft \<and> now - ft \<le> directFailTTL
    then Send n r now failNow addr msg t = sendViaRelay n r addr msg t
    else (let t0 = t\<lparr>directFails := gdel addr (directFails t)\<rparr>; (res, t1) = sendDirect n r addr msg t0
          in case res of
               None \<Rightarrow> Send n r now failNow addr msg t = (None, t1)
             | Some e \<Rightarrow> resolverSet t1 \<longrightarrow> Send n r now failNow addr msg t =
                 sendViaRelay n r addr msg (t1\<lparr>directFails := gput addr failNow (directFails t1)\<rparr>))"
proof (cases "gget (directFails t) addr")
  case None
  then have "t\<lparr>directFails := gdel addr (directFails t)\<rparr> = t"
    by (simp add: delete_id map_of_eq_None_iff)
  with None show ?thesis
    by (auto simp: Send_def Let_def split: option.splits prod.splits)
next
  case (Some ft)
  then show ?thesis
    using assms by (auto simp: Send_def Let_def not_le split: option.splits prod.splits)
qed

theorem Send_fallback_policy_witness:
  "let t = (SetResolver (NewGRPCTransport True True ()))\<lparr>directFails := [(''b:1'', 0)]\<rparr>; msg = wrap (BodyEnvelope zero_envelope)
   in Send relay_only sample_resolver (60 * second) 0 ''b:1'' msg t = sendViaRelay relay_only sample_resolver ''b:1'' msg t"
  using Send_fallback_policy [of "(SetResolver (NewGRPCTransport True True ()))\<lparr>directFails := [(''b:1'', 0)]\<rparr>"
      "''b:1''" "60 * second" relay_only sample_resolver 0 "wrap (BodyEnvelope zero_envelope)"]
  by (simp add: SetResolver_def directFailTTL_def)

end
