(* ===== verification/Relay.thy ===== *)
theory Relay
  imports Transport
begin

text \<open>
  The relay server (\<open>internal/relay/server.go\<close>): daemons that cannot reach each other connect
  to it, and it forwards each message to the stream registered under the hexadecimal form of the
  target key. A handler of one stream is its opening, one step per received message, and its end; a
  slice expression out of range (\<open>keyHex[:16]\<close>) panics, which ends the process.
\<close>

section \<open>Hexadecimal text\<close>

definition hex_digit :: "nat \<Rightarrow> char" where
  "hex_digit n = (if n < 10 then char_of (48 + n) else char_of (87 + n))"

definition hex_val :: "char \<Rightarrow> nat option" where
  "hex_val c = (let n = of_char c :: nat in
     if 48 \<le> n \<and> n \<le> 57 then Some (n - 48)
     else if 97 \<le> n \<and> n \<le> 102 then Some (n - 87)
     else if 65 \<le> n \<and> n \<le> 70 then Some (n - 55) else None)"

definition EncodeToString :: "bytes \<Rightarrow> string" where
  "EncodeToString bs = concat (map (\<lambda>c. [hex_digit (of_char c div 16), hex_digit (of_char c mod 16)]) bs)"

fun DecodeString :: "string \<Rightarrow> bytes option" where
  "DecodeString [] = Some []"
| "DecodeString [x] = None"
| "DecodeString (x # y # s) =
     (case (hex_val x, hex_val y, DecodeString s) of
        (Some a, Some b, Some bs) \<Rightarrow> Some (char_of (16 * a + b) # bs)
      | _ \<Rightarrow> None)"

lemma hex_val_digit: "n < 16 \<Longrightarrow> hex_val (hex_digit n) = Some n"
  by (auto simp: hex_val_def hex_digit_def Let_def)

lemma DecodeString_Encode: "DecodeString (EncodeToString bs) = Some bs"
proof (induction bs)
  case (Cons c bs)
  have "of_char c div 16 < (16 :: nat)"
    using nat_of_char_less_256 [of c] by linarith
  with Cons show ?case by (simp add: EncodeToString_def hex_val_digit)
qed (simp add: EncodeToString_def)

lemma EncodeToString_inj [simp]: "EncodeToString a = EncodeToString b \<longleftrightarrow> a = b"
  by (metis DecodeString_Encode option.inject)

lemma length_EncodeToString [simp]: "length (EncodeToString bs) = 2 * length bs"
  by (simp add: EncodeToString_def length_concat comp_def sum_list_triv)

section \<open>The server\<close>

datatype relay_err =
    IdentifyPeer relay_err
  | DecodeMetadata
  | NoPeerInfo
  | NoTLSInfo
  | NoPeerCertificates
  | BadCertificate

datatype auth_info = NoPeer | NoTLS | TLS "bytes list"

record stream_ctx =
  ctxMetadata :: "(string, string list) gomap option"
  ctxAuth :: auth_info

record relay_stream =
  rsId :: nat
  rsPubKey :: bytes

record relay_server =
  streams :: "(string, relay_stream) gomap"
  relayed :: "(nat \<times> transport_message) list"

datatype 'a outcome = Panic | Done 'a

definition NewServer :: relay_server where
  "NewServer = \<lparr>streams = [], relayed = []\<rparr>"

text \<open>The key of a connecting peer; \<open>pubKeyFromCert\<close> is the certificate parser.\<close>

definition extractPubKey :: "(bytes \<Rightarrow> bytes option) \<Rightarrow> stream_ctx \<Rightarrow> relay_err + bytes" where
  "extractPubKey pubKeyFromCert ctx =
     (case (case ctxMetadata ctx of None \<Rightarrow> [] | Some md \<Rightarrow> gget_or [] md ''x-tailbus-pubkey'') of
        v # _ \<Rightarrow> (case DecodeString v of None \<Rightarrow> Inl DecodeMetadata | Some k \<Rightarrow> Inr k)
      | [] \<Rightarrow>
          (case ctxAuth ctx of
             NoPeer \<Rightarrow> Inl NoPeerInfo
           | NoTLS \<Rightarrow> Inl NoTLSInfo
           | TLS [] \<Rightarrow> Inl NoPeerCertificates
           | TLS (c # _) \<Rightarrow> (case pubKeyFromCert c of None \<Rightarrow> Inl BadCertificate | Some k \<Rightarrow> Inr k)))"

text \<open>\<open>s[:16]\<close> in the arguments of a log call.\<close>

definition log_prefix :: "string \<Rightarrow> 'a outcome \<Rightarrow> 'a outcome" where
  "log_prefix s k = (if length s < 16 then Panic else k)"

text \<open>Opening: identify the peer, register the stream, log the connection.\<close>

definition Exchange_open ::
  "(bytes \<Rightarrow> bytes option) \<Rightarrow> nat \<Rightarrow> stream_ctx \<Rightarrow> relay_server \<Rightarrow> (relay_err + (relay_stream \<times> relay_server)) outcome" where
  "Exchange_open pubKeyFromCert i ctx s =
     (case extractPubKey pubKeyFromCert ctx of
        Inl e \<Rightarrow> Done (Inl (IdentifyPeer e))
      | Inr pubKey \<Rightarrow>
          (let keyHex = EncodeToString pubKey;
               rs = \<lparr>rsId = i, rsPubKey = pubKey\<rparr>;
               s = s\<lparr>streams := gput keyHex rs (streams s)\<rparr>
           in log_prefix keyHex (Done (Inr (rs, s)))))"

text \<open>One received message; \<open>sendOK\<close> says whether the target's stream takes it.\<close>

definition Exchange_recv ::
  "relay_stream \<Rightarrow> transport_message \<Rightarrow> bool \<Rightarrow> relay_server \<Rightarrow> relay_server outcome" where
  "Exchange_recv rs msg sendOK s =
     (let keyHex = EncodeToString (rsPubKey rs); targetKey = RelayTargetKey msg
      in if targetKey = [] then log_prefix keyHex (Done s)
         else let targetHex = EncodeToString targetKey
              in case gget (streams s) targetHex of
                   None \<Rightarrow> log_prefix targetHex (log_prefix keyHex (Done s))
                 | Some target \<Rightarrow>
                     if \<not> sendOK then log_prefix targetHex (Done s)
                     else let s = s\<lparr>relayed := relayed s @ [(rsId target, msg)]\<rparr>
                          in log_prefix keyHex (log_prefix targetHex (Done s)))"

definition Exchange_close :: "relay_stream \<Rightarrow> relay_server \<Rightarrow> relay_server outcome" where
  "Exchange_close rs s =
     (let keyHex = EncodeToString (rsPubKey rs);
          s = (if gget (streams s) keyHex = Some rs then s\<lparr>streams := gdel keyHex (streams s)\<rparr> else s)
      in log_prefix keyHex (Done s))"

definition ConnectedPeers :: "relay_server \<Rightarrow> nat" where
  "ConnectedPeers s = length (streams s)"

section \<open>Runs of the relay\<close>

text \<open>
  The streams open at a time, each with a fresh identity, interleaved in any order. The state after
  a panic is no state: the process is gone.
\<close>

record relay_sys =
  server :: relay_server
  open_streams :: "relay_stream list"
  next_id :: nat

definition relay_init :: relay_sys where
  "relay_init = \<lparr>server = NewServer, open_streams = [], next_id = 0\<rparr>"

inductive relay_step :: "(bytes \<Rightarrow> bytes option) \<Rightarrow> relay_sys \<Rightarrow> relay_sys \<Rightarrow> bool" for parse where
  relay_connect: "Exchange_open parse (next_id y) ctx (server y) = Done (Inr (rs, s)) \<Longrightarrow>
     relay_step parse y (y\<lparr>server := s, open_streams := open_streams y @ [rs], next_id := next_id y + 1\<rparr>)"
| relay_refuse: "Exchange_open parse (next_id y) ctx (server y) = Done (Inl e) \<Longrightarrow>
     relay_step parse y (y\<lparr>next_id := next_id y + 1\<rparr>)"
| relay_recv: "rs \<in> set (open_streams y) \<Longrightarrow> Exchange_recv rs msg sendOK (server y) = Done s \<Longrightarrow>
     relay_step parse y (y\<lparr>server := s\<rparr>)"
| relay_close: "rs \<in> set (open_streams y) \<Longrightarrow> Exchange_close rs (server y) = Done s \<Longrightarrow>
     relay_step parse y (y\<lparr>server := s, open_streams := filter (\<lambda>x. x \<noteq> rs) (open_streams y)\<rparr>)"

text \<open>
  The latest stream of each key is registered until it closes; nothing is registered that is not
  open; what was relayed went to a stream of the target key.
\<close>

definition relay_inv :: "relay_sys \<Rightarrow> bool" where
  "relay_inv y \<longleftrightarrow>
     (\<forall>k rs. gget (streams (server y)) k = Some rs \<longrightarrow> rs \<in> set (open_streams y) \<and> k = EncodeToString (rsPubKey rs)) \<and>
     (\<forall>rs\<in>set (open_streams y). rsId rs < next_id y) \<and>
     (\<forall>a\<in>set (open_streams y). \<forall>b\<in>set (open_streams y). rsId a = rsId b \<longrightarrow> a = b)"

lemma relay_inv_stream:
  "relay_inv y \<Longrightarrow> gget (streams (server y)) k = Some rs \<Longrightarrow> rs \<in> set (open_streams y) \<and> k = EncodeToString (rsPubKey rs)"
  "relay_inv y \<Longrightarrow> rs \<in> set (open_streams y) \<Longrightarrow> rsId rs < next_id y"
  "relay_inv y \<Longrightarrow> a \<in> set (open_streams y) \<Longrightarrow> b \<in> set (open_streams y) \<Longrightarrow> rsId a = rsId b \<Longrightarrow> a = b"
  unfolding relay_inv_def by blast+

lemma relay_invI:
  assumes "\<And>k rs. gget (streams (server y)) k = Some rs \<Longrightarrow> rs \<in> set (open_streams y) \<and> k = EncodeToString (rsPubKey rs)"
    and "\<And>rs. rs \<in> set (open_streams y) \<Longrightarrow> rsId rs < next_id y"
    and "\<And>a b. a \<in> set (open_streams y) \<Longrightarrow> b \<in> set (open_streams y) \<Longrightarrow> rsId a = rsId b \<Longrightarrow> a = b"
  shows "relay_inv y"
  using assms unfolding relay_inv_def by blast

lemma relay_inv_init: "relay_inv relay_init"
  by (simp add: relay_inv_def relay_init_def NewServer_def)

lemma Exchange_open_Done:
  "Exchange_open parse i ctx s = Done (Inr (rs, s')) \<Longrightarrow>
     rsId rs = i \<and> s' = s\<lparr>streams := gput (EncodeToString (rsPubKey rs)) rs (streams s)\<rparr>"
  by (auto simp: Exchange_open_def log_prefix_def Let_def split: sum.splits if_splits)

lemma Exchange_recv_Done:
  assumes "Exchange_recv rs msg sendOK s = Done s'"
  shows "streams s' = streams s \<and> relayed s' = relayed s @
    (case gget (streams s) (EncodeToString (RelayTargetKey msg)) of
       Some target \<Rightarrow> if RelayTargetKey msg \<noteq> [] \<and> sendOK then [(rsId target, msg)] else []
     | None \<Rightarrow> [])"
  using assms by (auto simp: Exchange_recv_def log_prefix_def Let_def split: option.splits if_splits)

lemma Exchange_close_Done:
  "Exchange_close rs s = Done s' \<Longrightarrow> relayed s' = relayed s \<and> gget (streams s') =
     (if gget (streams s) (EncodeToString (rsPubKey rs)) = Some rs
      then (gget (streams s))(EncodeToString (rsPubKey rs) := None) else gget (streams s))"
  by (auto simp: Exchange_close_def log_prefix_def Let_def split: if_splits)

inductive_cases relay_stepE: "relay_step parse y z"

lemma relay_inv_step:
  assumes "relay_step parse y z" and "relay_inv y"
  shows "relay_inv z"
  using assms
proof (induction rule: relay_step.induct)
  case (relay_connect y ctx rs s)
  note o = Exchange_open_Done [OF relay_connect.hyps]
  note inv = relay_inv_stream [OF relay_connect.prems]
  show ?case
  proof (rule relay_invI, goal_cases)
    case (1 k x)
    then show ?case using o inv(1) [of k x] by (auto split: if_splits)
  next
    case (2 x)
    then show ?case using o inv(2) [of x] by auto
  next
    case (3 a b)
    then show ?case using o inv(2) [of a] inv(2) [of b] inv(3) [of a b] by auto
  qed
next
  case (relay_refuse y ctx e)
  then show ?case using relay_inv_stream [OF relay_refuse.prems] by (intro relay_invI) (auto simp: less_Suc_eq)
next
  case (relay_recv rs y msg sendOK s)
  then show ?case
    using Exchange_recv_Done [OF relay_recv.hyps(2)] relay_inv_stream [OF relay_recv.prems]
    by (intro relay_invI) auto
next
  case (relay_close rs y s)
  note c = Exchange_close_Done [OF relay_close.hyps(2)] and inv = relay_inv_stream [OF relay_close.prems]
  show ?case
  proof (rule relay_invI, goal_cases)
    case (1 k x)
    then have g: "gget (streams (server y)) k = Some x"
      using c by (auto split: if_splits)
    have "x \<noteq> rs"
      using 1 c inv(1) [OF g] g by (auto split: if_splits)
    then show ?case using inv(1) [OF g] by simp
  next
    case (2 x)
    then show ?case using inv(2) [of x] by simp
  next
    case (3 a b)
    then show ?case using inv(3) [of a b] by simp
  qed
qed

lemma relay_inv_reachable: "(relay_step parse)\<^sup>*\<^sup>* relay_init y \<Longrightarrow> relay_inv y"
  by (induction rule: rtranclp_induct) (auto intro: relay_inv_init relay_inv_step)

text \<open>
  C10. The relay forwards a message to the stream registered under its target key and to no other: in
  every reachable state a received message either reaches, unchanged, exactly one open stream, whose
  key is the target key, or nobody. A stream that closes never takes away the registration of a
  newer stream of the same key.
\<close>

theorem relay_forwards_to_target:
  assumes "(relay_step parse)\<^sup>*\<^sup>* relay_init y"
  shows "(\<forall>rs msg sendOK s. Exchange_recv rs msg sendOK (server y) = Done s \<longrightarrow>
      relayed s = relayed (server y) \<or>
      (\<exists>target\<in>set (open_streams y). rsPubKey target = RelayTargetKey msg \<and>
         gget (streams (server y)) (EncodeToString (RelayTargetKey msg)) = Some target \<and>
         relayed s = relayed (server y) @ [(rsId target, msg)])) \<and>
    (\<forall>old new s. gget (streams (server y)) (EncodeToString (rsPubKey old)) = Some new \<longrightarrow> new \<noteq> old \<longrightarrow>
      Exchange_close old (server y) = Done s \<longrightarrow> gget (streams s) = gget (streams (server y)))"
proof (intro conjI allI impI)
  have inv: "relay_inv y" using relay_inv_reachable [OF assms] .
  fix rs msg sendOK s
  assume "Exchange_recv rs msg sendOK (server y) = Done s"
  note r = Exchange_recv_Done [OF this]
  show "relayed s = relayed (server y) \<or>
      (\<exists>target\<in>set (open_streams y). rsPubKey target = RelayTargetKey msg \<and>
         gget (streams (server y)) (EncodeToString (RelayTargetKey msg)) = Some target \<and>
         relayed s = relayed (server y) @ [(rsId target, msg)])"
  proof (cases "gget (streams (server y)) (EncodeToString (RelayTargetKey msg))")
    case None
    then show ?thesis using r by simp
  next
    case (Some target)
    then have "target \<in> set (open_streams y)" "rsPubKey target = RelayTargetKey msg"
      using relay_inv_stream(1) [OF inv Some] by simp_all
    then show ?thesis using r Some by auto
  qed
next
  fix old new s
  assume "gget (streams (server y)) (EncodeToString (rsPubKey old)) = Some new" "new \<noteq> old"
    "Exchange_close old (server y) = Done s"
  then show "gget (streams s) = gget (streams (server y))"
    using Exchange_close_Done by auto
qed

theorem relay_forwards_to_target_witness:
  "let k = ''0123456789'';
       ctx = \<lparr>ctxMetadata = Some [(''x-tailbus-pubkey'', [EncodeToString k])], ctxAuth = NoTLS\<rparr>;
       rs = \<lparr>rsId = 0, rsPubKey = k\<rparr>;
       y = \<lparr>server = \<lparr>streams = [(EncodeToString k, rs)], relayed = []\<rparr>, open_streams = [rs], next_id = 1\<rparr>;
       msg = (wrap (BodyEnvelope zero_envelope))\<lparr>RelayTargetKey := k\<rparr>
   in (relay_step Some)\<^sup>*\<^sup>* relay_init y \<and>
      Exchange_recv rs msg True (server y) = Done ((server y)\<lparr>relayed := [(0, msg)]\<rparr>) \<and>
      (\<exists>target\<in>set (open_streams y). rsPubKey target = RelayTargetKey msg)"
proof -
  define k where "k = ''0123456789''"
  define rs where "rs = \<lparr>rsId = 0, rsPubKey = k\<rparr>"
  define y where "y = \<lparr>server = \<lparr>streams = [(EncodeToString k, rs)], relayed = []\<rparr>, open_streams = [rs], next_id = 1\<rparr>"
  define msg where "msg = (wrap (BodyEnvelope zero_envelope))\<lparr>RelayTargetKey := k\<rparr>"
  have k: "length k = 10" "k \<noteq> []" by (simp_all add: k_def)
  have "Exchange_open Some 0 \<lparr>ctxMetadata = Some [(''x-tailbus-pubkey'', [EncodeToString k])], ctxAuth = NoTLS\<rparr> NewServer
      = Done (Inr (rs, \<lparr>streams = [(EncodeToString k, rs)], relayed = []\<rparr>))"
    by (simp add: Exchange_open_def extractPubKey_def gget_or_def DecodeString_Encode log_prefix_def Let_def rs_def
        NewServer_def k)
  then have "relay_step Some relay_init y"
    using relay_connect [of Some relay_init] by (simp add: relay_init_def y_def)
  then have reach: "(relay_step Some)\<^sup>*\<^sup>* relay_init y" by (rule r_into_rtranclp)
  have recv: "Exchange_recv rs msg True (server y) = Done ((server y)\<lparr>relayed := [(0, msg)]\<rparr>)"
    by (simp add: Exchange_recv_def log_prefix_def Let_def rs_def msg_def y_def k)
  then have "\<exists>target\<in>set (open_streams y). rsPubKey target = RelayTargetKey msg"
    using relay_forwards_to_target [OF reach] by (fastforce simp: y_def)
  then show ?thesis
    using reach recv unfolding Let_def k_def [symmetric] rs_def [symmetric] y_def [symmetric] msg_def [symmetric] by simp
qed

text \<open>
  A short key brings the relay down. A message whose target key is non-empty but shorter than
  eight bytes panics in the handler, whoever sends it and whether or not such a peer is connected,
  and so does a connection that announces a key that short in its metadata header; keys of eight
  bytes or more never do.
\<close>

theorem relay_panics_on_short_keys:
  "(8 \<le> length (rsPubKey rs) \<longrightarrow>
      (Exchange_recv rs msg sendOK s = Panic \<longleftrightarrow> RelayTargetKey msg \<noteq> [] \<and> length (RelayTargetKey msg) < 8)) \<and>
   (extractPubKey parse ctx = Inr k \<longrightarrow> (Exchange_open parse i ctx s = Panic \<longleftrightarrow> length k < 8))"
  by (auto simp: Exchange_recv_def Exchange_open_def log_prefix_def Let_def split: option.splits)

theorem relay_panics_on_short_keys_witness:
  "Exchange_recv \<lparr>rsId = 0, rsPubKey = ''0123456789''\<rparr> ((wrap (BodyEnvelope zero_envelope))\<lparr>RelayTargetKey := ''x''\<rparr>) True NewServer = Panic"
  using relay_panics_on_short_keys [of "\<lparr>rsId = 0, rsPubKey = ''0123456789''\<rparr>"
      "(wrap (BodyEnvelope zero_envelope))\<lparr>RelayTargetKey := ''x''\<rparr>" True NewServer] by simp

text \<open>
  The metadata header decides who a peer is, whatever its certificate says: a connection with a
  well-formed header \<open>x-tailbus-pubkey\<close> is registered under the announced key, so it receives
  the messages addressed to that key.
\<close>

theorem relay_trusts_header:
  assumes "8 \<le> length k"
  shows "\<exists>rs s'. Exchange_open parse i \<lparr>ctxMetadata = Some [(''x-tailbus-pubkey'', [EncodeToString k])], ctxAuth = TLS certs\<rparr> s
      = Done (Inr (rs, s')) \<and> rsId rs = i \<and> gget (streams s') (EncodeToString k) = Some rs"
  using assms by (simp add: Exchange_open_def extractPubKey_def gget_or_def DecodeString_Encode log_prefix_def Let_def)

theorem relay_trusts_header_witness:
  "\<exists>rs s'. Exchange_open (\<lambda>_. Some ''other-key'') 7
      \<lparr>ctxMetadata = Some [(''x-tailbus-pubkey'', [EncodeToString ''victim-key''])], ctxAuth = TLS [''cert'']\<rparr> NewServer
      = Done (Inr (rs, s')) \<and> rsId rs = 7 \<and> gget (streams s') (EncodeToString ''victim-key'') = Some rs"
  by (rule relay_trusts_header) simp

end
