(* ===== verification/Session.thy ===== *)
theory Session
  imports Messages
begin

text \<open>
  Sessions and their in-memory store (\<open>internal/session/session.go\<close>). The store calls two
  optional callbacks, which the daemon wires to the durable message store: they are functions on an
  abstract disk state \<open>'d\<close>, and their error results are dropped, as the code drops them.
  \<open>session_disk\<close> is the contract the callbacks have to meet for the disk to mirror the store.
\<close>

section \<open>Sessions\<close>

definition StateOpen :: string where "StateOpen = ''open''"
definition StateResolved :: string where "StateResolved = ''resolved''"

lemma states_differ [simp]: "StateOpen \<noteq> StateResolved" "StateResolved \<noteq> StateOpen"
  by (simp_all add: StateOpen_def StateResolved_def)

record session =
  sID :: string
  sFrom :: string
  sTo :: string
  sState :: string
  sTrace :: string
  sNextSeq :: "64 word"
  sCreatedAt :: time
  sUpdatedAt :: time

text \<open>\<open>New\<close> draws an identifier (\<open>uuid.New\<close>) and reads the clock: both are arguments.\<close>

definition New :: "string \<Rightarrow> time \<Rightarrow> string \<Rightarrow> string \<Rightarrow> session" where
  "New uuid now from to =
     \<lparr>sID = uuid, sFrom = from, sTo = to, sState = StateOpen, sTrace = '''', sNextSeq = 1,
      sCreatedAt = now, sUpdatedAt = now\<rparr>"

definition Clone :: "session \<Rightarrow> session" where
  "Clone s = s"

definition NextSequence :: "time \<Rightarrow> session \<Rightarrow> 64 word \<times> session" where
  "NextSequence now s = (sNextSeq s, s\<lparr>sNextSeq := sNextSeq s + 1, sUpdatedAt := now\<rparr>)"

definition Resolve :: "time \<Rightarrow> session \<Rightarrow> session result" where
  "Resolve now s =
     (if sState s \<noteq> StateOpen then Inl (SessionNotOpen (sID s) (sState s))
      else Inr (s\<lparr>sState := StateResolved, sUpdatedAt := now\<rparr>))"

section \<open>The store\<close>

record 'd store =
  sessions :: "(string, session) gomap"
  onPersist :: "(session \<Rightarrow> 'd \<Rightarrow> 'd) option"
  onRemove :: "(string \<Rightarrow> 'd \<Rightarrow> 'd) option"

definition NewStore :: "'d store" where
  "NewStore = \<lparr>sessions = [], onPersist = None, onRemove = None\<rparr>"

definition SetPersistence ::
  "(session \<Rightarrow> 'd \<Rightarrow> 'd) \<Rightarrow> (string \<Rightarrow> 'd \<Rightarrow> 'd) \<Rightarrow> 'd store \<Rightarrow> 'd store" where
  "SetPersistence persist remove s = s\<lparr>onPersist := Some persist, onRemove := Some remove\<rparr>"

definition Put :: "session \<Rightarrow> 'd store \<times> 'd \<Rightarrow> 'd store \<times> 'd" where
  "Put sess = (\<lambda>(s, d).
     (s\<lparr>sessions := gput (sID sess) sess (sessions s)\<rparr>,
      case onPersist s of None \<Rightarrow> d | Some persist \<Rightarrow> persist sess d))"

definition Get :: "'d store \<Rightarrow> string \<Rightarrow> session option" where
  "Get s i = map_option Clone (gget (sessions s) i)"

definition ListAll :: "'d store \<Rightarrow> session list" where
  "ListAll s = map Clone (gvals (sessions s))"

definition ListByHandle :: "'d store \<Rightarrow> string \<Rightarrow> session list" where
  "ListByHandle s h = map Clone (filter (\<lambda>x. sFrom x = h \<or> sTo x = h) (gvals (sessions s)))"

text \<open>
  \<open>evict\<close>: resolved sessions last updated before the cutoff are deleted, then the callback is
  called for each of them, in the order of the loop.
\<close>

definition evictable :: "time \<Rightarrow> session \<Rightarrow> bool" where
  "evictable cutoff x \<longleftrightarrow> sState x = StateResolved \<and> sUpdatedAt x < cutoff"

definition evict :: "time \<Rightarrow> int \<Rightarrow> 'd store \<times> 'd \<Rightarrow> nat \<times> ('d store \<times> 'd)" where
  "evict now ttl = (\<lambda>(s, d).
     let cutoff = now - ttl;
         evicted = map fst (filter (\<lambda>(i, x). evictable cutoff x) (sessions s));
         s' = s\<lparr>sessions := fold gdel evicted (sessions s)\<rparr>
     in (length evicted,
         (s', case onRemove s of None \<Rightarrow> d | Some remove \<Rightarrow> fold remove evicted d)))"

section \<open>What the store guarantees\<close>

definition store_wf :: "'d store \<Rightarrow> bool" where
  "store_wf s \<longleftrightarrow> gwf (sessions s) \<and> (\<forall>i x. gget (sessions s) i = Some x \<longrightarrow> sID x = i)"

lemma store_wf_New [keeps]: "store_wf NewStore"
  by (simp add: store_wf_def NewStore_def)

lemma store_wf_Put [keeps]: "store_wf s \<Longrightarrow> store_wf (fst (Put sess (s, d)))"
  by (auto simp: store_wf_def Put_def)

lemma gget_sessions: "gget (sessions s) i = Get s i"
  by (cases "gget (sessions s) i") (simp_all add: Get_def Clone_def)

lemma Get_Put: "Get (fst (Put sess (s, d))) i = (if i = sID sess then Some sess else Get s i)"
  by (simp add: Get_def Put_def Clone_def)

lemma Put_frame [simp, frame]:
  "onPersist (fst (Put sess (s, d))) = onPersist s" "onRemove (fst (Put sess (s, d))) = onRemove s"
  by (simp_all add: Put_def)

lemma evicted_keys:
  assumes "gwf m"
  shows "i \<in> set (map fst (filter (\<lambda>(i, x). P x) m)) \<longleftrightarrow> (\<exists>x. gget m i = Some x \<and> P x)"
  using assms by (force simp: gget_eq_Some_iff)

lemma Get_evict:
  assumes "store_wf s" and "evict now ttl (s, d) = (n, (s', d'))"
  shows "Get s' i = (case Get s i of
           Some x \<Rightarrow> if evictable (now - ttl) x then None else Some x | None \<Rightarrow> None)"
proof -
  let ?ev = "map fst (filter (\<lambda>(i, x). evictable (now - ttl) x) (sessions s))"
  have wf: "gwf (sessions s)"
    using assms(1) by (simp add: store_wf_def)
  have s': "sessions s' = fold gdel ?ev (sessions s)"
    using assms(2) by (auto simp: evict_def Let_def)
  have "gget (sessions s') i = (if i \<in> set ?ev then None else gget (sessions s) i)"
    by (simp only: s' gomap.get_fold_del [OF wf])
  then show ?thesis
    unfolding evicted_keys [OF wf] by (auto simp: Get_def Clone_def split: option.split)
qed

lemma store_wf_evict [keeps]:
  assumes "store_wf s" and "evict now ttl (s, d) = (n, (s', d'))"
  shows "store_wf s'"
proof -
  have "gwf (sessions s')"
    using assms by (auto simp: evict_def Let_def store_wf_def intro: gomap.wf_fold_del)
  moreover have "\<forall>i x. gget (sessions s') i = Some x \<longrightarrow> sID x = i"
    using assms(1) by (auto simp: gget_sessions Get_evict [OF assms] store_wf_def
        split: option.splits if_splits)
  ultimately show ?thesis
    by (simp add: store_wf_def)
qed

section \<open>The persistence contract\<close>

text \<open>
  A disk that stores an image \<open>img\<close> of each session under its identifier. Then the disk holds
  exactly the image of the store after every operation, so a restart finds every session.
\<close>

locale session_disk =
  fixes persist :: "session \<Rightarrow> 'd \<Rightarrow> 'd"
    and remove :: "string \<Rightarrow> 'd \<Rightarrow> 'd"
    and saved :: "'d \<Rightarrow> string \<Rightarrow> 'i option"
    and img :: "session \<Rightarrow> 'i"
    and ok :: "'d \<Rightarrow> bool"
    and storable :: "'d \<Rightarrow> session \<Rightarrow> bool"
  assumes saved_persist:
      "ok d \<Longrightarrow> storable d x \<Longrightarrow> saved (persist x d) = (saved d)(sID x \<mapsto> img x)"
    and saved_remove: "ok d \<Longrightarrow> saved (remove i d) = (saved d)(i := None)"
    and ok_persist: "ok d \<Longrightarrow> ok (persist x d)"
    and ok_remove: "ok d \<Longrightarrow> ok (remove i d)"
begin

definition wired :: "'d store \<Rightarrow> bool" where
  "wired s \<longleftrightarrow> onPersist s = Some persist \<and> onRemove s = Some remove"

definition mirrors :: "'d store \<times> 'd \<Rightarrow> bool" where
  "mirrors sd \<longleftrightarrow> wired (fst sd) \<and> ok (snd sd) \<and>
     (\<forall>i. saved (snd sd) i = map_option img (Get (fst sd) i))"

lemma fold_remove: "ok d \<Longrightarrow> ok (fold remove ids d) \<and>
    saved (fold remove ids d) = (\<lambda>i. if i \<in> set ids then None else saved d i)"
  by (induction ids arbitrary: d) (auto simp: saved_remove ok_remove)

lemma mirrors_Put:
  assumes "mirrors (s, d)" and "storable d x"
  shows "mirrors (Put x (s, d))"
proof -
  have "snd (Put x (s, d)) = persist x d"
    using assms(1) by (simp add: mirrors_def wired_def Put_def)
  then show ?thesis
    using assms by (auto simp: mirrors_def wired_def Get_Put saved_persist ok_persist)
qed

lemma mirrors_evict:
  assumes "mirrors (s, d)" and "store_wf s" and "evict now ttl (s, d) = (n, sd')"
  shows "mirrors sd'"
proof -
  obtain s' d' where sd': "sd' = (s', d')" by (cases sd')
  let ?ev = "map fst (filter (\<lambda>(i, x). evictable (now - ttl) x) (sessions s))"
  have wf: "gwf (sessions s)"
    using assms(2) by (simp add: store_wf_def)
  have d': "d' = fold remove ?ev d" and w: "wired s'"
    using assms(1,3) by (auto simp: evict_def Let_def mirrors_def wired_def sd')
  have d: "ok d" "\<And>i. saved d i = map_option img (Get s i)"
    using assms(1) by (auto simp: mirrors_def)
  have "saved d' i = map_option img (Get s' i)" for i
  proof -
    have "saved d' i = (if i \<in> set ?ev then None else map_option img (Get s i))"
      using fold_remove [OF d(1), of ?ev] d(2) by (simp only: d')
    also have "\<dots> = map_option img (Get s' i)"
      unfolding evicted_keys [OF wf] Get_evict [OF assms(2) assms(3) [unfolded sd']]
      by (auto simp: Get_def Clone_def split: option.split)
    finally show ?thesis .
  qed
  then show ?thesis
    using w fold_remove [OF d(1), of ?ev] by (simp add: mirrors_def sd' d')
qed

end

end
