(* ===== verification/Message_Store.thy ===== *)
theory Message_Store
  imports Session
begin

text \<open>
  The durable store of a daemon (\<open>internal/daemon/msgstore.go\<close>). A bbolt bucket is a list of
  keys and values in the byte order of the keys, as its cursor visits them. The protobuf and JSON
  encodings are the fields of a parameter \<open>codec\<close> over an abstract type \<open>'r\<close> of byte
  strings; where a result depends on them, \<open>codec_ok\<close> states that decoding inverts encoding.
  A write transaction fails as a whole when the database refuses it (\<open>ioOK\<close>) or a key is empty
  or longer than bbolt allows.
\<close>

section \<open>Buckets\<close>

type_synonym 'v bucket = "(string \<times> 'v) list"

fun bput :: "string \<Rightarrow> 'v \<Rightarrow> 'v bucket \<Rightarrow> 'v bucket" where
  "bput k v [] = [(k, v)]"
| "bput k v ((k', v') # b) =
     (if k < k' then (k, v) # (k', v') # b
      else if k = k' then (k, v) # b
      else (k', v') # bput k v b)"

definition bdel :: "string \<Rightarrow> 'v bucket \<Rightarrow> 'v bucket" where
  "bdel k b = filter (\<lambda>(k', v). k' \<noteq> k) b"

abbreviation bget :: "'v bucket \<Rightarrow> string \<Rightarrow> 'v option" where
  "bget \<equiv> map_of"

definition bwf :: "'v bucket \<Rightarrow> bool" where
  "bwf b \<longleftrightarrow> sorted_wrt (<) (map fst b)"

text \<open>\<open>Cursor().Seek(k)\<close> and the iteration that follows it.\<close>

definition bseek :: "string \<Rightarrow> 'v bucket \<Rightarrow> 'v bucket" where
  "bseek k b = dropWhile (\<lambda>(k', v). k' < k) b"

definition bolt_put :: "string \<Rightarrow> 'v \<Rightarrow> 'v bucket \<Rightarrow> 'v bucket result" where
  "bolt_put k v b = (if k = [] \<or> length k > 32768 then Inl DatabaseError else Inr (bput k v b))"

lemma bwf_Nil [simp]: "bwf []"
  by (simp add: bwf_def)

lemma bwf_Cons: "bwf ((k, v) # b) \<longleftrightarrow> bwf b \<and> (\<forall>(k', v')\<in>set b. k < k')"
  by (auto simp: bwf_def)

lemma keys_bput [simp]: "fst ` set (bput k v b) = insert k (fst ` set b)"
  by (induction k v b rule: bput.induct) auto

lemma bwf_distinct: "bwf b \<Longrightarrow> distinct (map fst b)"
  unfolding bwf_def by (simp add: strict_sorted_iff)

lemma set_bput: "bwf b \<Longrightarrow> set (bput k v b) = insert (k, v) {p \<in> set b. fst p \<noteq> k}"
  by (induction k v b rule: bput.induct) (auto simp: bwf_Cons)

lemma bwf_bput: "bwf b \<Longrightarrow> bwf (bput k v b)"
proof (induction k v b rule: bput.induct)
  case (2 k v k' v' b)
  then show ?case
    by (auto simp: bwf_Cons set_bput)
qed (simp add: bwf_def)

lemma bget_bput: "bwf b \<Longrightarrow> bget (bput k v b) = (bget b)(k \<mapsto> v)"
proof (induction k v b rule: bput.induct)
  case (2 k v k' v' b)
  then show ?case
    by (auto simp: bwf_Cons)
qed simp

lemma bwf_bdel: "bwf b \<Longrightarrow> bwf (bdel k b)"
  unfolding bdel_def by (induction b) (auto simp: bwf_Cons split: prod.splits)

lemma bget_bdel: "bget (bdel k b) = (bget b)(k := None)"
  unfolding bdel_def by (induction b) (auto split: prod.splits)

interpretation bucket: kv_map bget bput bdel bwf
  by unfold_locales (simp_all add: bget_bput bget_bdel bwf_bput bwf_bdel)

lemma bseek_filter: "bwf b \<Longrightarrow> bseek k b = filter (\<lambda>(k', v). \<not> k' < k) b"
proof (induction b)
  case (Cons p b)
  obtain a v where p: "p = (a, v)" by (cases p)
  show ?case
  proof (cases "a < k")
    case True
    then show ?thesis
      using Cons by (simp add: bseek_def bwf_Cons p)
  next
    case False
    then have "\<forall>(k', v')\<in>set b. \<not> k' < k"
      using Cons.prems by (auto simp: bwf_Cons p)
    then have "filter (\<lambda>(k', v). \<not> k' < k) b = b"
      by (auto intro!: filter_True)
    with False show ?thesis
      by (simp add: bseek_def p)
  qed
qed (simp add: bseek_def)

section \<open>Stored forms and the codec\<close>

record stored_session =
  ssID :: string
  ssFromHandle :: string
  ssToHandle :: string
  ssState :: string
  ssTraceID :: string
  ssNextSeq :: "64 word"
  ssCreatedAt :: int
  ssUpdatedAt :: int

record 'r stored_pending =
  spEnvelopeRaw :: 'r
  spPeerAddr :: string
  spStoredAt :: int
  spRetries :: int

record 'r codec =
  encEnvelope :: "envelope \<Rightarrow> 'r option"
  decEnvelope :: "'r \<Rightarrow> envelope option"
  encPending :: "'r stored_pending \<Rightarrow> 'r option"
  decPending :: "'r \<Rightarrow> 'r stored_pending option"
  encSession :: "stored_session \<Rightarrow> 'r option"
  decSession :: "'r \<Rightarrow> stored_session option"
  encRoom :: "room_info \<Rightarrow> 'r option"
  decRoom :: "'r \<Rightarrow> room_info option"
  encEvent :: "room_event \<Rightarrow> 'r option"
  decEvent :: "'r \<Rightarrow> room_event option"

text \<open>Decoding inverts encoding: what the encodings document for values they accept.\<close>

definition codec_ok :: "'r codec \<Rightarrow> bool" where
  "codec_ok C \<longleftrightarrow>
     (\<forall>x r. encEnvelope C x = Some r \<longrightarrow> decEnvelope C r = Some x) \<and>
     (\<forall>x r. encPending C x = Some r \<longrightarrow> decPending C r = Some x) \<and>
     (\<forall>x r. encSession C x = Some r \<longrightarrow> decSession C r = Some x) \<and>
     (\<forall>x r. encRoom C x = Some r \<longrightarrow> decRoom C r = Some x) \<and>
     (\<forall>x r. encEvent C x = Some r \<longrightarrow> decEvent C r = Some x)"

record pending_message =
  pmEnv :: envelope
  pmPeerAddr :: string
  pmSentAt :: time
  pmRetries :: int

record 'r message_store =
  msCodec :: "'r codec"
  ioOK :: bool
  bucketPending :: "'r bucket"
  bucketSessions :: "'r bucket"
  bucketRooms :: "'r bucket"
  bucketRoomLogs :: "'r bucket bucket"
  bucketUsageDaily :: "string bucket bucket"
  bucketUsageHourly :: "string bucket bucket"

definition NewMessageStore :: "'r codec \<Rightarrow> 'r message_store" where
  "NewMessageStore C = \<lparr>msCodec = C, ioOK = True, bucketPending = [], bucketSessions = [],
     bucketRooms = [], bucketRoomLogs = [], bucketUsageDaily = [], bucketUsageHourly = []\<rparr>"

text \<open>\<open>db.Update\<close>: the changes of the body, or none of them.\<close>

definition db_update ::
  "('r message_store \<Rightarrow> 'r message_store result) \<Rightarrow> 'r message_store \<Rightarrow> 'r message_store result" where
  "db_update body ms = (if ioOK ms then body ms else Inl DatabaseError)"

text \<open>The state after a call whose error the caller only logs.\<close>

definition or_keep :: "'s result \<Rightarrow> 's \<Rightarrow> 's" where
  "or_keep r s = (case r of Inl _ \<Rightarrow> s | Inr s' \<Rightarrow> s')"

definition encoded :: "'r option \<Rightarrow> 'r result" where
  "encoded x = (case x of None \<Rightarrow> Inl MarshalFailed | Some r \<Rightarrow> Inr r)"

section \<open>Pending messages\<close>

definition storePending ::
  "envelope \<Rightarrow> string \<Rightarrow> int \<Rightarrow> int \<Rightarrow> 'r message_store \<Rightarrow> 'r message_store result" where
  "storePending env addr storedAt retries ms =
     (case encEnvelope (msCodec ms) env of None \<Rightarrow> Inl MarshalFailed | Some raw \<Rightarrow>
      case encPending (msCodec ms)
             \<lparr>spEnvelopeRaw = raw, spPeerAddr = addr, spStoredAt = storedAt, spRetries = retries\<rparr> of
        None \<Rightarrow> Inl MarshalFailed
      | Some val \<Rightarrow>
          db_update (\<lambda>ms. map_sum id (\<lambda>b. ms\<lparr>bucketPending := b\<rparr>)
                            (bolt_put (MessageId env) val (bucketPending ms))) ms)"

definition StorePending :: "time \<Rightarrow> envelope \<Rightarrow> string \<Rightarrow> 'r message_store \<Rightarrow> 'r message_store result" where
  "StorePending now env addr ms = storePending env addr (unix now) 0 ms"

definition UpdatePending :: "string \<Rightarrow> time \<Rightarrow> int \<Rightarrow> 'r message_store \<Rightarrow> 'r message_store result" where
  "UpdatePending i sentAt retries ms = db_update (\<lambda>ms.
     case bget (bucketPending ms) i of
       None \<Rightarrow> Inr ms
     | Some raw \<Rightarrow>
         (case decPending (msCodec ms) raw of None \<Rightarrow> Inl UnmarshalFailed | Some sp \<Rightarrow>
          case encPending (msCodec ms) (sp\<lparr>spStoredAt := unix sentAt, spRetries := retries\<rparr>) of
            None \<Rightarrow> Inl MarshalFailed
          | Some val \<Rightarrow> map_sum id (\<lambda>b. ms\<lparr>bucketPending := b\<rparr>) (bolt_put i val (bucketPending ms)))) ms"

definition RemovePending :: "string \<Rightarrow> 'r message_store \<Rightarrow> 'r message_store result" where
  "RemovePending i = db_update (\<lambda>ms. Inr (ms\<lparr>bucketPending := bdel i (bucketPending ms)\<rparr>))"

definition decode_pending :: "'r codec \<Rightarrow> 'r \<Rightarrow> pending_message option" where
  "decode_pending C raw =
     (case decPending C raw of None \<Rightarrow> None | Some sp \<Rightarrow>
      case decEnvelope C (spEnvelopeRaw sp) of None \<Rightarrow> None | Some env \<Rightarrow>
        Some \<lparr>pmEnv = env, pmPeerAddr = spPeerAddr sp, pmSentAt = from_unix (spStoredAt sp),
              pmRetries = spRetries sp\<rparr>)"

text \<open>\<open>LoadPending\<close> skips entries it cannot decode.\<close>

definition LoadPending :: "'r message_store \<Rightarrow> pending_message list" where
  "LoadPending ms = List.map_filter (\<lambda>(k, v). decode_pending (msCodec ms) v) (bucketPending ms)"

definition PendingCount :: "'r message_store \<Rightarrow> nat" where
  "PendingCount ms = length (bucketPending ms)"

section \<open>Sessions\<close>

definition stored_of :: "session \<Rightarrow> stored_session" where
  "stored_of x = \<lparr>ssID = sID x, ssFromHandle = sFrom x, ssToHandle = sTo x, ssState = sState x,
     ssTraceID = sTrace x, ssNextSeq = sNextSeq x, ssCreatedAt = unix (sCreatedAt x),
     ssUpdatedAt = unix (sUpdatedAt x)\<rparr>"

definition StoreSession :: "session \<Rightarrow> 'r message_store \<Rightarrow> 'r message_store result" where
  "StoreSession x ms =
     (case encSession (msCodec ms) (stored_of x) of None \<Rightarrow> Inl MarshalFailed | Some val \<Rightarrow>
        db_update (\<lambda>ms. map_sum id (\<lambda>b. ms\<lparr>bucketSessions := b\<rparr>)
                          (bolt_put (sID x) val (bucketSessions ms))) ms)"

definition RemoveSession :: "string \<Rightarrow> 'r message_store \<Rightarrow> 'r message_store result" where
  "RemoveSession i = db_update (\<lambda>ms. Inr (ms\<lparr>bucketSessions := bdel i (bucketSessions ms)\<rparr>))"

definition session_of :: "stored_session \<Rightarrow> session" where
  "session_of ss = \<lparr>sID = ssID ss, sFrom = ssFromHandle ss, sTo = ssToHandle ss, sState = ssState ss,
     sTrace = ssTraceID ss, sNextSeq = ssNextSeq ss, sCreatedAt = from_unix (ssCreatedAt ss),
     sUpdatedAt = from_unix (ssUpdatedAt ss)\<rparr>"

definition LoadSessions :: "'r message_store \<Rightarrow> session list" where
  "LoadSessions ms =
     List.map_filter (\<lambda>(k, v). map_option session_of (decSession (msCodec ms) v)) (bucketSessions ms)"

section \<open>Rooms and their event logs\<close>

definition roomSeqKey :: "64 word \<Rightarrow> string" where
  "roomSeqKey seq = pad0 20 (dec_nat (unat seq))"

definition StoreRoom :: "room_info \<Rightarrow> 'r message_store \<Rightarrow> 'r message_store result" where
  "StoreRoom room ms =
     (case encRoom (msCodec ms) room of None \<Rightarrow> Inl MarshalFailed | Some raw \<Rightarrow>
        db_update (\<lambda>ms. map_sum id (\<lambda>b. ms\<lparr>bucketRooms := b\<rparr>)
                          (bolt_put (RoomId room) raw (bucketRooms ms))) ms)"

definition LoadRoom :: "string \<Rightarrow> 'r message_store \<Rightarrow> room_info option result" where
  "LoadRoom i ms =
     (case bget (bucketRooms ms) i of
        None \<Rightarrow> Inr None
      | Some raw \<Rightarrow> (case decRoom (msCodec ms) raw of None \<Rightarrow> Inl UnmarshalFailed
                                                     | Some room \<Rightarrow> Inr (Some room)))"

fun decode_all :: "('r \<Rightarrow> 'a option) \<Rightarrow> 'r bucket \<Rightarrow> 'a list result" where
  "decode_all dec [] = Inr []"
| "decode_all dec ((k, v) # b) =
     (case dec v of None \<Rightarrow> Inl UnmarshalFailed
                  | Some x \<Rightarrow> map_sum id (\<lambda>xs. x # xs) (decode_all dec b))"

definition LoadRooms :: "'r message_store \<Rightarrow> room_info list result" where
  "LoadRooms ms = decode_all (decRoom (msCodec ms)) (bucketRooms ms)"

definition countKeys :: "'v bucket \<Rightarrow> nat" where
  "countKeys b = length b"

function enforce_retention :: "int \<Rightarrow> 'v bucket \<Rightarrow> 'v bucket" where
  "enforce_retention maxEvents b =
     (if maxEvents > 0 \<and> int (countKeys b) > maxEvents
      then case b of [] \<Rightarrow> b | (k, _) # _ \<Rightarrow> enforce_retention maxEvents (bdel k b)
      else b)"
  by pat_completeness auto
termination
proof (relation "measure (\<lambda>(m, b). length b)")
  fix maxEvents :: int and b :: "'v bucket" and p b' k v
  assume "b = p # b'" "(k, v) = p"
  then show "((maxEvents, bdel k b), maxEvents, b) \<in> measure (\<lambda>(m, b). length b)"
    by (auto simp: bdel_def less_Suc_eq_le)
qed auto

declare enforce_retention.simps [simp del]

definition StoreRoomEvent :: "room_event \<Rightarrow> int \<Rightarrow> 'r message_store \<Rightarrow> 'r message_store result" where
  "StoreRoomEvent event maxEvents ms =
     (case encEvent (msCodec ms) event of None \<Rightarrow> Inl MarshalFailed | Some raw \<Rightarrow>
        db_update (\<lambda>ms.
          let rid = EvRoomId event;
              log = (case bget (bucketRoomLogs ms) rid of None \<Rightarrow> [] | Some b \<Rightarrow> b)
          in if rid = [] \<or> length rid > 32768 then Inl DatabaseError
             else case bolt_put (roomSeqKey (RoomSeq event)) raw log of
                    Inl e \<Rightarrow> Inl e
                  | Inr log' \<Rightarrow>
                      Inr (ms\<lparr>bucketRoomLogs :=
                             bput rid (enforce_retention maxEvents log') (bucketRoomLogs ms)\<rparr>)) ms)"

definition room_log :: "'r message_store \<Rightarrow> string \<Rightarrow> 'r bucket" where
  "room_log ms rid = (case bget (bucketRoomLogs ms) rid of None \<Rightarrow> [] | Some b \<Rightarrow> b)"

definition ReplayRoomEvents :: "string \<Rightarrow> 64 word \<Rightarrow> 'r message_store \<Rightarrow> room_event list result" where
  "ReplayRoomEvents rid sinceSeq ms =
     (case bget (bucketRoomLogs ms) rid of
        None \<Rightarrow> Inr []
      | Some b \<Rightarrow> decode_all (decEvent (msCodec ms)) (bseek (roomSeqKey (sinceSeq + 1)) b))"

section \<open>Usage counters\<close>

datatype usage_metric =
  METRIC_UNSPECIFIED | MESSAGES_ROUTED | SESSIONS_OPENED | ROOM_MESSAGES_POSTED | ROOMS_CREATED

fun metric_num :: "usage_metric \<Rightarrow> int" where
  "metric_num METRIC_UNSPECIFIED = 0"
| "metric_num MESSAGES_ROUTED = 1"
| "metric_num SESSIONS_OPENED = 2"
| "metric_num ROOM_MESSAGES_POSTED = 3"
| "metric_num ROOMS_CREATED = 4"

definition usageMetricBucketKey :: "usage_metric \<Rightarrow> string" where
  "usageMetricBucketKey m = fmt0d 2 (metric_num m)"

definition usageTimeBucketKey :: "int \<Rightarrow> string" where
  "usageTimeBucketKey u = fmt0d 20 u"

text \<open>The start of the hour or of the day, in UTC.\<close>

definition usageBucketStart :: "time \<Rightarrow> bool \<Rightarrow> time" where
  "usageBucketStart ts hourly =
     (let width = (if hourly then 3600 else 86400) * second in ts div width * width)"

definition int64 :: "int \<Rightarrow> int" where
  "int64 x = sint (word_of_int x :: 64 word)"

definition incrementUsageBucket ::
  "usage_metric \<Rightarrow> int \<Rightarrow> int \<Rightarrow> string bucket bucket \<Rightarrow> string bucket bucket result" where
  "incrementUsageBucket metric start delta root =
     (let mk = usageMetricBucketKey metric;
          mb = (case bget root mk of None \<Rightarrow> [] | Some b \<Rightarrow> b);
          key = usageTimeBucketKey start
      in case (case bget mb key of None \<Rightarrow> Some 0 | Some raw \<Rightarrow> ParseInt raw) of
           None \<Rightarrow> Inl (ParseFailed key)
         | Some current \<Rightarrow> Inr (bput mk (bput key (FormatInt (int64 (current + delta))) mb) root))"

definition RecordUsage :: "usage_metric \<Rightarrow> time \<Rightarrow> int \<Rightarrow> 'r message_store \<Rightarrow> 'r message_store result" where
  "RecordUsage metric at cnt ms =
     (if metric = METRIC_UNSPECIFIED \<or> cnt = 0 then Inr ms
      else let dayStart = unix (usageBucketStart at False); hourStart = unix (usageBucketStart at True)
           in db_update (\<lambda>ms.
                case incrementUsageBucket metric dayStart cnt (bucketUsageDaily ms) of
                  Inl e \<Rightarrow> Inl e
                | Inr daily \<Rightarrow>
                    (case incrementUsageBucket metric hourStart cnt (bucketUsageHourly ms) of
                       Inl e \<Rightarrow> Inl e
                     | Inr hourly \<Rightarrow>
                         Inr (ms\<lparr>bucketUsageDaily := daily, bucketUsageHourly := hourly\<rparr>))) ms)"

definition usageMetricsInOrder :: "usage_metric list" where
  "usageMetricsInOrder = [MESSAGES_ROUTED, SESSIONS_OPENED, ROOM_MESSAGES_POSTED, ROOMS_CREATED]"

record usage_history =
  uhMetric :: usage_metric
  uhDailyBuckets :: "(int \<times> int) list"
  uhTotal :: int

fun load_buckets :: "string bucket \<Rightarrow> usage_history \<Rightarrow> usage_history result" where
  "load_buckets [] h = Inr h"
| "load_buckets ((k, v) # b) h =
     (case ParseInt k of None \<Rightarrow> Inl (ParseFailed k) | Some start \<Rightarrow>
      case ParseInt v of None \<Rightarrow> Inl (ParseFailed v) | Some cnt \<Rightarrow>
        load_buckets b (h\<lparr>uhDailyBuckets := uhDailyBuckets h @ [(start, cnt)],
                          uhTotal := int64 (uhTotal h + cnt)\<rparr>))"

definition loadUsageMetricHistory :: "string bucket bucket \<Rightarrow> usage_metric \<Rightarrow> usage_history result" where
  "loadUsageMetricHistory root metric =
     (let h = \<lparr>uhMetric = metric, uhDailyBuckets = [], uhTotal = 0\<rparr>
      in case bget root (usageMetricBucketKey metric) of None \<Rightarrow> Inr h | Some b \<Rightarrow> load_buckets b h)"

text \<open>The histories read before the first error, and that error.\<close>

fun collect :: "'a result list \<Rightarrow> 'a list \<times> go_err option" where
  "collect [] = ([], None)"
| "collect (Inl e # xs) = ([], Some e)"
| "collect (Inr x # xs) = (case collect xs of (ys, e) \<Rightarrow> (x # ys, e))"

definition LoadUsageHistory :: "'r message_store \<Rightarrow> usage_history list \<times> go_err option" where
  "LoadUsageHistory ms = collect (map (loadUsageMetricHistory (bucketUsageDaily ms)) usageMetricsInOrder)"

section \<open>Sessions survive a restart\<close>

definition persist_session :: "session \<Rightarrow> 'r message_store \<Rightarrow> 'r message_store" where
  "persist_session x ms = or_keep (StoreSession x ms) ms"

definition remove_session :: "string \<Rightarrow> 'r message_store \<Rightarrow> 'r message_store" where
  "remove_session i ms = or_keep (RemoveSession i ms) ms"

definition saved_session :: "'r message_store \<Rightarrow> string \<Rightarrow> stored_session option" where
  "saved_session ms i = Option.bind (bget (bucketSessions ms) i) (decSession (msCodec ms))"

definition disk_ok :: "'r message_store \<Rightarrow> bool" where
  "disk_ok ms \<longleftrightarrow> codec_ok (msCodec ms) \<and> ioOK ms \<and> bwf (bucketSessions ms)"

definition key_ok :: "string \<Rightarrow> bool" where
  "key_ok k \<longleftrightarrow> k \<noteq> [] \<and> length k \<le> 32768"

definition storable_session :: "'r message_store \<Rightarrow> session \<Rightarrow> bool" where
  "storable_session ms x \<longleftrightarrow> key_ok (sID x) \<and> encSession (msCodec ms) (stored_of x) \<noteq> None"

lemmas store_defs = db_update_def or_keep_def bolt_put_def key_ok_def

lemma persist_session_eq:
  "disk_ok ms \<Longrightarrow> storable_session ms x \<Longrightarrow> persist_session x ms =
     ms\<lparr>bucketSessions := bput (sID x) (the (encSession (msCodec ms) (stored_of x))) (bucketSessions ms)\<rparr>"
  by (auto simp: persist_session_def StoreSession_def store_defs disk_ok_def storable_session_def)

lemma remove_session_eq:
  "disk_ok ms \<Longrightarrow> remove_session i ms = ms\<lparr>bucketSessions := bdel i (bucketSessions ms)\<rparr>"
  by (simp add: remove_session_def RemoveSession_def store_defs disk_ok_def)

lemma disk_ok_persist: "disk_ok ms \<Longrightarrow> disk_ok (persist_session x ms)"
  by (auto simp: persist_session_def StoreSession_def store_defs disk_ok_def bwf_bput
      split: option.splits sum.splits if_splits)

lemma msCodec_persist [simp, frame]: "msCodec (persist_session x ms) = msCodec ms"
  by (auto simp: persist_session_def StoreSession_def store_defs split: option.splits)

lemma msCodec_remove [simp, frame]: "msCodec (remove_session i ms) = msCodec ms"
  by (simp add: remove_session_def RemoveSession_def store_defs)

lemma decSession_enc: "codec_ok C \<Longrightarrow> encSession C x = Some r \<Longrightarrow> decSession C r = Some x"
  by (simp add: codec_ok_def)

interpretation disk: session_disk persist_session remove_session saved_session stored_of disk_ok storable_session
proof unfold_locales
  fix d :: "'r message_store" and x
  assume d: "disk_ok d" and x: "storable_session d x"
  have "decSession (msCodec d) (the (encSession (msCodec d) (stored_of x))) = Some (stored_of x)"
    using d x by (auto simp: disk_ok_def storable_session_def intro: decSession_enc)
  then show "saved_session (persist_session x d) = (saved_session d)(sID x \<mapsto> stored_of x)"
    using d by (auto simp: saved_session_def persist_session_eq [OF d x] bget_bput disk_ok_def)
next
  fix d :: "'r message_store" and i
  assume d: "disk_ok d"
  show "saved_session (remove_session i d) = (saved_session d)(i := None)"
    by (auto simp: saved_session_def remove_session_eq [OF d] bget_bdel)
  show "disk_ok (remove_session i d)"
    using d by (simp add: remove_session_eq [OF d] disk_ok_def bwf_bdel)
next
  fix d :: "'r message_store" and x
  assume "disk_ok d"
  then show "disk_ok (persist_session x d)" by (rule disk_ok_persist)
qed

text \<open>The daemon wires the callbacks, and at start-up puts every stored session back.\<close>

definition wired_store :: "'r message_store store" where
  "wired_store = SetPersistence persist_session remove_session NewStore"

definition restore_sessions :: "'r message_store \<Rightarrow> 'r message_store store \<times> 'r message_store" where
  "restore_sessions ms = fold Put (LoadSessions ms) (wired_store, ms)"

datatype store_op = OpPut session | OpEvict time int

fun run_op :: "store_op \<Rightarrow> 'r message_store store \<times> 'r message_store \<Rightarrow> 'r message_store store \<times> 'r message_store" where
  "run_op (OpPut x) sd = Put x sd"
| "run_op (OpEvict now ttl) sd = snd (evict now ttl sd)"

fun storable_op :: "'r codec \<Rightarrow> store_op \<Rightarrow> bool" where
  "storable_op C (OpPut x) \<longleftrightarrow> key_ok (sID x) \<and> encSession C (stored_of x) \<noteq> None"
| "storable_op C (OpEvict now ttl) \<longleftrightarrow> True"

lemma snd_Put_wired:
  "onPersist s = Some persist_session \<Longrightarrow> snd (Put x (s, d)) = persist_session x d"
  by (simp add: Put_def)

lemma run_op_inv:
  assumes "disk.mirrors sd" and "store_wf (fst sd)" and "msCodec (snd sd) = C" and "storable_op C op"
  shows "disk.mirrors (run_op op sd) \<and> store_wf (fst (run_op op sd)) \<and> msCodec (snd (run_op op sd)) = C"
proof -
  obtain s d where sd: "sd = (s, d)" by (cases sd)
  have w: "onPersist s = Some persist_session" "onRemove s = Some remove_session"
    using assms(1) by (auto simp: sd disk.mirrors_def disk.wired_def)
  show ?thesis
  proof (cases op)
    case (OpPut x)
    then have "storable_session d x"
      using assms(3,4) by (simp add: storable_session_def sd)
    then show ?thesis
      using disk.mirrors_Put assms store_wf_Put [of s x d] w
      by (simp add: OpPut sd snd_Put_wired)
  next
    case (OpEvict now ttl)
    obtain n s' d' where e: "evict now ttl (s, d) = (n, (s', d'))"
      by (metis prod.collapse)
    have "msCodec (fold remove_session ids m) = msCodec m" for ids and m :: "'a message_store"
      by (induction ids arbitrary: m) auto
    then have "msCodec d' = msCodec d"
      using e w by (auto simp: evict_def Let_def)
    then show ?thesis
      using disk.mirrors_evict [of s d now ttl n "(s', d')"] store_wf_evict [OF _ e] assms e
      by (simp add: OpEvict sd)
  qed
qed

lemma run_ops_inv:
  "disk.mirrors sd \<Longrightarrow> store_wf (fst sd) \<Longrightarrow> msCodec (snd sd) = C \<Longrightarrow> list_all (storable_op C) ops \<Longrightarrow>
     disk.mirrors (fold run_op ops sd) \<and> store_wf (fst (fold run_op ops sd))"
proof (induction ops arbitrary: sd)
  case (Cons op ops)
  then show ?case
    using run_op_inv [of sd C op] by simp
qed simp

lemma set_map_filter: "set (List.map_filter f xs) = {y. \<exists>x\<in>set xs. f x = Some y}"
  by (force simp: List.map_filter_def)

text \<open>Records read from a bucket whose key is the identifier \<open>g\<close> of the record have distinct identifiers.\<close>

lemma distinct_decoded:
  assumes "distinct (map fst b)" and "\<And>k v y. (k, v) \<in> set b \<Longrightarrow> f v = Some y \<Longrightarrow> g y = k"
  shows "distinct (map g (List.map_filter (\<lambda>(k, v). f v) b))"
proof -
  let ?ids = "\<lambda>b. map g (List.map_filter (\<lambda>(k, v). f v) b)"
  have "distinct (?ids b) \<and> set (?ids b) \<subseteq> set (map fst b)"
    using assms
  proof (induction b)
    case (Cons p b)
    obtain k v where p: "p = (k, v)" by (cases p)
    have "distinct (?ids b) \<and> set (?ids b) \<subseteq> set (map fst b)"
    proof (rule Cons.IH)
      show "distinct (map fst b)" using Cons.prems(1) by simp
      show "g y = k" if "(k, v) \<in> set b" "f v = Some y" for k v y
        using that by (intro Cons.prems(2)) simp_all
    qed
    then have IH: "distinct (?ids b)" "set (?ids b) \<subseteq> set (map fst b)" by blast+
    have "g y = k" if "f v = Some y" for y
      using Cons.prems(2) [OF _ that] p by simp
    moreover have "k \<notin> set (map fst b)"
      using Cons.prems(1) p by simp
    ultimately show ?case
      using IH by (cases "f v") (auto simp: List.map_filter_simps p)
  qed (simp add: List.map_filter_simps)
  then show ?thesis by simp
qed

lemma LoadSessions_of_mirror:
  assumes "disk.mirrors (s, d)" and "store_wf s"
  shows "x \<in> set (LoadSessions d) \<longleftrightarrow> (\<exists>y. Get s (sID x) = Some y \<and> x = session_of (stored_of y))"
    and "distinct (map sID (LoadSessions d))"
proof -
  have bwf: "bwf (bucketSessions d)"
    and sv: "\<And>i. saved_session d i = map_option stored_of (Get s i)"
    using assms(1) by (auto simp: disk.mirrors_def disk_ok_def)
  have key: "Get s k = Some y \<Longrightarrow> sID y = k" for k y
    using assms(2) by (simp add: store_wf_def gget_sessions)
  have entry: "(k, v) \<in> set (bucketSessions d) \<Longrightarrow> decSession (msCodec d) v = Some ss \<longleftrightarrow>
      saved_session d k = Some ss" for k v ss
    using bwf_distinct [OF bwf] by (simp add: saved_session_def)
  have saved_entry: "saved_session d k = Some ss \<Longrightarrow> \<exists>v. (k, v) \<in> set (bucketSessions d)" for k ss
    by (auto simp: saved_session_def bind_eq_Some_conv dest: map_of_SomeD)
  have ids: "decSession (msCodec d) v = Some ss \<Longrightarrow> (k, v) \<in> set (bucketSessions d) \<Longrightarrow> ssID ss = k" for k v ss
    using entry sv key by (fastforce simp: stored_of_def)
  show "x \<in> set (LoadSessions d) \<longleftrightarrow> (\<exists>y. Get s (sID x) = Some y \<and> x = session_of (stored_of y))"
  proof
    assume "x \<in> set (LoadSessions d)"
    then obtain k v ss where kv: "(k, v) \<in> set (bucketSessions d)" "decSession (msCodec d) v = Some ss"
      and x: "x = session_of ss"
      by (auto simp: LoadSessions_def set_map_filter)
    then obtain y where "Get s k = Some y" "ss = stored_of y"
      using entry sv by fastforce
    then show "\<exists>y. Get s (sID x) = Some y \<and> x = session_of (stored_of y)"
      using x key by (auto simp: session_of_def stored_of_def)
  next
    assume "\<exists>y. Get s (sID x) = Some y \<and> x = session_of (stored_of y)"
    then obtain y where y: "Get s (sID x) = Some y" "x = session_of (stored_of y)" by blast
    then have "saved_session d (sID x) = Some (stored_of y)"
      by (simp add: sv)
    then obtain v where "(sID x, v) \<in> set (bucketSessions d)" "decSession (msCodec d) v = Some (stored_of y)"
      using saved_entry entry by blast
    then show "x \<in> set (LoadSessions d)"
      unfolding LoadSessions_def set_map_filter using y(2) by (auto intro!: bexI)
  qed
  have "sID y = k" if "(k, v) \<in> set (bucketSessions d)" "map_option session_of (decSession (msCodec d) v) = Some y" for k v y
    using that ids by (auto simp: session_of_def)
  then show "distinct (map sID (LoadSessions d))"
    unfolding LoadSessions_def by (rule distinct_decoded [OF bwf_distinct [OF bwf]])
qed

lemma Get_fold_Put:
  "distinct (map sID xs) \<Longrightarrow>
     Get (fst (fold Put xs sd)) i = (case find (\<lambda>x. sID x = i) xs of Some x \<Rightarrow> Some x | None \<Rightarrow> Get (fst sd) i)"
proof (induction xs arbitrary: sd)
  case (Cons x xs)
  have g: "Get (fst (Put x sd)) i = (if i = sID x then Some x else Get (fst sd) i)"
    using Get_Put [of x "fst sd" "snd sd" i] by simp
  have "sID x = i \<Longrightarrow> find (\<lambda>x. sID x = i) xs = None"
    using Cons.prems by (force simp: find_None_iff image_iff)
  with Cons g show ?case
    by (auto split: option.split)
qed simp

text \<open>
  C7. Sessions survive a restart: after any sequence of \<open>Put\<close> and \<open>evict\<close> on a store wired
  to the durable database, a fresh daemon that loads the database holds exactly the sessions the
  old store held, with their time stamps rounded down to whole seconds.
\<close>

theorem sessions_survive_restart:
  assumes "codec_ok C" and "list_all (storable_op C) ops"
    and "fold run_op ops (wired_store, NewMessageStore C) = (s, d)"
  shows "Get (fst (restore_sessions d)) i = map_option (session_of \<circ> stored_of) (Get s i)"
proof -
  have start: "disk.mirrors (wired_store, NewMessageStore C)"
    using assms(1)
    by (simp add: disk.mirrors_def disk.wired_def wired_store_def SetPersistence_def NewStore_def
        NewMessageStore_def disk_ok_def saved_session_def Get_def)
  have "store_wf (wired_store :: 'a message_store store)"
    by (simp add: wired_store_def SetPersistence_def NewStore_def store_wf_def)
  moreover have "msCodec (NewMessageStore C) = C"
    by (simp add: NewMessageStore_def)
  ultimately have m: "disk.mirrors (s, d)" and wf: "store_wf s"
    using run_ops_inv [OF start _ _ assms(2)] unfolding assms(3) by simp_all
  note load = LoadSessions_of_mirror [OF m wf]
  have empty: "Get (wired_store :: 'a message_store store) i = None"
    by (simp add: wired_store_def SetPersistence_def NewStore_def Get_def)
  have key: "Get s i = Some y \<Longrightarrow> sID (session_of (stored_of y)) = i" for y
    using wf by (simp add: store_wf_def gget_sessions session_of_def stored_of_def)
  show ?thesis
  proof (cases "find (\<lambda>x. sID x = i) (LoadSessions d)")
    case None
    have "Get s i = None"
    proof (rule ccontr)
      assume "Get s i \<noteq> None"
      then obtain y where y: "Get s i = Some y" by blast
      then have "session_of (stored_of y) \<in> set (LoadSessions d)"
        using load(1) key [OF y] by auto
      with None key [OF y] show False by (auto simp: find_None_iff)
    qed
    with None show ?thesis
      using Get_fold_Put [OF load(2), of "(wired_store, d)" i] empty by (simp add: restore_sessions_def)
  next
    case (Some x)
    then have "x \<in> set (LoadSessions d)" "sID x = i"
      by (auto simp: find_Some_iff)
    then show ?thesis
      using load(1) Get_fold_Put [OF load(2), of "(wired_store, d)" i] Some
      by (auto simp: restore_sessions_def)
  qed
qed

text \<open>A concrete codec: byte strings identified with the values they encode.\<close>

datatype blob =
    BEnvelope envelope
  | BPending blob string int int
  | BSession stored_session
  | BRoom room_info
  | BEvent room_event

definition blob_codec :: "blob codec" where
  "blob_codec = \<lparr>
     encEnvelope = (\<lambda>x. Some (BEnvelope x)),
     decEnvelope = (\<lambda>r. case r of BEnvelope x \<Rightarrow> Some x | _ \<Rightarrow> None),
     encPending = (\<lambda>x. Some (BPending (spEnvelopeRaw x) (spPeerAddr x) (spStoredAt x) (spRetries x))),
     decPending = (\<lambda>r. case r of BPending e a t n \<Rightarrow>
        Some \<lparr>spEnvelopeRaw = e, spPeerAddr = a, spStoredAt = t, spRetries = n\<rparr> | _ \<Rightarrow> None),
     encSession = (\<lambda>x. Some (BSession x)),
     decSession = (\<lambda>r. case r of BSession x \<Rightarrow> Some x | _ \<Rightarrow> None),
     encRoom = (\<lambda>x. Some (BRoom x)),
     decRoom = (\<lambda>r. case r of BRoom x \<Rightarrow> Some x | _ \<Rightarrow> None),
     encEvent = (\<lambda>x. Some (BEvent x)),
     decEvent = (\<lambda>r. case r of BEvent x \<Rightarrow> Some x | _ \<Rightarrow> None)\<rparr>"

lemma codec_ok_blob [simp]: "codec_ok blob_codec"
  by (simp add: codec_ok_def blob_codec_def)

theorem sessions_survive_restart_witness:
  "Get (fst (restore_sessions (snd (fold run_op [OpPut (New ''s1'' 1500000000 ''a'' ''b''), OpEvict 9 1]
      (wired_store, NewMessageStore blob_codec))))) ''s1''
   = Some (New ''s1'' 1000000000 ''a'' ''b'')"
proof -
  let ?ops = "[OpPut (New ''s1'' 1500000000 ''a'' ''b''), OpEvict 9 1]"
  let ?r = "fold run_op ?ops (wired_store, NewMessageStore blob_codec)"
  have ops: "list_all (storable_op blob_codec) ?ops"
    by (simp add: key_ok_def New_def blob_codec_def)
  have r: "?r = (fst ?r, snd ?r)"
    by simp
  have "Get (fst ?r) ''s1'' = Some (New ''s1'' 1500000000 ''a'' ''b'')"
    by (simp add: Put_def Get_def Clone_def New_def wired_store_def SetPersistence_def NewStore_def
        NewMessageStore_def evict_def evictable_def Let_def StateOpen_def StateResolved_def)
  then show ?thesis
    using sessions_survive_restart [OF codec_ok_blob ops r, of "''s1''"]
    by (simp add: session_of_def stored_of_def New_def unix_def from_unix_def second_def)
qed

section \<open>Room logs\<close>

lemma roomSeqKey_decw: "roomSeqKey s = decw 20 (unat s)" "unat (s :: 64 word) < 10 ^ 20"
proof -
  have "unat s < 2 ^ 64"
    using unsigned_less [of s] by simp
  then show "unat s < 10 ^ 20" by simp
  then show "roomSeqKey s = decw 20 (unat s)"
    by (simp add: roomSeqKey_def pad0_dec_nat)
qed

lemma roomSeqKey_less_iff [simp]: "roomSeqKey a < roomSeqKey b \<longleftrightarrow> a < b"
  unfolding roomSeqKey_decw using decw_less_iff [OF roomSeqKey_decw(2) roomSeqKey_decw(2)]
  by (simp add: word_less_nat_alt)

lemma roomSeqKey_inj [simp]: "roomSeqKey a = roomSeqKey b \<longleftrightarrow> a = b"
  by (metis linorder_neqE order_less_irrefl roomSeqKey_less_iff)

lemma length_roomSeqKey [simp]: "length (roomSeqKey a) = 20"
  by (simp add: roomSeqKey_decw)

lemma roomSeqKey_nonempty [simp]: "roomSeqKey a \<noteq> []"
  using length_roomSeqKey [of a] by (auto simp del: length_roomSeqKey)

lemma bdel_hd: "bwf ((k, v) # b) \<Longrightarrow> bdel k ((k, v) # b) = b"
  unfolding bdel_def bwf_Cons by (auto intro!: filter_True)

lemma enforce_retention_drop:
  "bwf b \<Longrightarrow> enforce_retention m b = (if m > 0 then drop (length b - nat m) b else b)"
proof (induction m b rule: enforce_retention.induct)
  case (1 m b)
  show ?case
  proof (cases "m > 0 \<and> int (countKeys b) > m")
    case True
    then obtain k v b' where b: "b = (k, v) # b'"
      by (cases b) (auto simp: countKeys_def)
    have b': "bwf b'"
      using "1.prems" by (simp add: b bwf_Cons)
    have del: "bdel k b = b'"
      using "1.prems" unfolding b by (rule bdel_hd)
    have "enforce_retention m b = enforce_retention m b'"
      using True del by (subst enforce_retention.simps) (simp add: b)
    also have "\<dots> = drop (length b' - nat m) b'"
      using "1.IH" [OF True b] True b' del by (simp add: b)
    also have "\<dots> = drop (length b - nat m) b"
    proof -
      have "length b - nat m = Suc (length b' - nat m)"
        using True by (simp add: b countKeys_def) linarith
      then show ?thesis by (simp add: b)
    qed
    finally show ?thesis using True by simp
  next
    case False
    then show ?thesis
      by (auto simp: enforce_retention.simps [of m b] countKeys_def)
  qed
qed

text \<open>A well-formed log: in key order, every entry decodes and sits under its own sequence number.\<close>

definition log_wf :: "'r message_store \<Rightarrow> string \<Rightarrow> bool" where
  "log_wf ms rid \<longleftrightarrow> bwf (bucketRoomLogs ms) \<and> bwf (room_log ms rid) \<and>
     (\<forall>(k, v)\<in>set (room_log ms rid). \<exists>e. decEvent (msCodec ms) v = Some e \<and> k = roomSeqKey (RoomSeq e))"

definition retained :: "'r message_store \<Rightarrow> string \<Rightarrow> room_event list" where
  "retained ms rid = List.map_filter (\<lambda>(k, v). decEvent (msCodec ms) v) (room_log ms rid)"

definition event_entries :: "'r codec \<Rightarrow> 'r bucket \<Rightarrow> bool" where
  "event_entries C b \<longleftrightarrow> (\<forall>(k, v)\<in>set b. \<exists>e. decEvent C v = Some e \<and> k = roomSeqKey (RoomSeq e))"

lemma decode_filter:
  "event_entries C b \<Longrightarrow> decode_all (decEvent C) (filter (\<lambda>(k, v). P k) b) =
     Inr (filter (\<lambda>e. P (roomSeqKey (RoomSeq e))) (List.map_filter (\<lambda>(k, v). decEvent C v) b))"
proof (induction b)
  case (Cons p b)
  then show ?case
    by (cases p) (auto simp: event_entries_def List.map_filter_simps)
qed (simp add: List.map_filter_simps)

lemma entries_sorted:
  "event_entries C b \<Longrightarrow> bwf b \<Longrightarrow>
     sorted_wrt (\<lambda>x y. RoomSeq x < RoomSeq y) (List.map_filter (\<lambda>(k, v). decEvent C v) b)"
proof (induction b)
  case (Cons p b)
  obtain k v where p: "p = (k, v)" by (cases p)
  obtain e where e: "decEvent C v = Some e" "k = roomSeqKey (RoomSeq e)"
    using Cons.prems by (auto simp: event_entries_def p)
  have "RoomSeq e < RoomSeq e'" if mem: "e' \<in> set (List.map_filter (\<lambda>(k, v). decEvent C v) b)" for e'
  proof -
    obtain k' v' where kv: "(k', v') \<in> set b" "decEvent C v' = Some e'"
      using mem unfolding set_map_filter by auto
    then have "k' = roomSeqKey (RoomSeq e')" "k < k'"
      using Cons.prems by (auto simp: event_entries_def bwf_Cons p)
    then show ?thesis using e(2) by simp
  qed
  with Cons e show ?case
    by (auto simp: List.map_filter_simps p event_entries_def bwf_Cons)
qed (simp add: List.map_filter_simps)

lemma log_wf_entries: "log_wf ms rid \<Longrightarrow> event_entries (msCodec ms) (room_log ms rid) \<and> bwf (room_log ms rid)"
  by (simp add: log_wf_def event_entries_def)

lemma not_less_succ_word: "(\<not> x < s + 1) = (s = - 1 \<or> s < x)" for x s :: "64 word"
proof (cases "s = - 1")
  case False
  then have "unat (s + 1) = unat s + 1"
    by (metis Suc_eq_plus1 add.commute add_eq_0_iff unatSuc)
  with False show ?thesis
    by (simp add: word_less_nat_alt not_less Suc_le_eq)
qed simp

lemma ReplayRoomEvents_facts:
  assumes "log_wf ms rid"
  shows "ReplayRoomEvents rid sinceSeq ms =
      Inr (if sinceSeq = - 1 then retained ms rid
           else filter (\<lambda>e. sinceSeq < RoomSeq e) (retained ms rid))
    \<and> sorted_wrt (\<lambda>x y. RoomSeq x < RoomSeq y) (retained ms rid)"
proof
  have ent: "event_entries (msCodec ms) (room_log ms rid)" and bwf: "bwf (room_log ms rid)"
    using log_wf_entries [OF assms] by simp_all
  show "sorted_wrt (\<lambda>x y. RoomSeq x < RoomSeq y) (retained ms rid)"
    unfolding retained_def using ent bwf by (rule entries_sorted)
  have "ReplayRoomEvents rid sinceSeq ms =
      decode_all (decEvent (msCodec ms)) (bseek (roomSeqKey (sinceSeq + 1)) (room_log ms rid))"
    by (cases "bget (bucketRoomLogs ms) rid") (simp_all add: ReplayRoomEvents_def room_log_def bseek_def)
  also have "\<dots> = Inr (filter (\<lambda>e. \<not> RoomSeq e < sinceSeq + 1) (retained ms rid))"
    using decode_filter [OF ent, of "\<lambda>k. \<not> k < roomSeqKey (sinceSeq + 1)"]
    by (simp add: bseek_filter [OF bwf] retained_def)
  also have "(\<lambda>e. \<not> RoomSeq e < sinceSeq + 1) = (\<lambda>e. sinceSeq = - 1 \<or> sinceSeq < RoomSeq e)"
    by (simp add: not_less_succ_word)
  finally show "ReplayRoomEvents rid sinceSeq ms =
      Inr (if sinceSeq = - 1 then retained ms rid
           else filter (\<lambda>e. sinceSeq < RoomSeq e) (retained ms rid))"
    by (cases "sinceSeq = - 1") simp_all
qed


text \<open>
  Replay returns exactly the retained events after \<open>sinceSeq\<close>, in sequence order. The one
  exception is \<open>sinceSeq = 2^64 - 1\<close>: there \<open>sinceSeq + 1\<close> wraps to zero, and the call
  returns the whole log although no event can come after it.
\<close>

theorem ReplayRoomEvents_spec:
  assumes "log_wf ms rid"
  shows "ReplayRoomEvents rid sinceSeq ms =
      Inr (if sinceSeq = - 1 then retained ms rid
           else filter (\<lambda>e. sinceSeq < RoomSeq e) (retained ms rid))
    \<and> sorted_wrt (\<lambda>x y. RoomSeq x < RoomSeq y) (retained ms rid)"
  using assms by (rule ReplayRoomEvents_facts)

theorem ReplayRoomEvents_spec_witness:
  "let ev = (\<lambda>n. \<lparr>EventId = ''e'', EvRoomId = ''r'', RoomSeq = n, SenderHandle = ''a'', SubjectHandle = ''a'',
         EvPayload = [], EvContentType = [], EvSentAtUnix = 0, EvType = MESSAGE_POSTED, EvTraceId = [],
         EvMembers = []\<rparr>);
       ms = (NewMessageStore blob_codec)\<lparr>bucketRoomLogs :=
         [(''r'', [(roomSeqKey 1, BEvent (ev 1)), (roomSeqKey 2, BEvent (ev 2))])]\<rparr>
   in ReplayRoomEvents ''r'' 1 ms = Inr [ev 2]"
  unfolding Let_def
  by (subst ReplayRoomEvents_spec [THEN conjunct1])
    (simp_all add: log_wf_def room_log_def bwf_def NewMessageStore_def blob_codec_def retained_def
      List.map_filter_simps)

section \<open>Appending to a room log\<close>

lemma bput_append: "bwf b \<Longrightarrow> (\<forall>(k', v')\<in>set b. k' < k) \<Longrightarrow> bput k v b = b @ [(k, v)]"
  by (induction k v b rule: bput.induct) (auto simp: bwf_Cons)

lemma bwf_drop: "bwf b \<Longrightarrow> bwf (drop n b)"
  unfolding bwf_def by (simp add: drop_map [symmetric] sorted_wrt_drop)

lemma map_filter_drop_all:
  "(\<forall>x\<in>set xs. f x \<noteq> None) \<Longrightarrow> List.map_filter f (drop n xs) = drop n (List.map_filter f xs)"
proof (induction xs arbitrary: n)
  case (Cons x xs)
  then show ?case
    by (cases n) (auto simp: List.map_filter_simps)
qed (simp add: List.map_filter_simps)

lemma length_map_filter_all: "(\<forall>x\<in>set xs. f x \<noteq> None) \<Longrightarrow> length (List.map_filter f xs) = length xs"
  by (induction xs) (auto simp: List.map_filter_simps)

lemma map_filter_append: "List.map_filter f (xs @ ys) = List.map_filter f xs @ List.map_filter f ys"
  by (induction xs) (auto simp: List.map_filter_simps split: option.splits)

lemma bput_newest:
  assumes "bwf log" and "event_entries C log"
    and "\<forall>e\<in>set (List.map_filter (\<lambda>(k, v). decEvent C v) log). RoomSeq e < n"
  shows "bput (roomSeqKey n) raw log = log @ [(roomSeqKey n, raw)]"
proof (rule bput_append [OF assms(1)], clarify)
  fix k v assume kv: "(k, v) \<in> set log"
  then obtain e where e: "decEvent C v = Some e" "k = roomSeqKey (RoomSeq e)"
    using assms(2) by (auto simp: event_entries_def)
  then have "e \<in> set (List.map_filter (\<lambda>(k, v). decEvent C v) log)"
    using kv by (force simp: set_map_filter)
  then show "k < roomSeqKey n" using assms(3) e(2) by simp
qed

lemma event_entries_newest:
  assumes "event_entries C log" and "decEvent C raw = Some event"
  shows "event_entries C (drop n (log @ [(roomSeqKey (RoomSeq event), raw)]))"
proof -
  have "event_entries C (log @ [(roomSeqKey (RoomSeq event), raw)])"
    using assms by (auto simp: event_entries_def)
  then show ?thesis
    using set_drop_subset unfolding event_entries_def by fast
qed

text \<open>Decoding a log of \<open>n\<close> readable entries whose oldest are cut off.\<close>

lemma map_filter_newest:
  assumes "event_entries C log" and "decEvent C raw = Some event"
  shows "(let evs = List.map_filter (\<lambda>(k, v). decEvent C v) log @ [event] in
    List.map_filter (\<lambda>(k, v). decEvent C v) (drop (length (log @ [(k, raw)]) - n) (log @ [(k, raw)])) =
      drop (length evs - n) evs)"
proof -
  let ?f = "\<lambda>(k :: string, v). decEvent C v"
  have some: "\<forall>x\<in>set (log @ [(k, raw)]). ?f x \<noteq> None"
    using assms by (auto simp: event_entries_def)
  moreover have "length (List.map_filter ?f log) = length log"
    using some by (intro length_map_filter_all) simp
  ultimately show ?thesis
    by (simp only: map_filter_drop_all) (simp add: map_filter_append List.map_filter_simps assms(2))
qed

lemma StoreRoomEvent_facts:
  assumes "codec_ok (msCodec ms)" and "ioOK ms" and "log_wf ms (EvRoomId event)"
    and "key_ok (EvRoomId event)" and "encEvent (msCodec ms) event = Some raw"
    and "\<forall>e\<in>set (retained ms (EvRoomId event)). RoomSeq e < RoomSeq event"
    and "0 < maxEvents"
  shows "\<exists>ms'. StoreRoomEvent event maxEvents ms = Inr ms' \<and> log_wf ms' (EvRoomId event) \<and>
     retained ms' (EvRoomId event) =
       (let evs = retained ms (EvRoomId event) @ [event] in drop (length evs - nat maxEvents) evs) \<and>
     (\<forall>rid. rid \<noteq> EvRoomId event \<longrightarrow> room_log ms' rid = room_log ms rid)"
proof -
  let ?rid = "EvRoomId event" and ?C = "msCodec ms" and ?k = "roomSeqKey (RoomSeq event)"
  define log where "log = room_log ms ?rid"
  have wf: "bwf (bucketRoomLogs ms)" "bwf log" and ent: "event_entries ?C log"
    using assms(3) log_wf_entries [OF assms(3)] by (simp_all add: log_wf_def log_def)
  have dec: "decEvent ?C raw = Some event"
    using assms(1,5) by (simp add: codec_ok_def)
  have ret: "retained ms ?rid = List.map_filter (\<lambda>(k, v). decEvent ?C v) log"
    by (simp add: retained_def log_def)
  have put: "bput ?k raw log = log @ [(?k, raw)]"
    using assms(6) unfolding ret by (rule bput_newest [OF wf(2) ent])
  then have wfput: "bwf (log @ [(?k, raw)])"
    using bwf_bput [OF wf(2), of ?k raw] by simp
  define log' where "log' = drop (length (log @ [(?k, raw)]) - nat maxEvents) (log @ [(?k, raw)])"
  define ms' where "ms' = ms\<lparr>bucketRoomLogs := bput ?rid log' (bucketRoomLogs ms)\<rparr>"
  have enf: "enforce_retention maxEvents (bput ?k raw log) = log'"
    using enforce_retention_drop [OF wfput, of maxEvents] assms(7) by (simp add: put log'_def)
  have st: "StoreRoomEvent event maxEvents ms = Inr ms'"
    using assms(2,4,5) enf
    by (simp add: StoreRoomEvent_def store_defs ms'_def Let_def log_def room_log_def)
  have rl: "room_log ms' rid = (if rid = ?rid then log' else room_log ms rid)" for rid
    by (simp add: room_log_def ms'_def bget_bput [OF wf(1)])
  have "event_entries ?C log'" and "bwf log'"
    unfolding log'_def by (rule event_entries_newest [OF ent dec], rule bwf_drop [OF wfput])
  moreover have C: "bwf (bucketRoomLogs ms')" "msCodec ms' = ?C"
    by (simp_all add: ms'_def bwf_bput [OF wf(1)])
  ultimately have lw: "log_wf ms' ?rid"
    by (simp add: log_wf_def rl event_entries_def)
  have "retained ms' ?rid = List.map_filter (\<lambda>(k, v). decEvent ?C v) log'"
    by (simp add: retained_def rl C(2))
  then show ?thesis
    using st lw rl map_filter_newest [OF ent dec, of ?k "nat maxEvents"] by (simp add: ret log'_def Let_def)
qed

text \<open>
  Storing an event with a new highest sequence number appends it to the log of its room and
  keeps the newest \<open>maxEvents\<close> entries; the log stays well formed and no other room's log changes.
\<close>

theorem StoreRoomEvent_appends:
  assumes "codec_ok (msCodec ms)" and "ioOK ms" and "log_wf ms (EvRoomId event)"
    and "key_ok (EvRoomId event)" and "encEvent (msCodec ms) event = Some raw"
    and "\<forall>e\<in>set (retained ms (EvRoomId event)). RoomSeq e < RoomSeq event"
    and "0 < maxEvents"
  shows "\<exists>ms'. StoreRoomEvent event maxEvents ms = Inr ms' \<and> log_wf ms' (EvRoomId event) \<and>
     retained ms' (EvRoomId event) =
       (let evs = retained ms (EvRoomId event) @ [event] in drop (length evs - nat maxEvents) evs) \<and>
     (\<forall>rid. rid \<noteq> EvRoomId event \<longrightarrow> room_log ms' rid = room_log ms rid)"
  using assms by (rule StoreRoomEvent_facts)

theorem StoreRoomEvent_appends_witness:
  "let ev = (\<lambda>n. \<lparr>EventId = ''e'', EvRoomId = ''r'', RoomSeq = n, SenderHandle = ''a'', SubjectHandle = ''a'',
         EvPayload = [], EvContentType = [], EvSentAtUnix = 0, EvType = MESSAGE_POSTED, EvTraceId = [],
         EvMembers = []\<rparr>);
       ms = (NewMessageStore blob_codec)\<lparr>bucketRoomLogs :=
         [(''r'', [(roomSeqKey 1, BEvent (ev 1)), (roomSeqKey 2, BEvent (ev 2))])]\<rparr>
   in \<exists>ms'. StoreRoomEvent (ev 3) 2 ms = Inr ms' \<and> retained ms' ''r'' = [ev 2, ev 3]"
proof -
  define ev where "ev = (\<lambda>n. \<lparr>EventId = ''e'', EvRoomId = ''r'', RoomSeq = n, SenderHandle = ''a'',
         SubjectHandle = ''a'', EvPayload = [], EvContentType = [], EvSentAtUnix = 0,
         EvType = MESSAGE_POSTED, EvTraceId = [], EvMembers = []\<rparr>)"
  define ms where "ms = (NewMessageStore blob_codec)\<lparr>bucketRoomLogs :=
         [(''r'', [(roomSeqKey 1, BEvent (ev 1)), (roomSeqKey 2, BEvent (ev 2))])]\<rparr>"
  have C: "msCodec ms = blob_codec" and io: "ioOK ms"
    by (simp_all add: ms_def NewMessageStore_def)
  have ev [simp]: "EvRoomId (ev n) = ''r''" "RoomSeq (ev n) = n" for n
    by (simp_all add: ev_def)
  have log: "room_log ms ''r'' = [(roomSeqKey 1, BEvent (ev 1)), (roomSeqKey 2, BEvent (ev 2))]"
    by (simp add: ms_def room_log_def)
  have ret: "retained ms ''r'' = [ev 1, ev 2]"
    unfolding retained_def log C by (simp add: blob_codec_def List.map_filter_simps)
  have lw: "log_wf ms ''r''"
    unfolding log_wf_def log C by (simp add: bwf_def ms_def blob_codec_def)
  have "\<exists>ms'. StoreRoomEvent (ev 3) 2 ms = Inr ms' \<and> retained ms' ''r'' = [ev 2, ev 3]"
    using StoreRoomEvent_appends [of ms "ev 3" "BEvent (ev 3)" 2] lw io
    by (auto simp: C ret key_ok_def blob_codec_def [THEN arg_cong [of _ _ encEvent]])
  then show ?thesis
    unfolding Let_def ev_def [symmetric] ms_def [symmetric] by simp
qed

end
