(* ===== verification/Ack_Tracker.thy ===== *)
theory Ack_Tracker
  imports Message_Store
begin

text \<open>
  Delivery tracking (\<open>internal/daemon/acktracker.go\<close>): messages sent to a remote daemon are
  pending until acknowledged; a background sweep resends the ones that time out and drops them after
  the maximum number of retries. The tracker and its optional durable store are a pair; the send
  function is an argument over an abstract network state \<open>'w\<close>. The sweep releases its lock
  while it resends, so its lock regions are also the steps of a relation \<open>ack_step\<close> in which
  other goroutines track and acknowledge messages in between.
\<close>

section \<open>The tracker\<close>

definition defaultACKTimeout :: int where
  "defaultACKTimeout = 5 * second"

definition defaultMaxRetries :: int where
  "defaultMaxRetries = 3"

record ack_tracker =
  pending :: "(string, pending_message) gomap"
  timeout :: int
  maxRetries :: int

definition NewAckTracker :: ack_tracker where
  "NewAckTracker = \<lparr>pending = [], timeout = defaultACKTimeout, maxRetries = defaultMaxRetries\<rparr>"

type_synonym 'r tracked = "ack_tracker \<times> 'r message_store option"

definition with_store ::
  "('r message_store \<Rightarrow> 'r message_store result) \<Rightarrow> 'r message_store option \<Rightarrow> 'r message_store option" where
  "with_store f st = map_option (\<lambda>ms. or_keep (f ms) ms) st"

definition Restore :: "pending_message \<Rightarrow> ack_tracker \<Rightarrow> ack_tracker" where
  "Restore pm a = a\<lparr>pending := gput (MessageId (pmEnv pm)) pm (pending a)\<rparr>"

text \<open>\<open>Track\<close> reads the clock for its own entry and \<open>StorePending\<close> reads it again.\<close>

definition Track :: "time \<Rightarrow> time \<Rightarrow> envelope \<Rightarrow> string \<Rightarrow> 'r tracked \<Rightarrow> 'r tracked" where
  "Track now stored env peerAddr = (\<lambda>(a, st).
     (a\<lparr>pending := gput (MessageId env)
          \<lparr>pmEnv = env, pmPeerAddr = peerAddr, pmSentAt = now, pmRetries = 0\<rparr> (pending a)\<rparr>,
      with_store (StorePending stored env peerAddr) st))"

definition Acknowledge :: "string \<Rightarrow> 'r tracked \<Rightarrow> bool \<times> 'r tracked" where
  "Acknowledge messageID = (\<lambda>(a, st).
     let ok = (gget (pending a) messageID \<noteq> None)
     in (ok, (if ok then a\<lparr>pending := gdel messageID (pending a)\<rparr> else a,
              if ok then with_store (RemovePending messageID) st else st)))"

definition AckPendingCount :: "ack_tracker \<Rightarrow> nat" where
  "AckPendingCount a = length (pending a)"

section \<open>The sweep\<close>

definition expired :: "time \<Rightarrow> ack_tracker \<Rightarrow> pending_message \<Rightarrow> bool" where
  "expired now a pm \<longleftrightarrow> \<not> now - pmSentAt pm < timeout a"

text \<open>The first lock region: what to drop, what to retry; the drops are applied.\<close>

definition sweep_drops :: "time \<Rightarrow> ack_tracker \<Rightarrow> string list" where
  "sweep_drops now a =
     map fst (filter (\<lambda>(i, pm). expired now a pm \<and> pmRetries pm \<ge> maxRetries a) (pending a))"

definition sweep_retries :: "time \<Rightarrow> ack_tracker \<Rightarrow> pending_message list" where
  "sweep_retries now a =
     map snd (filter (\<lambda>(i, pm). expired now a pm \<and> \<not> pmRetries pm \<ge> maxRetries a) (pending a))"

definition sweep_lock :: "time \<Rightarrow> 'r tracked \<Rightarrow> pending_message list \<times> 'r tracked" where
  "sweep_lock now = (\<lambda>(a, st).
     let dropIDs = sweep_drops now a
     in (sweep_retries now a,
         (a\<lparr>pending := fold gdel dropIDs (pending a)\<rparr>,
          fold (\<lambda>i. with_store (RemovePending i)) dropIDs st)))"

text \<open>The second lock region, after one resend: update the entry if it still exists.\<close>

definition retry_update :: "time \<Rightarrow> string \<Rightarrow> 'r tracked \<Rightarrow> 'r tracked" where
  "retry_update now i = (\<lambda>(a, st).
     case gget (pending a) i of
       None \<Rightarrow> (a, st)
     | Some existing \<Rightarrow>
         let existing = existing\<lparr>pmRetries := pmRetries existing + 1, pmSentAt := now\<rparr>
         in (a\<lparr>pending := gput i existing (pending a)\<rparr>,
             if pmRetries existing > 0 then with_store (UpdatePending i now (pmRetries existing)) st
             else st))"

definition retry_one ::
  "(string \<Rightarrow> envelope \<Rightarrow> 'w \<Rightarrow> go_err option \<times> 'w) \<Rightarrow> (string \<Rightarrow> time) \<Rightarrow> pending_message \<Rightarrow>
     'r tracked \<times> 'w \<Rightarrow> 'r tracked \<times> 'w" where
  "retry_one sendFn clock pm = (\<lambda>(t, w).
     (retry_update (clock (MessageId (pmEnv pm))) (MessageId (pmEnv pm)) t,
      snd (sendFn (pmPeerAddr pm) (pmEnv pm) w)))"

text \<open>
  \<open>sweep\<close> with no other goroutine in between. \<open>clock\<close> gives the time at which the update
  of a message reads the clock.
\<close>

definition sweep ::
  "(string \<Rightarrow> envelope \<Rightarrow> 'w \<Rightarrow> go_err option \<times> 'w) \<Rightarrow> time \<Rightarrow> (string \<Rightarrow> time) \<Rightarrow>
     'r tracked \<times> 'w \<Rightarrow> 'r tracked \<times> 'w" where
  "sweep sendFn now clock = (\<lambda>(t, w).
     case sweep_lock now t of (retryList, t) \<Rightarrow> fold (retry_one sendFn clock) retryList (t, w))"

text \<open>Start-up (\<open>daemon.go\<close>): pending messages are loaded, and discarded if they have no address.\<close>

definition restore_one :: "pending_message \<Rightarrow> 'r tracked \<Rightarrow> 'r tracked" where
  "restore_one pm = (\<lambda>(a, st).
     if pmPeerAddr pm = [] then (a, with_store (RemovePending (MessageId (pmEnv pm))) st)
     else (Restore pm a, st))"

definition restore_pending :: "'r message_store \<Rightarrow> 'r tracked" where
  "restore_pending ms = fold restore_one (LoadPending ms) (NewAckTracker, Some ms)"

section \<open>The effect of a sweep on one message\<close>

definition ack_wf :: "ack_tracker \<Rightarrow> bool" where
  "ack_wf a \<longleftrightarrow> gwf (pending a) \<and> (\<forall>i pm. gget (pending a) i = Some pm \<longrightarrow> MessageId (pmEnv pm) = i)"

definition swept :: "time \<Rightarrow> (string \<Rightarrow> time) \<Rightarrow> ack_tracker \<Rightarrow> pending_message \<Rightarrow> pending_message option" where
  "swept now clock a pm =
     (if \<not> expired now a pm then Some pm
      else if pmRetries pm \<ge> maxRetries a then None
      else Some (pm\<lparr>pmRetries := pmRetries pm + 1, pmSentAt := clock (MessageId (pmEnv pm))\<rparr>))"

lemma ack_wfD: "ack_wf a \<Longrightarrow> gwf (pending a)" "ack_wf a \<Longrightarrow> gget (pending a) i = Some pm \<Longrightarrow> MessageId (pmEnv pm) = i"
  by (simp_all add: ack_wf_def)

lemma ack_wf_New [keeps]: "ack_wf NewAckTracker"
  by (simp add: ack_wf_def NewAckTracker_def)

lemma ack_wf_Track [keeps]: "ack_wf a \<Longrightarrow> ack_wf (fst (Track now stored env addr (a, st)))"
  by (auto simp: ack_wf_def Track_def)

lemma ack_wf_Acknowledge [keeps]: "ack_wf a \<Longrightarrow> ack_wf (fst (snd (Acknowledge i (a, st))))"
  by (auto simp: ack_wf_def Acknowledge_def Let_def)

lemma ack_wf_Restore [keeps]: "ack_wf a \<Longrightarrow> ack_wf (Restore pm a)"
  by (auto simp: ack_wf_def Restore_def)

lemma ack_wf_retry_update [keeps]: "ack_wf a \<Longrightarrow> ack_wf (fst (retry_update now i (a, st)))"
  by (auto simp: ack_wf_def retry_update_def Let_def split: option.splits)

lemma sweep_drops_iff:
  "gwf (pending a) \<Longrightarrow> i \<in> set (sweep_drops now a) \<longleftrightarrow>
     (\<exists>pm. gget (pending a) i = Some pm \<and> expired now a pm \<and> pmRetries pm \<ge> maxRetries a)"
  unfolding sweep_drops_def by (force simp: gget_eq_Some_iff)

lemma sweep_retries_iff:
  "gwf (pending a) \<Longrightarrow> pm \<in> set (sweep_retries now a) \<longleftrightarrow>
     (\<exists>i. gget (pending a) i = Some pm \<and> expired now a pm \<and> pmRetries pm < maxRetries a)"
  unfolding sweep_retries_def by (force simp: gget_eq_Some_iff)

lemma ids_sweep_retries:
  assumes "ack_wf a"
  shows "i \<in> set (map (MessageId \<circ> pmEnv) (sweep_retries now a)) \<longleftrightarrow>
     (\<exists>pm. gget (pending a) i = Some pm \<and> expired now a pm \<and> pmRetries pm < maxRetries a)"
  using ack_wfD [OF assms] by (force simp: sweep_retries_iff [OF ack_wfD(1) [OF assms]])

lemma distinct_sweep_retries:
  assumes "ack_wf a"
  shows "distinct (map (MessageId \<circ> pmEnv) (sweep_retries now a))"
proof -
  let ?m = "filter (\<lambda>(i, pm). expired now a pm \<and> \<not> pmRetries pm \<ge> maxRetries a) (pending a)"
  have "MessageId (pmEnv pm) = i" if "(i, pm) \<in> set ?m" for i pm
    using that ack_wfD [OF assms] by (auto simp: gget_eq_Some_iff)
  then have "map (MessageId \<circ> pmEnv) (map snd ?m) = map fst ?m"
    by (auto simp: fun_eq_iff)
  moreover have "gwf ?m"
    using ack_wfD(1) [OF assms] by simp
  ultimately show ?thesis
    unfolding sweep_retries_def gwf_def by (simp only:)
qed

lemma sweep_lock_pending:
  assumes "ack_wf a" and "sweep_lock now (a, st) = (rs, (a', st'))"
  shows "rs = sweep_retries now a" and "ack_wf a'" and "timeout a' = timeout a"
    and "maxRetries a' = maxRetries a"
    and "gget (pending a') i = (case gget (pending a) i of
       Some pm \<Rightarrow> if expired now a pm \<and> pmRetries pm \<ge> maxRetries a then None else Some pm | None \<Rightarrow> None)"
proof -
  note wf = ack_wfD(1) [OF assms(1)]
  have a': "a' = a\<lparr>pending := fold gdel (sweep_drops now a) (pending a)\<rparr>"
    and "rs = sweep_retries now a"
    using assms(2) by (auto simp: sweep_lock_def Let_def)
  then show "rs = sweep_retries now a" "timeout a' = timeout a" "maxRetries a' = maxRetries a"
    by simp_all
  have g: "gget (pending a') i = (if i \<in> set (sweep_drops now a) then None else gget (pending a) i)" for i
    by (simp add: a' gomap.get_fold_del [OF wf])
  then show "gget (pending a') i = (case gget (pending a) i of
       Some pm \<Rightarrow> if expired now a pm \<and> pmRetries pm \<ge> maxRetries a then None else Some pm | None \<Rightarrow> None)"
    by (auto simp: sweep_drops_iff [OF wf] split: option.splits)
  show "ack_wf a'"
    using ack_wfD [OF assms(1)] g by (auto simp: ack_wf_def a' gomap.wf_fold_del split: if_splits)
qed

lemma retry_update_pending:
  "gget (pending (fst (retry_update now i (a, st)))) =
     (case gget (pending a) i of None \<Rightarrow> gget (pending a)
      | Some pm \<Rightarrow> (gget (pending a))(i \<mapsto> pm\<lparr>pmRetries := pmRetries pm + 1, pmSentAt := now\<rparr>))"
  by (simp add: retry_update_def Let_def split: option.splits)

lemma retry_update_frame [simp, frame]:
  "timeout (fst (retry_update now i (a, st))) = timeout a"
  "maxRetries (fst (retry_update now i (a, st))) = maxRetries a"
  by (simp_all add: retry_update_def Let_def split: option.splits)

lemma retry_one_pair: "retry_one sendFn clock pm (t, w) =
    (retry_update (clock (MessageId (pmEnv pm))) (MessageId (pmEnv pm)) t, snd (sendFn (pmPeerAddr pm) (pmEnv pm) w))"
  by (simp add: retry_one_def)

lemma fold_retry_pending:
  assumes "ack_wf a" and "distinct (map (MessageId \<circ> pmEnv) rs)"
    and "fold (retry_one sendFn clock) rs ((a, st), w) = ((a', st'), w')"
  shows "ack_wf a' \<and> timeout a' = timeout a \<and> maxRetries a' = maxRetries a \<and>
    gget (pending a') i =
     (if i \<in> set (map (MessageId \<circ> pmEnv) rs)
      then map_option (\<lambda>pm. pm\<lparr>pmRetries := pmRetries pm + 1, pmSentAt := clock i\<rparr>) (gget (pending a) i)
      else gget (pending a) i)"
  using assms
proof (induction rs arbitrary: a st w)
  case (Cons pm rs)
  let ?id = "MessageId (pmEnv pm)"
  obtain a1 st1 where u: "retry_update (clock ?id) ?id (a, st) = (a1, st1)"
    by (cases "retry_update (clock ?id) ?id (a, st)")
  have wf1: "ack_wf a1" and fr: "timeout a1 = timeout a" "maxRetries a1 = maxRetries a"
    using ack_wf_retry_update [OF Cons.prems(1), of "clock ?id" ?id st]
      retry_update_frame [of "clock ?id" ?id a st] u by simp_all
  have p: "gget (pending a1) = (case gget (pending a) ?id of None \<Rightarrow> gget (pending a)
      | Some pm \<Rightarrow> (gget (pending a))(?id \<mapsto> pm\<lparr>pmRetries := pmRetries pm + 1, pmSentAt := clock ?id\<rparr>))"
    using retry_update_pending [of "clock ?id" ?id a st] u by simp
  have "fold (retry_one sendFn clock) rs ((a1, st1), snd (sendFn (pmPeerAddr pm) (pmEnv pm) w)) = ((a', st'), w')"
    using Cons.prems(3) u by (simp add: retry_one_pair)
  from Cons.IH [OF wf1 _ this] Cons.prems(2) show ?case
    by (auto simp: p fr split: option.splits)
qed auto

lemma sweep_pending:
  assumes "ack_wf a" and "sweep sendFn now clock ((a, st), w) = ((a', st'), w')"
  shows "ack_wf a' \<and> timeout a' = timeout a \<and> maxRetries a' = maxRetries a \<and>
    gget (pending a') i = Option.bind (gget (pending a) i) (swept now clock a)"
proof -
  obtain rs a1 st1 where l: "sweep_lock now (a, st) = (rs, (a1, st1))"
    by (metis prod.collapse)
  note lock = sweep_lock_pending [OF assms(1) l]
  have f: "fold (retry_one sendFn clock) (sweep_retries now a) ((a1, st1), w) = ((a', st'), w')"
    using assms(2) l lock(1) by (simp add: sweep_def)
  have id: "gget (pending a) i = Some pm \<Longrightarrow> MessageId (pmEnv pm) = i" for pm
    using assms(1) by (rule ack_wfD(2))
  show ?thesis
    using fold_retry_pending [OF lock(2) distinct_sweep_retries [OF assms(1)] f, of i] lock(3,4) id
    unfolding ids_sweep_retries [OF assms(1)] lock(5) swept_def
    by (auto split: option.splits if_splits)
qed


section \<open>Retries run out\<close>

text \<open>A network that records what it is given, and a message's resends in that record.\<close>

definition record_send :: "string \<Rightarrow> envelope \<Rightarrow> (string \<times> envelope) list \<Rightarrow> go_err option \<times> (string \<times> envelope) list" where
  "record_send addr env w = (None, w @ [(addr, env)])"

definition sent_of :: "string \<Rightarrow> (string \<times> envelope) list \<Rightarrow> (string \<times> envelope) list" where
  "sent_of i w = filter (\<lambda>(addr, env). MessageId env = i) w"

definition run_sweeps :: "(time \<times> (string \<Rightarrow> time)) list \<Rightarrow> 'r tracked \<times> (string \<times> envelope) list \<Rightarrow>
    'r tracked \<times> (string \<times> envelope) list" where
  "run_sweeps sched = fold (\<lambda>(now, clock). sweep record_send now clock) sched"

text \<open>Each sweep comes at least the time-out after the previous (re)send of the message.\<close>

fun spaced :: "int \<Rightarrow> string \<Rightarrow> time \<Rightarrow> (time \<times> (string \<Rightarrow> time)) list \<Rightarrow> bool" where
  "spaced tmo i prev [] = True"
| "spaced tmo i prev ((now, clock) # sched) \<longleftrightarrow> now - prev \<ge> tmo \<and> spaced tmo i (clock i) sched"

lemma fold_retry_record:
  "snd (fold (retry_one record_send clock) rs (t, w)) = w @ map (\<lambda>pm. (pmPeerAddr pm, pmEnv pm)) rs"
  by (induction rs arbitrary: t w) (simp_all add: retry_one_pair record_send_def)

lemma sent_of_retries:
  assumes "ack_wf a"
  shows "sent_of i (map (\<lambda>pm. (pmPeerAddr pm, pmEnv pm)) (sweep_retries now a)) =
    (case gget (pending a) i of
       Some pm \<Rightarrow> if expired now a pm \<and> pmRetries pm < maxRetries a then [(pmPeerAddr pm, pmEnv pm)] else []
     | None \<Rightarrow> [])"
proof -
  let ?m = "filter (\<lambda>(i, pm). expired now a pm \<and> \<not> pmRetries pm \<ge> maxRetries a) (pending a)"
  have key: "MessageId (pmEnv pm) = j" if "(j, pm) \<in> set ?m" for j pm
    using that ack_wfD [OF assms] by (auto simp: gget_eq_Some_iff)
  have single: "filter (\<lambda>(j, pm). j = i) m = (case gget m i of Some pm \<Rightarrow> [(i, pm)] | None \<Rightarrow> [])"
    if "gwf m" for m :: "(string, pending_message) gomap"
    using that
  proof (induction m)
    case (Cons p m)
    then show ?case
      by (cases p) (auto simp: gwf_def map_of_eq_None_iff [symmetric] split: option.splits)
  qed simp
  have wf: "gwf ?m"
    using ack_wfD(1) [OF assms] by simp
  have "sent_of i (map (\<lambda>pm. (pmPeerAddr pm, pmEnv pm)) (map snd ?m)) =
      map (\<lambda>(j, pm). (pmPeerAddr pm, pmEnv pm)) (filter (\<lambda>(j, pm). MessageId (pmEnv pm) = i) ?m)"
    unfolding sent_of_def by (simp add: filter_map comp_def case_prod_beta')
  also have "filter (\<lambda>(j, pm). MessageId (pmEnv pm) = i) ?m = filter (\<lambda>(j, pm). j = i) ?m"
    using key by (intro filter_cong) auto
  finally show ?thesis
    unfolding single [OF wf] gget_filter [OF ack_wfD(1) [OF assms]]
    by (auto simp: sweep_retries_def split: option.splits)
qed

lemma sweep_sent:
  assumes "ack_wf a" and "sweep record_send now clock ((a, st), w) = ((a', st'), w')"
  shows "sent_of i w' = sent_of i w @
    (case gget (pending a) i of
       Some pm \<Rightarrow> if expired now a pm \<and> pmRetries pm < maxRetries a then [(pmPeerAddr pm, pmEnv pm)] else []
     | None \<Rightarrow> [])"
proof -
  obtain rs t1 where l: "sweep_lock now (a, st) = (rs, t1)"
    by (metis prod.collapse)
  then have rs: "rs = sweep_retries now a"
    using sweep_lock_pending(1) [OF assms(1)] by (metis prod.collapse)
  have "w' = snd (fold (retry_one record_send clock) (sweep_retries now a) (t1, w))"
    using assms(2) l rs by (simp add: sweep_def)
  then have "w' = w @ map (\<lambda>pm. (pmPeerAddr pm, pmEnv pm)) (sweep_retries now a)"
    by (simp only: fold_retry_record)
  then have "sent_of i w' = sent_of i w @ sent_of i (map (\<lambda>pm. (pmPeerAddr pm, pmEnv pm)) (sweep_retries now a))"
    by (simp add: sent_of_def)
  then show ?thesis
    by (simp only: sent_of_retries [OF assms(1)])
qed

text \<open>
  C12. An unacknowledged message is resent to its peer exactly \<open>maxRetries\<close> times and then given
  up: after \<open>maxRetries + 1\<close> sweeps that each find it timed out it is no longer pending, and the
  network has seen it \<open>maxRetries - retries\<close> more times, whatever else is pending.
\<close>

theorem retries_run_out:
  assumes "ack_wf a" and "gget (pending a) i = Some pm" and "pmRetries pm \<le> maxRetries a"
    and "spaced (timeout a) i (pmSentAt pm) sched"
    and "int (length sched) = maxRetries a - pmRetries pm + 1"
    and "run_sweeps sched ((a, st), w) = ((a', st'), w')"
  shows "gget (pending a') i = None \<and>
    sent_of i w' = sent_of i w @ replicate (nat (maxRetries a - pmRetries pm)) (pmPeerAddr pm, pmEnv pm)"
  using assms
proof (induction sched arbitrary: a st w pm)
  case (Cons p sched)
  obtain now clock where p: "p = (now, clock)" by (cases p)
  obtain a1 st1 w1 where s: "sweep record_send now clock ((a, st), w) = ((a1, st1), w1)"
    by (metis prod.collapse)
  have rest: "run_sweeps sched ((a1, st1), w1) = ((a', st'), w')"
    using Cons.prems(6) s by (simp add: run_sweeps_def p)
  note sp = sweep_pending [OF Cons.prems(1) s, of i] and ss = sweep_sent [OF Cons.prems(1) s, of i]
  have exp: "expired now a pm"
    using Cons.prems(4) by (simp add: p expired_def)
  have key: "MessageId (pmEnv pm) = i"
    using ack_wfD(2) [OF Cons.prems(1,2)] .
  show ?case
  proof (cases "pmRetries pm < maxRetries a")
    case True
    let ?pm = "pm\<lparr>pmRetries := pmRetries pm + 1, pmSentAt := clock i\<rparr>"
    have p1: "gget (pending a1) i = Some ?pm"
      using sp Cons.prems(2) exp True key by (simp add: swept_def)
    have IH: "gget (pending a') i = None \<and> sent_of i w' = sent_of i w1 @
        replicate (nat (maxRetries a1 - pmRetries ?pm)) (pmPeerAddr ?pm, pmEnv ?pm)"
      using Cons.IH [OF _ p1 _ _ _ rest] sp True Cons.prems(4,5) by (simp add: p)
    have "nat (maxRetries a - pmRetries pm) = Suc (nat (maxRetries a1 - pmRetries ?pm))"
      using True sp by simp
    then show ?thesis
      using IH ss Cons.prems(2) exp True by simp
  next
    case False
    then have m: "pmRetries pm = maxRetries a" and "sched = []"
      using Cons.prems(3,5) by simp_all
    then show ?thesis
      using sp ss rest Cons.prems(2) exp by (simp add: swept_def run_sweeps_def)
  qed
qed simp

theorem retries_run_out_witness:
  "let env = zero_envelope\<lparr>MessageId := ''m''\<rparr>;
       t = Track 0 0 env ''peer:1'' (NewAckTracker, None :: blob message_store option);
       sched = map (\<lambda>n. (n * second, \<lambda>i. n * second)) [5, 10, 15, 20]
   in sent_of ''m'' (snd (run_sweeps sched (t, []))) = replicate 3 (''peer:1'', env)"
proof -
  let ?env = "zero_envelope\<lparr>MessageId := ''m''\<rparr>" and ?tr = "Track 0 0 (zero_envelope\<lparr>MessageId := ''m''\<rparr>) ''peer:1'' (NewAckTracker, None :: blob message_store option)"
  let ?pm = "\<lparr>pmEnv = ?env, pmPeerAddr = ''peer:1'', pmSentAt = 0, pmRetries = 0\<rparr>"
  let ?sched = "map (\<lambda>n. (n * second, \<lambda>i. n * second)) [5, 10, 15, 20]"
  have wf: "ack_wf (fst ?tr)"
    by (intro ack_wf_Track ack_wf_New)
  have get: "gget (pending (fst ?tr)) ''m'' = Some ?pm"
    by (simp add: Track_def)
  have sp: "spaced (timeout (fst ?tr)) ''m'' (pmSentAt ?pm) ?sched"
    by (simp add: Track_def NewAckTracker_def defaultACKTimeout_def second_def)
  show ?thesis
    unfolding Let_def
    using retries_run_out [OF wf get _ sp, of "snd ?tr" "[]"]
    by (cases "run_sweeps ?sched (?tr, [])")
      (auto simp: Track_def NewAckTracker_def defaultMaxRetries_def sent_of_def)
qed

section \<open>Sweeps interleaved with other goroutines\<close>

text \<open>
  The retry loop is one goroutine: it is idle (\<open>queue = []\<close>, nothing in flight), or it has a
  queue of messages still to resend, or it has resent one and not yet taken the lock to update it.
  Routing goroutines track messages under fresh identifiers (\<open>uuid.New\<close>), and
  acknowledgements arrive, at any point in between. \<open>resent\<close> is the history of resends.
\<close>

record 'r ack_sys =
  tracker :: "'r tracked"
  queue :: "pending_message list"
  inflight :: "pending_message option"
  resent :: "string list"
  trackedIds :: "string list"

definition ack_init :: "'r message_store option \<Rightarrow> 'r ack_sys" where
  "ack_init st = \<lparr>tracker = (NewAckTracker, st), queue = [], inflight = None, resent = [], trackedIds = []\<rparr>"

inductive ack_step :: "'r ack_sys \<Rightarrow> 'r ack_sys \<Rightarrow> bool" where
  step_track: "MessageId env \<notin> set (trackedIds s) \<Longrightarrow>
     ack_step s (s\<lparr>tracker := Track now stored env addr (tracker s),
                   trackedIds := MessageId env # trackedIds s\<rparr>)"
| step_ack: "ack_step s (s\<lparr>tracker := snd (Acknowledge i (tracker s))\<rparr>)"
| step_lock: "queue s = [] \<Longrightarrow> inflight s = None \<Longrightarrow> sweep_lock now (tracker s) = (rs, t) \<Longrightarrow>
     ack_step s (s\<lparr>tracker := t, queue := rs\<rparr>)"
| step_send: "queue s = pm # q \<Longrightarrow> inflight s = None \<Longrightarrow>
     ack_step s (s\<lparr>queue := q, inflight := Some pm, resent := MessageId (pmEnv pm) # resent s\<rparr>)"
| step_update: "inflight s = Some pm \<Longrightarrow>
     ack_step s (s\<lparr>inflight := None, tracker := retry_update now (MessageId (pmEnv pm)) (tracker s)\<rparr>)"

definition pend :: "'r ack_sys \<Rightarrow> string \<Rightarrow> pending_message option" where
  "pend s = gget (pending (fst (tracker s)))"

definition queued :: "'r ack_sys \<Rightarrow> string list" where
  "queued s = map (MessageId \<circ> pmEnv) (queue s)"

definition flying :: "'r ack_sys \<Rightarrow> string option" where
  "flying s = map_option (MessageId \<circ> pmEnv) (inflight s)"

definition times_resent :: "'r ack_sys \<Rightarrow> string \<Rightarrow> nat" where
  "times_resent s i = length (filter ((=) i) (resent s))"

text \<open>What holds of one message at every step.\<close>

definition msg_inv :: "'r ack_sys \<Rightarrow> string \<Rightarrow> bool" where
  "msg_inv s i \<longleftrightarrow>
     (let n = int (times_resent s i); fly = (if flying s = Some i then 1 else 0); m = maxRetries (fst (tracker s))
      in (case pend s i of
            Some pm \<Rightarrow> i \<in> set (trackedIds s) \<and> 0 \<le> pmRetries pm \<and> n = pmRetries pm + fly \<and> n \<le> m
          | None \<Rightarrow> n \<le> m) \<and>
         (i \<in> set (queued s) \<longrightarrow> n < m \<and> flying s \<noteq> Some i) \<and>
         (i \<notin> set (trackedIds s) \<longrightarrow> n = 0 \<and> i \<notin> set (queued s) \<and> flying s \<noteq> Some i))"

definition ack_inv :: "'r ack_sys \<Rightarrow> bool" where
  "ack_inv s \<longleftrightarrow> ack_wf (fst (tracker s)) \<and> maxRetries (fst (tracker s)) = defaultMaxRetries \<and>
     distinct (queued s) \<and> (\<forall>i. msg_inv s i)"

lemma ack_inv_init: "ack_inv (ack_init st)"
  by (simp add: ack_inv_def msg_inv_def ack_init_def pend_def queued_def flying_def times_resent_def
      ack_wf_def NewAckTracker_def Let_def defaultMaxRetries_def)

lemmas sys_defs = pend_def queued_def flying_def times_resent_def

lemma ack_inv_msg: "ack_inv s \<Longrightarrow> msg_inv s i"
  by (simp add: ack_inv_def)

lemma ack_inv_track:
  assumes "ack_inv s" and "MessageId env \<notin> set (trackedIds s)"
  shows "ack_inv (s\<lparr>tracker := Track now stored env addr (tracker s),
    trackedIds := MessageId env # trackedIds s\<rparr>)" (is "ack_inv ?s")
proof -
  obtain a st where t: "tracker s = (a, st)" by (cases "tracker s")
  have "msg_inv ?s i" for i
    using assms ack_inv_msg [OF assms(1), of i]
    by (auto simp: msg_inv_def sys_defs t Track_def Let_def ack_inv_def defaultMaxRetries_def split: option.splits)
  then show ?thesis
    using assms(1) ack_wf_Track [of a now stored env addr st]
    by (auto simp: ack_inv_def t queued_def) (simp add: Track_def)
qed

lemma ack_inv_ack:
  assumes "ack_inv s"
  shows "ack_inv (s\<lparr>tracker := snd (Acknowledge i (tracker s))\<rparr>)" (is "ack_inv ?s")
proof -
  obtain a st where t: "tracker s = (a, st)" by (cases "tracker s")
  have "msg_inv ?s j" for j
    using ack_inv_msg [OF assms, of j]
    by (auto simp: msg_inv_def sys_defs t Acknowledge_def Let_def split: option.splits if_splits)
  then show ?thesis
    using assms ack_wf_Acknowledge [of a i st]
    by (auto simp: ack_inv_def t queued_def) (simp add: Acknowledge_def Let_def)
qed

lemma ack_inv_lock:
  assumes "ack_inv s" and "queue s = []" and "inflight s = None" and "sweep_lock now (tracker s) = (rs, t')"
  shows "ack_inv (s\<lparr>tracker := t', queue := rs\<rparr>)" (is "ack_inv ?s")
proof -
  obtain a st where t: "tracker s = (a, st)" by (cases "tracker s")
  obtain a' st' where t': "t' = (a', st')" by (cases t')
  have wf: "ack_wf a" using assms(1) by (simp add: ack_inv_def t)
  note lock = sweep_lock_pending [OF wf assms(4) [unfolded t t']]
  have "msg_inv ?s i" for i
  proof -
    have "i \<in> set (queued ?s) \<longleftrightarrow>
        (\<exists>pm. gget (pending a) i = Some pm \<and> expired now a pm \<and> pmRetries pm < maxRetries a)"
      using ids_sweep_retries [OF wf, of i now] by (simp add: queued_def lock(1))
    then show ?thesis
      using assms(2,3) ack_inv_msg [OF assms(1), of i]
      by (auto simp: msg_inv_def pend_def flying_def times_resent_def t t' lock(4,5) Let_def
          split: option.splits if_splits)
  qed
  then show ?thesis
    using assms(1) lock(2,4) distinct_sweep_retries [OF wf, of now]
    by (auto simp: ack_inv_def t t' queued_def lock(1))
qed

lemma ack_inv_send:
  assumes "ack_inv s" and "queue s = pm # q" and "inflight s = None"
  shows "ack_inv (s\<lparr>queue := q, inflight := Some pm, resent := MessageId (pmEnv pm) # resent s\<rparr>)" (is "ack_inv ?s")
proof -
  have "distinct (queued s)" using assms(1) by (simp add: ack_inv_def)
  then have "msg_inv ?s i" for i
    using assms(2,3) ack_inv_msg [OF assms(1), of i]
    by (auto simp: msg_inv_def sys_defs Let_def split: option.splits)
  then show ?thesis
    using assms by (auto simp: ack_inv_def queued_def)
qed

lemma ack_inv_update:
  assumes "ack_inv s" and "inflight s = Some pm"
  shows "ack_inv (s\<lparr>inflight := None, tracker := retry_update now (MessageId (pmEnv pm)) (tracker s)\<rparr>)"
    (is "ack_inv ?s")
proof -
  obtain a st where t: "tracker s = (a, st)" by (cases "tracker s")
  have "msg_inv ?s j" for j
    using assms(2) ack_inv_msg [OF assms(1), of j]
    by (auto simp: msg_inv_def sys_defs t retry_update_pending Let_def split: option.splits)
  then show ?thesis
    using assms(1) ack_wf_retry_update [of a now "MessageId (pmEnv pm)" st]
    by (auto simp: ack_inv_def t queued_def)
qed

lemma ack_inv_step: "ack_step s s' \<Longrightarrow> ack_inv s \<Longrightarrow> ack_inv s'"
  by (induction rule: ack_step.induct)
    (simp_all add: ack_inv_track ack_inv_ack ack_inv_lock ack_inv_send ack_inv_update)

lemma ack_inv_reachable: "ack_step\<^sup>*\<^sup>* (ack_init st) s \<Longrightarrow> ack_inv s"
  by (induction rule: rtranclp_induct) (auto intro: ack_inv_init ack_inv_step)

text \<open>
  C2. However tracking, acknowledgements and sweeps interleave, no message is resent more than
  \<open>defaultMaxRetries\<close> times, and the retry counter of a pending message stays within that bound.
\<close>

theorem resends_bounded:
  assumes "ack_step\<^sup>*\<^sup>* (ack_init st) s"
  shows "int (times_resent s i) \<le> defaultMaxRetries \<and>
    (\<forall>pm. pend s i = Some pm \<longrightarrow> 0 \<le> pmRetries pm \<and> pmRetries pm \<le> defaultMaxRetries)"
proof -
  have inv: "msg_inv s i" "maxRetries (fst (tracker s)) = defaultMaxRetries"
    using ack_inv_reachable [OF assms] by (simp_all add: ack_inv_def)
  then show ?thesis
    using inv by (auto simp: msg_inv_def Let_def split: option.splits if_splits)
qed

theorem resends_bounded_witness:
  "let env = zero_envelope\<lparr>MessageId := ''m''\<rparr>;
       s0 = ack_init (None :: blob message_store option);
       s1 = s0\<lparr>tracker := Track 0 0 env ''peer:1'' (tracker s0), trackedIds := [''m'']\<rparr>;
       pm = \<lparr>pmEnv = env, pmPeerAddr = ''peer:1'', pmSentAt = 0, pmRetries = 0\<rparr>;
       s3 = s1\<lparr>queue := [], inflight := Some pm, resent := [''m'']\<rparr>
   in ack_step\<^sup>*\<^sup>* s0 s3 \<and> int (times_resent s3 ''m'') \<le> defaultMaxRetries \<and> times_resent s3 ''m'' = 1"
proof -
  define env where "env = zero_envelope\<lparr>MessageId := ''m''\<rparr>"
  define s0 where "s0 = ack_init (None :: blob message_store option)"
  define s1 where "s1 = s0\<lparr>tracker := Track 0 0 env ''peer:1'' (tracker s0), trackedIds := [''m'']\<rparr>"
  define pm where "pm = \<lparr>pmEnv = env, pmPeerAddr = ''peer:1'', pmSentAt = 0, pmRetries = 0\<rparr>"
  have id: "MessageId env = ''m''" by (simp add: env_def)
  have 1: "ack_step s0 s1"
    using step_track [of env s0 0 0 "''peer:1''"] by (simp add: s0_def s1_def ack_init_def id)
  have "sweep_lock (5 * second) (tracker s1) = ([pm], tracker s1)"
    by (simp add: s1_def s0_def ack_init_def Track_def sweep_lock_def sweep_drops_def sweep_retries_def
        expired_def NewAckTracker_def defaultACKTimeout_def defaultMaxRetries_def second_def pm_def Let_def
        with_store_def)
  then have 2: "ack_step s1 (s1\<lparr>queue := [pm]\<rparr>)"
    using step_lock [of s1 "5 * second" "[pm]" "tracker s1"] by (simp add: s1_def s0_def ack_init_def)
  have 3: "ack_step (s1\<lparr>queue := [pm]\<rparr>) (s1\<lparr>queue := [], inflight := Some pm, resent := [''m'']\<rparr>)"
    using step_send [of "s1\<lparr>queue := [pm]\<rparr>" pm "[]"]
    by (simp add: s1_def s0_def ack_init_def pm_def id)
  have r: "ack_step\<^sup>*\<^sup>* s0 (s1\<lparr>queue := [], inflight := Some pm, resent := [''m'']\<rparr>)"
    using 1 2 3 by (meson converse_rtranclp_into_rtranclp rtranclp.rtrancl_refl)
  then show ?thesis
    using resends_bounded [OF r [unfolded s0_def], of "''m''"]
    unfolding Let_def env_def [symmetric] pm_def [symmetric] s0_def [symmetric] s1_def [symmetric]
    by (simp add: times_resent_def)
qed

text \<open>A message is settled when it was tracked, is not pending, and the sweep holds no copy of it.\<close>

definition settled :: "'r ack_sys \<Rightarrow> string \<Rightarrow> bool" where
  "settled s i \<longleftrightarrow> i \<in> set (trackedIds s) \<and> pend s i = None \<and> i \<notin> set (queued s)"

lemma settled_step: "ack_step s s' \<Longrightarrow> ack_inv s \<Longrightarrow> settled s i \<Longrightarrow> settled s' i \<and> times_resent s' i = times_resent s i"
proof (induction rule: ack_step.induct)
  case (step_track env s now stored addr)
  then show ?case
    by (cases "tracker s") (auto simp: settled_def sys_defs Track_def)
next
  case (step_ack s j)
  then show ?case
    by (cases "tracker s") (auto simp: settled_def sys_defs Acknowledge_def Let_def)
next
  case (step_lock s now rs t')
  obtain a st where t: "tracker s = (a, st)" by (cases "tracker s")
  obtain a' st' where t': "t' = (a', st')" by (cases t')
  have wf: "ack_wf a" using step_lock.prems by (simp add: ack_inv_def t)
  note lock = sweep_lock_pending [OF wf step_lock.hyps(3) [unfolded t t']]
  show ?case
    using step_lock.prems ids_sweep_retries [OF wf, of i now]
    by (auto simp: settled_def sys_defs t t' lock(1,5))
next
  case (step_send s pm q)
  then show ?case
    by (auto simp: settled_def sys_defs)
next
  case (step_update s pm now)
  then show ?case
    by (cases "tracker s") (auto simp: settled_def sys_defs retry_update_pending split: option.splits)
qed



section \<open>Pending messages survive a restart\<close>

definition saved_pending :: "'r message_store \<Rightarrow> string \<Rightarrow> pending_message option" where
  "saved_pending ms i = Option.bind (bget (bucketPending ms) i) (decode_pending (msCodec ms))"

definition pdisk_ok :: "'r codec \<Rightarrow> 'r message_store \<Rightarrow> bool" where
  "pdisk_ok C ms \<longleftrightarrow> msCodec ms = C \<and> codec_ok C \<and> (\<forall>sp. encPending C sp \<noteq> None) \<and> ioOK ms \<and> bwf (bucketPending ms)"

text \<open>What a restart has to bring back of a pending message: all but the time of the last send.\<close>

definition essence :: "pending_message \<Rightarrow> envelope \<times> string \<times> int" where
  "essence pm = (pmEnv pm, pmPeerAddr pm, pmRetries pm)"

definition pmirrors :: "'r codec \<Rightarrow> ack_tracker \<Rightarrow> 'r message_store \<Rightarrow> bool" where
  "pmirrors C a ms \<longleftrightarrow> ack_wf a \<and> pdisk_ok C ms \<and>
     (\<forall>i pm. gget (pending a) i = Some pm \<longrightarrow> key_ok i \<and> pmPeerAddr pm \<noteq> [] \<and> 0 \<le> pmRetries pm) \<and>
     (\<forall>i. map_option essence (saved_pending ms i) = map_option essence (gget (pending a) i))"

lemma pmirrors_New:
  assumes "codec_ok C" and "\<forall>sp. encPending C sp \<noteq> None"
  shows "pmirrors C NewAckTracker (NewMessageStore C)"
proof -
  have "pending NewAckTracker = []" by (simp add: NewAckTracker_def)
  then show ?thesis
    using assms ack_wf_New by (simp add: pmirrors_def pdisk_ok_def NewMessageStore_def saved_pending_def)
qed

lemma codec_pending:
  "codec_ok C \<Longrightarrow> encPending C x = Some r \<Longrightarrow> decPending C r = Some x"
  "codec_ok C \<Longrightarrow> encEnvelope C e = Some r \<Longrightarrow> decEnvelope C r = Some e"
  by (simp_all add: codec_ok_def)

lemma StorePending_disk:
  assumes "pdisk_ok C ms" and "key_ok (MessageId env)" and "encEnvelope C env \<noteq> None"
  shows "\<exists>ms'. with_store (StorePending t env addr) (Some ms) = Some ms' \<and> pdisk_ok C ms' \<and>
    saved_pending ms' = (saved_pending ms)(MessageId env \<mapsto>
      \<lparr>pmEnv = env, pmPeerAddr = addr, pmSentAt = from_unix (unix t), pmRetries = 0\<rparr>)"
proof -
  obtain raw where raw: "encEnvelope C env = Some raw" using assms(3) by blast
  let ?sp = "\<lparr>spEnvelopeRaw = raw, spPeerAddr = addr, spStoredAt = unix t, spRetries = 0\<rparr>"
  obtain v where v: "encPending C ?sp = Some v" using assms(1) by (auto simp: pdisk_ok_def)
  have d: "decode_pending C v = Some \<lparr>pmEnv = env, pmPeerAddr = addr, pmSentAt = from_unix (unix t), pmRetries = 0\<rparr>"
    using codec_pending(1) [OF _ v] codec_pending(2) [OF _ raw] assms(1)
    by (simp add: decode_pending_def pdisk_ok_def)
  have st: "with_store (StorePending t env addr) (Some ms) = Some (ms\<lparr>bucketPending := bput (MessageId env) v (bucketPending ms)\<rparr>)"
    using assms(1,2) raw v
    by (simp add: with_store_def StorePending_def storePending_def store_defs pdisk_ok_def)
  show ?thesis
    unfolding st using assms(1) d
    by (intro exI conjI) (auto simp: pdisk_ok_def saved_pending_def bget_bput bwf_bput fun_eq_iff)
qed

lemma RemovePending_disk:
  assumes "pdisk_ok C ms"
  shows "\<exists>ms'. with_store (RemovePending i) (Some ms) = Some ms' \<and> pdisk_ok C ms' \<and>
    saved_pending ms' = (saved_pending ms)(i := None)"
proof -
  have "with_store (RemovePending i) (Some ms) = Some (ms\<lparr>bucketPending := bdel i (bucketPending ms)\<rparr>)"
    using assms by (simp add: with_store_def RemovePending_def store_defs pdisk_ok_def)
  then show ?thesis
    using assms by (auto simp: pdisk_ok_def saved_pending_def bget_bdel bwf_bdel fun_eq_iff)
qed

lemma decode_pending_Some:
  "decode_pending C raw = Some pm \<longleftrightarrow> (\<exists>sp env. decPending C raw = Some sp \<and>
     decEnvelope C (spEnvelopeRaw sp) = Some env \<and>
     pm = \<lparr>pmEnv = env, pmPeerAddr = spPeerAddr sp, pmSentAt = from_unix (spStoredAt sp), pmRetries = spRetries sp\<rparr>)"
  by (auto simp: decode_pending_def split: option.splits)

lemma UpdatePending_disk:
  assumes "pdisk_ok C ms" and "key_ok i" and "saved_pending ms i = Some pm"
  shows "\<exists>ms'. with_store (UpdatePending i t n) (Some ms) = Some ms' \<and> pdisk_ok C ms' \<and>
    saved_pending ms' = (saved_pending ms)(i \<mapsto> pm\<lparr>pmSentAt := from_unix (unix t), pmRetries := n\<rparr>)"
proof -
  obtain raw sp where raw: "bget (bucketPending ms) i = Some raw" "decPending C raw = Some sp"
    and env: "decEnvelope C (spEnvelopeRaw sp) = Some (pmEnv pm)" and pm: "pmPeerAddr pm = spPeerAddr sp"
    using assms(1,3) by (auto simp: saved_pending_def pdisk_ok_def bind_eq_Some_conv decode_pending_Some)
  let ?sp = "sp\<lparr>spStoredAt := unix t, spRetries := n\<rparr>"
  obtain v where v: "encPending C ?sp = Some v" using assms(1) by (auto simp: pdisk_ok_def)
  have d: "decode_pending C v = Some (pm\<lparr>pmSentAt := from_unix (unix t), pmRetries := n\<rparr>)"
    using codec_pending(1) [OF _ v] env pm assms(1) by (simp add: decode_pending_def pdisk_ok_def)
  have st: "with_store (UpdatePending i t n) (Some ms) = Some (ms\<lparr>bucketPending := bput i v (bucketPending ms)\<rparr>)"
    using assms(1,2) raw v by (simp add: with_store_def UpdatePending_def store_defs pdisk_ok_def)
  show ?thesis
    unfolding st using assms(1) d
    by (intro exI conjI) (auto simp: pdisk_ok_def saved_pending_def bget_bput bwf_bput fun_eq_iff)
qed

lemma pmirrors_Track:
  assumes "pmirrors C a ms" and "key_ok (MessageId env)" and "encEnvelope C env \<noteq> None" and "addr \<noteq> []"
  shows "\<exists>a' ms'. Track now stored env addr (a, Some ms) = (a', Some ms') \<and> pmirrors C a' ms'"
proof -
  have "pdisk_ok C ms" using assms(1) by (simp add: pmirrors_def)
  from StorePending_disk [OF this assms(2,3), of stored addr]
  obtain ms' where "with_store (StorePending stored env addr) (Some ms) = Some ms'" "pdisk_ok C ms'"
    "saved_pending ms' = (saved_pending ms)(MessageId env \<mapsto>
      \<lparr>pmEnv = env, pmPeerAddr = addr, pmSentAt = from_unix (unix stored), pmRetries = 0\<rparr>)"
    by blast
  then show ?thesis
    using assms ack_wf_Track [of a now stored env addr "Some ms"]
    by (auto simp: pmirrors_def Track_def essence_def)
qed

lemma pmirrors_Acknowledge:
  assumes "pmirrors C a ms"
  shows "\<exists>a' ms'. snd (Acknowledge i (a, Some ms)) = (a', Some ms') \<and> pmirrors C a' ms'"
proof -
  have "pdisk_ok C ms" using assms by (simp add: pmirrors_def)
  from RemovePending_disk [OF this, of i]
  obtain ms' where "with_store (RemovePending i) (Some ms) = Some ms'" "pdisk_ok C ms'"
    "saved_pending ms' = (saved_pending ms)(i := None)"
    by blast
  then show ?thesis
    using assms ack_wf_Acknowledge [of a i "Some ms"]
    by (auto simp: pmirrors_def Acknowledge_def Let_def)
qed

lemma fold_RemovePending_disk:
  "pdisk_ok C ms \<Longrightarrow> \<exists>ms'. fold (\<lambda>i. with_store (RemovePending i)) ids (Some ms) = Some ms' \<and> pdisk_ok C ms' \<and>
    saved_pending ms' = (\<lambda>i. if i \<in> set ids then None else saved_pending ms i)"
proof (induction ids arbitrary: ms)
  case (Cons j ids)
  from RemovePending_disk [OF Cons.prems, of j] obtain ms1 where 1:
    "with_store (RemovePending j) (Some ms) = Some ms1" "pdisk_ok C ms1"
    "saved_pending ms1 = (saved_pending ms)(j := None)" by blast
  from Cons.IH [OF 1(2)] 1 show ?case by (auto simp: fun_eq_iff)
qed simp

lemma pmirrors_lock:
  assumes "pmirrors C a ms" and "sweep_lock now (a, Some ms) = (rs, (a', st'))"
  shows "\<exists>ms'. st' = Some ms' \<and> pmirrors C a' ms'"
proof -
  have wf: "ack_wf a" and d: "pdisk_ok C ms" using assms(1) by (simp_all add: pmirrors_def)
  have st': "st' = fold (\<lambda>i. with_store (RemovePending i)) (sweep_drops now a) (Some ms)"
    and a': "pending a' = fold gdel (sweep_drops now a) (pending a)"
    using assms(2) by (auto simp: sweep_lock_def Let_def)
  have g: "gget (pending a') i = (if i \<in> set (sweep_drops now a) then None else gget (pending a) i)" for i
    by (simp add: a' gomap.get_fold_del [OF ack_wfD(1) [OF wf]])
  from fold_RemovePending_disk [OF d, of "sweep_drops now a"] sweep_lock_pending(2) [OF wf assms(2)]
  show ?thesis
    using assms(1) by (auto simp: st' pmirrors_def g split: if_splits)
qed

lemma pmirrors_retry:
  assumes "pmirrors C a ms"
  shows "\<exists>a' ms'. retry_update now i (a, Some ms) = (a', Some ms') \<and> pmirrors C a' ms'"
proof (cases "gget (pending a) i")
  case None
  then show ?thesis using assms by (auto simp: retry_update_def)
next
  case (Some pm)
  have d: "pdisk_ok C ms" and k: "key_ok i" "0 \<le> pmRetries pm"
    using assms Some by (auto simp: pmirrors_def)
  have "map_option essence (saved_pending ms i) = Some (essence pm)"
    using assms Some by (simp add: pmirrors_def)
  then obtain pm' where s: "saved_pending ms i = Some pm'" "essence pm' = essence pm" by auto
  from UpdatePending_disk [OF d k(1) s(1), of now "pmRetries pm + 1"] obtain ms' where
    "with_store (UpdatePending i now (pmRetries pm + 1)) (Some ms) = Some ms'" "pdisk_ok C ms'"
    "saved_pending ms' = (saved_pending ms)(i \<mapsto> pm'\<lparr>pmSentAt := from_unix (unix now), pmRetries := pmRetries pm + 1\<rparr>)"
    by blast
  then show ?thesis
    using assms Some k s(2) ack_wf_retry_update [of a now i "Some ms"]
    by (auto simp: pmirrors_def retry_update_def Let_def essence_def)
qed

lemma pmirrors_fold_retry:
  "pmirrors C a ms \<Longrightarrow> \<exists>a' ms' w'. fold (retry_one sendFn clock) rs ((a, Some ms), w) = ((a', Some ms'), w') \<and> pmirrors C a' ms'"
proof (induction rs arbitrary: a ms w)
  case (Cons pm rs)
  let ?i = "MessageId (pmEnv pm)"
  from pmirrors_retry [OF Cons.prems, of "clock ?i" ?i] obtain a1 ms1 where
    1: "retry_update (clock ?i) ?i (a, Some ms) = (a1, Some ms1)" "pmirrors C a1 ms1" by blast
  from Cons.IH [OF 1(2)] 1(1) show ?case by (simp add: retry_one_pair)
qed auto

lemma pmirrors_sweep:
  assumes "pmirrors C a ms"
  shows "\<exists>a' ms' w'. sweep sendFn now clock ((a, Some ms), w) = ((a', Some ms'), w') \<and> pmirrors C a' ms'"
proof -
  obtain rs a1 st1 where l: "sweep_lock now (a, Some ms) = (rs, (a1, st1))"
    by (metis prod.collapse)
  from pmirrors_lock [OF assms l] obtain ms1 where "st1 = Some ms1" "pmirrors C a1 ms1" by blast
  with pmirrors_fold_retry [of C a1 ms1 sendFn clock rs w] l show ?thesis
    by (simp add: sweep_def)
qed

datatype ack_op =
    OpTrack time time envelope string
  | OpAck string
  | OpSweep time "string \<Rightarrow> time"

fun run_ack_op ::
  "(string \<Rightarrow> envelope \<Rightarrow> 'w \<Rightarrow> go_err option \<times> 'w) \<Rightarrow> ack_op \<Rightarrow> 'r tracked \<times> 'w \<Rightarrow> 'r tracked \<times> 'w" where
  "run_ack_op sendFn (OpTrack now stored env addr) (t, w) = (Track now stored env addr t, w)"
| "run_ack_op sendFn (OpAck i) (t, w) = (snd (Acknowledge i t), w)"
| "run_ack_op sendFn (OpSweep now clock) (t, w) = sweep sendFn now clock (t, w)"

fun storable_ack_op :: "'r codec \<Rightarrow> ack_op \<Rightarrow> bool" where
  "storable_ack_op C (OpTrack now stored env addr) \<longleftrightarrow>
     key_ok (MessageId env) \<and> encEnvelope C env \<noteq> None \<and> addr \<noteq> []"
| "storable_ack_op C _ \<longleftrightarrow> True"

lemma pmirrors_ops:
  "pmirrors C a ms \<Longrightarrow> list_all (storable_ack_op C) ops \<Longrightarrow>
     \<exists>a' ms' w'. fold (run_ack_op sendFn) ops ((a, Some ms), w) = ((a', Some ms'), w') \<and> pmirrors C a' ms'"
proof (induction ops arbitrary: a ms w)
  case (Cons op ops)
  have "\<exists>a' ms' w'. run_ack_op sendFn op ((a, Some ms), w) = ((a', Some ms'), w') \<and> pmirrors C a' ms'"
  proof (cases op)
    case (OpTrack now stored env addr)
    then show ?thesis using pmirrors_Track [OF Cons.prems(1)] Cons.prems(2) by simp
  next
    case (OpAck i)
    then show ?thesis using pmirrors_Acknowledge [OF Cons.prems(1), of i] by simp
  next
    case (OpSweep now clock)
    then show ?thesis using pmirrors_sweep [OF Cons.prems(1), of sendFn now clock w] by simp
  qed
  then obtain a1 ms1 w1 where 1: "run_ack_op sendFn op ((a, Some ms), w) = ((a1, Some ms1), w1)" "pmirrors C a1 ms1"
    by blast
  from Cons.IH [OF 1(2), of w1] Cons.prems(2) 1(1) show ?case by simp
qed simp

lemma find_SomeD: "find P xs = Some x \<Longrightarrow> x \<in> set xs \<and> P x"
  by (auto simp: find_Some_iff)

lemma pending_fold_restore:
  assumes "\<forall>pm\<in>set pms. pmPeerAddr pm \<noteq> []" and "distinct (map (MessageId \<circ> pmEnv) pms)"
  shows "gget (pending (fst (fold restore_one pms (a, st)))) i =
    (case find (\<lambda>pm. MessageId (pmEnv pm) = i) pms of Some pm \<Rightarrow> Some pm | None \<Rightarrow> gget (pending a) i)"
  using assms
proof (induction pms arbitrary: a)
  case (Cons pm pms)
  have "MessageId (pmEnv pm) = i \<Longrightarrow> find (\<lambda>pm. MessageId (pmEnv pm) = i) pms = None"
    using Cons.prems by (force simp: find_None_iff image_iff)
  with Cons show ?case
    by (auto simp: restore_one_def Restore_def split: option.splits)
qed simp

lemma LoadPending_of_mirror:
  assumes "pmirrors C a ms"
  shows "pm \<in> set (LoadPending ms) \<longleftrightarrow> saved_pending ms (MessageId (pmEnv pm)) = Some pm"
    and "\<forall>pm\<in>set (LoadPending ms). pmPeerAddr pm \<noteq> []"
    and "distinct (map (MessageId \<circ> pmEnv) (LoadPending ms))"
proof -
  have wf: "ack_wf a" and bwf: "bwf (bucketPending ms)"
    and sv: "\<And>i. map_option essence (saved_pending ms i) = map_option essence (gget (pending a) i)"
    and addr: "\<And>i pm. gget (pending a) i = Some pm \<Longrightarrow> pmPeerAddr pm \<noteq> []"
    using assms by (auto simp: pmirrors_def pdisk_ok_def)
  have src: "\<exists>pm'. gget (pending a) i = Some pm' \<and> essence pm' = essence pm" if "saved_pending ms i = Some pm" for i pm
  proof -
    have "map_option essence (gget (pending a) i) = Some (essence pm)"
      using sv [of i] that by simp
    then show ?thesis by auto
  qed
  have key: "MessageId (pmEnv pm) = i" if "saved_pending ms i = Some pm" for i pm
    using src [OF that] ack_wfD(2) [OF wf] by (metis essence_def prod.inject)
  have entry: "(k, v) \<in> set (bucketPending ms) \<Longrightarrow> saved_pending ms k = decode_pending (msCodec ms) v" for k v
    using bwf_distinct [OF bwf] by (simp add: saved_pending_def)
  show mem: "pm \<in> set (LoadPending ms) \<longleftrightarrow> saved_pending ms (MessageId (pmEnv pm)) = Some pm" for pm
  proof
    assume "pm \<in> set (LoadPending ms)"
    then obtain k v where "(k, v) \<in> set (bucketPending ms)" "decode_pending (msCodec ms) v = Some pm"
      by (auto simp: LoadPending_def set_map_filter)
    then show "saved_pending ms (MessageId (pmEnv pm)) = Some pm"
      using entry key by metis
  next
    assume "saved_pending ms (MessageId (pmEnv pm)) = Some pm"
    then show "pm \<in> set (LoadPending ms)"
      by (force simp: LoadPending_def set_map_filter saved_pending_def bind_eq_Some_conv dest: map_of_SomeD)
  qed
  show "\<forall>pm\<in>set (LoadPending ms). pmPeerAddr pm \<noteq> []"
    using mem src addr by (fastforce simp: essence_def)
  have "(MessageId \<circ> pmEnv) pm = k" if "(k, v) \<in> set (bucketPending ms)" "decode_pending (msCodec ms) v = Some pm" for k v pm
    using entry [OF that(1)] that(2) key by simp
  then show "distinct (map (MessageId \<circ> pmEnv) (LoadPending ms))"
    unfolding LoadPending_def by (rule distinct_decoded [OF bwf_distinct [OF bwf]])
qed

text \<open>
  C8. Pending messages survive a restart: after any sequence of \<open>Track\<close>, \<open>Acknowledge\<close>
  and sweeps, a fresh tracker restored from the database has exactly the messages that were pending,
  each with its envelope, peer and number of retries.
\<close>

theorem pending_survives_restart:
  assumes "codec_ok C" and "\<forall>sp. encPending C sp \<noteq> None" and "list_all (storable_ack_op C) ops"
    and "fold (run_ack_op sendFn) ops ((NewAckTracker, Some (NewMessageStore C)), w) = ((a, Some ms), w')"
  shows "map_option essence (gget (pending (fst (restore_pending ms))) i) = map_option essence (gget (pending a) i)"
proof -
  from pmirrors_ops [OF pmirrors_New [OF assms(1,2)] assms(3), of sendFn w] assms(4)
  have m: "pmirrors C a ms" by auto
  note load = LoadPending_of_mirror [OF m]
  have "gget (pending (fst (restore_pending ms))) i = saved_pending ms i"
  proof (cases "saved_pending ms i")
    case None
    then have "find (\<lambda>pm. MessageId (pmEnv pm) = i) (LoadPending ms) = None"
      using load(1) by (auto simp: find_None_iff)
    then show ?thesis
      using pending_fold_restore [OF load(2,3), of NewAckTracker "Some ms" i] None
      by (simp add: restore_pending_def) (simp add: NewAckTracker_def)
  next
    case (Some pm)
    have "map_option essence (gget (pending a) i) = Some (essence pm)"
      using m Some by (metis pmirrors_def option.simps(9))
    then obtain pm' where "gget (pending a) i = Some pm'" "pmEnv pm' = pmEnv pm"
      by (auto simp: essence_def)
    then have key: "MessageId (pmEnv pm) = i"
      using m ack_wfD(2) by (metis pmirrors_def)
    have "find (\<lambda>pm. MessageId (pmEnv pm) = i) (LoadPending ms) = Some x \<Longrightarrow> x = pm" for x
      using load(1) [of x] Some by (auto dest!: find_SomeD)
    moreover have "find (\<lambda>pm. MessageId (pmEnv pm) = i) (LoadPending ms) \<noteq> None"
      using load(1) [of pm] Some key by (auto simp: find_None_iff)
    ultimately show ?thesis
      using pending_fold_restore [OF load(2,3), of NewAckTracker "Some ms" i] Some
      by (auto simp: restore_pending_def)
  qed
  then show ?thesis
    using m by (simp add: pmirrors_def)
qed

theorem pending_survives_restart_witness:
  "let env = zero_envelope\<lparr>MessageId := ''m''\<rparr>;
       r = fold (run_ack_op record_send) [OpTrack 0 0 env ''peer:1'', OpSweep (5 * second) (\<lambda>_. 5 * second)]
             ((NewAckTracker, Some (NewMessageStore blob_codec)), [])
   in map_option essence (gget (pending (fst (restore_pending (the (snd (fst r)))))) ''m'') = Some (env, ''peer:1'', 1)"
proof -
  define env where "env = zero_envelope\<lparr>MessageId := ''m''\<rparr>"
  let ?ops = "[OpTrack 0 0 env ''peer:1'', OpSweep (5 * second) (\<lambda>_. 5 * second)]"
  let ?r = "fold (run_ack_op record_send) ?ops ((NewAckTracker, Some (NewMessageStore blob_codec)), [])"
  have id: "MessageId env = ''m''" by (simp add: env_def)
  have enc: "\<forall>sp. encPending blob_codec sp \<noteq> None" "list_all (storable_ack_op blob_codec) ?ops"
    by (simp_all add: blob_codec_def key_ok_def id)
  from pmirrors_ops [OF pmirrors_New [OF codec_ok_blob enc(1)] enc(2), of record_send "[]"] obtain a ms w where r: "?r = ((a, Some ms), w)" by blast
  have "gget (pending (fst (fst ?r))) ''m'' =
      Some \<lparr>pmEnv = env, pmPeerAddr = ''peer:1'', pmSentAt = 5 * second, pmRetries = 1\<rparr>"
    by (simp add: sweep_def sweep_lock_def sweep_drops_def sweep_retries_def expired_def Track_def id
        NewAckTracker_def defaultACKTimeout_def defaultMaxRetries_def second_def Let_def retry_one_def
        retry_update_def)
  then have "map_option essence (gget (pending a) ''m'') = Some (env, ''peer:1'', 1)"
    using r by (simp add: essence_def)
  then show ?thesis
    using pending_survives_restart [OF codec_ok_blob enc r, of "''m''"]
    unfolding Let_def env_def [symmetric] r by simp
qed

end
