(* ===== verification/Trace_Store.thy ===== *)
theory Trace_Store
  imports Messages
begin

text \<open>
  The trace store (\<open>internal/daemon/tracestore.go\<close>): a ring buffer of spans with an index from
  trace identifiers to ring positions, kept in step by hand. Its contract is the plain history of
  recorded spans, of which the store shows the last \<open>capacity\<close>. Recording into a store of
  capacity zero indexes an empty slice: that panic is \<open>None\<close>.
\<close>

record trace_span =
  tsTraceId :: string
  tsMessageId :: string
  tsNodeId :: string
  tsAction :: trace_action
  tsTimestamp :: time
  tsMetadata :: "(string, string) gomap"

record trace_store =
  spans :: "trace_span option list"
  index :: "(string, nat list) gomap"
  capacity :: nat
  head :: nat
  tcount :: nat

definition NewTraceStore :: "nat \<Rightarrow> trace_store" where
  "NewTraceStore c = \<lparr>spans = replicate c None, index = [], capacity = c, head = 0, tcount = 0\<rparr>"

definition removeIndexEntry :: "string \<Rightarrow> nat \<Rightarrow> trace_store \<Rightarrow> trace_store" where
  "removeIndexEntry traceID pos ts =
     (let positions = gget_or [] (index ts) traceID;
          ts = (if pos \<in> set positions then ts\<lparr>index := gput traceID (remove1 pos positions) (index ts)\<rparr> else ts)
      in if gget_or [] (index ts) traceID = [] then ts\<lparr>index := gdel traceID (index ts)\<rparr> else ts)"

definition Record :: "trace_span \<Rightarrow> trace_store \<Rightarrow> trace_store option" where
  "Record span ts =
     (if head ts < length (spans ts)
      then let ts = (if tcount ts \<ge> capacity ts
                     then case spans ts ! head ts of
                            Some old \<Rightarrow> removeIndexEntry (tsTraceId old) (head ts) ts
                          | None \<Rightarrow> ts
                     else ts);
               ts = ts\<lparr>spans := (spans ts)[head ts := Some span]\<rparr>;
               ts = ts\<lparr>index := gput (tsTraceId span) (gget_or [] (index ts) (tsTraceId span) @ [head ts]) (index ts)\<rparr>
           in Some (ts\<lparr>head := (head ts + 1) mod capacity ts, tcount := tcount ts + 1\<rparr>)
      else None)"

definition RecordSpan ::
  "time \<Rightarrow> string \<Rightarrow> string \<Rightarrow> string \<Rightarrow> trace_action \<Rightarrow> (string, string) gomap \<Rightarrow> trace_store \<Rightarrow> trace_store option" where
  "RecordSpan now traceID messageID nodeID action metadata ts =
     Record \<lparr>tsTraceId = traceID, tsMessageId = messageID, tsNodeId = nodeID, tsAction = action,
             tsTimestamp = now, tsMetadata = metadata\<rparr> ts"

definition GetTrace :: "string \<Rightarrow> trace_store \<Rightarrow> trace_span list" where
  "GetTrace traceID ts =
     (case gget (index ts) traceID of
        None \<Rightarrow> []
      | Some positions \<Rightarrow>
          List.map_filter (\<lambda>pos. case spans ts ! pos of
              Some span \<Rightarrow> (if tsTraceId span = traceID then Some span else None) | None \<Rightarrow> None) positions)"

section \<open>The ring shows the end of the history\<close>

text \<open>The ring positions of the retained spans of one trace, oldest first.\<close>

definition window :: "nat \<Rightarrow> trace_span list \<Rightarrow> nat list" where
  "window c h = [length h - c..<length h]"

definition positions_of :: "nat \<Rightarrow> trace_span list \<Rightarrow> string \<Rightarrow> nat list" where
  "positions_of c h t = map (\<lambda>j. j mod c) (filter (\<lambda>j. tsTraceId (h ! j) = t) (window c h))"

definition shows_history :: "nat \<Rightarrow> trace_span list \<Rightarrow> trace_store \<Rightarrow> bool" where
  "shows_history c h ts \<longleftrightarrow> 0 < c \<and> capacity ts = c \<and> length (spans ts) = c \<and> tcount ts = length h \<and>
     head ts = length h mod c \<and>
     (\<forall>j\<in>set (window c h). spans ts ! (j mod c) = Some (h ! j)) \<and>
     (\<forall>t. gget_or [] (index ts) t = positions_of c h t) \<and> (\<forall>t. gget (index ts) t \<noteq> Some [])"

lemma shows_history_New: "0 < c \<Longrightarrow> shows_history c [] (NewTraceStore c)"
  by (simp add: shows_history_def NewTraceStore_def window_def positions_of_def gget_or_def)

lemma window_snoc:
  "0 < c \<Longrightarrow> window c (h @ [s]) = (if length h < c then window c h else tl (window c h)) @ [length h]"
  by (auto simp: window_def Suc_diff_le tl_upt not_less)

lemma window_full: "0 < c \<Longrightarrow> c \<le> length h \<Longrightarrow> window c h = (length h - c) # tl (window c h)"
  by (simp add: window_def upt_conv_Cons tl_upt)

lemma window_bound: "j \<in> set (window c h) \<Longrightarrow> j < length h"
  by (auto simp: window_def)

lemma window_new_pos:
  "0 < c \<Longrightarrow> j \<in> set (if length h < c then window c h else tl (window c h)) \<Longrightarrow> j mod c \<noteq> length h mod c"
proof -
  assume c: "0 < c" and j: "j \<in> set (if length h < c then window c h else tl (window c h))"
  have "length h < j + c" "j < length h"
    using c j by (auto simp: window_def tl_upt split: if_splits)
  then have "(length h - j) mod c \<noteq> 0"
    by (simp add: nat_dvd_not_less mod_greater_zero_iff_not_dvd [symmetric])
  then show ?thesis
    using \<open>j < length h\<close> by (metis mod_eq_dvd_iff_nat mod_0_imp_dvd dvd_imp_mod_0 less_imp_le)
qed

text \<open>The index after the overwritten span has been taken out.\<close>

definition cleaned :: "trace_store \<Rightarrow> trace_store" where
  "cleaned ts = (if tcount ts \<ge> capacity ts
     then case spans ts ! head ts of Some old \<Rightarrow> removeIndexEntry (tsTraceId old) (head ts) ts | None \<Rightarrow> ts
     else ts)"

lemma removeIndexEntry_frame [simp, frame]:
  "spans (removeIndexEntry t p ts) = spans ts" "capacity (removeIndexEntry t p ts) = capacity ts"
  "head (removeIndexEntry t p ts) = head ts" "tcount (removeIndexEntry t p ts) = tcount ts"
  by (simp_all add: removeIndexEntry_def Let_def)

lemma removeIndexEntry_index:
  "\<forall>t. gget (index ts) t \<noteq> Some [] \<Longrightarrow>
     gget_or [] (index (removeIndexEntry t p ts)) t' =
       (if t' = t then remove1 p (gget_or [] (index ts) t) else gget_or [] (index ts) t') \<and>
     gget (index (removeIndexEntry t p ts)) t' \<noteq> Some []"
  by (auto simp: removeIndexEntry_def Let_def gget_or_def remove1_idem split: option.splits)

lemma cleaned_frame [simp, frame]:
  "spans (cleaned ts) = spans ts" "capacity (cleaned ts) = capacity ts"
  "head (cleaned ts) = head ts" "tcount (cleaned ts) = tcount ts"
  by (simp_all add: cleaned_def split: option.splits)

lemma cleaned_index:
  assumes "shows_history c h ts"
  shows "gget_or [] (index (cleaned ts)) t =
      map (\<lambda>j. j mod c) (filter (\<lambda>j. tsTraceId (h ! j) = t) (if length h < c then window c h else tl (window c h)))
    \<and> gget (index (cleaned ts)) t \<noteq> Some []"
proof (cases "length h < c")
  case True
  then show ?thesis
    using assms by (simp add: cleaned_def shows_history_def positions_of_def)
next
  case False
  have c: "0 < c" and ne: "\<forall>t. gget (index ts) t \<noteq> Some []"
    and ix: "\<And>t. gget_or [] (index ts) t = positions_of c h t"
    using assms by (simp_all add: shows_history_def)
  have w: "window c h = (length h - c) # tl (window c h)"
    using window_full [OF c] False by simp
  let ?old = "h ! (length h - c)"
  have pos: "(length h - c) mod c = length h mod c"
    using False by (simp add: le_mod_geq)
  have "spans ts ! ((length h - c) mod c) = Some ?old"
    using assms w by (metis list.set_intros(1) shows_history_def)
  then have cl: "cleaned ts = removeIndexEntry (tsTraceId ?old) (length h mod c) ts"
    using assms False pos by (simp add: cleaned_def shows_history_def)
  have p: "positions_of c h t = (if tsTraceId ?old = t then [length h mod c] else []) @
      map (\<lambda>j. j mod c) (filter (\<lambda>j. tsTraceId (h ! j) = t) (tl (window c h)))" for t
    unfolding positions_of_def by (subst w) (simp add: pos)
  show ?thesis
    using removeIndexEntry_index [OF ne, of "tsTraceId ?old" "length h mod c" t] False
    by (auto simp: cl ix p)
qed

lemma Record_shows_history:
  assumes "shows_history c h ts"
  shows "\<exists>ts'. Record s ts = Some ts' \<and> shows_history c (h @ [s]) ts'"
proof -
  have c: "0 < c" and cap: "capacity ts = c" "length (spans ts) = c" "tcount ts = length h"
    and hd: "head ts = length h mod c"
    using assms by (simp_all add: shows_history_def)
  let ?old = "if length h < c then window c h else tl (window c h)"
  let ?ix = "index (cleaned ts)"
  let ?ts = "(cleaned ts)\<lparr>spans := (spans ts)[head ts := Some s],
     index := gput (tsTraceId s) (gget_or [] ?ix (tsTraceId s) @ [head ts]) ?ix,
     head := (head ts + 1) mod c, tcount := length h + 1\<rparr>"
  have rec: "Record s ts = Some ?ts"
    unfolding Record_def cleaned_def [symmetric] Let_def using c by (simp add: cap hd)
  have w: "window c (h @ [s]) = ?old @ [length h]"
    using window_snoc [OF c] .
  have old: "j < length h" "j \<in> set (window c h)" if "j \<in> set ?old" for j
    using that window_bound by (auto simp: window_def tl_upt split: if_splits)
  have nth: "(h @ [s]) ! j = h ! j" if "j \<in> set ?old" for j
    using old(1) [OF that] by (simp add: nth_append)
  have "spans ?ts ! (j mod c) = Some ((h @ [s]) ! j)" if "j \<in> set ?old" for j
    using assms old(2) [OF that] nth [OF that] window_new_pos [OF c that]
    by (simp add: shows_history_def)
  moreover have "spans ?ts ! (length h mod c) = Some ((h @ [s]) ! length h)"
    using c by (simp add: cap hd)
  ultimately have "\<forall>j\<in>set (window c (h @ [s])). spans ?ts ! (j mod c) = Some ((h @ [s]) ! j)"
    unfolding w by (simp del: if_split_asm)
  moreover have "gget_or [] (index ?ts) t = positions_of c (h @ [s]) t" for t
  proof -
    have f: "filter (\<lambda>j. tsTraceId ((h @ [s]) ! j) = t) ?old = filter (\<lambda>j. tsTraceId (h ! j) = t) ?old"
      using nth by (intro filter_cong) simp_all
    show ?thesis
      using cleaned_index [OF assms, of t]
      unfolding positions_of_def w filter_append f by (auto simp: gget_or_def hd)
  qed
  moreover have "gget (index ?ts) t \<noteq> Some []" for t
    using cleaned_index [OF assms, of t] by simp
  ultimately show ?thesis
    using c cap rec by (auto simp: shows_history_def hd mod_Suc_eq)
qed

fun record_all :: "trace_span list \<Rightarrow> trace_store \<Rightarrow> trace_store option" where
  "record_all [] ts = Some ts"
| "record_all (s # ss) ts = Option.bind (Record s ts) (record_all ss)"

lemma record_all_shows_history:
  "shows_history c h ts \<Longrightarrow> \<exists>ts'. record_all ss ts = Some ts' \<and> shows_history c (h @ ss) ts'"
proof (induction ss arbitrary: h ts)
  case (Cons s ss)
  from Record_shows_history [OF Cons.prems, of s] obtain ts1 where
    "Record s ts = Some ts1" "shows_history c (h @ [s]) ts1" by blast
  with Cons.IH [of "h @ [s]" ts1] show ?case by simp
qed simp

lemma GetTrace_shows_history:
  assumes "shows_history c h ts"
  shows "GetTrace t ts = filter (\<lambda>s. tsTraceId s = t) (drop (length h - c) h)"
proof -
  let ?f = "\<lambda>pos. case spans ts ! pos of
      Some span \<Rightarrow> (if tsTraceId span = t then Some span else None) | None \<Rightarrow> None"
  have "GetTrace t ts = List.map_filter ?f (gget_or [] (index ts) t)"
    by (simp add: GetTrace_def gget_or_def List.map_filter_simps split: option.splits)
  also have "\<dots> = List.map_filter ?f (positions_of c h t)"
    using assms by (simp add: shows_history_def)
  also have "\<dots> = map (\<lambda>j. h ! j) (filter (\<lambda>j. tsTraceId (h ! j) = t) (window c h))"
  proof -
    have "List.map_filter ?f (map (\<lambda>j. j mod c) (filter (\<lambda>j. tsTraceId (h ! j) = t) js)) =
        map (\<lambda>j. h ! j) (filter (\<lambda>j. tsTraceId (h ! j) = t) js)"
      if "set js \<subseteq> set (window c h)" for js
      using that
    proof (induction js)
      case (Cons j js)
      then have "spans ts ! (j mod c) = Some (h ! j)"
        using assms by (simp add: shows_history_def)
      with Cons show ?case by (simp add: List.map_filter_simps)
    qed (simp add: List.map_filter_simps)
    then show ?thesis by (simp add: positions_of_def)
  qed
  also have "\<dots> = filter (\<lambda>s. tsTraceId s = t) (map (\<lambda>j. h ! j) (window c h))"
    by (simp add: filter_map comp_def)
  also have "map (\<lambda>j. h ! j) (window c h) = drop (length h - c) h"
    by (rule nth_equalityI) (auto simp: window_def)
  finally show ?thesis .
qed

text \<open>
  C9. The ring buffer refines the plain history: after recording any spans into a store of positive
  capacity, which never panics, \<open>GetTrace\<close> returns in order exactly the spans of that trace
  among the last \<open>capacity\<close> recorded.
\<close>

theorem trace_ring_refines_history:
  assumes "0 < c"
  shows "\<exists>ts. record_all ss (NewTraceStore c) = Some ts \<and>
    (\<forall>t. GetTrace t ts = filter (\<lambda>s. tsTraceId s = t) (drop (length ss - c) ss))"
  using record_all_shows_history [OF shows_history_New [OF assms], of ss] GetTrace_shows_history by fastforce

theorem trace_ring_refines_history_witness:
  "let sp = (\<lambda>t m. \<lparr>tsTraceId = t, tsMessageId = m, tsNodeId = ''n'', tsAction = ROUTED_LOCAL,
        tsTimestamp = 0, tsMetadata = []\<rparr>)
   in GetTrace ''t'' (the (record_all [sp ''t'' ''1'', sp ''u'' ''2'', sp ''t'' ''3''] (NewTraceStore 2))) = [sp ''t'' ''3'']"
  unfolding Let_def
  using trace_ring_refines_history [of 2 "[\<lparr>tsTraceId = ''t'', tsMessageId = ''1'', tsNodeId = ''n'',
      tsAction = ROUTED_LOCAL, tsTimestamp = 0, tsMetadata = []\<rparr>, \<lparr>tsTraceId = ''u'', tsMessageId = ''2'',
      tsNodeId = ''n'', tsAction = ROUTED_LOCAL, tsTimestamp = 0, tsMetadata = []\<rparr>, \<lparr>tsTraceId = ''t'',
      tsMessageId = ''3'', tsNodeId = ''n'', tsAction = ROUTED_LOCAL, tsTimestamp = 0, tsMetadata = []\<rparr>]"]
  by (auto simp del: record_all.simps)

end
