(* ===== verification/Activity_Bus.thy ===== *)
theory Activity_Bus
  imports Message_Store
begin

text \<open>
  The activity bus of a daemon (\<open>internal/daemon/activitybus.go\<close>): counters, the usage
  recorder and a fan-out of events to dashboard subscribers that never blocks. The bus and the
  durable store behind its recorder are a pair. An atomic counter is a 64-bit word.
\<close>

record bus_counters =
  MessagesRouted :: "64 word"
  MessagesDeliveredLocal :: "64 word"
  MessagesSentRemote :: "64 word"
  MessagesReceivedRemote :: "64 word"
  SessionsOpened :: "64 word"
  SessionsResolved :: "64 word"
  RoomsCreated :: "64 word"
  RoomMessagesPosted :: "64 word"
  RoomMembersJoined :: "64 word"
  RoomMembersLeft :: "64 word"
  RoomsClosed :: "64 word"

datatype bus_event =
    EvMessageRouted string string string bool string string
  | EvSessionOpened string string string
  | EvSessionResolved string string
  | EvHandleRegistered string
  | EvRoomCreated string string string "string list"
  | EvRoomMessagePosted string "64 word" string "string list" string string string string string string "32 word"
  | EvRoomMemberJoined string string "string list"
  | EvRoomMemberLeft string string "string list"
  | EvRoomClosed string string "string list"

type_synonym activity_event = "time \<times> bus_event"

record activity_bus =
  busSubs :: "activity_event chan list"
  usageSet :: bool
  busCounters :: bus_counters
  busNextChan :: nat

type_synonym 'r bus_state = "activity_bus \<times> 'r message_store"

definition NewActivityBus :: activity_bus where
  "NewActivityBus = \<lparr>busSubs = [], usageSet = False,
     busCounters = \<lparr>MessagesRouted = 0, MessagesDeliveredLocal = 0, MessagesSentRemote = 0,
       MessagesReceivedRemote = 0, SessionsOpened = 0, SessionsResolved = 0, RoomsCreated = 0,
       RoomMessagesPosted = 0, RoomMembersJoined = 0, RoomMembersLeft = 0, RoomsClosed = 0\<rparr>,
     busNextChan = 0\<rparr>"

definition SetUsageRecorder :: "activity_bus \<Rightarrow> activity_bus" where
  "SetUsageRecorder b = b\<lparr>usageSet := True\<rparr>"

definition SubscribeBus :: "activity_bus \<Rightarrow> nat \<times> activity_bus" where
  "SubscribeBus b = (busNextChan b,
     b\<lparr>busSubs := busSubs b @ [make_chan (busNextChan b) 64], busNextChan := busNextChan b + 1\<rparr>)"

text \<open>The channel leaves the set before it is closed, so no event is ever sent to a closed one.\<close>

definition UnsubscribeBus :: "nat \<Rightarrow> activity_bus \<Rightarrow> activity_bus" where
  "UnsubscribeBus c b = b\<lparr>busSubs := filter (\<lambda>ch. ch_id ch \<noteq> c) (busSubs b)\<rparr>"

definition Emit :: "activity_event \<Rightarrow> activity_bus \<Rightarrow> activity_bus" where
  "Emit e b = b\<lparr>busSubs := map (try_send e) (busSubs b)\<rparr>"

definition recordUsage :: "time \<Rightarrow> usage_metric \<Rightarrow> 'r bus_state \<Rightarrow> 'r bus_state" where
  "recordUsage now metric = (\<lambda>(b, ms).
     (b, if usageSet b then or_keep (RecordUsage metric now 1 ms) ms else ms))"

definition Counters :: "activity_bus \<Rightarrow> bus_counters" where
  "Counters b = busCounters b"

definition count_up :: "(bus_counters \<Rightarrow> bus_counters) \<Rightarrow> 'r bus_state \<Rightarrow> 'r bus_state" where
  "count_up f = (\<lambda>(b, ms). (b\<lparr>busCounters := f (busCounters b)\<rparr>, ms))"

definition emit_on :: "activity_event \<Rightarrow> 'r bus_state \<Rightarrow> 'r bus_state" where
  "emit_on e = (\<lambda>(b, ms). (Emit e b, ms))"

definition EmitMessageRouted ::
  "time \<Rightarrow> string \<Rightarrow> string \<Rightarrow> string \<Rightarrow> bool \<Rightarrow> string \<Rightarrow> string \<Rightarrow> 'r bus_state \<Rightarrow> 'r bus_state" where
  "EmitMessageRouted now sessionID from to remote traceID messageID s =
     (let s = count_up (MessagesRouted_update (\<lambda>n. n + 1)) s;
          s = recordUsage now MESSAGES_ROUTED s;
          s = (if remote then count_up (MessagesSentRemote_update (\<lambda>n. n + 1)) s
               else count_up (MessagesDeliveredLocal_update (\<lambda>n. n + 1)) s)
      in emit_on (now, EvMessageRouted sessionID from to remote traceID messageID) s)"

definition EmitSessionOpened :: "time \<Rightarrow> string \<Rightarrow> string \<Rightarrow> string \<Rightarrow> 'r bus_state \<Rightarrow> 'r bus_state" where
  "EmitSessionOpened now sessionID from to s =
     emit_on (now, EvSessionOpened sessionID from to)
       (recordUsage now SESSIONS_OPENED (count_up (SessionsOpened_update (\<lambda>n. n + 1)) s))"

definition EmitSessionResolved :: "time \<Rightarrow> string \<Rightarrow> string \<Rightarrow> 'r bus_state \<Rightarrow> 'r bus_state" where
  "EmitSessionResolved now sessionID from s =
     emit_on (now, EvSessionResolved sessionID from) (count_up (SessionsResolved_update (\<lambda>n. n + 1)) s)"

definition EmitHandleRegistered :: "time \<Rightarrow> string \<Rightarrow> 'r bus_state \<Rightarrow> 'r bus_state" where
  "EmitHandleRegistered now h s = emit_on (now, EvHandleRegistered h) s"

definition EmitRoomCreated ::
  "time \<Rightarrow> string \<Rightarrow> string \<Rightarrow> string \<Rightarrow> string list \<Rightarrow> 'r bus_state \<Rightarrow> 'r bus_state" where
  "EmitRoomCreated now roomID title createdBy members s =
     emit_on (now, EvRoomCreated roomID title createdBy members)
       (recordUsage now ROOMS_CREATED (count_up (RoomsCreated_update (\<lambda>n. n + 1)) s))"

definition EmitRoomMessagePosted ::
  "time \<Rightarrow> string \<Rightarrow> 64 word \<Rightarrow> string \<Rightarrow> string list \<Rightarrow> string \<Rightarrow> string \<Rightarrow> string \<Rightarrow> string \<Rightarrow> string \<Rightarrow>
     string \<Rightarrow> 32 word \<Rightarrow> 'r bus_state \<Rightarrow> 'r bus_state" where
  "EmitRoomMessagePosted now roomID roomSeq from members traceID contentType contentKind targetHandle
       turnID status round s =
     emit_on (now, EvRoomMessagePosted roomID roomSeq from members traceID contentType contentKind
                targetHandle turnID status round)
       (recordUsage now ROOM_MESSAGES_POSTED (count_up (RoomMessagesPosted_update (\<lambda>n. n + 1)) s))"

definition EmitRoomMemberJoined :: "time \<Rightarrow> string \<Rightarrow> string \<Rightarrow> string list \<Rightarrow> 'r bus_state \<Rightarrow> 'r bus_state" where
  "EmitRoomMemberJoined now roomID h members s =
     emit_on (now, EvRoomMemberJoined roomID h members) (count_up (RoomMembersJoined_update (\<lambda>n. n + 1)) s)"

definition EmitRoomMemberLeft :: "time \<Rightarrow> string \<Rightarrow> string \<Rightarrow> string list \<Rightarrow> 'r bus_state \<Rightarrow> 'r bus_state" where
  "EmitRoomMemberLeft now roomID h members s =
     emit_on (now, EvRoomMemberLeft roomID h members) (count_up (RoomMembersLeft_update (\<lambda>n. n + 1)) s)"

definition EmitRoomClosed :: "time \<Rightarrow> string \<Rightarrow> string \<Rightarrow> string list \<Rightarrow> 'r bus_state \<Rightarrow> 'r bus_state" where
  "EmitRoomClosed now roomID closedBy members s =
     emit_on (now, EvRoomClosed roomID closedBy members) (count_up (RoomsClosed_update (\<lambda>n. n + 1)) s)"

lemmas emit_defs = EmitMessageRouted_def EmitSessionOpened_def EmitSessionResolved_def
  EmitHandleRegistered_def EmitRoomCreated_def EmitRoomMessagePosted_def EmitRoomMemberJoined_def
  EmitRoomMemberLeft_def EmitRoomClosed_def emit_on_def count_up_def recordUsage_def Emit_def Let_def

section \<open>What a subscriber sees\<close>

lemma try_send_take: "chan_ok c \<Longrightarrow> ch_buf (try_send x c) = take (ch_cap c) (ch_buf c @ [x])"
  by (auto simp: try_send_def chan_ok_def has_room_def)

lemma fold_try_send:
  "chan_ok c \<Longrightarrow> ch_buf (fold try_send xs c) = take (ch_cap c) (ch_buf c @ xs)"
proof (induction xs arbitrary: c)
  case Nil
  then show ?case by (simp add: chan_ok_def)
next
  case (Cons x xs)
  have "ch_buf (fold try_send (x # xs) c) = take (ch_cap c) (take (ch_cap c) (ch_buf c @ [x]) @ xs)"
    using Cons by (simp add: try_send_take)
  also have "\<dots> = take (ch_cap c) (ch_buf c @ x # xs)"
    using Cons.prems by (cases "length (ch_buf c) < ch_cap c") (simp_all add: chan_ok_def)
  finally show ?case .
qed

lemma subs_fold_Emit: "busSubs (fold Emit es b) = map (fold try_send es) (busSubs b)"
  by (induction es arbitrary: b) (simp_all add: Emit_def)

lemma ch_id_fold_try_send [simp]: "ch_id (fold try_send es c) = ch_id c" "ch_closed (fold try_send es c) = ch_closed c"
  by (induction es arbitrary: c) simp_all

text \<open>
  Emitting never blocks and never reorders: a subscriber that has just subscribed and reads
  nothing holds exactly the first 64 of the events emitted since, in order, and unsubscribing takes
  its channel out of the fan-out.
\<close>

theorem subscriber_sees_prefix:
  "(\<exists>ch\<in>set (busSubs (fold Emit es (snd (SubscribeBus b)))). ch_id ch = fst (SubscribeBus b) \<and>
      ch_buf ch = take 64 es) \<and>
   (\<forall>ch\<in>set (busSubs (fold Emit es (UnsubscribeBus c b))). ch_id ch \<noteq> c)"
proof
  let ?c = "make_chan (busNextChan b) 64 :: activity_event chan"
  have "chan_ok ?c" "ch_cap ?c = 64" "ch_buf ?c = []" "ch_id ?c = busNextChan b"
    by (simp_all) (simp_all add: make_chan_def)
  then show "\<exists>ch\<in>set (busSubs (fold Emit es (snd (SubscribeBus b)))). ch_id ch = fst (SubscribeBus b) \<and> ch_buf ch = take 64 es"
    using fold_try_send [of ?c es] by (simp add: subs_fold_Emit SubscribeBus_def)
  show "\<forall>ch\<in>set (busSubs (fold Emit es (UnsubscribeBus c b))). ch_id ch \<noteq> c"
    by (auto simp: subs_fold_Emit UnsubscribeBus_def)
qed

theorem subscriber_sees_prefix_witness:
  "(\<exists>ch\<in>set (busSubs (fold Emit [(1, EvHandleRegistered ''bob'')] (snd (SubscribeBus NewActivityBus)))).
      ch_id ch = 0 \<and> ch_buf ch = [(1, EvHandleRegistered ''bob'')]) \<and>
   0 \<notin> ch_id ` set (busSubs (fold Emit [] (UnsubscribeBus 0 (snd (SubscribeBus NewActivityBus)))))"
  using subscriber_sees_prefix [of "[(1, EvHandleRegistered ''bob'')]" NewActivityBus]
    subscriber_sees_prefix [of "[]" "snd (SubscribeBus NewActivityBus)" 0]
  by (auto simp: SubscribeBus_def NewActivityBus_def)

text \<open>Every routed message is counted once, as delivered locally or as sent to a peer.\<close>

definition routed_balance :: "activity_bus \<Rightarrow> bool" where
  "routed_balance b \<longleftrightarrow>
     MessagesRouted (busCounters b) = MessagesDeliveredLocal (busCounters b) + MessagesSentRemote (busCounters b)"

lemma routed_balance_emits [keeps]:
  assumes "routed_balance (fst s)"
  shows "routed_balance (fst (EmitMessageRouted now sid f t r tr m s))"
    "routed_balance (fst (EmitSessionOpened now sid f t s))"
    "routed_balance (fst (EmitSessionResolved now sid f s))"
    "routed_balance (fst (EmitHandleRegistered now h s))"
    "routed_balance (fst (EmitRoomCreated now rid ti by ms s))"
    "routed_balance (fst (EmitRoomMessagePosted now rid sq f ms tr ct ck th tu st rn s))"
    "routed_balance (fst (EmitRoomMemberJoined now rid h ms s))"
    "routed_balance (fst (EmitRoomMemberLeft now rid h ms s))"
    "routed_balance (fst (EmitRoomClosed now rid h ms s))"
  using assms by (cases s, simp add: emit_defs routed_balance_def)+

end
