(* ===== verification/Daemon_State.thy ===== *)
theory Daemon_State
  imports Ack_Tracker Trace_Store Activity_Bus Transport
begin

text \<open>
  The state of one daemon: the components of the earlier theories wired together as
  \<open>internal/daemon/daemon.go\<close> wires them, the tables of the agent server, and the goroutines it
  has started and that have not run yet. A call gets a runtime record with the network, one reading
  of the clock (each reading in a call is this one), the identifiers \<open>uuid.New\<close> draws in the
  call, and the answers of the coordination server and of the JSON parser. A panic of a goroutine
  ends the process; it is recorded in \<open>dPanicked\<close>.
\<close>

section \<open>State\<close>

datatype incoming = InEnvelope envelope | InRoomEvent room_event

record handle_stats =
  msgsIn :: "64 word"
  msgsOut :: "64 word"
  drops :: "64 word"

datatype task =
    TaskRoute envelope
  | TaskMention string string bytes string
  | TaskHandleChange "string list" "(string, pb_manifest) gomap"

record ('r, 'w) daemon =
  dNode :: string
  dResolver :: resolver
  dTransport :: "'w grpc_transport"
  dSessions :: "'r message_store store"
  dStore :: "'r message_store"
  dAck :: ack_tracker
  dBus :: activity_bus
  dTrace :: trace_store
  dAuthToken :: string
  dHandles :: "(string, bool) gomap"
  dManifests :: "(string, pb_manifest) gomap"
  dSubs :: "(string, nat list) gomap"
  dChans :: "(nat, incoming chan) gomap"
  dNextChan :: nat
  dStats :: "(string, handle_stats) gomap"
  dConnHandles :: "(64 word, (string, bool) gomap) gomap"
  dHandleOwner :: "(string, 64 word) gomap"
  dHandleChangeSet :: bool
  dTasks :: "task list"
  dPendingResp :: "(string, room_command_result chan) gomap"
  dCoordSet :: bool
  dUpserts :: "room_info list"
  dPanicked :: bool

text \<open>JSON values as far as the code looks at them; a number is truncated to an integer.\<close>

datatype json = JString string | JNumber int | JOther

record 'w rt =
  rtNet :: "'w net"
  rtNow :: time
  rtUuid :: "nat \<Rightarrow> string"
  rtUpsertRoom :: "room_info \<Rightarrow> go_err option"
  rtListRooms :: "string \<Rightarrow> room_info list result"
  rtUnmarshal :: "bytes \<Rightarrow> (string, json) gomap option"

text \<open>The daemon \<open>New\<close> builds: every component empty, the persistence callbacks and recorder wired.\<close>

definition NewDaemon :: "string \<Rightarrow> 'r codec \<Rightarrow> 'w \<Rightarrow> ('r, 'w) daemon" where
  "NewDaemon node C w = \<lparr>dNode = node, dResolver = NewResolver,
     dTransport = SetResolver (NewGRPCTransport True True w), dSessions = wired_store,
     dStore = NewMessageStore C, dAck = NewAckTracker, dBus = SetUsageRecorder NewActivityBus,
     dTrace = NewTraceStore 10000, dAuthToken = [], dHandles = [], dManifests = [], dSubs = [], dChans = [],
     dNextChan = 0, dStats = [], dConnHandles = [], dHandleOwner = [], dHandleChangeSet = False, dTasks = [],
     dPendingResp = [], dCoordSet = False, dUpserts = [], dPanicked = False\<rparr>"

section \<open>Calls into the components\<close>

definition put_session :: "session \<Rightarrow> ('r, 'w) daemon \<Rightarrow> ('r, 'w) daemon" where
  "put_session x d = (case Put x (dSessions d, dStore d) of (s, ms) \<Rightarrow> d\<lparr>dSessions := s, dStore := ms\<rparr>)"

definition on_bus :: "('r bus_state \<Rightarrow> 'r bus_state) \<Rightarrow> ('r, 'w) daemon \<Rightarrow> ('r, 'w) daemon" where
  "on_bus f d = (case f (dBus d, dStore d) of (b, ms) \<Rightarrow> d\<lparr>dBus := b, dStore := ms\<rparr>)"

definition on_tracker :: "('r tracked \<Rightarrow> 'r tracked) \<Rightarrow> ('r, 'w) daemon \<Rightarrow> ('r, 'w) daemon" where
  "on_tracker f d = (case f (dAck d, Some (dStore d)) of (a, st) \<Rightarrow>
     d\<lparr>dAck := a, dStore := (case st of Some ms \<Rightarrow> ms | None \<Rightarrow> dStore d)\<rparr>)"

definition record_span ::
  "'w rt \<Rightarrow> string \<Rightarrow> string \<Rightarrow> trace_action \<Rightarrow> (string, string) gomap \<Rightarrow> ('r, 'w) daemon \<Rightarrow> ('r, 'w) daemon" where
  "record_span rt traceID messageID action metadata d =
     (case RecordSpan (rtNow rt) traceID messageID (dNode d) action metadata (dTrace d) of
        Some ts \<Rightarrow> d\<lparr>dTrace := ts\<rparr>
      | None \<Rightarrow> d\<lparr>dPanicked := True\<rparr>)"

text \<open>The callback \<open>OnSend\<close> of the transport.\<close>

definition on_sent :: "'w rt \<Rightarrow> transport_message \<Rightarrow> ('r, 'w) daemon \<Rightarrow> ('r, 'w) daemon" where
  "on_sent rt msg d =
     (case Body msg of
        BodyEnvelope env \<Rightarrow>
          if TraceId env \<noteq> [] then record_span rt (TraceId env) (MessageId env) SENT_TO_TRANSPORT [] d else d
      | _ \<Rightarrow> d)"

definition transport_send ::
  "'w rt \<Rightarrow> string \<Rightarrow> transport_message \<Rightarrow> ('r, 'w) daemon \<Rightarrow> go_err option \<times> ('r, 'w) daemon" where
  "transport_send rt addr msg d =
     (case Send (rtNet rt) (dResolver d) (rtNow rt) (rtNow rt) addr msg (dTransport d) of (res, t) \<Rightarrow>
        (res, fold (on_sent rt) (drop (length (notified (dTransport d))) (notified t)) (d\<lparr>dTransport := t\<rparr>)))"

section \<open>Delivery to subscribers\<close>

definition HasHandle :: "string \<Rightarrow> ('r, 'w) daemon \<Rightarrow> bool" where
  "HasHandle h d = gget_or False (dHandles d) h"

definition bump_stats :: "(handle_stats \<Rightarrow> handle_stats) \<Rightarrow> string \<Rightarrow> ('r, 'w) daemon \<Rightarrow> ('r, 'w) daemon" where
  "bump_stats f h d = (case gget (dStats d) h of None \<Rightarrow> d | Some hs \<Rightarrow> d\<lparr>dStats := gput h (f hs) (dStats d)\<rparr>)"

text \<open>
  One turn of the loop over the subscriber channels: a non-blocking send, which panics on a closed
  channel. The result says whether the channel took the message.
\<close>

definition send_chan :: "incoming \<Rightarrow> string \<Rightarrow> nat \<Rightarrow> ('r, 'w) daemon \<Rightarrow> bool \<times> ('r, 'w) daemon" where
  "send_chan msg h c d =
     (case gget (dChans d) c of
        None \<Rightarrow> (False, d)
      | Some ch \<Rightarrow>
          if ch_closed ch then (False, d\<lparr>dPanicked := True\<rparr>)
          else if has_room ch
          then (True, bump_stats (msgsIn_update (\<lambda>n. n + 1)) h (d\<lparr>dChans := gput c (try_send msg ch) (dChans d)\<rparr>))
          else (False, bump_stats (drops_update (\<lambda>n. n + 1)) h d))"

fun send_chans :: "incoming \<Rightarrow> string \<Rightarrow> nat list \<Rightarrow> ('r, 'w) daemon \<Rightarrow> bool \<times> ('r, 'w) daemon" where
  "send_chans msg h [] d = (False, d)"
| "send_chans msg h (c # cs) d =
     (case send_chan msg h c d of (ok, d) \<Rightarrow>
        (case send_chans msg h cs d of (ok', d) \<Rightarrow> (ok \<or> ok', d)))"

section \<open>The tables stay consistent\<close>

text \<open>
  Every subscribed channel exists, is open and within its capacity; no channel is listed twice; new
  identities are fresh.
\<close>

definition subs_wf :: "('r, 'w) daemon \<Rightarrow> bool" where
  "subs_wf d \<longleftrightarrow>
     (\<forall>h c. c \<in> set (gget_or [] (dSubs d) h) \<longrightarrow>
        (\<exists>ch. gget (dChans d) c = Some ch \<and> \<not> ch_closed ch)) \<and>
     (\<forall>h. distinct (gget_or [] (dSubs d) h)) \<and>
     (\<forall>h h' c. c \<in> set (gget_or [] (dSubs d) h) \<longrightarrow> c \<in> set (gget_or [] (dSubs d) h') \<longrightarrow> h = h') \<and>
     (\<forall>c ch. gget (dChans d) c = Some ch \<longrightarrow> c < dNextChan d \<and> chan_ok ch)"

definition chan_of :: "('r, 'w) daemon \<Rightarrow> nat \<Rightarrow> incoming list" where
  "chan_of d c = (case gget (dChans d) c of Some ch \<Rightarrow> ch_buf ch | None \<Rightarrow> [])"

lemma bump_stats_frame [simp, frame]:
  "dSubs (bump_stats f h d) = dSubs d" "dChans (bump_stats f h d) = dChans d"
  "dNextChan (bump_stats f h d) = dNextChan d" "dPanicked (bump_stats f h d) = dPanicked d"
  "dHandles (bump_stats f h d) = dHandles d" "dTasks (bump_stats f h d) = dTasks d"
  "dAck (bump_stats f h d) = dAck d" "dStore (bump_stats f h d) = dStore d"
  "dSessions (bump_stats f h d) = dSessions d" "dTransport (bump_stats f h d) = dTransport d"
  "dResolver (bump_stats f h d) = dResolver d" "dNode (bump_stats f h d) = dNode d"
  "dTrace (bump_stats f h d) = dTrace d" "dHandleOwner (bump_stats f h d) = dHandleOwner d"
  "dConnHandles (bump_stats f h d) = dConnHandles d" "dManifests (bump_stats f h d) = dManifests d"
  "dBus (bump_stats f h d) = dBus d"
  by (simp_all add: bump_stats_def split: option.splits)

lemma send_chan_frame [simp, frame]:
  "dSubs (snd (send_chan m h c d)) = dSubs d" "dNextChan (snd (send_chan m h c d)) = dNextChan d"
  "dHandles (snd (send_chan m h c d)) = dHandles d" "dTasks (snd (send_chan m h c d)) = dTasks d"
  "dAck (snd (send_chan m h c d)) = dAck d" "dStore (snd (send_chan m h c d)) = dStore d"
  "dSessions (snd (send_chan m h c d)) = dSessions d" "dTransport (snd (send_chan m h c d)) = dTransport d"
  "dResolver (snd (send_chan m h c d)) = dResolver d" "dNode (snd (send_chan m h c d)) = dNode d"
  "dTrace (snd (send_chan m h c d)) = dTrace d" "dHandleOwner (snd (send_chan m h c d)) = dHandleOwner d"
  "dConnHandles (snd (send_chan m h c d)) = dConnHandles d" "dManifests (snd (send_chan m h c d)) = dManifests d"
  "dBus (snd (send_chan m h c d)) = dBus d"
  by (simp_all add: send_chan_def split: option.splits)

lemma send_chans_Cons [simp]:
  "snd (send_chans m h (c # cs) d) = snd (send_chans m h cs (snd (send_chan m h c d)))"
  "fst (send_chans m h (c # cs) d) = (fst (send_chan m h c d) \<or> fst (send_chans m h cs (snd (send_chan m h c d))))"
  by (simp_all split: prod.splits)

declare send_chans.simps(2) [simp del]

lemma send_chans_frame [simp, frame]:
  "dSubs (snd (send_chans m h cs d)) = dSubs d" "dNextChan (snd (send_chans m h cs d)) = dNextChan d"
  "dHandles (snd (send_chans m h cs d)) = dHandles d" "dTasks (snd (send_chans m h cs d)) = dTasks d"
  "dAck (snd (send_chans m h cs d)) = dAck d" "dStore (snd (send_chans m h cs d)) = dStore d"
  "dSessions (snd (send_chans m h cs d)) = dSessions d" "dTransport (snd (send_chans m h cs d)) = dTransport d"
  "dResolver (snd (send_chans m h cs d)) = dResolver d" "dNode (snd (send_chans m h cs d)) = dNode d"
  "dTrace (snd (send_chans m h cs d)) = dTrace d" "dHandleOwner (snd (send_chans m h cs d)) = dHandleOwner d"
  "dConnHandles (snd (send_chans m h cs d)) = dConnHandles d" "dManifests (snd (send_chans m h cs d)) = dManifests d"
  "dBus (snd (send_chans m h cs d)) = dBus d"
  by (induction cs arbitrary: d) simp_all

lemma subs_wf_send_chan: "subs_wf d \<Longrightarrow> subs_wf (snd (send_chan m h c d))"
  unfolding subs_wf_def send_chan_def by (auto split: option.splits)

lemma subs_wf_send_chans [keeps]: "subs_wf d \<Longrightarrow> subs_wf (snd (send_chans m h cs d))"
proof (induction cs arbitrary: d)
  case (Cons c cs)
  then show ?case using subs_wf_send_chan [OF Cons.prems, of m h c] by simp
qed simp

text \<open>What one delivery does to the channels, and that it does not panic on open ones.\<close>

lemma send_chan_open:
  assumes "gget (dChans d) c = Some ch" and "\<not> ch_closed ch"
  shows "chan_of (snd (send_chan m h c d)) c' =
      (if c' = c \<and> has_room ch then chan_of d c @ [m] else chan_of d c') \<and>
    fst (send_chan m h c d) = has_room ch \<and> dPanicked (snd (send_chan m h c d)) = dPanicked d"
  using assms by (auto simp: send_chan_def chan_of_def try_send_def)

definition room_in :: "('r, 'w) daemon \<Rightarrow> nat \<Rightarrow> bool" where
  "room_in d c \<longleftrightarrow> (case gget (dChans d) c of Some ch \<Rightarrow> has_room ch | None \<Rightarrow> False)"

lemma room_in_send_chan: "c' \<noteq> c \<Longrightarrow> room_in (snd (send_chan m h c d)) c' = room_in d c'"
  by (auto simp: room_in_def send_chan_def split: option.splits)

lemma send_chans_open:
  assumes "distinct cs" and "\<forall>c\<in>set cs. \<exists>ch. gget (dChans d) c = Some ch \<and> \<not> ch_closed ch"
  shows "chan_of (snd (send_chans m h cs d)) c =
      (if c \<in> set cs \<and> room_in d c then chan_of d c @ [m] else chan_of d c) \<and>
    fst (send_chans m h cs d) = (\<exists>c\<in>set cs. room_in d c) \<and>
    dPanicked (snd (send_chans m h cs d)) = dPanicked d"
  using assms
proof (induction cs arbitrary: d)
  case (Cons x cs)
  obtain ch where ch: "gget (dChans d) x = Some ch" "\<not> ch_closed ch"
    using Cons.prems by auto
  let ?d = "snd (send_chan m h x d)"
  have "\<exists>ch'. gget (dChans ?d) c = Some ch' \<and> \<not> ch_closed ch'" if "c \<in> set cs" for c
    using Cons.prems(2) that by (auto simp: send_chan_def split: option.splits)
  then have IH: "chan_of (snd (send_chans m h cs ?d)) c =
      (if c \<in> set cs \<and> room_in ?d c then chan_of ?d c @ [m] else chan_of ?d c) \<and>
    fst (send_chans m h cs ?d) = (\<exists>c\<in>set cs. room_in ?d c) \<and> dPanicked (snd (send_chans m h cs ?d)) = dPanicked ?d"
    using Cons.IH [of ?d] Cons.prems(1) by simp
  have x: "room_in d x = has_room ch" by (simp add: room_in_def ch)
  have r: "room_in ?d c' = room_in d c'" if "c' \<in> set cs" for c'
    using that Cons.prems(1) by (intro room_in_send_chan) auto
  show ?case
    using IH send_chan_open [OF ch, of m h c] x r Cons.prems(1) by auto
qed simp

end
