(* ===== verification/Router.thy ===== *)
theory Router
  imports Daemon_State
begin

text \<open>
  Routing of envelopes (\<open>internal/daemon/router.go\<close>) and their delivery to the agents of this
  node (\<open>DeliverToLocal\<close>, \<open>DeliverRoomEventLocal\<close> in \<open>agentserver.go\<close>). Delivery starts a
  goroutine that routes the acknowledgement back; it is a task of the daemon state until it runs.
\<close>

section \<open>Local delivery\<close>

definition ack_for :: "string \<Rightarrow> time \<Rightarrow> envelope \<Rightarrow> envelope" where
  "ack_for uuid now env = zero_envelope\<lparr>MessageId := uuid, SessionId := SessionId env,
     FromHandle := ToHandle env, ToHandle := FromHandle env, EType := ACK, AckId := MessageId env,
     SentAtUnix := unix now\<rparr>"

definition session_for_open :: "time \<Rightarrow> envelope \<Rightarrow> session" where
  "session_for_open now env = \<lparr>sID = SessionId env, sFrom = FromHandle env, sTo = ToHandle env,
     sState = StateOpen, sTrace = TraceId env, sNextSeq = 1, sCreatedAt = now, sUpdatedAt = now\<rparr>"

definition open_remote_session :: "'w rt \<Rightarrow> envelope \<Rightarrow> ('r, 'w) daemon \<Rightarrow> ('r, 'w) daemon" where
  "open_remote_session rt env d =
     (if EType env = SESSION_OPEN \<and> SessionId env \<noteq> [] \<and> Get (dSessions d) (SessionId env) = None
      then put_session (session_for_open (rtNow rt) env) d else d)"

definition spawn :: "task \<Rightarrow> ('r, 'w) daemon \<Rightarrow> ('r, 'w) daemon" where
  "spawn t d = d\<lparr>dTasks := dTasks d @ [t]\<rparr>"

text \<open>\<open>rtUuid rt 9\<close> is the identifier drawn for the acknowledgement.\<close>

definition deliver_subs :: "'w rt \<Rightarrow> envelope \<Rightarrow> nat list \<Rightarrow> ('r, 'w) daemon \<Rightarrow> bool \<times> ('r, 'w) daemon" where
  "deliver_subs rt env subs d =
     (if subs = [] then (False, d)
      else let d = snd (send_chans (InEnvelope env) (ToHandle env) subs d);
               d = (if TraceId env \<noteq> []
                    then record_span rt (TraceId env) (MessageId env) DELIVERED_TO_SUBSCRIBER [(''to'', ToHandle env)] d
                    else d);
               d = (if FromHandle env \<noteq> [] then spawn (TaskRoute (ack_for (rtUuid rt 9) (rtNow rt) env)) d else d)
           in (True, d))"

definition DeliverToLocal :: "'w rt \<Rightarrow> envelope \<Rightarrow> ('r, 'w) daemon \<Rightarrow> bool \<times> ('r, 'w) daemon" where
  "DeliverToLocal rt env d =
     (if EType env = ACK
      then (True, if AckId env \<noteq> [] then on_tracker (\<lambda>t. snd (Acknowledge (AckId env) t)) d else d)
      else let d = open_remote_session rt env d
           in deliver_subs rt env (gget_or [] (dSubs d) (ToHandle env)) d)"

fun deliver_room_members :: "room_event \<Rightarrow> string list \<Rightarrow> ('r, 'w) daemon \<Rightarrow> bool \<times> ('r, 'w) daemon" where
  "deliver_room_members event [] d = (False, d)"
| "deliver_room_members event (member # ms) d =
     (if member = SenderHandle event \<or> \<not> HasHandle member d then deliver_room_members event ms d
      else let subs = gget_or [] (dSubs d) member
           in if subs = [] then deliver_room_members event ms d
              else case send_chans (InRoomEvent event) member subs d of (ok, d) \<Rightarrow>
                     (case deliver_room_members event ms d of (ok', d) \<Rightarrow> (ok \<or> ok', d)))"

definition DeliverRoomEventLocal :: "room_event \<Rightarrow> ('r, 'w) daemon \<Rightarrow> bool \<times> ('r, 'w) daemon" where
  "DeliverRoomEventLocal event d = deliver_room_members event (EvMembers event) d"

section \<open>Routing\<close>

definition recordRouteDone :: "'w rt \<Rightarrow> envelope \<Rightarrow> bool \<Rightarrow> ('r, 'w) daemon \<Rightarrow> ('r, 'w) daemon" where
  "recordRouteDone rt env remote d =
     (let d = (if EType env \<noteq> ACK
               then on_bus (EmitMessageRouted (rtNow rt) (SessionId env) (FromHandle env) (ToHandle env) remote
                              (TraceId env) (MessageId env)) d
               else d)
      in if TraceId env \<noteq> []
         then record_span rt (TraceId env) (MessageId env) (if remote then ROUTED_REMOTE else ROUTED_LOCAL)
                [(''from'', FromHandle env), (''to'', ToHandle env)] d
         else d)"

definition Route :: "'w rt \<Rightarrow> envelope \<Rightarrow> ('r, 'w) daemon \<Rightarrow> go_err option \<times> ('r, 'w) daemon" where
  "Route rt env d =
     (if HasHandle (ToHandle env) d
      then case DeliverToLocal rt env d of
             (True, d) \<Rightarrow> (None, recordRouteDone rt env False d)
           | (False, d) \<Rightarrow> (Some (LocalNoSubscribers (ToHandle env)), d)
      else case Resolver.Resolve (dResolver d) (ToHandle env) of
             Inl e \<Rightarrow> (Some (ResolveFailed (ToHandle env) e), d)
           | Inr peer \<Rightarrow>
               (case transport_send rt (pAdvertiseAddr peer) (wrap (BodyEnvelope env)) d of
                  (Some e, d) \<Rightarrow> (Some e, d)
                | (None, d) \<Rightarrow>
                    (let d = (if EType env \<noteq> ACK
                              then on_tracker (Track (rtNow rt) (rtNow rt) env (pAdvertiseAddr peer)) d else d)
                     in (None, recordRouteDone rt env True d))))"

text \<open>The part of \<open>OnReceive\<close> (\<open>daemon.go\<close>) for envelopes.\<close>

definition receive_envelope :: "'w rt \<Rightarrow> envelope \<Rightarrow> ('r, 'w) daemon \<Rightarrow> ('r, 'w) daemon" where
  "receive_envelope rt env d =
     (let d = (if TraceId env \<noteq> [] then record_span rt (TraceId env) (MessageId env) RECEIVED_FROM_TRANSPORT [] d else d);
          d = snd (DeliverToLocal rt env d);
          d = on_bus (count_up (MessagesReceivedRemote_update (\<lambda>n. n + 1))) d
      in on_bus (EmitMessageRouted (rtNow rt) (SessionId env) (FromHandle env) (ToHandle env) False
                   (TraceId env) (MessageId env)) d)"

section \<open>Frame lemmas\<close>

lemma put_session_frame [simp, frame]:
  "dSubs (put_session x d) = dSubs d" "dChans (put_session x d) = dChans d" "dNextChan (put_session x d) = dNextChan d"
  "dHandles (put_session x d) = dHandles d" "dTasks (put_session x d) = dTasks d" "dAck (put_session x d) = dAck d"
  "dTransport (put_session x d) = dTransport d" "dResolver (put_session x d) = dResolver d"
  "dNode (put_session x d) = dNode d" "dTrace (put_session x d) = dTrace d" "dPanicked (put_session x d) = dPanicked d"
  "dHandleOwner (put_session x d) = dHandleOwner d" "dConnHandles (put_session x d) = dConnHandles d"
  "dManifests (put_session x d) = dManifests d" "dStats (put_session x d) = dStats d" "dBus (put_session x d) = dBus d"
  by (simp_all add: put_session_def split: prod.splits)

lemma on_bus_frame [simp, frame]:
  "dSubs (on_bus f d) = dSubs d" "dChans (on_bus f d) = dChans d" "dNextChan (on_bus f d) = dNextChan d"
  "dHandles (on_bus f d) = dHandles d" "dTasks (on_bus f d) = dTasks d" "dAck (on_bus f d) = dAck d"
  "dTransport (on_bus f d) = dTransport d" "dResolver (on_bus f d) = dResolver d"
  "dNode (on_bus f d) = dNode d" "dTrace (on_bus f d) = dTrace d" "dPanicked (on_bus f d) = dPanicked d"
  "dHandleOwner (on_bus f d) = dHandleOwner d" "dConnHandles (on_bus f d) = dConnHandles d"
  "dManifests (on_bus f d) = dManifests d" "dStats (on_bus f d) = dStats d" "dSessions (on_bus f d) = dSessions d"
  by (simp_all add: on_bus_def split: prod.splits)

lemma on_tracker_frame [simp, frame]:
  "dSubs (on_tracker f d) = dSubs d" "dChans (on_tracker f d) = dChans d" "dNextChan (on_tracker f d) = dNextChan d"
  "dHandles (on_tracker f d) = dHandles d" "dTasks (on_tracker f d) = dTasks d"
  "dTransport (on_tracker f d) = dTransport d" "dResolver (on_tracker f d) = dResolver d"
  "dNode (on_tracker f d) = dNode d" "dTrace (on_tracker f d) = dTrace d" "dPanicked (on_tracker f d) = dPanicked d"
  "dHandleOwner (on_tracker f d) = dHandleOwner d" "dConnHandles (on_tracker f d) = dConnHandles d"
  "dManifests (on_tracker f d) = dManifests d" "dStats (on_tracker f d) = dStats d"
  "dSessions (on_tracker f d) = dSessions d" "dBus (on_tracker f d) = dBus d"
  "dAck (on_tracker f d) = fst (f (dAck d, Some (dStore d)))"
  by (simp_all add: on_tracker_def split: prod.splits)

lemma record_span_frame [simp, frame]:
  "dSubs (record_span rt t m a md d) = dSubs d" "dChans (record_span rt t m a md d) = dChans d"
  "dNextChan (record_span rt t m a md d) = dNextChan d" "dHandles (record_span rt t m a md d) = dHandles d"
  "dTasks (record_span rt t m a md d) = dTasks d" "dAck (record_span rt t m a md d) = dAck d"
  "dTransport (record_span rt t m a md d) = dTransport d" "dResolver (record_span rt t m a md d) = dResolver d"
  "dNode (record_span rt t m a md d) = dNode d" "dHandleOwner (record_span rt t m a md d) = dHandleOwner d"
  "dConnHandles (record_span rt t m a md d) = dConnHandles d" "dManifests (record_span rt t m a md d) = dManifests d"
  "dStats (record_span rt t m a md d) = dStats d" "dSessions (record_span rt t m a md d) = dSessions d"
  "dBus (record_span rt t m a md d) = dBus d" "dStore (record_span rt t m a md d) = dStore d"
  by (simp_all add: record_span_def split: option.splits)

lemma spawn_frame [simp, frame]:
  "dSubs (spawn t d) = dSubs d" "dChans (spawn t d) = dChans d" "dNextChan (spawn t d) = dNextChan d"
  "dHandles (spawn t d) = dHandles d" "dAck (spawn t d) = dAck d"
  "dTransport (spawn t d) = dTransport d" "dResolver (spawn t d) = dResolver d"
  "dNode (spawn t d) = dNode d" "dTrace (spawn t d) = dTrace d" "dPanicked (spawn t d) = dPanicked d"
  "dHandleOwner (spawn t d) = dHandleOwner d" "dConnHandles (spawn t d) = dConnHandles d"
  "dManifests (spawn t d) = dManifests d" "dStats (spawn t d) = dStats d" "dSessions (spawn t d) = dSessions d"
  "dBus (spawn t d) = dBus d" "dStore (spawn t d) = dStore d"
  by (simp_all add: spawn_def)

lemma open_remote_session_frame [simp, frame]:
  "dSubs (open_remote_session rt env d) = dSubs d" "dChans (open_remote_session rt env d) = dChans d"
  "dNextChan (open_remote_session rt env d) = dNextChan d" "dHandles (open_remote_session rt env d) = dHandles d"
  "dTasks (open_remote_session rt env d) = dTasks d" "dAck (open_remote_session rt env d) = dAck d"
  "dTransport (open_remote_session rt env d) = dTransport d" "dResolver (open_remote_session rt env d) = dResolver d"
  "dTrace (open_remote_session rt env d) = dTrace d" "dPanicked (open_remote_session rt env d) = dPanicked d"
  "dHandleOwner (open_remote_session rt env d) = dHandleOwner d" "dConnHandles (open_remote_session rt env d) = dConnHandles d"
  by (simp_all add: open_remote_session_def)

text \<open>The ring buffer never panics once it has room for a span.\<close>

definition trace_ok :: "('r, 'w) daemon \<Rightarrow> bool" where
  "trace_ok d \<longleftrightarrow> (\<exists>c h. shows_history c h (dTrace d))"

lemma record_span_ok:
  assumes "trace_ok d"
  shows "trace_ok (record_span rt t m a md d)" and "dPanicked (record_span rt t m a md d) = dPanicked d"
proof -
  obtain c h where sh: "shows_history c h (dTrace d)" using assms by (auto simp: trace_ok_def)
  then obtain ts where "RecordSpan (rtNow rt) t m (dNode d) a md (dTrace d) = Some ts"
    and "\<exists>h. shows_history c h ts"
    unfolding RecordSpan_def using Record_shows_history by blast
  then show "trace_ok (record_span rt t m a md d)" "dPanicked (record_span rt t m a md d) = dPanicked d"
    by (auto simp: record_span_def trace_ok_def)
qed

lemma trace_ok_cong: "dTrace d' = dTrace d \<Longrightarrow> trace_ok d' = trace_ok d"
  by (simp add: trace_ok_def)

lemma subs_wf_cong:
  "dSubs d' = dSubs d \<Longrightarrow> dChans d' = dChans d \<Longrightarrow> dNextChan d' = dNextChan d \<Longrightarrow> subs_wf d' = subs_wf d"
  by (simp add: subs_wf_def)

lemma subs_wf_simps [simp]:
  "subs_wf (spawn t d) = subs_wf d" "subs_wf (record_span rt tr m a md d) = subs_wf d" "subs_wf (on_tracker f d) = subs_wf d"
  "subs_wf (on_bus g d) = subs_wf d" "subs_wf (put_session x d) = subs_wf d"
  "subs_wf (open_remote_session rt env d) = subs_wf d"
  by (simp_all add: subs_wf_def)

lemma trace_ok_simps [simp]:
  "trace_ok (spawn t d) = trace_ok d" "trace_ok (on_tracker f d) = trace_ok d" "trace_ok (on_bus g d) = trace_ok d"
  "trace_ok (put_session x d) = trace_ok d" "trace_ok (open_remote_session rt env d) = trace_ok d"
  "trace_ok (snd (send_chans m h cs d)) = trace_ok d"
  by (simp_all add: trace_ok_def)

lemma chan_of_cong: "dChans d' = dChans d \<Longrightarrow> chan_of d' c = chan_of d c"
  by (simp add: chan_of_def)

lemma subs_wf_open: "subs_wf d \<Longrightarrow> \<forall>c\<in>set (gget_or [] (dSubs d) h). \<exists>ch. gget (dChans d) c = Some ch \<and> \<not> ch_closed ch"
  "subs_wf d \<Longrightarrow> distinct (gget_or [] (dSubs d) h)"
  unfolding subs_wf_def by blast+

section \<open>Properties of delivery\<close>

lemma DeliverToLocal_facts:
  assumes "subs_wf d" and "trace_ok d" and "EType env \<noteq> ACK" and "DeliverToLocal rt env d = (ok, d')"
  shows "let subs = gget_or [] (dSubs d) (ToHandle env) in
    (ok \<longleftrightarrow> subs \<noteq> []) \<and>
    (\<forall>c. chan_of d' c = (if c \<in> set subs \<and> room_in d c then chan_of d c @ [InEnvelope env] else chan_of d c)) \<and>
    dTasks d' = dTasks d @ (if subs \<noteq> [] \<and> FromHandle env \<noteq> []
                            then [TaskRoute (ack_for (rtUuid rt 9) (rtNow rt) env)] else []) \<and>
    dPanicked d' = dPanicked d \<and> dSubs d' = dSubs d"
proof -
  let ?d = "open_remote_session rt env d"
  let ?subs = "gget_or [] (dSubs d) (ToHandle env)"
  let ?e = "snd (send_chans (InEnvelope env) (ToHandle env) ?subs ?d)"
  have wf: "subs_wf ?d" "trace_ok ?e"
    using assms(1,2) by (simp_all add: subs_wf_cong [of ?d d] trace_ok_cong [of ?e d])
  have sc: "chan_of ?e c = (if c \<in> set ?subs \<and> room_in d c then chan_of d c @ [InEnvelope env] else chan_of d c)"
    "dPanicked ?e = dPanicked d" for c
    using send_chans_open [of ?subs ?d "InEnvelope env" "ToHandle env" c] subs_wf_open [OF assms(1), of "ToHandle env"]
    by (simp_all add: chan_of_def room_in_def)
  show ?thesis
  proof (cases "?subs = []")
    case True
    then show ?thesis
      using assms(3,4) by (auto simp: DeliverToLocal_def deliver_subs_def Let_def chan_of_def)
  next
    case False
    have d': "d' = (let d = (if TraceId env \<noteq> []
            then record_span rt (TraceId env) (MessageId env) DELIVERED_TO_SUBSCRIBER [(''to'', ToHandle env)] ?e else ?e)
          in if FromHandle env \<noteq> [] then spawn (TaskRoute (ack_for (rtUuid rt 9) (rtNow rt) env)) d else d)" "ok"
      using assms(3,4) False by (auto simp: DeliverToLocal_def deliver_subs_def Let_def)
    have fr: "dChans d' = dChans ?e" "dPanicked d' = dPanicked ?e" "dSubs d' = dSubs d"
      "dTasks d' = dTasks d @ (if FromHandle env \<noteq> [] then [TaskRoute (ack_for (rtUuid rt 9) (rtNow rt) env)] else [])"
      using d'(1) record_span_ok(2) [OF wf(2)] by (simp_all add: Let_def) (simp_all add: spawn_def)
    show ?thesis
      using False d'(2) fr sc chan_of_cong [OF fr(1)] by (simp add: Let_def)
  qed
qed

text \<open>
  C3. Local delivery of a message: it succeeds exactly when the addressed handle has a subscriber;
  each subscriber whose buffer has room then has the message appended, once, and every other channel
  of the daemon is as it was; one acknowledgement for the message is started if the sender is known,
  and nothing panics.
\<close>

theorem DeliverToLocal_spec:
  assumes "subs_wf d" and "trace_ok d" and "EType env \<noteq> ACK" and "DeliverToLocal rt env d = (ok, d')"
  shows "let subs = gget_or [] (dSubs d) (ToHandle env) in
    (ok \<longleftrightarrow> subs \<noteq> []) \<and>
    (\<forall>c. chan_of d' c = (if c \<in> set subs \<and> room_in d c then chan_of d c @ [InEnvelope env] else chan_of d c)) \<and>
    dTasks d' = dTasks d @ (if subs \<noteq> [] \<and> FromHandle env \<noteq> []
                            then [TaskRoute (ack_for (rtUuid rt 9) (rtNow rt) env)] else []) \<and>
    dPanicked d' = dPanicked d \<and> dSubs d' = dSubs d"
  using assms by (rule DeliverToLocal_facts)

lemma trace_ok_New: "trace_ok (NewDaemon node C w)"
proof -
  have "shows_history 10000 [] (dTrace (NewDaemon node C w))"
    unfolding NewDaemon_def using shows_history_New [of 10000] by simp
  then show ?thesis unfolding trace_ok_def by blast
qed

text \<open>A daemon with the handle \<open>bob\<close> and one subscriber, whose buffer holds at most \<open>n\<close> messages.\<close>

definition bob_daemon :: "nat \<Rightarrow> (blob, unit) daemon" where
  "bob_daemon n = (NewDaemon ''n2'' blob_codec ())\<lparr>dHandles := [(''bob'', True)], dSubs := [(''bob'', [0])],
     dChans := [(0, make_chan 0 n)], dNextChan := 1\<rparr>"

definition sample_rt :: "unit rt" where
  "sample_rt = \<lparr>rtNet = relay_only, rtNow = 7 * second, rtUuid = (\<lambda>n. ''uuid-'' @ dec_nat n),
     rtUpsertRoom = (\<lambda>_. None), rtListRooms = (\<lambda>_. Inr []), rtUnmarshal = (\<lambda>_. None)\<rparr>"

lemma bob_daemon_ok: "subs_wf (bob_daemon n)" "trace_ok (bob_daemon n)"
  "gget_or [] (dSubs (bob_daemon n)) ''bob'' = [0]" "chan_of (bob_daemon n) c = []"
  "room_in (bob_daemon n) 0 = (0 < n)"
  using trace_ok_New [of "''n2''" blob_codec "()"]
  by (simp_all add: bob_daemon_def subs_wf_def gget_or_def make_chan_def trace_ok_def chan_of_def room_in_def has_room_def
      chan_ok_def split: if_splits)

definition hello :: envelope where
  "hello = zero_envelope\<lparr>MessageId := ''m1'', FromHandle := ''alice'', ToHandle := ''bob'', EType := ENVELOPE_MESSAGE\<rparr>"

lemma hello_fields [simp]: "MessageId hello = ''m1''" "FromHandle hello = ''alice''" "ToHandle hello = ''bob''"
  "EType hello = ENVELOPE_MESSAGE" "TraceId hello = []" "SessionId hello = []"
  by (simp_all add: hello_def zero_envelope_def)

theorem DeliverToLocal_spec_witness:
  "chan_of (snd (DeliverToLocal sample_rt hello (bob_daemon 64))) 0 = [InEnvelope hello]"
  using DeliverToLocal_spec [OF bob_daemon_ok(1) [of 64] bob_daemon_ok(2) [of 64], of hello sample_rt
      "fst (DeliverToLocal sample_rt hello (bob_daemon 64))" "snd (DeliverToLocal sample_rt hello (bob_daemon 64))"]
  by (simp add: bob_daemon_ok)

text \<open>
  A message can be acknowledged although nobody has it: if every subscriber of the handle has a
  full buffer, delivery reports success and sends the acknowledgement, but no channel changes, so the
  sender stops retrying a message that was dropped.
\<close>

theorem full_buffers_acknowledge_dropped_message:
  assumes "subs_wf d" and "trace_ok d" and "EType env \<noteq> ACK" and "FromHandle env \<noteq> []"
    and "gget_or [] (dSubs d) (ToHandle env) \<noteq> []"
    and "\<forall>c\<in>set (gget_or [] (dSubs d) (ToHandle env)). \<not> room_in d c"
  shows "fst (DeliverToLocal rt env d) \<and>
    TaskRoute (ack_for (rtUuid rt 9) (rtNow rt) env) \<in> set (dTasks (snd (DeliverToLocal rt env d))) \<and>
    (\<forall>c. chan_of (snd (DeliverToLocal rt env d)) c = chan_of d c)"
  using DeliverToLocal_facts [OF assms(1-3), of rt "fst (DeliverToLocal rt env d)" "snd (DeliverToLocal rt env d)"] assms(4-6)
  by (auto simp: Let_def)

theorem full_buffers_acknowledge_dropped_message_witness:
  "fst (DeliverToLocal sample_rt hello (bob_daemon 0)) \<and>
   chan_of (snd (DeliverToLocal sample_rt hello (bob_daemon 0))) 0 = []"
  using full_buffers_acknowledge_dropped_message [OF bob_daemon_ok(1) [of 0] bob_daemon_ok(2) [of 0], of hello sample_rt]
  by (simp add: bob_daemon_ok)

section \<open>Properties of routing\<close>

lemma on_sent_frame [simp, frame]:
  "dSubs (on_sent rt m d) = dSubs d" "dChans (on_sent rt m d) = dChans d" "dNextChan (on_sent rt m d) = dNextChan d"
  "dHandles (on_sent rt m d) = dHandles d" "dTasks (on_sent rt m d) = dTasks d" "dAck (on_sent rt m d) = dAck d"
  "dTransport (on_sent rt m d) = dTransport d" "dResolver (on_sent rt m d) = dResolver d"
  "dNode (on_sent rt m d) = dNode d" "dStats (on_sent rt m d) = dStats d" "dSessions (on_sent rt m d) = dSessions d"
  "dBus (on_sent rt m d) = dBus d" "dStore (on_sent rt m d) = dStore d" "dHandleOwner (on_sent rt m d) = dHandleOwner d"
  "dConnHandles (on_sent rt m d) = dConnHandles d"
  by (simp_all add: on_sent_def split: transport_body.splits)

lemma fold_on_sent_frame [simp, frame]:
  "dSubs (fold (on_sent rt) ms d) = dSubs d" "dChans (fold (on_sent rt) ms d) = dChans d"
  "dNextChan (fold (on_sent rt) ms d) = dNextChan d" "dHandles (fold (on_sent rt) ms d) = dHandles d"
  "dTasks (fold (on_sent rt) ms d) = dTasks d" "dAck (fold (on_sent rt) ms d) = dAck d"
  "dTransport (fold (on_sent rt) ms d) = dTransport d" "dResolver (fold (on_sent rt) ms d) = dResolver d"
  "dNode (fold (on_sent rt) ms d) = dNode d" "dStats (fold (on_sent rt) ms d) = dStats d"
  "dSessions (fold (on_sent rt) ms d) = dSessions d" "dBus (fold (on_sent rt) ms d) = dBus d"
  "dStore (fold (on_sent rt) ms d) = dStore d" "dHandleOwner (fold (on_sent rt) ms d) = dHandleOwner d"
  "dConnHandles (fold (on_sent rt) ms d) = dConnHandles d"
  by (induction ms arbitrary: d) simp_all

lemma transport_send_frame [simp, frame]:
  "dSubs (snd (transport_send rt a m d)) = dSubs d" "dChans (snd (transport_send rt a m d)) = dChans d"
  "dNextChan (snd (transport_send rt a m d)) = dNextChan d" "dHandles (snd (transport_send rt a m d)) = dHandles d"
  "dTasks (snd (transport_send rt a m d)) = dTasks d" "dAck (snd (transport_send rt a m d)) = dAck d"
  "dResolver (snd (transport_send rt a m d)) = dResolver d" "dNode (snd (transport_send rt a m d)) = dNode d"
  "dStats (snd (transport_send rt a m d)) = dStats d" "dSessions (snd (transport_send rt a m d)) = dSessions d"
  "dBus (snd (transport_send rt a m d)) = dBus d" "dStore (snd (transport_send rt a m d)) = dStore d"
  "dHandleOwner (snd (transport_send rt a m d)) = dHandleOwner d" "dConnHandles (snd (transport_send rt a m d)) = dConnHandles d"
  by (simp_all add: transport_send_def split: prod.splits)

lemma transport_send_Send:
  "transport_send rt a m d = (res, d') \<Longrightarrow>
     Send (rtNet rt) (dResolver d) (rtNow rt) (rtNow rt) a m (dTransport d) = (res, dTransport d')"
  by (auto simp: transport_send_def split: prod.splits)

lemma recordRouteDone_frame [simp, frame]:
  "dSubs (recordRouteDone rt env b d) = dSubs d" "dChans (recordRouteDone rt env b d) = dChans d"
  "dNextChan (recordRouteDone rt env b d) = dNextChan d" "dHandles (recordRouteDone rt env b d) = dHandles d"
  "dTasks (recordRouteDone rt env b d) = dTasks d" "dAck (recordRouteDone rt env b d) = dAck d"
  "dTransport (recordRouteDone rt env b d) = dTransport d" "dResolver (recordRouteDone rt env b d) = dResolver d"
  "dNode (recordRouteDone rt env b d) = dNode d" "dStats (recordRouteDone rt env b d) = dStats d"
  "dSessions (recordRouteDone rt env b d) = dSessions d" "dHandleOwner (recordRouteDone rt env b d) = dHandleOwner d"
  "dConnHandles (recordRouteDone rt env b d) = dConnHandles d"
  by (simp_all add: recordRouteDone_def Let_def)

lemma Route_remote_facts:
  assumes "\<not> HasHandle (ToHandle env) d" and "others_ok (rtNet rt)" and "conns_ok (dTransport d)"
    and "Route rt env d = (res, d')"
  shows "(res = None \<longrightarrow> (\<exists>peer pc m. gget (handleTo (dResolver d)) (ToHandle env) = Some peer \<and>
       accepted (dTransport d') = accepted (dTransport d) @ [(pc, m)] \<and> Body m = BodyEnvelope env \<and>
       (EType env \<noteq> ACK \<longrightarrow> gget (pending (dAck d')) (MessageId env) =
          Some \<lparr>pmEnv = env, pmPeerAddr = pAdvertiseAddr peer, pmSentAt = rtNow rt, pmRetries = 0\<rparr>) \<and>
       (EType env = ACK \<longrightarrow> dAck d' = dAck d))) \<and>
    (res \<noteq> None \<longrightarrow> accepted (dTransport d') = accepted (dTransport d) \<and> dAck d' = dAck d)"
proof (cases "Resolver.Resolve (dResolver d) (ToHandle env)")
  case (Inl e)
  then show ?thesis using assms(1,4) by (auto simp: Route_def)
next
  case (Inr peer)
  then have peer: "gget (handleTo (dResolver d)) (ToHandle env) = Some peer"
    by (simp add: Resolver.Resolve_def split: option.splits)
  let ?m = "wrap (BodyEnvelope env)"
  obtain r d1 where s: "transport_send rt (pAdvertiseAddr peer) ?m d = (r, d1)"
    by (cases "transport_send rt (pAdvertiseAddr peer) ?m d")
  note once = Send_facts [OF assms(2,3) transport_send_Send [OF s]]
  have ack: "dAck d1 = dAck d"
    using transport_send_frame(6) [of rt "pAdvertiseAddr peer" ?m d] s by simp
  show ?thesis
  proof (cases r)
    case (Some e)
    then show ?thesis using assms(1,4) Inr s once ack by (auto simp: Route_def)
  next
    case None
    then obtain pc m where m: "accepted (dTransport d1) = accepted (dTransport d) @ [(pc, m)]" "Body m = BodyEnvelope env"
      using once by (auto simp: wrap_def) (metis transport_message.select_convs(2) transport_message.simps(6))+
    have d': "res = None" "d' = recordRouteDone rt env True
        (if EType env \<noteq> ACK then on_tracker (Track (rtNow rt) (rtNow rt) env (pAdvertiseAddr peer)) d1 else d1)"
      using assms(1,4) Inr s None by (auto simp: Route_def Let_def)
    then show ?thesis
      using peer m ack by (auto simp: Track_def)
  qed
qed

text \<open>
  Routing to another node: the message goes out on exactly one stream and, unless it is itself an
  acknowledgement, is pending until acknowledged, under the address of the peer that owns the handle.
  If routing fails, nothing was sent and nothing became pending.
\<close>

theorem Route_remote_tracks:
  assumes "\<not> HasHandle (ToHandle env) d" and "others_ok (rtNet rt)" and "conns_ok (dTransport d)"
    and "Route rt env d = (res, d')"
  shows "(res = None \<longrightarrow> (\<exists>peer pc m. gget (handleTo (dResolver d)) (ToHandle env) = Some peer \<and>
       accepted (dTransport d') = accepted (dTransport d) @ [(pc, m)] \<and> Body m = BodyEnvelope env \<and>
       (EType env \<noteq> ACK \<longrightarrow> gget (pending (dAck d')) (MessageId env) =
          Some \<lparr>pmEnv = env, pmPeerAddr = pAdvertiseAddr peer, pmSentAt = rtNow rt, pmRetries = 0\<rparr>) \<and>
       (EType env = ACK \<longrightarrow> dAck d' = dAck d))) \<and>
    (res \<noteq> None \<longrightarrow> accepted (dTransport d') = accepted (dTransport d) \<and> dAck d' = dAck d)"
  using assms by (rule Route_remote_facts)

text \<open>A daemon that knows \<open>bob\<close> on another node, reachable through a relay only.\<close>

definition alice_daemon :: "(blob, unit) daemon" where
  "alice_daemon = (NewDaemon ''n1'' blob_codec ())\<lparr>dResolver := sample_resolver\<rparr>"

lemmas send_eval = Send_def SetResolver_def NewGRPCTransport_def sendDirect_def getOrConnect_def connect_def
  relay_only_def sendViaRelay_def pubkeyForAddr_def sample_resolver_def GetPeerMap_def GetRelays_def
  getOrConnectRelay_def verify_certs_def VerifyPeerKey_def sendOnConn_def notify_sent_def

theorem Route_remote_tracks_witness:
  "gget (pending (dAck (snd (Route sample_rt hello alice_daemon)))) ''m1'' =
     Some \<lparr>pmEnv = hello, pmPeerAddr = ''b:1'', pmSentAt = 7 * second, pmRetries = 0\<rparr>"
proof -
  have local: "\<not> HasHandle (ToHandle hello) alice_daemon"
    by (simp add: HasHandle_def alice_daemon_def NewDaemon_def gget_or_def)
  have net: "others_ok (rtNet sample_rt)" "conns_ok (dTransport alice_daemon)"
    by (simp_all add: others_ok_def sample_rt_def relay_only_def conns_ok_def keyed_def alice_daemon_def NewDaemon_def
        SetResolver_def NewGRPCTransport_def)
  have ok: "fst (Route sample_rt hello alice_daemon) = None"
    by (simp add: Route_def HasHandle_def alice_daemon_def NewDaemon_def gget_or_def Resolver.Resolve_def
        transport_send_def sample_rt_def wrap_def send_eval Let_def)
  show ?thesis
    using Route_remote_tracks [OF local net, of "fst (Route sample_rt hello alice_daemon)" "snd (Route sample_rt hello alice_daemon)"] ok
    by (auto simp: alice_daemon_def sample_resolver_def sample_rt_def)
qed

end
