(* ===== verification/Agent_Server.thy ===== *)
theory Agent_Server
  imports Router
begin

text \<open>
  The calls of the agents of a node (\<open>internal/daemon/agentserver.go\<close>): authentication,
  registration of handles, which belong to the connection that registered them, sessions, mentions
  and discovery. A call gets the identifier of its connection (\<open>None\<close> without connection
  tracking) and returns an error or its answer, with the new state.
\<close>

section \<open>Authentication and ownership\<close>

definition TrimPrefix :: "string \<Rightarrow> string \<Rightarrow> string" where
  "TrimPrefix s p = (if take (length p) s = p then drop (length p) s else s)"

definition HasPrefix :: "string \<Rightarrow> string \<Rightarrow> bool" where
  "HasPrefix s p \<longleftrightarrow> take (length p) s = p"

definition checkAuth :: "(string, string list) gomap option \<Rightarrow> ('r, 'w) daemon \<Rightarrow> go_err option" where
  "checkAuth md d =
     (if dAuthToken d = [] then None
      else case md of
             None \<Rightarrow> Some (Unauthenticated ''missing metadata'')
           | Some m \<Rightarrow>
               (case gget_or [] m ''authorization'' of
                  [] \<Rightarrow> Some (Unauthenticated ''missing authorization token'')
                | v # _ \<Rightarrow> if TrimPrefix v ''Bearer '' \<noteq> dAuthToken d
                            then Some (Unauthenticated ''invalid authorization token'') else None))"

definition authInterceptor ::
  "(string, string list) gomap option \<Rightarrow> (('r, 'w) daemon \<Rightarrow> 'a result \<times> ('r, 'w) daemon) \<Rightarrow>
     ('r, 'w) daemon \<Rightarrow> 'a result \<times> ('r, 'w) daemon" where
  "authInterceptor md handler d = (case checkAuth md d of Some e \<Rightarrow> (Inl e, d) | None \<Rightarrow> handler d)"

definition verifyOwnership :: "64 word option \<Rightarrow> string \<Rightarrow> ('r, 'w) daemon \<Rightarrow> go_err option" where
  "verifyOwnership conn h d =
     (case conn of
        None \<Rightarrow> None
      | Some connID \<Rightarrow>
          (case gget (dHandleOwner d) h of
             None \<Rightarrow> Some (HandleNotRegistered h)
           | Some owner \<Rightarrow> if owner \<noteq> connID then Some (HandleOwnedByOther h) else None))"

definition close_chan :: "nat \<Rightarrow> ('r, 'w) daemon \<Rightarrow> ('r, 'w) daemon" where
  "close_chan c d =
     (case gget (dChans d) c of
        None \<Rightarrow> d
      | Some ch \<Rightarrow> if ch_closed ch then d\<lparr>dPanicked := True\<rparr>
                   else d\<lparr>dChans := gput c (ch\<lparr>ch_closed := True\<rparr>) (dChans d)\<rparr>)"

definition drop_handle :: "string \<Rightarrow> ('r, 'w) daemon \<Rightarrow> ('r, 'w) daemon" where
  "drop_handle h d =
     (let d = d\<lparr>dHandles := gdel h (dHandles d), dManifests := gdel h (dManifests d), dStats := gdel h (dStats d),
               dHandleOwner := gdel h (dHandleOwner d)\<rparr>;
          d = fold close_chan (gget_or [] (dSubs d) h) d
      in d\<lparr>dSubs := gdel h (dSubs d)\<rparr>)"

definition disconnectConn :: "64 word \<Rightarrow> ('r, 'w) daemon \<Rightarrow> ('r, 'w) daemon" where
  "disconnectConn i d =
     (let handles = gkeys (gget_or [] (dConnHandles d) i);
          d = d\<lparr>dConnHandles := gdel i (dConnHandles d)\<rparr>;
          d = fold drop_handle handles d
      in if handles \<noteq> [] \<and> dHandleChangeSet d
         then spawn (TaskHandleChange (gkeys (dHandles d)) (dManifests d)) d else d)"

definition GetHandles :: "('r, 'w) daemon \<Rightarrow> string list" where
  "GetHandles d = gkeys (dHandles d)"

definition GetManifests :: "('r, 'w) daemon \<Rightarrow> (string, pb_manifest) gomap" where
  "GetManifests d = dManifests d"

definition no_pb_manifest :: pb_manifest where
  "no_pb_manifest = \<lparr>pmDescription = [], pmCommands = [], pmTags = [], pmVersion = [], pmCapabilities = [],
     pmDomains = [], pmInputTypes = [], pmOutputTypes = []\<rparr>"

text \<open>\<open>Register\<close> answers false, without an error, for a handle that is taken.\<close>

definition Register ::
  "'w rt \<Rightarrow> 64 word option \<Rightarrow> string \<Rightarrow> pb_manifest option \<Rightarrow> string \<Rightarrow> ('r, 'w) daemon \<Rightarrow> bool \<times> ('r, 'w) daemon" where
  "Register rt conn h manifest description d =
     (if HasHandle h d then (False, d)
      else let d = d\<lparr>dHandles := gput h True (dHandles d),
                    dStats := gput h \<lparr>msgsIn = 0, msgsOut = 0, drops = 0\<rparr> (dStats d)\<rparr>;
               d = (case conn of
                      None \<Rightarrow> d
                    | Some c \<Rightarrow> d\<lparr>dConnHandles := gput c (gput h True (gget_or [] (dConnHandles d) c)) (dConnHandles d),
                                  dHandleOwner := gput h c (dHandleOwner d)\<rparr>);
               d = (case manifest of
                      Some m \<Rightarrow> d\<lparr>dManifests := gput h m (dManifests d)\<rparr>
                    | None \<Rightarrow> if description \<noteq> []
                              then d\<lparr>dManifests := gput h (no_pb_manifest\<lparr>pmDescription := description\<rparr>) (dManifests d)\<rparr>
                              else d);
               d = on_bus (EmitHandleRegistered (rtNow rt) h) d;
               d = (if dHandleChangeSet d then spawn (TaskHandleChange (gkeys (dHandles d)) (dManifests d)) d else d)
           in (True, d))"

section \<open>Mentions\<close>

definition mention_char :: "char \<Rightarrow> bool" where
  "mention_char c \<longleftrightarrow> CHR ''a'' \<le> c \<and> c \<le> CHR ''z'' \<or> CHR ''0'' \<le> c \<and> c \<le> CHR ''9'' \<or> c = CHR ''_'' \<or> c = CHR ''-''"

text \<open>All non-overlapping leftmost matches of \<open>@([a-z][a-z0-9_-]*)\<close>: the captured names.\<close>

function find_mentions :: "string \<Rightarrow> string list" where
  "find_mentions [] = []"
| "find_mentions (c # s) =
     (if c = CHR ''@'' \<and> s \<noteq> [] \<and> CHR ''a'' \<le> hd s \<and> hd s \<le> CHR ''z''
      then takeWhile mention_char s # find_mentions (dropWhile mention_char s)
      else find_mentions s)"
  by pat_completeness auto
termination
  by (relation "measure length") (auto simp: less_Suc_eq_le length_dropWhile_le)

fun dedup :: "string list \<Rightarrow> string list \<Rightarrow> string list" where
  "dedup skip [] = []"
| "dedup skip (h # hs) = (if h \<in> set skip then dedup skip hs else h # dedup (h # skip) hs)"

definition extractMentions :: "string \<Rightarrow> string list \<Rightarrow> string list" where
  "extractMentions text skip = dedup skip (find_mentions text)"

text \<open>\<open>maybeRouteMentions\<close> starts one goroutine per mentioned handle.\<close>

definition maybeRouteMentions :: "string \<Rightarrow> string \<Rightarrow> string \<Rightarrow> bytes \<Rightarrow> ('r, 'w) daemon \<Rightarrow> ('r, 'w) daemon" where
  "maybeRouteMentions fromHandle toHandle contentType payload d =
     (if \<not> HasPrefix contentType ''text/'' then d
      else fold (\<lambda>m. spawn (TaskMention fromHandle m payload contentType))
             (extractMentions payload [fromHandle, toHandle]) d)"

definition openMentionSession ::
  "'w rt \<Rightarrow> string \<Rightarrow> string \<Rightarrow> bytes \<Rightarrow> string \<Rightarrow> ('r, 'w) daemon \<Rightarrow> ('r, 'w) daemon" where
  "openMentionSession rt fromHandle mentionedHandle payload contentType d =
     (let sess = (New (rtUuid rt 0) (rtNow rt) fromHandle mentionedHandle)\<lparr>sTrace := rtUuid rt 1\<rparr>;
          d = put_session sess d;
          env = zero_envelope\<lparr>MessageId := rtUuid rt 2, SessionId := sID sess, FromHandle := fromHandle,
            ToHandle := mentionedHandle, Payload := payload, ContentType := contentType,
            SentAtUnix := unix (sCreatedAt sess), EType := SESSION_OPEN, TraceId := sTrace sess\<rparr>
      in case Route rt env d of
           (Some e, d) \<Rightarrow> d
         | (None, d) \<Rightarrow> on_bus (EmitSessionOpened (rtNow rt) (sID sess) fromHandle mentionedHandle) d)"

section \<open>Sessions\<close>

definition validateSessionParticipant :: "session \<Rightarrow> string \<Rightarrow> go_err option" where
  "validateSessionParticipant sess fromHandle =
     (if fromHandle \<noteq> sFrom sess \<and> fromHandle \<noteq> sTo sess then Some (NotAParticipant fromHandle (sID sess)) else None)"

definition validateSessionOpen :: "session \<Rightarrow> go_err option" where
  "validateSessionOpen sess = (if sState sess \<noteq> StateOpen then Some (SessionIsClosed (sID sess) (sState sess)) else None)"

definition other_end :: "session \<Rightarrow> string \<Rightarrow> string" where
  "other_end sess fromHandle = (if fromHandle = sTo sess then sFrom sess else sTo sess)"

record open_request =
  oqFrom :: string
  oqTo :: string
  oqPayload :: bytes
  oqContentType :: string
  oqTraceId :: string

record send_request =
  sqSession :: string
  sqFrom :: string
  sqPayload :: bytes
  sqContentType :: string

text \<open>The answers name the session, the message and the trace.\<close>

definition OpenSession ::
  "'w rt \<Rightarrow> 64 word option \<Rightarrow> open_request \<Rightarrow> ('r, 'w) daemon \<Rightarrow> (string \<times> string \<times> string) result \<times> ('r, 'w) daemon" where
  "OpenSession rt conn req d =
     (case verifyOwnership conn (oqFrom req) d of
        Some e \<Rightarrow> (Inl e, d)
      | None \<Rightarrow>
          (let sess = New (rtUuid rt 0) (rtNow rt) (oqFrom req) (oqTo req);
               traceID = (if oqTraceId req = [] then rtUuid rt 1 else oqTraceId req);
               (seq, sess) = NextSequence (rtNow rt) (sess\<lparr>sTrace := traceID\<rparr>);
               d = put_session sess d;
               msgID = rtUuid rt 2;
               env = zero_envelope\<lparr>MessageId := msgID, SessionId := sID sess, FromHandle := oqFrom req,
                 ToHandle := oqTo req, Payload := oqPayload req, ContentType := oqContentType req,
                 SentAtUnix := unix (sCreatedAt sess), EType := SESSION_OPEN, TraceId := traceID, Sequence := seq\<rparr>;
               d = record_span rt traceID msgID MESSAGE_CREATED
                     [(''from'', oqFrom req), (''to'', oqTo req), (''type'', ''session_open'')] d
           in case Route rt env d of
                (Some e, d) \<Rightarrow> (Inl (RouteFailed ''route session open'' e), d)
              | (None, d) \<Rightarrow>
                  (let d = bump_stats (msgsOut_update (\<lambda>n. n + 1)) (oqFrom req) d;
                       d = on_bus (EmitSessionOpened (rtNow rt) (sID sess) (oqFrom req) (oqTo req)) d;
                       d = maybeRouteMentions (oqFrom req) (oqTo req) (oqContentType req) (oqPayload req) d
                   in (Inr (sID sess, msgID, traceID), d))))"

text \<open>
  \<open>SendMessage\<close> and \<open>ResolveSession\<close> first read a copy of the session and check it; no lock is
  held from there to the point where the changed copy is put back.
\<close>

definition check_session :: "64 word option \<Rightarrow> send_request \<Rightarrow> ('r, 'w) daemon \<Rightarrow> session result" where
  "check_session conn req d =
     (case verifyOwnership conn (sqFrom req) d of
        Some e \<Rightarrow> Inl e
      | None \<Rightarrow>
          (case Get (dSessions d) (sqSession req) of
             None \<Rightarrow> Inl (SessionNotFound (sqSession req))
           | Some sess \<Rightarrow>
               (case validateSessionParticipant sess (sqFrom req) of
                  Some e \<Rightarrow> Inl e
                | None \<Rightarrow> (case validateSessionOpen sess of Some e \<Rightarrow> Inl e | None \<Rightarrow> Inr sess))))"

definition session_envelope :: "'w rt \<Rightarrow> send_request \<Rightarrow> envelope_type \<Rightarrow> session \<Rightarrow> 64 word \<Rightarrow> envelope" where
  "session_envelope rt req ty sess seq = zero_envelope\<lparr>MessageId := rtUuid rt 2, SessionId := sqSession req,
     FromHandle := sqFrom req, ToHandle := other_end sess (sqFrom req), Payload := sqPayload req,
     ContentType := sqContentType req, SentAtUnix := unix (sUpdatedAt sess), EType := ty,
     TraceId := sTrace sess, Sequence := seq\<rparr>"

definition created_span :: "'w rt \<Rightarrow> send_request \<Rightarrow> string \<Rightarrow> session \<Rightarrow> ('r, 'w) daemon \<Rightarrow> ('r, 'w) daemon" where
  "created_span rt req ty sess d =
     (if sTrace sess \<noteq> []
      then record_span rt (sTrace sess) (rtUuid rt 2) MESSAGE_CREATED
             [(''from'', sqFrom req), (''to'', other_end sess (sqFrom req)), (''type'', ty)] d
      else d)"

definition commit_send :: "'w rt \<Rightarrow> send_request \<Rightarrow> session \<Rightarrow> ('r, 'w) daemon \<Rightarrow> string result \<times> ('r, 'w) daemon" where
  "commit_send rt req sess d =
     (let (seq, sess) = NextSequence (rtNow rt) sess;
          d = put_session sess d;
          env = session_envelope rt req ENVELOPE_MESSAGE sess seq;
          d = created_span rt req ''message'' sess d
      in case Route rt env d of
           (Some e, d) \<Rightarrow> (Inl (RouteFailed ''route message'' e), d)
         | (None, d) \<Rightarrow>
             (let d = bump_stats (msgsOut_update (\<lambda>n. n + 1)) (sqFrom req) d;
                  d = maybeRouteMentions (sqFrom req) (other_end sess (sqFrom req)) (sqContentType req) (sqPayload req) d
              in (Inr (rtUuid rt 2), d)))"

definition SendMessage ::
  "'w rt \<Rightarrow> 64 word option \<Rightarrow> send_request \<Rightarrow> ('r, 'w) daemon \<Rightarrow> string result \<times> ('r, 'w) daemon" where
  "SendMessage rt conn req d =
     (case check_session conn req d of Inl e \<Rightarrow> (Inl e, d) | Inr sess \<Rightarrow> commit_send rt req sess d)"

definition commit_resolve :: "'w rt \<Rightarrow> send_request \<Rightarrow> session \<Rightarrow> ('r, 'w) daemon \<Rightarrow> string result \<times> ('r, 'w) daemon" where
  "commit_resolve rt req sess d =
     (let (seq, sess) = NextSequence (rtNow rt) sess;
          env = session_envelope rt req SESSION_RESOLVE sess seq;
          d = created_span rt req ''session_resolve'' sess d
      in case Route rt env d of
           (Some e, d) \<Rightarrow> (Inl (RouteFailed ''route resolve'' e), d)
         | (None, d) \<Rightarrow>
             (let d = bump_stats (msgsOut_update (\<lambda>n. n + 1)) (sqFrom req) d;
                  d = maybeRouteMentions (sqFrom req) (other_end sess (sqFrom req)) (sqContentType req) (sqPayload req) d
              in case Session.Resolve (rtNow rt) sess of
                   Inl e \<Rightarrow> (Inl e, d)
                 | Inr sess \<Rightarrow>
                     (let d = put_session sess d
                      in (Inr (rtUuid rt 2),
                          on_bus (EmitSessionResolved (rtNow rt) (sqSession req) (sqFrom req)) d))))"

definition ResolveSession ::
  "'w rt \<Rightarrow> 64 word option \<Rightarrow> send_request \<Rightarrow> ('r, 'w) daemon \<Rightarrow> string result \<times> ('r, 'w) daemon" where
  "ResolveSession rt conn req d =
     (case check_session conn req d of Inl e \<Rightarrow> (Inl e, d) | Inr sess \<Rightarrow> commit_resolve rt req sess d)"

section \<open>Subscriptions\<close>

text \<open>The start of \<open>Subscribe\<close>, one message of its loop, and its end (the deferred removal).\<close>

definition Subscribe_open :: "64 word option \<Rightarrow> string \<Rightarrow> ('r, 'w) daemon \<Rightarrow> nat result \<times> ('r, 'w) daemon" where
  "Subscribe_open conn h d =
     (case verifyOwnership conn h d of
        Some e \<Rightarrow> (Inl e, d)
      | None \<Rightarrow>
          (let c = dNextChan d
           in (Inr c, d\<lparr>dChans := gput c (make_chan c 64) (dChans d), dNextChan := c + 1,
                        dSubs := gput h (gget_or [] (dSubs d) h @ [c]) (dSubs d)\<rparr>)))"

definition Subscribe_next :: "nat \<Rightarrow> ('r, 'w) daemon \<Rightarrow> incoming option \<times> ('r, 'w) daemon" where
  "Subscribe_next c d =
     (case gget (dChans d) c of
        Some ch \<Rightarrow> (case ch_buf ch of
                      [] \<Rightarrow> (None, d)
                    | m # ms \<Rightarrow> (Some m, d\<lparr>dChans := gput c (ch\<lparr>ch_buf := ms\<rparr>) (dChans d)\<rparr>))
      | None \<Rightarrow> (None, d))"

definition Subscribe_close :: "nat \<Rightarrow> string \<Rightarrow> ('r, 'w) daemon \<Rightarrow> ('r, 'w) daemon" where
  "Subscribe_close c h d =
     (if c \<in> set (gget_or [] (dSubs d) h)
      then d\<lparr>dSubs := gput h (remove1 c (gget_or [] (dSubs d) h)) (dSubs d)\<rparr> else d)"

section \<open>Sessions keep their order and stay resolved\<close>

lemma Get_put_session [simp]:
  "Get (dSessions (put_session x d)) i = (if i = sID x then Some x else Get (dSessions d) i)"
  using Get_Put [of x "dSessions d" "dStore d" i] by (auto simp: put_session_def split: prod.splits)

lemma store_wf_put_session [keeps]: "store_wf (dSessions d) \<Longrightarrow> store_wf (dSessions (put_session x d))"
  using store_wf_Put [of "dSessions d" x "dStore d"] by (auto simp: put_session_def split: prod.splits)

lemma deliver_subs_frame [simp, frame]:
  "dSessions (snd (deliver_subs rt env cs d)) = dSessions d" "dHandleOwner (snd (deliver_subs rt env cs d)) = dHandleOwner d"
  "dHandles (snd (deliver_subs rt env cs d)) = dHandles d" "dConnHandles (snd (deliver_subs rt env cs d)) = dConnHandles d"
  "dSubs (snd (deliver_subs rt env cs d)) = dSubs d"
  by (simp_all add: deliver_subs_def Let_def)

lemma DeliverToLocal_frame [simp, frame]:
  "dHandleOwner (snd (DeliverToLocal rt env d)) = dHandleOwner d"
  "dHandles (snd (DeliverToLocal rt env d)) = dHandles d"
  "dConnHandles (snd (DeliverToLocal rt env d)) = dConnHandles d"
  "dSubs (snd (DeliverToLocal rt env d)) = dSubs d"
  "EType env \<noteq> SESSION_OPEN \<Longrightarrow> dSessions (snd (DeliverToLocal rt env d)) = dSessions d"
  by (simp_all add: DeliverToLocal_def Let_def) (simp add: open_remote_session_def)

lemma Route_cases:
  assumes "\<And>e. P e d" and "\<And>d' e. d' = snd (DeliverToLocal rt env d) \<Longrightarrow> P (None) (recordRouteDone rt env False d')"
    and "\<And>d' e. d' = snd (DeliverToLocal rt env d) \<Longrightarrow> P (Some e) d'"
    and "\<And>d' e a. d' = snd (transport_send rt a (wrap (BodyEnvelope env)) d) \<Longrightarrow> P (Some e) d'"
    and "\<And>d' a f. d' = snd (transport_send rt a (wrap (BodyEnvelope env)) d) \<Longrightarrow>
      P None (recordRouteDone rt env True (on_tracker f d'))"
    and "\<And>d' a. d' = snd (transport_send rt a (wrap (BodyEnvelope env)) d) \<Longrightarrow> P None (recordRouteDone rt env True d')"
  shows "P (fst (Route rt env d)) (snd (Route rt env d))"
  unfolding Route_def
  using assms by (auto simp: Let_def split: prod.splits sum.splits bool.splits option.splits) (metis snd_conv)+

lemma Route_frame [simp, frame]:
  "dHandleOwner (snd (Route rt env d)) = dHandleOwner d" "dHandles (snd (Route rt env d)) = dHandles d"
  "dConnHandles (snd (Route rt env d)) = dConnHandles d" "dSubs (snd (Route rt env d)) = dSubs d"
proof -
  show "dHandleOwner (snd (Route rt env d)) = dHandleOwner d"
    by (rule Route_cases [where P = "\<lambda>_ d'. dHandleOwner d' = dHandleOwner d"]) simp_all
  show "dHandles (snd (Route rt env d)) = dHandles d"
    by (rule Route_cases [where P = "\<lambda>_ d'. dHandles d' = dHandles d"]) simp_all
  show "dConnHandles (snd (Route rt env d)) = dConnHandles d"
    by (rule Route_cases [where P = "\<lambda>_ d'. dConnHandles d' = dConnHandles d"]) simp_all
  show "dSubs (snd (Route rt env d)) = dSubs d"
    by (rule Route_cases [where P = "\<lambda>_ d'. dSubs d' = dSubs d"]) simp_all
qed

lemma Route_sessions [simp]:
  "EType env \<noteq> SESSION_OPEN \<Longrightarrow> dSessions (snd (Route rt env d)) = dSessions d"
  by (rule Route_cases [where P = "\<lambda>_ d'. dSessions d' = dSessions d"]) simp_all

lemma fold_spawn_frame [simp, frame]:
  "dSessions (fold (\<lambda>m. spawn (f m)) ms d) = dSessions d" "dHandleOwner (fold (\<lambda>m. spawn (f m)) ms d) = dHandleOwner d"
  "dHandles (fold (\<lambda>m. spawn (f m)) ms d) = dHandles d" "dConnHandles (fold (\<lambda>m. spawn (f m)) ms d) = dConnHandles d"
  "dSubs (fold (\<lambda>m. spawn (f m)) ms d) = dSubs d"
  by (induction ms arbitrary: d) simp_all

lemma maybeRouteMentions_frame [simp, frame]:
  "dSessions (maybeRouteMentions f t ct p d) = dSessions d" "dHandleOwner (maybeRouteMentions f t ct p d) = dHandleOwner d"
  "dHandles (maybeRouteMentions f t ct p d) = dHandles d" "dConnHandles (maybeRouteMentions f t ct p d) = dConnHandles d"
  "dSubs (maybeRouteMentions f t ct p d) = dSubs d"
  by (simp_all add: maybeRouteMentions_def)

lemma created_span_frame [simp, frame]:
  "dSessions (created_span rt req ty x d) = dSessions d" "dHandleOwner (created_span rt req ty x d) = dHandleOwner d"
  "dHandles (created_span rt req ty x d) = dHandles d" "dConnHandles (created_span rt req ty x d) = dConnHandles d"
  "dSubs (created_span rt req ty x d) = dSubs d"
  by (simp_all add: created_span_def)

lemma session_envelope_fields [simp]:
  "EType (session_envelope rt req ty x q) = ty" "Sequence (session_envelope rt req ty x q) = q"
  "ToHandle (session_envelope rt req ty x q) = other_end x (sqFrom req)"
  "FromHandle (session_envelope rt req ty x q) = sqFrom req" "SessionId (session_envelope rt req ty x q) = sqSession req"
  "MessageId (session_envelope rt req ty x q) = rtUuid rt 2"
  by (simp_all add: session_envelope_def zero_envelope_def)

text \<open>The session after one more sequence number has been drawn.\<close>

definition advanced :: "time \<Rightarrow> session \<Rightarrow> session" where
  "advanced now sess = sess\<lparr>sNextSeq := sNextSeq sess + 1, sUpdatedAt := now\<rparr>"

lemma advanced_fields [simp]: "sID (advanced now x) = sID x" "sFrom (advanced now x) = sFrom x" "sTo (advanced now x) = sTo x"
  "sState (advanced now x) = sState x" "sNextSeq (advanced now x) = sNextSeq x + 1"
  by (simp_all add: advanced_def)

lemma NextSequence_eq: "NextSequence now sess = (sNextSeq sess, advanced now sess)"
  by (simp add: NextSequence_def advanced_def)

lemma commit_send_state:
  "dSessions (snd (commit_send rt req sess d)) = dSessions (put_session (advanced (rtNow rt) sess) d)"
  "dHandleOwner (snd (commit_send rt req sess d)) = dHandleOwner d"
proof -
  let ?d = "created_span rt req ''message'' (advanced (rtNow rt) sess) (put_session (advanced (rtNow rt) sess) d)"
  let ?env = "session_envelope rt req ENVELOPE_MESSAGE (advanced (rtNow rt) sess) (sNextSeq sess)"
  obtain r d2 where r: "Route rt ?env ?d = (r, d2)" by (cases "Route rt ?env ?d")
  have "dSessions d2 = dSessions ?d" "dHandleOwner d2 = dHandleOwner ?d"
    using Route_sessions [of ?env rt ?d] Route_frame(1) [of rt ?env ?d] r by simp_all
  then show "dSessions (snd (commit_send rt req sess d)) = dSessions (put_session (advanced (rtNow rt) sess) d)"
    "dHandleOwner (snd (commit_send rt req sess d)) = dHandleOwner d"
    by (simp_all add: commit_send_def NextSequence_eq r split: option.split)
qed

lemma check_session_ok:
  "check_session conn req d = Inr sess \<longleftrightarrow> verifyOwnership conn (sqFrom req) d = None \<and>
     Get (dSessions d) (sqSession req) = Some sess \<and> (sqFrom req = sFrom sess \<or> sqFrom req = sTo sess) \<and> sState sess = StateOpen"
  by (auto simp: check_session_def validateSessionParticipant_def validateSessionOpen_def split: option.splits)

lemma verifyOwnership_cong: "dHandleOwner d' = dHandleOwner d \<Longrightarrow> verifyOwnership conn h d' = verifyOwnership conn h d"
  by (cases conn) (simp_all add: verifyOwnership_def)

text \<open>The envelopes that a sequence of \<open>SendMessage\<close> calls hands to the router.\<close>

fun sent_envelopes :: "('w rt \<times> 64 word option \<times> send_request) list \<Rightarrow> ('r, 'w) daemon \<Rightarrow> envelope list" where
  "sent_envelopes [] d = []"
| "sent_envelopes ((rt, conn, req) # calls) d =
     (case check_session conn req d of
        Inl e \<Rightarrow> []
      | Inr sess \<Rightarrow> [session_envelope rt req ENVELOPE_MESSAGE (advanced (rtNow rt) sess) (sNextSeq sess)]) @
     sent_envelopes calls (snd (SendMessage rt conn req d))"

lemma SendMessage_state:
  assumes "check_session conn req d = Inr sess"
  shows "dSessions (snd (SendMessage rt conn req d)) = dSessions (put_session (advanced (rtNow rt) sess) d)"
    "dHandleOwner (snd (SendMessage rt conn req d)) = dHandleOwner d"
  using assms commit_send_state by (simp_all add: SendMessage_def)


lemma commit_resolve_state:
  assumes "commit_resolve rt req sess d = (Inr m, d')"
  shows "Get (dSessions d') (sID sess) = Some ((advanced (rtNow rt) sess)\<lparr>sState := StateResolved, sUpdatedAt := rtNow rt\<rparr>)"
proof -
  have "sState sess = StateOpen"
    using assms by (auto simp: commit_resolve_def NextSequence_eq Session.Resolve_def Let_def
        split: prod.splits option.splits if_splits)
  then show ?thesis
    using assms by (auto simp: commit_resolve_def NextSequence_eq Session.Resolve_def Let_def
        split: prod.splits option.splits)
qed

text \<open>
  C6. A resolved session stays resolved: after \<open>ResolveSession\<close> has succeeded, every
  \<open>SendMessage\<close> and \<open>ResolveSession\<close> on the session is refused and changes nothing.
\<close>

theorem resolved_stays_resolved:
  assumes "store_wf (dSessions d)" and "ResolveSession rt conn req d = (Inr m, d')" and "sqSession req' = sqSession req"
  shows "\<exists>e. SendMessage rt' conn' req' d' = (Inl e, d') \<and> ResolveSession rt' conn' req' d' = (Inl e, d')"
proof -
  obtain sess where chk: "check_session conn req d = Inr sess" and c: "commit_resolve rt req sess d = (Inr m, d')"
    using assms(2) by (auto simp: ResolveSession_def split: sum.splits)
  have "sID sess = sqSession req"
    using chk assms(1) by (auto simp: check_session_ok store_wf_def gget_sessions)
  then have "Get (dSessions d') (sqSession req') =
      Some ((advanced (rtNow rt) sess)\<lparr>sState := StateResolved, sUpdatedAt := rtNow rt\<rparr>)"
    using commit_resolve_state [OF c] assms(3) by simp
  then have "check_session conn' req' d' \<noteq> Inr s" for s
    by (auto simp: check_session_ok)
  then obtain e where "check_session conn' req' d' = Inl e"
    by (cases "check_session conn' req' d'") auto
  then show ?thesis by (simp add: SendMessage_def ResolveSession_def)
qed

text \<open>
  The check and the update of a session are not one step. If a session is resolved between the
  two halves of a \<open>SendMessage\<close>, the second half puts its stale copy back: the session is open
  again, and the number it sends is the one the resolving message used.
\<close>

theorem stale_send_reopens_session:
  assumes "store_wf (dSessions d)" and "check_session conn req d = Inr sess" and "sqSession req' = sqSession req"
    and "ResolveSession rt' conn' req' d = (Inr m, d')"
  shows "Get (dSessions (snd (commit_send rt req sess d'))) (sqSession req) = Some (advanced (rtNow rt) sess) \<and>
    sState (advanced (rtNow rt) sess) = StateOpen \<and>
    Get (dSessions d') (sqSession req) =
      Some ((advanced (rtNow rt') sess)\<lparr>sState := StateResolved, sUpdatedAt := rtNow rt'\<rparr>)"
proof -
  have sess: "Get (dSessions d) (sqSession req) = Some sess" "sState sess = StateOpen"
    using assms(2) by (simp_all add: check_session_ok)
  then have id: "sID sess = sqSession req"
    using assms(1) by (simp add: store_wf_def gget_sessions)
  obtain sess' where chk: "check_session conn' req' d = Inr sess'" and c: "commit_resolve rt' req' sess' d = (Inr m, d')"
    using assms(4) by (auto simp: ResolveSession_def split: sum.splits)
  then have "sess' = sess"
    using sess(1) assms(3) by (simp add: check_session_ok)
  then show ?thesis
    using commit_resolve_state [OF c] sess id by (simp add: commit_send_state)
qed

section \<open>Ownership\<close>

text \<open>
  The three tables agree: a handle has at most one owner, its owner's set lists it, and an owned handle
  is registered.
\<close>

definition own_wf :: "('r, 'w) daemon \<Rightarrow> bool" where
  "own_wf d \<longleftrightarrow>
     (\<forall>h c. gget (dHandleOwner d) h = Some c \<longleftrightarrow> h \<in> set (gkeys (gget_or [] (dConnHandles d) c))) \<and>
     (\<forall>h c. gget (dHandleOwner d) h = Some c \<longrightarrow> HasHandle h d) \<and>
     (\<forall>h. gget_or [] (dSubs d) h \<noteq> [] \<longrightarrow> HasHandle h d)"

lemma close_chan_frame [simp, frame]:
  "dSubs (close_chan c d) = dSubs d" "dHandles (close_chan c d) = dHandles d" "dHandleOwner (close_chan c d) = dHandleOwner d"
  "dConnHandles (close_chan c d) = dConnHandles d" "dNextChan (close_chan c d) = dNextChan d"
  "dSessions (close_chan c d) = dSessions d" "dTasks (close_chan c d) = dTasks d" "dManifests (close_chan c d) = dManifests d"
  by (simp_all add: close_chan_def split: option.splits)

lemma fold_close_chan_frame [simp, frame]:
  "dSubs (fold close_chan cs d) = dSubs d" "dHandles (fold close_chan cs d) = dHandles d"
  "dHandleOwner (fold close_chan cs d) = dHandleOwner d" "dConnHandles (fold close_chan cs d) = dConnHandles d"
  "dNextChan (fold close_chan cs d) = dNextChan d" "dManifests (fold close_chan cs d) = dManifests d"
  by (induction cs arbitrary: d) simp_all

lemma drop_handle_tables:
  "gget (dHandles (drop_handle h d)) = (gget (dHandles d))(h := None)"
  "gget (dHandleOwner (drop_handle h d)) = (gget (dHandleOwner d))(h := None)"
  "gget (dSubs (drop_handle h d)) = (gget (dSubs d))(h := None)"
  "dConnHandles (drop_handle h d) = dConnHandles d"
  by (simp_all add: drop_handle_def Let_def)

lemma fold_drop_handle_tables:
  "gget (dHandles (fold drop_handle hs d)) = (\<lambda>h. if h \<in> set hs then None else gget (dHandles d) h) \<and>
   gget (dHandleOwner (fold drop_handle hs d)) = (\<lambda>h. if h \<in> set hs then None else gget (dHandleOwner d) h) \<and>
   gget (dSubs (fold drop_handle hs d)) = (\<lambda>h. if h \<in> set hs then None else gget (dSubs d) h) \<and>
   dConnHandles (fold drop_handle hs d) = dConnHandles d"
  by (induction hs arbitrary: d) (auto simp: drop_handle_tables fun_eq_iff)

lemma disconnectConn_tables:
  "let hs = gkeys (gget_or [] (dConnHandles d) i); d' = disconnectConn i d in
   gget (dHandles d') = (\<lambda>h. if h \<in> set hs then None else gget (dHandles d) h) \<and>
   gget (dHandleOwner d') = (\<lambda>h. if h \<in> set hs then None else gget (dHandleOwner d) h) \<and>
   gget (dSubs d') = (\<lambda>h. if h \<in> set hs then None else gget (dSubs d) h) \<and>
   gget (dConnHandles d') = (gget (dConnHandles d))(i := None)"
  using fold_drop_handle_tables [of "gkeys (gget_or [] (dConnHandles d) i)" "d\<lparr>dConnHandles := gdel i (dConnHandles d)\<rparr>"]
  by (auto simp: disconnectConn_def Let_def fun_eq_iff)

text \<open>
  C14. A connection that ends takes exactly its own handles with it: afterwards none of them is
  registered, owned or subscribed, every other handle keeps its registration, owner and subscribers,
  and the ownership tables still agree.
\<close>

theorem disconnect_releases_own_handles:
  assumes "own_wf d"
  shows "own_wf (disconnectConn i d) \<and>
    (\<forall>h. gget (dHandleOwner d) h = Some i \<longrightarrow>
       \<not> HasHandle h (disconnectConn i d) \<and> gget (dHandleOwner (disconnectConn i d)) h = None \<and>
       gget_or [] (dSubs (disconnectConn i d)) h = []) \<and>
    (\<forall>h. gget (dHandleOwner d) h \<noteq> Some i \<longrightarrow>
       HasHandle h (disconnectConn i d) = HasHandle h d \<and>
       gget (dHandleOwner (disconnectConn i d)) h = gget (dHandleOwner d) h \<and>
       gget_or [] (dSubs (disconnectConn i d)) h = gget_or [] (dSubs d) h)"
proof -
  let ?hs = "set (gkeys (gget_or [] (dConnHandles d) i))" and ?d = "disconnectConn i d"
  note t = disconnectConn_tables [of d i, unfolded Let_def]
  have own: "gget (dHandleOwner d) h = Some c \<longleftrightarrow> h \<in> set (gkeys (gget_or [] (dConnHandles d) c))" for h c
    using assms by (simp add: own_wf_def)
  have hs: "h \<in> ?hs \<longleftrightarrow> gget (dHandleOwner d) h = Some i" for h
    using own by simp
  have has: "HasHandle h ?d = (HasHandle h d \<and> gget (dHandleOwner d) h \<noteq> Some i)" for h
    using t hs by (auto simp: HasHandle_def gget_or_def split: option.splits)
  have owner: "gget (dHandleOwner ?d) h = (if gget (dHandleOwner d) h = Some i then None else gget (dHandleOwner d) h)" for h
    using t hs by auto
  have subs: "gget_or [] (dSubs ?d) h = (if gget (dHandleOwner d) h = Some i then [] else gget_or [] (dSubs d) h)" for h
    using t hs by (auto simp: gget_or_def)
  have conn: "gget_or [] (dConnHandles ?d) c = (if c = i then [] else gget_or [] (dConnHandles d) c)" for c
    using t by (simp add: gget_or_def)
  have "gget (dHandleOwner ?d) h = Some c \<longleftrightarrow> h \<in> set (gkeys (gget_or [] (dConnHandles ?d) c))" for h c
    using own [of h c] by (cases "c = i") (auto simp: owner conn simp del: set_map)
  moreover have "gget (dHandleOwner ?d) h = Some c \<longrightarrow> HasHandle h ?d" "gget_or [] (dSubs ?d) h \<noteq> [] \<longrightarrow> HasHandle h ?d" for h c
    using assms by (auto simp: own_wf_def owner has subs simp del: set_map)
  ultimately have "own_wf ?d"
    unfolding own_wf_def by blast
  then show ?thesis
    using has owner subs by simp
qed

lemma own_wf_New: "own_wf (NewDaemon node C w)"
  by (simp add: own_wf_def NewDaemon_def gget_or_def)

text \<open>A registered handle is owned by the connection that registered it.\<close>

lemma own_wf_Register [keeps]:
  assumes "own_wf d"
  shows "own_wf (snd (Register rt (Some c) h m desc d))"
proof (cases "HasHandle h d")
  case True
  then show ?thesis using assms by (simp add: Register_def)
next
  case False
  let ?d = "snd (Register rt (Some c) h m desc d)"
  have tab: "dHandles ?d = gput h True (dHandles d)" "dHandleOwner ?d = gput h c (dHandleOwner d)" "dSubs ?d = dSubs d"
    "dConnHandles ?d = gput c (gput h True (gget_or [] (dConnHandles d) c)) (dConnHandles d)"
    using False by (simp_all add: Register_def Let_def split: option.splits)
  have none: "gget (dHandleOwner d) h = None"
    using assms False unfolding own_wf_def by (metis not_None_eq)
  have own: "gget (dHandleOwner d) x = Some y \<longleftrightarrow> x \<in> set (gkeys (gget_or [] (dConnHandles d) y))" for x y
    using assms by (simp add: own_wf_def)
  have conn: "x \<in> set (gkeys (gget_or [] (dConnHandles ?d) y)) \<longleftrightarrow> y = c \<and> x = h \<or> x \<in> set (gkeys (gget_or [] (dConnHandles d) y))" for x y
    using gkeys_gput [of h True "gget_or [] (dConnHandles d) c"] by (auto simp: tab gget_or_def simp del: set_map)
  have "gget (dHandleOwner ?d) x = Some y \<longleftrightarrow> x \<in> set (gkeys (gget_or [] (dConnHandles ?d) y))" for x y
    unfolding conn using own [of x y] none by (auto simp: tab simp del: set_map)
  moreover have has: "HasHandle x ?d = (x = h \<or> HasHandle x d)" for x
    by (simp add: HasHandle_def tab gget_or_def)
  moreover have "gget (dHandleOwner ?d) x = Some y \<longrightarrow> HasHandle x ?d" for x y
    using assms by (auto simp: own_wf_def has tab simp del: set_map)
  moreover have "gget_or [] (dSubs ?d) x \<noteq> [] \<longrightarrow> HasHandle x ?d" for x
    using assms by (auto simp: own_wf_def has tab simp del: set_map)
  ultimately show ?thesis unfolding own_wf_def by blast
qed

theorem disconnect_releases_own_handles_witness:
  "let d = snd (Register sample_rt (Some 1) ''carol'' None [] (NewDaemon ''n'' blob_codec ()))
   in HasHandle ''carol'' d \<and> \<not> HasHandle ''carol'' (disconnectConn 1 d) \<and> HasHandle ''carol'' (disconnectConn 2 d)"
proof -
  let ?d = "snd (Register sample_rt (Some 1) ''carol'' None [] (NewDaemon ''n'' blob_codec ()))"
  have "gget (dHandleOwner ?d) ''carol'' = Some 1" "HasHandle ''carol'' ?d"
    by (simp_all add: Register_def HasHandle_def gget_or_def NewDaemon_def Let_def)
  moreover have wf: "own_wf ?d" by (intro own_wf_Register own_wf_New)
  ultimately show ?thesis
    using disconnect_releases_own_handles [OF wf, of 1] disconnect_releases_own_handles [OF wf, of 2]
    by (simp add: Let_def)
qed

text \<open>
  Nobody acts for a handle of another connection: a call that names a handle its connection does
  not own is refused, before anything changes, by opening, sending on and resolving a session and by
  subscribing; and a handle that is registered cannot be registered again.
\<close>

theorem unowned_handle_refused:
  assumes "gget (dHandleOwner d) h \<noteq> Some c"
  shows "(\<exists>e. OpenSession rt (Some c) (oreq\<lparr>oqFrom := h\<rparr>) d = (Inl e, d)) \<and>
    (\<exists>e. SendMessage rt (Some c) (sreq\<lparr>sqFrom := h\<rparr>) d = (Inl e, d)) \<and>
    (\<exists>e. ResolveSession rt (Some c) (sreq\<lparr>sqFrom := h\<rparr>) d = (Inl e, d)) \<and>
    (\<exists>e. Subscribe_open (Some c) h d = (Inl e, d)) \<and>
    (HasHandle h d \<longrightarrow> Register rt (Some c) h m desc d = (False, d))"
proof -
  obtain e where "verifyOwnership (Some c) h d = Some e"
    using assms by (cases "gget (dHandleOwner d) h") (auto simp: verifyOwnership_def)
  then show ?thesis
    by (simp add: OpenSession_def SendMessage_def ResolveSession_def check_session_def Subscribe_open_def Register_def)
qed

theorem unowned_handle_refused_witness:
  "let d = snd (Register sample_rt (Some 1) ''carol'' None [] (bob_daemon 64))
   in (\<exists>e. Subscribe_open (Some 2) ''carol'' d = (Inl e, d)) \<and> Register sample_rt (Some 2) ''carol'' None [] d = (False, d)"
proof -
  let ?d = "snd (Register sample_rt (Some 1) ''carol'' None [] (bob_daemon 64))"
  have "gget (dHandleOwner ?d) ''carol'' = Some 1" "HasHandle ''carol'' ?d"
    by (simp_all add: Register_def HasHandle_def bob_daemon_def gget_or_def NewDaemon_def Let_def)
  then show ?thesis
    using unowned_handle_refused [of ?d "''carol''" 2 sample_rt undefined undefined None "[]"] by (simp add: Let_def)
qed

section \<open>Witnesses for sessions\<close>

text \<open>A daemon where \<open>alice\<close> and \<open>bob\<close> share an open session and \<open>bob\<close> listens.\<close>

definition chat_session :: session where
  "chat_session = (New ''s1'' 0 ''alice'' ''bob'')\<lparr>sNextSeq := 5\<rparr>"

definition chat_daemon :: "(blob, unit) daemon" where
  "chat_daemon = put_session chat_session (bob_daemon 64)"

definition chat_request :: send_request where
  "chat_request = \<lparr>sqSession = ''s1'', sqFrom = ''alice'', sqPayload = ''hi'', sqContentType = ''application/json''\<rparr>"

lemma chat_facts:
  "store_wf (dSessions chat_daemon)" "Get (dSessions chat_daemon) ''s1'' = Some chat_session"
  "sState chat_session = StateOpen" "sNextSeq chat_session = 5" "sFrom chat_session = ''alice''"
  "check_session None chat_request chat_daemon = Inr chat_session" "sID chat_session = ''s1''"
proof -
  have "store_wf (dSessions (bob_daemon 64))"
    by (simp add: bob_daemon_def NewDaemon_def wired_store_def SetPersistence_def store_wf_def NewStore_def)
  then show "store_wf (dSessions chat_daemon)"
    unfolding chat_daemon_def by (rule store_wf_put_session)
  show "Get (dSessions chat_daemon) ''s1'' = Some chat_session" "sState chat_session = StateOpen"
    "sNextSeq chat_session = 5" "sFrom chat_session = ''alice''" "sID chat_session = ''s1''"
    by (simp_all add: chat_daemon_def chat_session_def New_def)
  then show "check_session None chat_request chat_daemon = Inr chat_session"
    by (simp add: check_session_ok chat_request_def verifyOwnership_def)
qed


lemma chat_resolves: "\<exists>m d'. ResolveSession sample_rt None chat_request chat_daemon = (Inr m, d')"
proof -
  let ?sess = "advanced (rtNow sample_rt) chat_session"
  let ?env = "session_envelope sample_rt chat_request SESSION_RESOLVE ?sess 5"
  have tr: "created_span sample_rt chat_request ''session_resolve'' ?sess chat_daemon = chat_daemon"
    by (simp add: created_span_def advanced_def chat_session_def New_def)
  have "HasHandle (ToHandle ?env) chat_daemon"
    by (simp add: other_end_def chat_request_def chat_session_def New_def HasHandle_def chat_daemon_def bob_daemon_def gget_or_def)
  moreover have "fst (DeliverToLocal sample_rt ?env chat_daemon)"
    by (simp add: DeliverToLocal_def deliver_subs_def Let_def other_end_def chat_request_def chat_session_def New_def
        chat_daemon_def bob_daemon_def gget_or_def)
  ultimately have r: "fst (Route sample_rt ?env chat_daemon) = None"
    by (auto simp: Route_def split: prod.splits bool.splits)
  then obtain d2 where r: "Route sample_rt ?env chat_daemon = (None, d2)"
    by (metis prod.collapse)
  show ?thesis
    by (simp add: ResolveSession_def chat_facts commit_resolve_def NextSequence_eq tr r Session.Resolve_def Let_def)
qed

theorem resolved_stays_resolved_witness:
  "let d' = snd (ResolveSession sample_rt None chat_request chat_daemon)
   in \<exists>e. SendMessage sample_rt None chat_request d' = (Inl e, d')"
proof -
  obtain m d' where r: "ResolveSession sample_rt None chat_request chat_daemon = (Inr m, d')"
    using chat_resolves by blast
  then show ?thesis
    using resolved_stays_resolved [OF chat_facts(1) r, of chat_request sample_rt None] by auto
qed

theorem stale_send_reopens_session_witness:
  "let d' = snd (ResolveSession sample_rt None chat_request chat_daemon)
   in Get (dSessions (snd (commit_send sample_rt chat_request chat_session d'))) ''s1'' =
        Some (advanced (rtNow sample_rt) chat_session)"
proof -
  obtain m d' where r: "ResolveSession sample_rt None chat_request chat_daemon = (Inr m, d')"
    using chat_resolves by blast
  then show ?thesis
    using stale_send_reopens_session [OF chat_facts(1,6) _ r, of sample_rt] by (simp add: chat_request_def)
qed

section \<open>Closed channels\<close>

lemma fold_close_chan:
  assumes "distinct cs" and "\<forall>c\<in>set cs. \<exists>ch. gget (dChans d) c = Some ch \<and> \<not> ch_closed ch"
  shows "gget (dChans (fold close_chan cs d)) x =
      (if x \<in> set cs then map_option (ch_closed_update (\<lambda>_. True)) (gget (dChans d) x) else gget (dChans d) x)
    \<and> dPanicked (fold close_chan cs d) = dPanicked d"
  using assms
proof (induction cs arbitrary: d)
  case (Cons c cs)
  obtain ch where ch: "gget (dChans d) c = Some ch" "\<not> ch_closed ch" using Cons.prems by auto
  have d1: "gget (dChans (close_chan c d)) = (gget (dChans d))(c \<mapsto> ch\<lparr>ch_closed := True\<rparr>)"
    "dPanicked (close_chan c d) = dPanicked d"
    using ch by (simp_all add: close_chan_def)
  have "\<forall>x\<in>set cs. \<exists>ch. gget (dChans (close_chan c d)) x = Some ch \<and> \<not> ch_closed ch"
    using Cons.prems by (auto simp: d1)
  with Cons.IH [of "close_chan c d"] Cons.prems(1) show ?case
    using ch by (auto simp: d1)
qed simp

lemma drop_handle_chans:
  assumes "subs_wf d"
  shows "gget (dChans (drop_handle h d)) x =
      (if x \<in> set (gget_or [] (dSubs d) h) then map_option (ch_closed_update (\<lambda>_. True)) (gget (dChans d) x) else gget (dChans d) x)
    \<and> dPanicked (drop_handle h d) = dPanicked d \<and> dNextChan (drop_handle h d) = dNextChan d \<and> dTrace (drop_handle h d) = dTrace d"
proof -
  let ?d = "d\<lparr>dHandles := gdel h (dHandles d), dManifests := gdel h (dManifests d), dStats := gdel h (dStats d),
       dHandleOwner := gdel h (dHandleOwner d)\<rparr>"
  have tr: "dTrace (fold close_chan cs e) = dTrace e" for cs and e :: "('a, 'b) daemon"
    by (induction cs arbitrary: e) (simp_all add: close_chan_def split: option.splits)
  show ?thesis
    using fold_close_chan [of "gget_or [] (dSubs d) h" ?d x] subs_wf_open [OF assms, of h] tr
    by (simp add: drop_handle_def Let_def)
qed

lemma subs_wf_drop_handle: "subs_wf d \<Longrightarrow> subs_wf (drop_handle h d)"
proof -
  assume wf: "subs_wf d"
  have subs: "gget_or [] (dSubs (drop_handle h d)) x = (if x = h then [] else gget_or [] (dSubs d) x)" for x
    by (simp add: gget_or_def drop_handle_tables)
  note ch = drop_handle_chans [OF wf]
  have ok: "chan_ok (ch\<lparr>ch_closed := True\<rparr>) = chan_ok ch" for ch :: "incoming chan"
    by (simp add: chan_ok_def)
  have "\<exists>ch. gget (dChans (drop_handle h d)) c = Some ch \<and> \<not> ch_closed ch"
    if "c \<in> set (gget_or [] (dSubs (drop_handle h d)) x)" for x c
  proof -
    have x: "x \<noteq> h" "c \<in> set (gget_or [] (dSubs d) x)" using that by (auto simp: subs split: if_splits)
    then have "c \<notin> set (gget_or [] (dSubs d) h)" using wf unfolding subs_wf_def by blast
    then show ?thesis using wf x ch [of h c] unfolding subs_wf_def by auto
  qed
  moreover have "gget (dChans (drop_handle h d)) c = Some ch \<Longrightarrow> c < dNextChan (drop_handle h d) \<and> chan_ok ch" for c ch
    using wf ch [of h c] ok unfolding subs_wf_def by (auto split: if_splits)
  moreover have "distinct (gget_or [] (dSubs (drop_handle h d)) x)" for x
    using wf by (simp add: subs subs_wf_def)
  moreover have "c \<in> set (gget_or [] (dSubs (drop_handle h d)) x) \<Longrightarrow> c \<in> set (gget_or [] (dSubs (drop_handle h d)) y) \<Longrightarrow> x = y" for c x y
    using wf unfolding subs subs_wf_def by (auto split: if_splits)
  ultimately show ?thesis unfolding subs_wf_def by blast
qed

lemma fold_drop_handle_inv:
  "subs_wf d \<Longrightarrow> subs_wf (fold drop_handle hs d) \<and> dPanicked (fold drop_handle hs d) = dPanicked d \<and>
     dTrace (fold drop_handle hs d) = dTrace d"
  by (induction hs arbitrary: d) (auto simp: subs_wf_drop_handle drop_handle_chans)

lemma disconnectConn_inv:
  assumes "subs_wf d"
  shows "subs_wf (disconnectConn i d) \<and> dPanicked (disconnectConn i d) = dPanicked d \<and> dTrace (disconnectConn i d) = dTrace d"
proof -
  let ?d = "d\<lparr>dConnHandles := gdel i (dConnHandles d)\<rparr>"
  have "subs_wf ?d" using assms by (simp add: subs_wf_def)
  from fold_drop_handle_inv [OF this, of "gkeys (gget_or [] (dConnHandles d) i)"] show ?thesis
    by (simp add: disconnectConn_def Let_def)
qed

lemma Subscribe_open_inv:
  assumes "subs_wf d"
  shows "subs_wf (snd (Subscribe_open conn h d))"
proof (cases "verifyOwnership conn h d")
  case (Some e)
  then show ?thesis using assms by (simp add: Subscribe_open_def)
next
  case None
  have fresh: "c < dNextChan d" if "c \<in> set (gget_or [] (dSubs d) x)" for c x
    using assms that unfolding subs_wf_def by blast
  let ?d = "snd (Subscribe_open conn h d)"
  have tab: "gget_or [] (dSubs ?d) x = (if x = h then gget_or [] (dSubs d) h @ [dNextChan d] else gget_or [] (dSubs d) x)"
    "gget (dChans ?d) = (gget (dChans d))(dNextChan d \<mapsto> make_chan (dNextChan d) 64)" "dNextChan ?d = dNextChan d + 1" for x
    using None by (auto simp: Subscribe_open_def Let_def gget_or_def)
  have "\<exists>ch. gget (dChans ?d) c = Some ch \<and> \<not> ch_closed ch" if "c \<in> set (gget_or [] (dSubs ?d) x)" for c x
    using that assms unfolding tab subs_wf_def by (auto simp: make_chan_def split: if_splits)
  moreover have "distinct (gget_or [] (dSubs ?d) x)" for x
    using assms fresh [of "dNextChan d"] unfolding tab subs_wf_def by auto
  moreover have "c \<in> set (gget_or [] (dSubs ?d) x) \<Longrightarrow> c \<in> set (gget_or [] (dSubs ?d) y) \<Longrightarrow> x = y" for c x y
    using assms fresh [of "dNextChan d"] unfolding tab subs_wf_def by (auto split: if_splits)
  moreover have "gget (dChans ?d) c = Some ch \<Longrightarrow> c < dNextChan ?d \<and> chan_ok ch" for c ch
    using assms unfolding tab subs_wf_def by (auto simp: less_Suc_eq split: if_splits)
  ultimately show ?thesis unfolding subs_wf_def by blast
qed

lemma subs_wf_shrink:
  assumes "subs_wf d" and "dChans d' = dChans d" and "dNextChan d' = dNextChan d"
    and "\<And>h. set (gget_or [] (dSubs d') h) \<subseteq> set (gget_or [] (dSubs d) h)" and "\<And>h. distinct (gget_or [] (dSubs d') h)"
  shows "subs_wf d'"
proof -
  have sub: "c \<in> set (gget_or [] (dSubs d') h) \<Longrightarrow> c \<in> set (gget_or [] (dSubs d) h)" for c h
    using assms(4) by blast
  show ?thesis
    unfolding subs_wf_def assms(2,3)
    using assms(1) [unfolded subs_wf_def] sub assms(5) by blast
qed

lemma Subscribe_close_inv:
  assumes "subs_wf d"
  shows "subs_wf (Subscribe_close c h d)"
proof (rule subs_wf_shrink [OF assms])
  have s: "gget_or [] (dSubs (Subscribe_close c h d)) x =
      (if x = h then remove1 c (gget_or [] (dSubs d) h) else gget_or [] (dSubs d) x)" for x
    by (auto simp: Subscribe_close_def gget_or_def remove1_idem split: option.splits)
  show "set (gget_or [] (dSubs (Subscribe_close c h d)) x) \<subseteq> set (gget_or [] (dSubs d) x)" for x
    unfolding s using set_remove1_subset [of c "gget_or [] (dSubs d) h"] by auto
  show "distinct (gget_or [] (dSubs (Subscribe_close c h d)) x)" for x
    unfolding s using subs_wf_open(2) [OF assms] by auto
qed (simp_all add: Subscribe_close_def)

lemma Subscribe_next_inv:
  assumes "subs_wf d"
  shows "subs_wf (snd (Subscribe_next c d))"
proof -
  have "chan_ok ch \<Longrightarrow> ch_buf ch = m # ms \<Longrightarrow> chan_ok (ch\<lparr>ch_buf := ms\<rparr>)" for ch :: "incoming chan" and m ms
    by (simp add: chan_ok_def)
  moreover have "\<not> ch_closed ch" if "c \<in> set (gget_or [] (dSubs d) h)" "gget (dChans d) c = Some ch" for h ch
    using subs_wf_open(1) [OF assms] that by force
  ultimately show ?thesis
    using assms unfolding subs_wf_def Subscribe_next_def by (auto split: option.splits list.splits)
qed

datatype agent_op =
    OpRegister "64 word option" string
  | OpDisconnect "64 word"
  | OpSubscribe "64 word option" string
  | OpReceive nat
  | OpUnsubscribe nat string
  | OpDeliver envelope

fun run_agent_op :: "'w rt \<Rightarrow> agent_op \<Rightarrow> ('r, 'w) daemon \<Rightarrow> ('r, 'w) daemon" where
  "run_agent_op rt (OpRegister conn h) d = snd (Register rt conn h None [] d)"
| "run_agent_op rt (OpDisconnect c) d = disconnectConn c d"
| "run_agent_op rt (OpSubscribe conn h) d = snd (Subscribe_open conn h d)"
| "run_agent_op rt (OpReceive c) d = snd (Subscribe_next c d)"
| "run_agent_op rt (OpUnsubscribe c h) d = Subscribe_close c h d"
| "run_agent_op rt (OpDeliver env) d = snd (DeliverToLocal rt env d)"

definition live :: "('r, 'w) daemon \<Rightarrow> bool" where
  "live d \<longleftrightarrow> subs_wf d \<and> trace_ok d \<and> \<not> dPanicked d"

lemma Register_frame [simp, frame]:
  "dSubs (snd (Register rt conn h m desc d)) = dSubs d" "dChans (snd (Register rt conn h m desc d)) = dChans d"
  "dNextChan (snd (Register rt conn h m desc d)) = dNextChan d" "dTrace (snd (Register rt conn h m desc d)) = dTrace d"
  "dPanicked (snd (Register rt conn h m desc d)) = dPanicked d"
  by (simp_all add: Register_def Let_def split: option.splits)

lemma live_DeliverToLocal:
  assumes "live d"
  shows "live (snd (DeliverToLocal rt env d))"
proof (cases "EType env = ACK")
  case True
  then show ?thesis
    using assms by (simp add: DeliverToLocal_def live_def)
next
  case False
  let ?o = "open_remote_session rt env d" and ?cs = "gget_or [] (dSubs d) (ToHandle env)"
  let ?e = "snd (send_chans (InEnvelope env) (ToHandle env) ?cs ?o)"
  have w: "subs_wf ?e" "trace_ok ?e"
    using assms subs_wf_send_chans [of ?o "InEnvelope env" "ToHandle env" ?cs] by (simp_all add: live_def)
  have p: "dPanicked (snd (DeliverToLocal rt env d)) = dPanicked d"
    using DeliverToLocal_facts [of d env rt "fst (DeliverToLocal rt env d)" "snd (DeliverToLocal rt env d)"] assms False
    by (simp add: live_def Let_def)
  have "subs_wf (snd (DeliverToLocal rt env d)) \<and> trace_ok (snd (DeliverToLocal rt env d))"
    using False w assms record_span_ok(1) [OF w(2)] by (simp add: DeliverToLocal_def deliver_subs_def Let_def live_def)
  then show ?thesis using p assms by (simp add: live_def)
qed

lemma live_run_agent_op: "live d \<Longrightarrow> live (run_agent_op rt op d)"
proof (cases op)
  case (OpRegister conn h)
  moreover assume "live d"
  ultimately show ?thesis
    by (simp add: live_def subs_wf_cong [of "snd (Register _ _ _ _ _ _)"] trace_ok_cong [of "snd (Register _ _ _ _ _ _)"])
next
  case (OpDisconnect c)
  moreover assume "live d"
  ultimately show ?thesis
    using disconnectConn_inv [of d c] by (simp add: live_def trace_ok_cong [of "disconnectConn _ _"])
next
  case (OpSubscribe conn h)
  moreover assume "live d"
  moreover have "dTrace (snd (Subscribe_open conn h d)) = dTrace d" "dPanicked (snd (Subscribe_open conn h d)) = dPanicked d"
    by (simp_all add: Subscribe_open_def Let_def split: option.splits)
  ultimately show ?thesis
    using Subscribe_open_inv [of d conn h] by (simp add: live_def trace_ok_def)
next
  case (OpReceive c)
  moreover assume "live d"
  moreover have "dTrace (snd (Subscribe_next c d)) = dTrace d" "dPanicked (snd (Subscribe_next c d)) = dPanicked d"
    by (simp_all add: Subscribe_next_def split: option.splits list.splits)
  ultimately show ?thesis
    using Subscribe_next_inv [of d c] by (simp add: live_def trace_ok_def)
next
  case (OpUnsubscribe c h)
  moreover assume "live d"
  ultimately show ?thesis
    using Subscribe_close_inv [of d c h] by (simp add: live_def trace_ok_def) (simp add: Subscribe_close_def)
next
  case (OpDeliver env)
  moreover assume "live d"
  ultimately show ?thesis using live_DeliverToLocal [of d rt env] by simp
qed

lemma live_New: "live (NewDaemon node C w)"
  using trace_ok_New [of node C w] by (simp add: live_def subs_wf_def NewDaemon_def gget_or_def)

text \<open>
  C13. Calls that run one after the other never panic: from a fresh daemon, after any sequence of
  registrations, disconnects, subscriptions, receives and deliveries, no message has been sent to a
  closed channel and no channel has been closed twice.
\<close>

theorem sequential_calls_never_panic:
  "\<not> dPanicked (fold (\<lambda>(rt, op). run_agent_op rt op) ops (NewDaemon node C w))"
proof -
  have "live d \<Longrightarrow> live (fold (\<lambda>(rt, op). run_agent_op rt op) ops d)" for d
    by (induction ops arbitrary: d) (auto simp: live_run_agent_op)
  from this [OF live_New [of node C w]] show ?thesis by (simp add: live_def)
qed

text \<open>
  A delivery that is overtaken by the disconnect of its receiver panics. \<open>DeliverToLocal\<close>
  reads the list of subscriber channels under the lock but sends after releasing it; if the owner of
  the handle disconnects in between, its channels are closed and the send on a closed channel takes
  the daemon down.
\<close>

theorem delivery_races_disconnect:
  assumes "subs_wf d" and "own_wf d" and "gget (dHandleOwner d) (ToHandle env) = Some c"
    and "gget_or [] (dSubs d) (ToHandle env) \<noteq> []"
  shows "dPanicked (snd (send_chans (InEnvelope env) (ToHandle env) (gget_or [] (dSubs d) (ToHandle env)) (disconnectConn c d)))"
proof -
  let ?h = "ToHandle env" and ?hs = "gkeys (gget_or [] (dConnHandles d) c)" and ?d = "d\<lparr>dConnHandles := gdel c (dConnHandles d)\<rparr>"
  have closed: "(\<exists>ch. gget (dChans e) x = Some ch \<and> ch_closed ch) \<Longrightarrow>
      \<exists>ch. gget (dChans (fold drop_handle hs e)) x = Some ch \<and> ch_closed ch" if "subs_wf e" for hs x and e :: "('a, 'b) daemon"
    using that
  proof (induction hs arbitrary: e)
    case (Cons h hs)
    have "\<exists>ch. gget (dChans (drop_handle h e)) x = Some ch \<and> ch_closed ch"
      using Cons.prems drop_handle_chans [OF Cons.prems(2), of h x] by auto
    then show ?case using Cons.IH [OF _ subs_wf_drop_handle [OF Cons.prems(2)]] by simp
  qed simp
  have shut: "\<exists>ch. gget (dChans (fold drop_handle hs e)) x = Some ch \<and> ch_closed ch"
    if "subs_wf e" "?h \<in> set hs" "x \<in> set (gget_or [] (dSubs e) ?h)" for hs x and e :: "('a, 'b) daemon"
    using that
  proof (induction hs arbitrary: e)
    case (Cons h hs)
    show ?case
    proof (cases "h = ?h")
      case True
      then have "\<exists>ch. gget (dChans (drop_handle h e)) x = Some ch \<and> ch_closed ch"
        using Cons.prems drop_handle_chans [OF Cons.prems(1), of h x] subs_wf_open(1) [OF Cons.prems(1), of ?h] by auto
      then show ?thesis using closed [OF subs_wf_drop_handle [OF Cons.prems(1)]] by simp
    next
      case False
      then show ?thesis
        using Cons by (auto simp: gget_or_def drop_handle_tables subs_wf_drop_handle)
    qed
  qed simp
  obtain x xs where xs: "gget_or [] (dSubs d) ?h = x # xs" using assms(4) by (cases "gget_or [] (dSubs d) ?h") auto
  have "?h \<in> set ?hs" using assms(2,3) by (simp add: own_wf_def)
  then have "\<exists>ch. gget (dChans (fold drop_handle ?hs ?d)) x = Some ch \<and> ch_closed ch"
    using shut [of ?d ?hs x] assms(1) xs by (simp add: subs_wf_def)
  then have "\<exists>ch. gget (dChans (disconnectConn c d)) x = Some ch \<and> ch_closed ch"
    by (simp add: disconnectConn_def Let_def)
  then have first: "dPanicked (snd (send_chan (InEnvelope env) ?h x (disconnectConn c d)))"
    by (auto simp: send_chan_def)
  have "dPanicked e \<Longrightarrow> dPanicked (snd (send_chan m h y e))" for m h y and e :: "('a, 'b) daemon"
    by (simp add: send_chan_def split: option.splits)
  then have "dPanicked e \<Longrightarrow> dPanicked (snd (send_chans m h cs e))" for m h cs and e :: "('a, 'b) daemon"
    by (induction cs arbitrary: e) simp_all
  with first show ?thesis by (simp add: xs)
qed

theorem delivery_races_disconnect_witness:
  "let d = snd (Subscribe_open (Some 1) ''bob'' (snd (Register sample_rt (Some 1) ''bob'' None [] (NewDaemon ''n'' blob_codec ()))))
   in \<not> dPanicked d \<and> dPanicked (snd (send_chans (InEnvelope hello) ''bob'' (gget_or [] (dSubs d) ''bob'') (disconnectConn 1 d)))"
proof -
  let ?r = "snd (Register sample_rt (Some 1) ''bob'' None [] (NewDaemon ''n'' blob_codec ()))"
  let ?d = "snd (Subscribe_open (Some 1) ''bob'' ?r)"
  have o: "own_wf ?r" by (intro own_wf_Register own_wf_New)
  have l: "live ?r"
    using live_run_agent_op [OF live_New, of sample_rt "OpRegister (Some 1) ''bob''"] by simp
  have "gget (dHandleOwner ?r) ''bob'' = Some 1" "HasHandle ''bob'' ?r"
    by (simp_all add: Register_def HasHandle_def gget_or_def NewDaemon_def Let_def)
  note r = o l this
  have d: "dHandleOwner ?d = dHandleOwner ?r" "dConnHandles ?d = dConnHandles ?r" "dHandles ?d = dHandles ?r"
    "gget_or [] (dSubs ?d) ''bob'' \<noteq> []"
    "\<And>h. gget_or [] (dSubs ?d) h \<noteq> [] \<Longrightarrow> h = ''bob'' \<or> gget_or [] (dSubs ?r) h \<noteq> []"
    using r(3) by (auto simp: Subscribe_open_def verifyOwnership_def Let_def gget_or_def)
  have own: "own_wf ?d"
    using r(1,4) d unfolding own_wf_def HasHandle_def by metis
  have live: "live ?d"
    using live_run_agent_op [OF r(2), of sample_rt "OpSubscribe (Some 1) ''bob''"] by simp
  then show ?thesis
    using delivery_races_disconnect [OF _ own, of hello 1] d(1,4) r(3) by (simp add: live_def Let_def)
qed

end
