(* ===== verification/Rooms.thy ===== *)
theory Rooms
  imports Agent_Server
begin

text \<open>
  Shared rooms (\<open>internal/daemon/roommanager.go\<close>). A room lives on its home node, which numbers,
  stores and publishes its events; other nodes send commands there and cache what comes back. A remote
  command is split at the point where the caller waits for the result.
\<close>

section \<open>Helpers\<close>

definition defaultRoomEventRetention :: int where
  "defaultRoomEventRetention = 10000"

fun unique_from :: "string list \<Rightarrow> string list \<Rightarrow> string list" where
  "unique_from seen [] = []"
| "unique_from seen (h # hs) = (if h = [] \<or> h \<in> set seen then unique_from seen hs else h # unique_from (h # seen) hs)"

definition uniqueHandles :: "string list \<Rightarrow> string list" where
  "uniqueHandles hs = unique_from [] hs"

definition removeHandle :: "string list \<Rightarrow> string \<Rightarrow> string list" where
  "removeHandle hs target = filter (\<lambda>h. h \<noteq> target) hs"

definition isRoomMember :: "room_info \<Rightarrow> string \<Rightarrow> bool" where
  "isRoomMember room h \<longleftrightarrow> h \<in> set (Members room)"

definition zero_result :: room_command_result where
  "zero_result = \<lparr>ResRequestId = [], ResOk = False, ResError = None, ResRoom = None, ResEvent = None,
     ResEvents = [], ResMembers = []\<rparr>"

definition zero_command :: room_command where
  "zero_command = \<lparr>RequestId = [], CmdType = CMD_UNSPECIFIED, CmdRoomId = [], RequesterHandle = [], CmdTitle = [],
     CmdMembers = [], CmdSubjectHandle = [], CmdPayload = [], CmdContentType = [], CmdTraceId = [], SinceSeq = 0,
     RequesterNodeId = []\<rparr>"

fun node_addr_in :: "string \<Rightarrow> node_info list \<Rightarrow> string result" where
  "node_addr_in i [] = Inl (NodeNotFound i)"
| "node_addr_in i (n # ns) = (if nNodeID n = i then Inr (nAdvertiseAddr n) else node_addr_in i ns)"

definition nodeAddr :: "string \<Rightarrow> ('r, 'w) daemon \<Rightarrow> string result" where
  "nodeAddr i d = node_addr_in i (GetNodes (dResolver d))"

definition room_of_cached :: "cached_room \<Rightarrow> room_info" where
  "room_of_cached info = \<lparr>RoomId = cRoomID info, Title = cTitle info, CreatedBy = cCreatedBy info,
     HomeNodeId = cHomeNodeID info, Members = cMembers info, Status = cStatus info, NextSeq = cNextSeq info,
     CreatedAtUnix = cCreatedAt info, UpdatedAtUnix = cUpdatedAt info\<rparr>"

definition resolveRoomInfo :: "string \<Rightarrow> ('r, 'w) daemon \<Rightarrow> room_info result" where
  "resolveRoomInfo i d =
     (case LoadRoom i (dStore d) of
        Inl e \<Rightarrow> Inl e
      | Inr (Some room) \<Rightarrow> Inr room
      | Inr None \<Rightarrow> (case ResolveRoom (dResolver d) i of Inl e \<Rightarrow> Inl e | Inr info \<Rightarrow> Inr (room_of_cached info)))"

section \<open>Activity\<close>

definition stringField :: "(string, json) gomap \<Rightarrow> string \<Rightarrow> string" where
  "stringField payload key = (case gget payload key of Some (JString s) \<Rightarrow> s | _ \<Rightarrow> [])"

definition roomMessageActivityMeta :: "'w rt \<Rightarrow> room_event \<Rightarrow> string \<times> string \<times> string \<times> string \<times> 32 word" where
  "roomMessageActivityMeta rt event =
     (if EvContentType event \<noteq> ''application/json'' \<or> EvPayload event = [] then ([], [], [], [], 0)
      else case rtUnmarshal rt (EvPayload event) of
             None \<Rightarrow> ([], [], [], [], 0)
           | Some payload \<Rightarrow>
               (let target = stringField payload ''target_handle'';
                    target = (if target = [] then stringField payload ''target'' else target)
                in (stringField payload ''kind'', target, stringField payload ''turn_id'', stringField payload ''status'',
                    case gget payload ''round'' of Some (JNumber v) \<Rightarrow> if v \<ge> 0 then word_of_int v else 0 | _ \<Rightarrow> 0)))"

definition emitRoomActivity :: "'w rt \<Rightarrow> room_event \<Rightarrow> ('r, 'w) daemon \<Rightarrow> ('r, 'w) daemon" where
  "emitRoomActivity rt event d =
     (case EvType event of
        MESSAGE_POSTED \<Rightarrow>
          (case roomMessageActivityMeta rt event of (kind, target, turn, status, round) \<Rightarrow>
             on_bus (EmitRoomMessagePosted (rtNow rt) (EvRoomId event) (RoomSeq event) (SenderHandle event)
               (EvMembers event) (EvTraceId event) (EvContentType event) kind target turn status round) d)
      | MEMBER_JOINED \<Rightarrow> on_bus (EmitRoomMemberJoined (rtNow rt) (EvRoomId event) (SubjectHandle event) (EvMembers event)) d
      | MEMBER_LEFT \<Rightarrow> on_bus (EmitRoomMemberLeft (rtNow rt) (EvRoomId event) (SubjectHandle event) (EvMembers event)) d
      | ROOM_CLOSED \<Rightarrow> on_bus (EmitRoomClosed (rtNow rt) (EvRoomId event) (SenderHandle event) (EvMembers event)) d
      | EVENT_UNSPECIFIED \<Rightarrow> d)"

section \<open>Publishing\<close>

text \<open>The loop over the members: \<open>sent\<close> are the addresses served, \<open>delivered\<close> the flag \<open>localDelivered\<close>.\<close>

fun publish_members ::
  "'w rt \<Rightarrow> room_event \<Rightarrow> string list \<Rightarrow> string list \<Rightarrow> bool \<Rightarrow> ('r, 'w) daemon \<Rightarrow> bool \<times> ('r, 'w) daemon" where
  "publish_members rt event [] sent delivered d = (delivered, d)"
| "publish_members rt event (member # ms) sent delivered d =
     (if member = SenderHandle event then publish_members rt event ms sent delivered d
      else case Resolver.Resolve (dResolver d) member of
             Inl e \<Rightarrow> publish_members rt event ms sent delivered d
           | Inr peer \<Rightarrow>
               if pNodeID peer = dNode d
               then case DeliverRoomEventLocal event d of (ok, d) \<Rightarrow> publish_members rt event ms sent (ok \<or> delivered) d
               else if pAdvertiseAddr peer \<in> set sent then publish_members rt event ms sent delivered d
               else publish_members rt event ms (pAdvertiseAddr peer # sent) delivered
                      (snd (transport_send rt (pAdvertiseAddr peer) (wrap (BodyRoomEvent event)) d)))"

definition publishEvent :: "'w rt \<Rightarrow> room_event \<Rightarrow> ('r, 'w) daemon \<Rightarrow> ('r, 'w) daemon" where
  "publishEvent rt event d =
     (case publish_members rt event (EvMembers event) [] False d of (delivered, d) \<Rightarrow>
        if delivered then d else snd (DeliverRoomEventLocal event d))"

definition upsert_room :: "'w rt \<Rightarrow> room_info \<Rightarrow> ('r, 'w) daemon \<Rightarrow> go_err option \<times> ('r, 'w) daemon" where
  "upsert_room rt room d =
     (if \<not> dCoordSet d then (None, d)
      else case rtUpsertRoom rt room of
             Some e \<Rightarrow> (Some e, d)
           | None \<Rightarrow> (None, d\<lparr>dUpserts := dUpserts d @ [room]\<rparr>))"

definition persistAndPublish :: "'w rt \<Rightarrow> room_info \<Rightarrow> room_event \<Rightarrow> ('r, 'w) daemon \<Rightarrow> go_err option \<times> ('r, 'w) daemon" where
  "persistAndPublish rt room event d =
     (case StoreRoom room (dStore d) of
        Inl e \<Rightarrow> (Some e, d)
      | Inr ms \<Rightarrow>
          (let d = d\<lparr>dStore := ms\<rparr>
           in case StoreRoomEvent event defaultRoomEventRetention (dStore d) of
                Inl e \<Rightarrow> (Some e, d)
              | Inr ms \<Rightarrow>
                  (case upsert_room rt room (d\<lparr>dStore := ms\<rparr>) of
                     (Some e, d) \<Rightarrow> (Some e, d)
                   | (None, d) \<Rightarrow> (None, publishEvent rt event (emitRoomActivity rt event d)))))"

section \<open>Commands on the home node\<close>

definition nextEvent ::
  "'w rt \<Rightarrow> room_info \<Rightarrow> room_event_type \<Rightarrow> string \<Rightarrow> string \<Rightarrow> bytes \<Rightarrow> string \<Rightarrow> string \<Rightarrow> room_event \<times> room_info" where
  "nextEvent rt room typ sender subject payload contentType traceID =
     (\<lparr>EventId = rtUuid rt 5, EvRoomId = RoomId room, RoomSeq = NextSeq room, SenderHandle = sender,
       SubjectHandle = subject, EvPayload = payload, EvContentType = contentType, EvSentAtUnix = unix (rtNow rt),
       EvType = typ, EvTraceId = traceID, EvMembers = Members room\<rparr>,
      room\<lparr>NextSeq := NextSeq room + 1, UpdatedAtUnix := unix (rtNow rt)\<rparr>)"

text \<open>\<open>nextEvent\<close> followed by \<open>persistAndPublish\<close>, as every command that changes a room does.\<close>

definition emit_event ::
  "'w rt \<Rightarrow> room_info \<Rightarrow> room_event_type \<Rightarrow> string \<Rightarrow> string \<Rightarrow> bytes \<Rightarrow> string \<Rightarrow> string \<Rightarrow> ('r, 'w) daemon \<Rightarrow>
     (room_event \<times> room_info) result \<times> ('r, 'w) daemon" where
  "emit_event rt room typ sender subject payload contentType traceID d =
     (case nextEvent rt room typ sender subject payload contentType traceID of (event, room) \<Rightarrow>
        (case persistAndPublish rt room event d of
           (Some e, d) \<Rightarrow> (Inl e, d)
         | (None, d) \<Rightarrow> (Inr (event, room), d)))"

type_synonym ('r, 'w) cmd_result = "room_command_result result \<times> ('r, 'w) daemon"

definition recordMembershipEvent ::
  "'w rt \<Rightarrow> room_info \<Rightarrow> room_event_type \<Rightarrow> string \<Rightarrow> ('r, 'w) daemon \<Rightarrow> ('r, 'w) cmd_result" where
  "recordMembershipEvent rt room typ subject d =
     (case emit_event rt room typ subject subject [] ''text/plain'' [] d of
        (Inl e, d) \<Rightarrow> (Inl e, d)
      | (Inr (event, room), d) \<Rightarrow>
          (Inr (zero_result\<lparr>ResOk := True, ResRoom := Some room, ResEvent := Some event, ResMembers := Members room\<rparr>), d))"

definition joinLocal :: "'w rt \<Rightarrow> room_info \<Rightarrow> string \<Rightarrow> ('r, 'w) daemon \<Rightarrow> ('r, 'w) cmd_result" where
  "joinLocal rt room h d =
     (if Status room \<noteq> ''open'' then (Inl (RoomIs (RoomId room) (Status room)), d)
      else if h \<in> set (Members room)
      then (Inr (zero_result\<lparr>ResOk := True, ResRoom := Some room, ResMembers := Members room\<rparr>), d)
      else recordMembershipEvent rt (room\<lparr>Members := Members room @ [h]\<rparr>) MEMBER_JOINED h d)"

definition leaveLocal :: "'w rt \<Rightarrow> room_info \<Rightarrow> string \<Rightarrow> ('r, 'w) daemon \<Rightarrow> ('r, 'w) cmd_result" where
  "leaveLocal rt room h d =
     (if h \<notin> set (Members room) then (Inl (NotARoomMember h (RoomId room)), d)
      else recordMembershipEvent rt (room\<lparr>Members := removeHandle (Members room) h\<rparr>) MEMBER_LEFT h d)"

definition event_result :: "(room_event \<times> room_info) result \<times> ('r, 'w) daemon \<Rightarrow> ('r, 'w) cmd_result" where
  "event_result r = (case r of
        (Inl e, d) \<Rightarrow> (Inl e, d)
      | (Inr (event, room), d) \<Rightarrow> (Inr (zero_result\<lparr>ResOk := True, ResRoom := Some room, ResEvent := Some event\<rparr>), d))"

definition postLocal ::
  "'w rt \<Rightarrow> room_info \<Rightarrow> string \<Rightarrow> bytes \<Rightarrow> string \<Rightarrow> string \<Rightarrow> ('r, 'w) daemon \<Rightarrow> ('r, 'w) cmd_result" where
  "postLocal rt room from payload contentType traceID d =
     (if Status room \<noteq> ''open'' then (Inl (RoomIs (RoomId room) (Status room)), d)
      else if \<not> isRoomMember room from then (Inl (NotARoomMember from (RoomId room)), d)
      else event_result (emit_event rt room MESSAGE_POSTED from [] payload contentType traceID d))"

definition replayLocal :: "room_info \<Rightarrow> string \<Rightarrow> 64 word \<Rightarrow> ('r, 'w) daemon \<Rightarrow> ('r, 'w) cmd_result" where
  "replayLocal room h sinceSeq d =
     (if \<not> isRoomMember room h then (Inl (NotARoomMember h (RoomId room)), d)
      else case ReplayRoomEvents (RoomId room) sinceSeq (dStore d) of
             Inl e \<Rightarrow> (Inl e, d)
           | Inr events \<Rightarrow> (Inr (zero_result\<lparr>ResOk := True, ResRoom := Some room, ResEvents := events\<rparr>), d))"

definition closeLocal :: "'w rt \<Rightarrow> room_info \<Rightarrow> string \<Rightarrow> ('r, 'w) daemon \<Rightarrow> ('r, 'w) cmd_result" where
  "closeLocal rt room h d =
     (if \<not> isRoomMember room h then (Inl (NotARoomMember h (RoomId room)), d)
      else event_result (emit_event rt (room\<lparr>Status := ''closed''\<rparr>) ROOM_CLOSED h [] [] ''text/plain'' [] d))"

definition executeCommand :: "'w rt \<Rightarrow> room_info \<Rightarrow> room_command \<Rightarrow> ('r, 'w) daemon \<Rightarrow> ('r, 'w) cmd_result" where
  "executeCommand rt room cmd d =
     (case CmdType cmd of
        CMD_JOIN \<Rightarrow> joinLocal rt room (CmdSubjectHandle cmd) d
      | CMD_LEAVE \<Rightarrow> leaveLocal rt room (CmdSubjectHandle cmd) d
      | CMD_POST \<Rightarrow> postLocal rt room (RequesterHandle cmd) (CmdPayload cmd) (CmdContentType cmd) (CmdTraceId cmd) d
      | CMD_REPLAY \<Rightarrow> replayLocal room (RequesterHandle cmd) (SinceSeq cmd) d
      | CMD_LIST_MEMBERS \<Rightarrow>
          (if \<not> isRoomMember room (RequesterHandle cmd)
           then (Inl (NotARoomMember (RequesterHandle cmd) (RoomId room)), d)
           else (Inr (zero_result\<lparr>ResRequestId := RequestId cmd, ResOk := True, ResMembers := Members room,
                        ResRoom := Some room\<rparr>), d))
      | CMD_CLOSE \<Rightarrow> closeLocal rt room (RequesterHandle cmd) d
      | _ \<Rightarrow> (Inl UnsupportedRoomCommand, d))"

section \<open>Commands across nodes\<close>

datatype 'a call = Returned 'a | Waiting string

definition cacheRoom :: "room_info option \<Rightarrow> ('r, 'w) daemon \<Rightarrow> ('r, 'w) daemon" where
  "cacheRoom room d =
     (case room of
        None \<Rightarrow> d
      | Some r \<Rightarrow> if RoomId r = [] then d else d\<lparr>dStore := or_keep (StoreRoom r (dStore d)) (dStore d)\<rparr>)"

definition handleRemoteCommandResult :: "room_command_result \<Rightarrow> ('r, 'w) daemon \<Rightarrow> ('r, 'w) daemon" where
  "handleRemoteCommandResult result d =
     (let d = cacheRoom (ResRoom result) d
      in case gget (dPendingResp d) (ResRequestId result) of
           None \<Rightarrow> d
         | Some ch \<Rightarrow> d\<lparr>dPendingResp := gput (ResRequestId result) (try_send result ch) (dPendingResp d)\<rparr>)"

text \<open>
  \<open>withRoomControl\<close>: a command for a room of this node runs here; any other is sent to the home
  node, with a channel for the result.
\<close>

definition withRoomControl ::
  "'w rt \<Rightarrow> string \<Rightarrow> room_command \<Rightarrow> ('r, 'w) daemon \<Rightarrow> room_command_result result call \<times> ('r, 'w) daemon" where
  "withRoomControl rt i cmd d =
     (case resolveRoomInfo i d of
        Inl e \<Rightarrow> (Returned (Inl e), d)
      | Inr room \<Rightarrow>
          if HomeNodeId room = dNode d
          then case executeCommand rt room cmd d of
                 (Inl e, d) \<Rightarrow> (Returned (Inl e), d)
               | (Inr result, d) \<Rightarrow> (Returned (Inr (result\<lparr>ResRequestId := RequestId cmd\<rparr>)), d)
          else case nodeAddr (HomeNodeId room) d of
                 Inl e \<Rightarrow> (Returned (Inl e), d)
               | Inr addr \<Rightarrow>
                   (let d = d\<lparr>dPendingResp := gput (RequestId cmd) (make_chan 0 1) (dPendingResp d)\<rparr>
                    in case transport_send rt addr (wrap (BodyRoomCommand cmd)) d of
                         (Some e, d) \<Rightarrow> (Returned (Inl e), d\<lparr>dPendingResp := gdel (RequestId cmd) (dPendingResp d)\<rparr>)
                       | (None, d) \<Rightarrow> (Waiting (RequestId cmd), d)))"

text \<open>The end of the wait: the result that is in the channel, or the deadline.\<close>

definition await_result :: "string \<Rightarrow> ('r, 'w) daemon \<Rightarrow> ('r, 'w) cmd_result" where
  "await_result i d =
     (let d' = d\<lparr>dPendingResp := gdel i (dPendingResp d)\<rparr>
      in case gget (dPendingResp d) i of
           Some ch \<Rightarrow>
             (case ch_buf ch of
                result # _ \<Rightarrow>
                  (if \<not> ResOk result
                   then (Inl (case ResError result of Some e \<Rightarrow> e | None \<Rightarrow> RoomCommandTimedOut), d')
                   else (Inr result, d'))
              | [] \<Rightarrow> (Inl RoomCommandTimedOut, d'))
         | None \<Rightarrow> (Inl RoomCommandTimedOut, d'))"

definition send_reply :: "'w rt \<Rightarrow> room_command \<Rightarrow> room_command_result \<Rightarrow> ('r, 'w) daemon \<Rightarrow> ('r, 'w) daemon" where
  "send_reply rt cmd result d =
     (if RequesterNodeId cmd = [] \<or> RequesterNodeId cmd = dNode d then handleRemoteCommandResult result d
      else case nodeAddr (RequesterNodeId cmd) d of
             Inl e \<Rightarrow> d
           | Inr addr \<Rightarrow> snd (transport_send rt addr (wrap (BodyRoomCommandResult result)) d))"

definition replyWithError :: "'w rt \<Rightarrow> room_command \<Rightarrow> go_err \<Rightarrow> ('r, 'w) daemon \<Rightarrow> ('r, 'w) daemon" where
  "replyWithError rt cmd e d =
     send_reply rt cmd (zero_result\<lparr>ResRequestId := RequestId cmd, ResError := Some e\<rparr>) d"

definition handleRemoteCommand :: "'w rt \<Rightarrow> room_command \<Rightarrow> ('r, 'w) daemon \<Rightarrow> ('r, 'w) daemon" where
  "handleRemoteCommand rt cmd d =
     (case resolveRoomInfo (CmdRoomId cmd) d of
        Inl e \<Rightarrow> replyWithError rt cmd e d
      | Inr room \<Rightarrow>
          (case executeCommand rt room cmd d of
             (Inl e, d) \<Rightarrow> replyWithError rt cmd e d
           | (Inr result, d) \<Rightarrow> send_reply rt cmd (result\<lparr>ResRequestId := RequestId cmd\<rparr>) d))"

definition cacheRoomFromEvent :: "room_event \<Rightarrow> ('r, 'w) daemon \<Rightarrow> ('r, 'w) daemon" where
  "cacheRoomFromEvent event d =
     (if EvRoomId event = [] then d
      else let homeNodeID = (if SenderHandle event \<noteq> []
                             then case Resolver.Resolve (dResolver d) (SenderHandle event) of
                                    Inr peer \<Rightarrow> pNodeID peer | Inl e \<Rightarrow> []
                             else [])
           in case LoadRoom (EvRoomId event) (dStore d) of
                Inl e \<Rightarrow> d
              | Inr stored \<Rightarrow>
                  (let room = (case stored of
                         None \<Rightarrow> \<lparr>RoomId = EvRoomId event, Title = [], CreatedBy = [], HomeNodeId = homeNodeID,
                           Members = EvMembers event, Status = ''open'', NextSeq = RoomSeq event + 1,
                           CreatedAtUnix = EvSentAtUnix event, UpdatedAtUnix = EvSentAtUnix event\<rparr>
                       | Some room \<Rightarrow>
                           room\<lparr>HomeNodeId := (if HomeNodeId room = [] then homeNodeID else HomeNodeId room),
                                Members := EvMembers event,
                                NextSeq := (if NextSeq room \<le> RoomSeq event then RoomSeq event + 1 else NextSeq room),
                                UpdatedAtUnix := EvSentAtUnix event\<rparr>);
                       room = (if EvType event = ROOM_CLOSED then room\<lparr>Status := ''closed''\<rparr> else room)
                   in cacheRoom (Some room) d))"

definition HandleTransportMessage :: "'w rt \<Rightarrow> transport_message \<Rightarrow> ('r, 'w) daemon \<Rightarrow> ('r, 'w) daemon" where
  "HandleTransportMessage rt msg d =
     (case Body msg of
        BodyRoomEvent event \<Rightarrow> snd (DeliverRoomEventLocal event (cacheRoomFromEvent event d))
      | BodyRoomCommand cmd \<Rightarrow> handleRemoteCommand rt cmd d
      | BodyRoomCommandResult result \<Rightarrow> handleRemoteCommandResult result d
      | BodyEnvelope env \<Rightarrow> d)"

text \<open>The callback \<open>OnReceive\<close> of \<open>daemon.go\<close>.\<close>

definition OnReceive :: "'w rt \<Rightarrow> transport_message \<Rightarrow> ('r, 'w) daemon \<Rightarrow> ('r, 'w) daemon" where
  "OnReceive rt msg d =
     (case Body msg of BodyEnvelope env \<Rightarrow> receive_envelope rt env d | _ \<Rightarrow> HandleTransportMessage rt msg d)"

section \<open>The room service\<close>

definition CreateRoom ::
  "'w rt \<Rightarrow> string \<Rightarrow> string \<Rightarrow> string list \<Rightarrow> ('r, 'w) daemon \<Rightarrow> room_info result \<times> ('r, 'w) daemon" where
  "CreateRoom rt creator title initialMembers d =
     (let members = uniqueHandles (creator # initialMembers); now = unix (rtNow rt);
          room = \<lparr>RoomId = rtUuid rt 4, Title = title, CreatedBy = creator, HomeNodeId = dNode d, Members = members,
            Status = ''open'', NextSeq = 1, CreatedAtUnix = now, UpdatedAtUnix = now\<rparr>
      in case StoreRoom room (dStore d) of
           Inl e \<Rightarrow> (Inl e, d)
         | Inr ms \<Rightarrow>
             (case upsert_room rt room (d\<lparr>dStore := ms\<rparr>) of
                (Some e, d) \<Rightarrow> (Inl e, d)
              | (None, d) \<Rightarrow> (Inr room, on_bus (EmitRoomCreated (rtNow rt) (RoomId room) title creator members) d)))"

definition JoinRoom :: "'w rt \<Rightarrow> string \<Rightarrow> string \<Rightarrow> ('r, 'w) daemon \<Rightarrow> room_command_result result call \<times> ('r, 'w) daemon" where
  "JoinRoom rt i h d = withRoomControl rt i (zero_command\<lparr>RequestId := rtUuid rt 6, CmdType := CMD_JOIN, CmdRoomId := i,
     RequesterHandle := h, CmdSubjectHandle := h, RequesterNodeId := dNode d\<rparr>) d"

definition LeaveRoom :: "'w rt \<Rightarrow> string \<Rightarrow> string \<Rightarrow> ('r, 'w) daemon \<Rightarrow> room_command_result result call \<times> ('r, 'w) daemon" where
  "LeaveRoom rt i h d = withRoomControl rt i (zero_command\<lparr>RequestId := rtUuid rt 6, CmdType := CMD_LEAVE, CmdRoomId := i,
     RequesterHandle := h, CmdSubjectHandle := h, RequesterNodeId := dNode d\<rparr>) d"

definition PostMessage ::
  "'w rt \<Rightarrow> string \<Rightarrow> string \<Rightarrow> bytes \<Rightarrow> string \<Rightarrow> string \<Rightarrow> ('r, 'w) daemon \<Rightarrow>
     room_command_result result call \<times> ('r, 'w) daemon" where
  "PostMessage rt i from payload contentType traceID d = withRoomControl rt i
     (zero_command\<lparr>RequestId := rtUuid rt 6, CmdType := CMD_POST, CmdRoomId := i, RequesterHandle := from,
        CmdPayload := payload, CmdContentType := contentType, CmdTraceId := traceID, RequesterNodeId := dNode d\<rparr>) d"

definition ListMembers :: "'w rt \<Rightarrow> string \<Rightarrow> string \<Rightarrow> ('r, 'w) daemon \<Rightarrow> room_command_result result call \<times> ('r, 'w) daemon" where
  "ListMembers rt i h d = withRoomControl rt i (zero_command\<lparr>RequestId := rtUuid rt 6, CmdType := CMD_LIST_MEMBERS,
     CmdRoomId := i, RequesterHandle := h, RequesterNodeId := dNode d\<rparr>) d"

definition Replay :: "'w rt \<Rightarrow> string \<Rightarrow> string \<Rightarrow> 64 word \<Rightarrow> ('r, 'w) daemon \<Rightarrow> room_command_result result call \<times> ('r, 'w) daemon" where
  "Replay rt i h sinceSeq d = withRoomControl rt i (zero_command\<lparr>RequestId := rtUuid rt 6, CmdType := CMD_REPLAY,
     CmdRoomId := i, RequesterHandle := h, SinceSeq := sinceSeq, RequesterNodeId := dNode d\<rparr>) d"

definition CloseRoom :: "'w rt \<Rightarrow> string \<Rightarrow> string \<Rightarrow> ('r, 'w) daemon \<Rightarrow> room_command_result result call \<times> ('r, 'w) daemon" where
  "CloseRoom rt i h d = withRoomControl rt i (zero_command\<lparr>RequestId := rtUuid rt 6, CmdType := CMD_CLOSE, CmdRoomId := i,
     RequesterHandle := h, RequesterNodeId := dNode d\<rparr>) d"

definition ListRooms :: "'w rt \<Rightarrow> string \<Rightarrow> ('r, 'w) daemon \<Rightarrow> room_info list result" where
  "ListRooms rt h d = (if dCoordSet d then rtListRooms rt h else Inr [])"

definition room_before :: "room_info \<Rightarrow> room_info \<Rightarrow> bool" where
  "room_before a b = (if UpdatedAtUnix a = UpdatedAtUnix b then RoomId a < RoomId b else UpdatedAtUnix a > UpdatedAtUnix b)"

definition DashboardRooms :: "string list \<Rightarrow> ('r, 'w) daemon \<Rightarrow> room_info list result" where
  "DashboardRooms handles d =
     (case LoadRooms (dStore d) of
        Inl e \<Rightarrow> Inl e
      | Inr rms \<Rightarrow>
          (let m = fold (\<lambda>room. gput (RoomId room) room) rms [];
               cached = concat (map (ListRoomsForMember (dResolver d)) handles);
               m = fold (\<lambda>info m. if gget m (cRoomID info) \<noteq> None then m else gput (cRoomID info) (room_of_cached info) m) cached m
           in Inr (sort_slice room_before (gvals m))))"

text \<open>The RPCs of the agent server check the ownership of the acting handle first.\<close>

definition owned_room_call ::
  "64 word option \<Rightarrow> string \<Rightarrow> (('r, 'w) daemon \<Rightarrow> room_command_result result call \<times> ('r, 'w) daemon) \<Rightarrow>
     ('r, 'w) daemon \<Rightarrow> room_command_result result call \<times> ('r, 'w) daemon" where
  "owned_room_call conn h f d = (case verifyOwnership conn h d of Some e \<Rightarrow> (Returned (Inl e), d) | None \<Rightarrow> f d)"

definition rpc_CreateRoom ::
  "'w rt \<Rightarrow> 64 word option \<Rightarrow> string \<Rightarrow> string \<Rightarrow> string list \<Rightarrow> ('r, 'w) daemon \<Rightarrow> string result \<times> ('r, 'w) daemon" where
  "rpc_CreateRoom rt conn creator title members d =
     (case verifyOwnership conn creator d of
        Some e \<Rightarrow> (Inl e, d)
      | None \<Rightarrow> (case CreateRoom rt creator title members d of (r, d) \<Rightarrow> (map_sum id RoomId r, d)))"

definition rpc_JoinRoom where
  "rpc_JoinRoom rt conn i h d = owned_room_call conn h (JoinRoom rt i h) d"

definition rpc_LeaveRoom where
  "rpc_LeaveRoom rt conn i h d = owned_room_call conn h (LeaveRoom rt i h) d"

definition rpc_PostRoomMessage where
  "rpc_PostRoomMessage rt conn i h payload contentType traceID d =
     owned_room_call conn h (PostMessage rt i h payload contentType traceID) d"

definition rpc_ListRoomMembers where
  "rpc_ListRoomMembers rt conn i h d = owned_room_call conn h (ListMembers rt i h) d"

definition rpc_ReplayRoom where
  "rpc_ReplayRoom rt conn i h sinceSeq d = owned_room_call conn h (Replay rt i h sinceSeq) d"

definition rpc_CloseRoom where
  "rpc_CloseRoom rt conn i h d = owned_room_call conn h (CloseRoom rt i h) d"

definition rpc_ListRooms :: "'w rt \<Rightarrow> 64 word option \<Rightarrow> string \<Rightarrow> ('r, 'w) daemon \<Rightarrow> room_info list result" where
  "rpc_ListRooms rt conn h d = (case verifyOwnership conn h d of Some e \<Rightarrow> Inl e | None \<Rightarrow> ListRooms rt h d)"

end
