(* ===== verification/Room_Log.thy ===== *)
theory Room_Log
  imports Rooms
begin

text \<open>
  The log of a room on its home node is the history of the commands that succeeded: the invariant
  \<open>room_hist\<close>, that every command keeps it, and what a replay returns.
\<close>

section \<open>What leaves the room tables alone\<close>

text \<open>The part of the daemon that decides about rooms.\<close>

definition room_tables :: "('r, 'w) daemon \<Rightarrow> 'r codec \<times> bool \<times> 'r bucket \<times> 'r bucket bucket \<times> string \<times> resolver \<times> bool" where
  "room_tables d = (msCodec (dStore d), ioOK (dStore d), bucketRooms (dStore d), bucketRoomLogs (dStore d),
     dNode d, dResolver d, dCoordSet d)"

lemma room_tables_coord: "room_tables d' = room_tables d \<Longrightarrow> dCoordSet d' = dCoordSet d"
  by (simp add: room_tables_def)

lemma RecordUsage_rooms:
  "RecordUsage m t c ms = Inr ms' \<Longrightarrow> msCodec ms' = msCodec ms \<and> ioOK ms' = ioOK ms \<and>
     bucketRooms ms' = bucketRooms ms \<and> bucketRoomLogs ms' = bucketRoomLogs ms"
  by (auto simp: RecordUsage_def db_update_def Let_def split: if_splits sum.splits)

lemma recordUsage_rooms:
  "msCodec (snd (recordUsage now m s)) = msCodec (snd s) \<and> ioOK (snd (recordUsage now m s)) = ioOK (snd s) \<and>
   bucketRooms (snd (recordUsage now m s)) = bucketRooms (snd s) \<and>
   bucketRoomLogs (snd (recordUsage now m s)) = bucketRoomLogs (snd s)"
proof (cases "RecordUsage m now 1 (snd s)")
  case (Inr ms')
  then show ?thesis
    using RecordUsage_rooms [OF Inr] by (cases s) (simp add: recordUsage_def or_keep_def)
qed (cases s, simp add: recordUsage_def or_keep_def)

lemma snd_emit [simp]: "snd (emit_on e s) = snd s" "snd (count_up f s) = snd s"
  by (simp_all add: emit_on_def count_up_def split: prod.splits)

lemma room_tables_on_bus:
  assumes "\<And>s. msCodec (snd (f s)) = msCodec (snd s) \<and> ioOK (snd (f s)) = ioOK (snd s) \<and>
      bucketRooms (snd (f s)) = bucketRooms (snd s) \<and> bucketRoomLogs (snd (f s)) = bucketRoomLogs (snd s)"
  shows "room_tables (on_bus f d) = room_tables d"
  using assms [of "(dBus d, dStore d)"] by (auto simp: room_tables_def on_bus_def split: prod.splits)

lemma room_tables_emits [simp]:
  "room_tables (on_bus (EmitRoomCreated now i ti b ms) d) = room_tables d"
  "room_tables (on_bus (EmitRoomMessagePosted now i sq f ms tr ct ck th tu st rn) d) = room_tables d"
  "room_tables (on_bus (EmitRoomMemberJoined now i h ms) d) = room_tables d"
  "room_tables (on_bus (EmitRoomMemberLeft now i h ms) d) = room_tables d"
  "room_tables (on_bus (EmitRoomClosed now i h ms) d) = room_tables d"
  by (rule room_tables_on_bus,
      simp add: EmitRoomCreated_def EmitRoomMessagePosted_def EmitRoomMemberJoined_def EmitRoomMemberLeft_def
        EmitRoomClosed_def recordUsage_rooms)+

lemma room_tables_emitRoomActivity [simp]: "room_tables (emitRoomActivity rt event d) = room_tables d"
  by (simp add: emitRoomActivity_def split: room_event_type.split prod.split)

lemma record_span_coord [simp]: "dCoordSet (record_span rt t m a md d) = dCoordSet d"
  by (simp add: record_span_def split: option.splits)

lemma room_tables_record_span [simp]: "room_tables (record_span rt t m a md d) = room_tables d"
  by (simp add: room_tables_def)

lemma room_tables_on_sent [simp]: "room_tables (on_sent rt msg d) = room_tables d"
  by (simp add: on_sent_def split: transport_body.split)

lemma room_tables_fold_on_sent [simp]: "room_tables (fold (on_sent rt) ms d) = room_tables d"
  by (induction ms arbitrary: d) simp_all

lemma room_tables_transport_send [simp]: "room_tables (snd (transport_send rt a m d)) = room_tables d"
  by (simp add: transport_send_def split: prod.splits) (simp add: room_tables_def)

lemma send_chan_coord [simp]: "dCoordSet (snd (send_chan m h c d)) = dCoordSet d"
  by (simp add: send_chan_def bump_stats_def split: option.splits)

lemma send_chans_coord [simp]: "dCoordSet (snd (send_chans m h cs d)) = dCoordSet d"
  by (induction cs arbitrary: d) simp_all

lemma room_tables_send_chans [simp]: "room_tables (snd (send_chans m h cs d)) = room_tables d"
  by (simp add: room_tables_def)

lemma room_tables_deliver_members: "room_tables (snd (deliver_room_members event ms d)) = room_tables d"
proof (induction ms arbitrary: d)
  case (Cons m ms)
  then show ?case
    by (simp add: Let_def case_prod_unfold)
qed simp

lemma room_tables_DeliverRoomEventLocal [simp]: "room_tables (snd (DeliverRoomEventLocal event d)) = room_tables d"
  by (simp add: DeliverRoomEventLocal_def room_tables_deliver_members)

lemma room_tables_publish_members: "room_tables (snd (publish_members rt event ms sent del d)) = room_tables d"
proof (induction rt event ms sent del d rule: publish_members.induct)
  case (2 rt event member ms sent delivered d)
  show ?case
    using 2 by (auto simp: case_prod_unfold split: sum.splits)
qed simp

lemma room_tables_publishEvent [simp]: "room_tables (publishEvent rt event d) = room_tables d"
  by (simp add: publishEvent_def case_prod_unfold room_tables_publish_members)

section \<open>The history of a room\<close>

text \<open>
  A database in working order: reads and writes succeed, every room and event can be encoded (the
  texts are valid UTF-8), and the buckets are in key order.
\<close>

definition db_ok :: "'r message_store \<Rightarrow> bool" where
  "db_ok ms \<longleftrightarrow> codec_ok (msCodec ms) \<and> ioOK ms \<and> (\<forall>r. encRoom (msCodec ms) r \<noteq> None) \<and>
     (\<forall>e. encEvent (msCodec ms) e \<noteq> None) \<and> bwf (bucketRooms ms) \<and> bwf (bucketRoomLogs ms)"

definition numbered :: "room_event list \<Rightarrow> bool" where
  "numbered h \<longleftrightarrow> map RoomSeq h = map (\<lambda>i. of_nat (Suc i)) [0..<length h]"

text \<open>The home node of room \<open>rid\<close> has recorded exactly the events \<open>h\<close> in it.\<close>

definition room_hist :: "('r, 'w) daemon \<Rightarrow> string \<Rightarrow> room_info \<Rightarrow> room_event list \<Rightarrow> bool" where
  "room_hist d rid room h \<longleftrightarrow>
     db_ok (dStore d) \<and> key_ok rid \<and> LoadRoom rid (dStore d) = Inr (Some room) \<and>
     RoomId room = rid \<and> HomeNodeId room = dNode d \<and> NextSeq room = of_nat (Suc (length h)) \<and>
     log_wf (dStore d) rid \<and> numbered h \<and>
     retained (dStore d) rid = drop (length h - nat defaultRoomEventRetention) h"

lemma room_hist_cong:
  assumes "room_tables d' = room_tables d"
  shows "room_hist d' rid room h = room_hist d rid room h"
proof -
  have eq: "msCodec (dStore d') = msCodec (dStore d)" "ioOK (dStore d') = ioOK (dStore d)"
    "bucketRooms (dStore d') = bucketRooms (dStore d)" "bucketRoomLogs (dStore d') = bucketRoomLogs (dStore d)"
    "dNode d' = dNode d"
    using assms by (simp_all add: room_tables_def)
  show ?thesis
    by (simp only: room_hist_def db_ok_def LoadRoom_def log_wf_def retained_def room_log_def eq)
qed

lemma StoreRoom_ok:
  assumes "db_ok ms" and "key_ok (RoomId room)"
  shows "\<exists>ms'. StoreRoom room ms = Inr ms' \<and> db_ok ms' \<and> msCodec ms' = msCodec ms \<and>
     bucketRoomLogs ms' = bucketRoomLogs ms \<and>
     LoadRoom i ms' = (if i = RoomId room then Inr (Some room) else LoadRoom i ms)"
proof -
  obtain raw where raw: "encRoom (msCodec ms) room = Some raw"
    using assms(1) by (auto simp: db_ok_def)
  then have "decRoom (msCodec ms) raw = Some room"
    using assms(1) by (simp add: db_ok_def codec_ok_def)
  then show ?thesis
    using assms raw
    by (auto simp: StoreRoom_def store_defs db_ok_def LoadRoom_def bwf_bput bget_bput split: option.splits)
qed

lemma LoadRoom_cong:
  "msCodec ms' = msCodec ms \<Longrightarrow> bucketRooms ms' = bucketRooms ms \<Longrightarrow> LoadRoom i ms' = LoadRoom i ms"
  by (simp only: LoadRoom_def)

lemma StoreRoomEvent_frame:
  "StoreRoomEvent event m ms = Inr ms' \<Longrightarrow>
     msCodec ms' = msCodec ms \<and> ioOK ms' = ioOK ms \<and> bucketRooms ms' = bucketRooms ms"
  by (auto simp: StoreRoomEvent_def db_update_def Let_def split: option.splits if_splits sum.splits)

lemma numbered_snoc: "numbered (h @ [e]) \<longleftrightarrow> numbered h \<and> RoomSeq e = of_nat (Suc (length h))"
  by (simp add: numbered_def)

lemma numbered_bound:
  assumes "numbered h" and "length h < 2 ^ 64 - 1" and "e \<in> set h"
  shows "RoomSeq e < of_nat (Suc (length h))"
proof -
  obtain i where i: "i < length h" "e = h ! i"
    using assms(3) by (auto simp: in_set_conv_nth)
  have "RoomSeq e = map RoomSeq h ! i" by (simp add: i)
  also have "\<dots> = of_nat (Suc i)" unfolding assms(1) [unfolded numbered_def] using i(1) by simp
  finally have e: "RoomSeq e = of_nat (Suc i)" .
  have "unat (of_nat (Suc i) :: 64 word) = Suc i" "unat (of_nat (Suc (length h)) :: 64 word) = Suc (length h)"
    using i(1) assms(2) by (simp_all add: unat_of_nat del: of_nat_Suc)
  then show ?thesis
    unfolding e word_less_nat_alt using i(1) by simp
qed

lemma drop_snoc_last:
  "drop (length (drop (length h - k) h @ [e]) - k) (drop (length h - k) h @ [e]) = drop (length (h @ [e]) - k) (h @ [e])"
  for k :: nat
  by (cases "length h < k") (auto simp: Suc_diff_le not_less)

definition coord_accepts :: "'w rt \<Rightarrow> ('r, 'w) daemon \<Rightarrow> bool" where
  "coord_accepts rt d \<longleftrightarrow> dCoordSet d \<longrightarrow> (\<forall>room. rtUpsertRoom rt room = None)"

lemma upsert_accepted:
  assumes "coord_accepts rt d"
  shows "\<exists>d'. upsert_room rt room d = (None, d') \<and> room_tables d' = room_tables d"
  using assms by (auto simp: upsert_room_def coord_accepts_def room_tables_def)

text \<open>The two writes of \<open>persistAndPublish\<close> extend the history by the event.\<close>

lemma store_event_hist:
  assumes hist: "room_hist d rid old h" and len: "length h < 2 ^ 64 - 1"
    and room: "RoomId room = rid" "HomeNodeId room = dNode d" "NextSeq room = of_nat (Suc (Suc (length h)))"
    and event: "EvRoomId event = rid" "RoomSeq event = of_nat (Suc (length h))"
  obtains ms1 ms2 where "StoreRoom room (dStore d) = Inr ms1"
    and "StoreRoomEvent event defaultRoomEventRetention ms1 = Inr ms2"
    and "room_hist (d\<lparr>dStore := ms2\<rparr>) rid room (h @ [event])"
proof -
  note h = hist [unfolded room_hist_def]
  obtain ms1 where ms1: "StoreRoom room (dStore d) = Inr ms1" "db_ok ms1" "msCodec ms1 = msCodec (dStore d)"
    "bucketRoomLogs ms1 = bucketRoomLogs (dStore d)" "LoadRoom rid ms1 = Inr (Some room)"
    using StoreRoom_ok [of "dStore d" room rid] h room(1) by auto
  have log: "retained ms1 rid = retained (dStore d) rid" "log_wf ms1 rid = log_wf (dStore d) rid"
    by (simp_all add: room_log_def retained_def log_wf_def ms1(3,4))
  obtain raw where raw: "encEvent (msCodec ms1) event = Some raw"
    using ms1(2) by (auto simp: db_ok_def)
  have below: "\<forall>e\<in>set (retained ms1 rid). RoomSeq e < RoomSeq event"
    using numbered_bound [of h] h len event(2) by (auto simp: log(1) dest: in_set_dropD)
  have "0 < defaultRoomEventRetention" by (simp add: defaultRoomEventRetention_def)
  then obtain ms2 where ms2: "StoreRoomEvent event defaultRoomEventRetention ms1 = Inr ms2" "log_wf ms2 rid"
    "retained ms2 rid = (let evs = retained ms1 rid @ [event] in drop (length evs - nat defaultRoomEventRetention) evs)"
    using StoreRoomEvent_facts [of ms1 event raw defaultRoomEventRetention] ms1(2) h raw below event(1) log
    by (auto simp: db_ok_def)
  note fr = StoreRoomEvent_frame [OF ms2(1)]
  have ret: "retained ms2 rid = drop (length (h @ [event]) - nat defaultRoomEventRetention) (h @ [event])"
    unfolding ms2(3) Let_def log(1) using h drop_snoc_last [of h "nat defaultRoomEventRetention" event] by simp
  have "LoadRoom rid ms2 = Inr (Some room)" and "db_ok ms2"
    using fr ms1(2,5) ms2(2) LoadRoom_cong [of ms2 ms1 rid] by (simp_all add: db_ok_def log_wf_def)
  then have "room_hist (d\<lparr>dStore := ms2\<rparr>) rid room (h @ [event])"
    using h room event ms2(2) ret by (simp add: room_hist_def numbered_snoc)
  then show ?thesis using that ms1(1) ms2(1) by blast
qed

lemma persistAndPublish_stored:
  assumes "StoreRoom room (dStore d) = Inr ms1" and "StoreRoomEvent event defaultRoomEventRetention ms1 = Inr ms2"
    and "room_hist (d\<lparr>dStore := ms2\<rparr>) rid room h" and "coord_accepts rt d"
  shows "\<exists>d'. persistAndPublish rt room event d = (None, d') \<and> room_hist d' rid room h \<and> dCoordSet d' = dCoordSet d"
proof -
  obtain d2 where d2: "upsert_room rt room (d\<lparr>dStore := ms2\<rparr>) = (None, d2)"
    "room_tables d2 = room_tables (d\<lparr>dStore := ms2\<rparr>)"
    using upsert_accepted [of rt "d\<lparr>dStore := ms2\<rparr>" room] assms(4) by (auto simp: coord_accepts_def)
  let ?d = "publishEvent rt event (emitRoomActivity rt event d2)"
  have t: "room_tables ?d = room_tables (d\<lparr>dStore := ms2\<rparr>)" by (simp add: d2(2))
  have "persistAndPublish rt room event d = (None, ?d)"
    by (simp add: persistAndPublish_def assms(1,2) d2(1))
  then show ?thesis
    using room_hist_cong [OF t] room_tables_coord [OF t] assms(3) by simp
qed

lemma persistAndPublish_hist:
  assumes "room_hist d rid old h" and "coord_accepts rt d" and "length h < 2 ^ 64 - 1"
    and "RoomId room = rid" "HomeNodeId room = dNode d" "NextSeq room = of_nat (Suc (Suc (length h)))"
    and "EvRoomId event = rid" "RoomSeq event = of_nat (Suc (length h))"
  shows "\<exists>d'. persistAndPublish rt room event d = (None, d') \<and> room_hist d' rid room (h @ [event]) \<and>
     dCoordSet d' = dCoordSet d"
  by (rule store_event_hist [OF assms(1,3-8)]) (rule persistAndPublish_stored [OF _ _ _ assms(2)])

lemma emit_event_hist:
  fixes rt :: "'w rt" and ty :: room_event_type and sender subject payload ct tr :: string
  assumes "room_hist d rid old h" and "coord_accepts rt d" and "length h < 2 ^ 64 - 1"
    and "RoomId room = RoomId old" and "HomeNodeId room = HomeNodeId old" and "NextSeq room = NextSeq old"
  defines "er \<equiv> nextEvent rt room ty sender subject payload ct tr"
  obtains d' where "emit_event rt room ty sender subject payload ct tr d = (Inr er, d')"
    and "room_hist d' rid (snd er) (h @ [fst er])" and "dCoordSet d' = dCoordSet d"
proof -
  have "RoomId (snd er) = rid" "HomeNodeId (snd er) = dNode d" "NextSeq (snd er) = of_nat (Suc (Suc (length h)))"
    "EvRoomId (fst er) = rid" "RoomSeq (fst er) = of_nat (Suc (length h))"
    using assms by (auto simp: nextEvent_def room_hist_def er_def)
  then obtain d' where "persistAndPublish rt (snd er) (fst er) d = (None, d')" "room_hist d' rid (snd er) (h @ [fst er])"
    "dCoordSet d' = dCoordSet d"
    using persistAndPublish_hist [OF assms(1-3)] by blast
  then show ?thesis
    using that by (simp add: emit_event_def er_def [symmetric] case_prod_unfold)
qed

definition result_events :: "room_command_result result \<Rightarrow> room_event list" where
  "result_events res = (case res of Inr r \<Rightarrow> (case ResEvent r of Some e \<Rightarrow> [e] | None \<Rightarrow> []) | Inl e \<Rightarrow> [])"

lemma executeCommand_hist:
  assumes hist: "room_hist d rid room h" and acc: "coord_accepts rt d" and len: "length h < 2 ^ 64 - 1"
    and run: "executeCommand rt room cmd d = (res, d')"
  shows "(\<exists>room'. room_hist d' rid room' (h @ result_events res)) \<and> dCoordSet d' = dCoordSet d"
proof -
  note emit = emit_event_hist [OF hist acc len]
  have same: ?thesis if "d' = d" "result_events res = []"
    using hist that by auto
  have rec: ?thesis if "recordMembershipEvent rt r typ h' d = (res, d')" "RoomId r = RoomId room"
      "HomeNodeId r = HomeNodeId room" "NextSeq r = NextSeq room" for r "typ" h'
    by (rule emit [of r "typ" h' h' "[]" "''text/plain''" "[]", OF that(2-4)])
      (use that(1) in \<open>auto simp: recordMembershipEvent_def result_events_def case_prod_unfold\<close>)
  have ev: ?thesis if "event_result (emit_event rt r typ f [] pl ct tr d) = (res, d')" "RoomId r = RoomId room"
      "HomeNodeId r = HomeNodeId room" "NextSeq r = NextSeq room" for r "typ" f pl ct tr
    by (rule emit [of r "typ" f "[]" pl ct tr, OF that(2-4)])
      (use that(1) in \<open>auto simp: event_result_def result_events_def case_prod_unfold\<close>)
  show ?thesis
  proof (cases "CmdType cmd")
    case CMD_JOIN
    then show ?thesis
      using run same rec [of "room\<lparr>Members := Members room @ [CmdSubjectHandle cmd]\<rparr>" MEMBER_JOINED "CmdSubjectHandle cmd"]
      by (auto simp: executeCommand_def joinLocal_def result_events_def zero_result_def split: if_splits)
  next
    case CMD_LEAVE
    then show ?thesis
      using run same rec [of "room\<lparr>Members := removeHandle (Members room) (CmdSubjectHandle cmd)\<rparr>" MEMBER_LEFT "CmdSubjectHandle cmd"]
      by (auto simp: executeCommand_def leaveLocal_def result_events_def split: if_splits)
  next
    case CMD_POST
    then show ?thesis
      using run same ev [of room MESSAGE_POSTED "RequesterHandle cmd" "CmdPayload cmd" "CmdContentType cmd" "CmdTraceId cmd"]
      by (auto simp: executeCommand_def postLocal_def result_events_def split: if_splits)
  next
    case CMD_CLOSE
    then show ?thesis
      using run same ev [of "room\<lparr>Status := ''closed''\<rparr>" ROOM_CLOSED "RequesterHandle cmd" "[]" "''text/plain''" "[]"]
      by (auto simp: executeCommand_def closeLocal_def result_events_def split: if_splits)
  qed (use run same in \<open>auto simp: executeCommand_def replayLocal_def result_events_def zero_result_def split: if_splits sum.splits\<close>)
qed

text \<open>A sequence of commands given on the home node, each with its runtime; the events of the answers.\<close>

definition call_events :: "room_command_result result call \<Rightarrow> room_event list" where
  "call_events c = (case c of Returned res \<Rightarrow> result_events res | Waiting i \<Rightarrow> [])"

fun run_room_cmds ::
  "string \<Rightarrow> ('w rt \<times> room_command) list \<Rightarrow> ('r, 'w) daemon \<Rightarrow> room_event list \<times> ('r, 'w) daemon" where
  "run_room_cmds i [] d = ([], d)"
| "run_room_cmds i ((rt, cmd) # cs) d =
     (case withRoomControl rt i cmd d of (c, d) \<Rightarrow>
        (case run_room_cmds i cs d of (evs, d) \<Rightarrow> (call_events c @ evs, d)))"

lemma resolveRoomInfo_hist: "room_hist d rid room h \<Longrightarrow> resolveRoomInfo rid d = Inr room \<and> HomeNodeId room = dNode d"
  by (simp add: room_hist_def resolveRoomInfo_def)

lemma withRoomControl_hist:
  assumes hist: "room_hist d rid room h" and acc: "coord_accepts rt d" and len: "length h < 2 ^ 64 - 1"
    and run: "withRoomControl rt rid cmd d = (c, d')"
  shows "(\<exists>room'. room_hist d' rid room' (h @ call_events c)) \<and> dCoordSet d' = dCoordSet d \<and> length (call_events c) \<le> 1"
proof -
  obtain res d1 where x: "executeCommand rt room cmd d = (res, d1)"
    by (cases "executeCommand rt room cmd d")
  have "d' = d1" "call_events c = result_events res"
    using run x resolveRoomInfo_hist [OF hist]
    by (auto simp: withRoomControl_def call_events_def result_events_def split: sum.splits)
  moreover have "length (result_events res) \<le> 1"
    by (simp add: result_events_def split: sum.splits option.splits)
  ultimately show ?thesis
    using executeCommand_hist [OF hist acc len x] by simp
qed

lemma run_room_cmds_hist:
  assumes "room_hist d rid room h" and "list_all (\<lambda>(rt, cmd). coord_accepts rt d) cs"
    and "length h + length cs < 2 ^ 64" and "run_room_cmds rid cs d = (evs, d')"
  shows "\<exists>room'. room_hist d' rid room' (h @ evs)"
  using assms
proof (induction cs arbitrary: d room h evs)
  case (Cons x cs)
  obtain rt cmd where x: "x = (rt, cmd)" by (cases x)
  obtain c d1 where c: "withRoomControl rt rid cmd d = (c, d1)" by (cases "withRoomControl rt rid cmd d")
  obtain evs2 where e: "run_room_cmds rid cs d1 = (evs2, d')" "evs = call_events c @ evs2"
    using Cons.prems(4) by (auto simp: x c split: prod.splits)
  obtain room1 where r1: "room_hist d1 rid room1 (h @ call_events c)" "dCoordSet d1 = dCoordSet d"
    "length (call_events c) \<le> 1"
    using withRoomControl_hist [OF Cons.prems(1) _ _ c] Cons.prems(2,3) by (auto simp: x)
  have "list_all (\<lambda>(rt, cmd). coord_accepts rt d1) cs"
    using Cons.prems(2) r1(2) by (simp add: x coord_accepts_def)
  then show ?case
    using Cons.IH [OF r1(1) _ _ e(1)] Cons.prems(3) r1(3) e(2) by auto
qed auto

lemma CreateRoom_hist:
  assumes "db_ok (dStore d)" and "key_ok (rtUuid rt 4)" and "bget (bucketRoomLogs (dStore d)) (rtUuid rt 4) = None"
    and "CreateRoom rt creator title members d = (Inr room, d')"
  shows "room_hist d' (RoomId room) room [] \<and> dCoordSet d' = dCoordSet d \<and>
     Members room = uniqueHandles (creator # members)"
proof -
  let ?room = "\<lparr>RoomId = rtUuid rt 4, Title = title, CreatedBy = creator, HomeNodeId = dNode d,
     Members = uniqueHandles (creator # members), Status = ''open'', NextSeq = 1,
     CreatedAtUnix = unix (rtNow rt), UpdatedAtUnix = unix (rtNow rt)\<rparr>"
  obtain ms where ms: "StoreRoom ?room (dStore d) = Inr ms" "db_ok ms" "msCodec ms = msCodec (dStore d)"
    "bucketRoomLogs ms = bucketRoomLogs (dStore d)" "LoadRoom (rtUuid rt 4) ms = Inr (Some ?room)"
    using StoreRoom_ok [of "dStore d" ?room "rtUuid rt 4"] assms(1,2) by auto
  let ?d = "d\<lparr>dStore := ms\<rparr>"
  obtain d1 where d1: "upsert_room rt ?room ?d = (None, d1)" "room = ?room"
    "d' = on_bus (EmitRoomCreated (rtNow rt) (rtUuid rt 4) title creator (uniqueHandles (creator # members))) d1"
    using assms(4) ms(1) by (auto simp: CreateRoom_def Let_def split: prod.splits option.splits)
  have "room_tables d1 = room_tables ?d"
    using d1(1) by (auto simp: upsert_room_def room_tables_def split: if_splits option.splits)
  then have t: "room_tables d' = room_tables ?d" by (simp add: d1(3))
  have "room_hist ?d (rtUuid rt 4) ?room []"
    using assms(2,3) ms by (simp add: room_hist_def numbered_def log_wf_def retained_def room_log_def db_ok_def
        List.map_filter_simps)
  then show ?thesis
    using room_hist_cong [OF t] room_tables_coord [OF t] by (simp add: d1(2))
qed

lemma Replay_hist:
  assumes "room_hist d rid room h" and "isRoomMember room m" and "s \<noteq> - 1"
  shows "\<exists>r. Replay rt rid m s d = (Returned (Inr r), d) \<and>
     ResEvents r = filter (\<lambda>e. s < RoomSeq e) (drop (length h - nat defaultRoomEventRetention) h)"
proof -
  have "RoomId room = rid" "log_wf (dStore d) rid"
    and "retained (dStore d) rid = drop (length h - nat defaultRoomEventRetention) h"
    using assms(1) by (simp_all add: room_hist_def)
  then have "ReplayRoomEvents (RoomId room) s (dStore d) =
      Inr (filter (\<lambda>e. s < RoomSeq e) (drop (length h - nat defaultRoomEventRetention) h))"
    using ReplayRoomEvents_facts [of "dStore d" rid s] assms(3) by simp
  then show ?thesis
    using resolveRoomInfo_hist [OF assms(1)] assms(2)
    by (simp add: Replay_def withRoomControl_def executeCommand_def zero_command_def replayLocal_def)
qed


lemma post_hist:
  fixes rt :: "'w rt" and cmd :: room_command
  assumes "room_hist d rid room h" and "coord_accepts rt d" and "length h < 2 ^ 64 - 1"
    and "Status room = ''open''" and "isRoomMember room (RequesterHandle cmd)" and "CmdType cmd = CMD_POST"
  defines "er \<equiv> nextEvent rt room MESSAGE_POSTED (RequesterHandle cmd) [] (CmdPayload cmd) (CmdContentType cmd) (CmdTraceId cmd)"
  obtains r d' where "withRoomControl rt rid cmd d = (Returned (Inr r), d')" and "ResEvent r = Some (fst er)"
    and "room_hist d' rid (snd er) (h @ [fst er])" and "dCoordSet d' = dCoordSet d"
proof -
  obtain d' where d': "emit_event rt room MESSAGE_POSTED (RequesterHandle cmd) [] (CmdPayload cmd) (CmdContentType cmd)
      (CmdTraceId cmd) d = (Inr er, d')" "room_hist d' rid (snd er) (h @ [fst er])" "dCoordSet d' = dCoordSet d"
    using emit_event_hist [OF assms(1-3), of room] unfolding er_def by metis
  then show ?thesis
    using that resolveRoomInfo_hist [OF assms(1)] assms(4-6)
    by (simp add: withRoomControl_def executeCommand_def postLocal_def event_result_def case_prod_unfold)
qed

text \<open>A room with two members, and a message in it.\<close>

definition lobby :: "(blob, unit) daemon" where
  "lobby = snd (CreateRoom sample_rt ''alice'' ''lobby'' [''bob''] (NewDaemon ''n1'' blob_codec ()))"

definition lobby_room :: room_info where
  "lobby_room = \<lparr>RoomId = ''uuid-4'', Title = ''lobby'', CreatedBy = ''alice'', HomeNodeId = ''n1'',
     Members = [''alice'', ''bob''], Status = ''open'', NextSeq = 1, CreatedAtUnix = 7, UpdatedAtUnix = 7\<rparr>"

definition lobby_post :: room_command where
  "lobby_post = zero_command\<lparr>CmdType := CMD_POST, RequesterHandle := ''alice'', CmdPayload := ''hi''\<rparr>"

lemma db_ok_New: "db_ok (dStore (NewDaemon node blob_codec w))"
  using codec_ok_blob by (simp add: db_ok_def NewDaemon_def NewMessageStore_def) (simp add: blob_codec_def)

lemma sample_rt_room [simp]: "rtUuid sample_rt 4 = ''uuid-4''" "unix (rtNow sample_rt) = 7"
  by (code_simp, simp add: sample_rt_def unix_def second_def)

lemma lobby_created:
  "CreateRoom sample_rt ''alice'' ''lobby'' [''bob''] (NewDaemon ''n1'' blob_codec ()) = (Inr lobby_room, lobby)"
proof -
  let ?d = "NewDaemon ''n1'' blob_codec () :: (blob, unit) daemon"
  have "key_ok (RoomId lobby_room)" by (simp add: lobby_room_def key_ok_def)
  then obtain ms where ms: "StoreRoom lobby_room (dStore ?d) = Inr ms"
    using StoreRoom_ok [OF db_ok_New [of "''n1''" "()"]] by blast
  have d: "dNode ?d = ''n1''" "\<not> dCoordSet ?d" by (simp_all add: NewDaemon_def)
  have "fst (CreateRoom sample_rt ''alice'' ''lobby'' [''bob''] ?d) = Inr lobby_room"
    using ms unfolding lobby_room_def by (simp add: CreateRoom_def uniqueHandles_def upsert_room_def d Let_def)
  then show ?thesis
    by (simp add: lobby_def prod_eq_iff)
qed

lemma lobby_hist: "room_hist lobby ''uuid-4'' lobby_room []" "coord_accepts rt lobby" "\<not> dCoordSet lobby"
proof -
  have k: "key_ok (rtUuid sample_rt 4)" "bget (bucketRoomLogs (dStore (NewDaemon ''n1'' blob_codec ()))) (rtUuid sample_rt 4) = None"
    by (simp_all add: key_ok_def NewDaemon_def NewMessageStore_def)
  note c = CreateRoom_hist [OF db_ok_New k lobby_created]
  show "room_hist lobby ''uuid-4'' lobby_room []" using c by (simp add: lobby_room_def)
  show "\<not> dCoordSet lobby" using c by (simp add: NewDaemon_def)
  then show "coord_accepts rt lobby" by (simp add: coord_accepts_def)
qed


end
