(* ===== verification/Room_Publish.thy ===== *)
theory Room_Publish
  imports Room_Log
begin

text \<open>
  Access control of rooms, what \<open>publishEvent\<close> delivers to the local members, and three ways in
  which the history of a room breaks: a coordination server that refuses, two commands at once, and a
  node that is not the home of the room.
\<close>

section \<open>Access control\<close>

lemmas room_calls = PostMessage_def JoinRoom_def LeaveRoom_def ListMembers_def Replay_def CloseRoom_def
  withRoomControl_def executeCommand_def zero_command_def

text \<open>
  C36. Rooms are closed to outsiders: on the home node a handle that is not a member can neither post,
  read the log or the member list, close nor leave, and nobody can post in or join a room that is not
  open; every such call is refused with an error and changes nothing.
\<close>

theorem room_access_control:
  assumes "resolveRoomInfo i d = Inr room" and "HomeNodeId room = dNode d"
  shows "(\<not> isRoomMember room h \<longrightarrow>
      (\<forall>f\<in>{PostMessage rt i h payload ct tr, Replay rt i h s, ListMembers rt i h, CloseRoom rt i h, LeaveRoom rt i h}.
         \<exists>e. f d = (Returned (Inl e), d))) \<and>
    (Status room \<noteq> ''open'' \<longrightarrow>
      (\<forall>f\<in>{PostMessage rt i h payload ct tr, JoinRoom rt i h}. \<exists>e. f d = (Returned (Inl e), d)))"
  using assms
  by (auto simp: room_calls postLocal_def replayLocal_def closeLocal_def leaveLocal_def joinLocal_def isRoomMember_def)

theorem room_access_control_witness:
  "\<exists>e. PostMessage sample_rt ''uuid-4'' ''mallory'' ''x'' [] [] lobby = (Returned (Inl e), lobby)"
proof -
  have "resolveRoomInfo ''uuid-4'' lobby = Inr lobby_room" "HomeNodeId lobby_room = dNode lobby"
    using resolveRoomInfo_hist [OF lobby_hist(1)] by simp_all
  note * = room_access_control [OF this, of "''mallory''" sample_rt "''x''" "[]" "[]" 0]
  have "\<not> isRoomMember lobby_room ''mallory''" by (simp add: lobby_room_def isRoomMember_def)
  with * show ?thesis by simp
qed

section \<open>Publication\<close>

lemma bump_stats_room_in [simp]: "room_in (bump_stats f h d) c = room_in d c" "chan_of (bump_stats f h d) c = chan_of d c"
  by (simp_all add: room_in_def chan_of_def)

lemma subs_wf_owner: "subs_wf d \<Longrightarrow> c \<in> set (gget_or [] (dSubs d) h) \<Longrightarrow> c \<in> set (gget_or [] (dSubs d) h') \<Longrightarrow> h = h'"
  unfolding subs_wf_def by blast

text \<open>How much room a channel has, and one delivery to the members of an event.\<close>

definition free :: "('r, 'w) daemon \<Rightarrow> nat \<Rightarrow> nat" where
  "free d c = (case gget (dChans d) c of Some ch \<Rightarrow> ch_cap ch - length (ch_buf ch) | None \<Rightarrow> 0)"

lemma free_send_chan:
  assumes "subs_wf d" and "gget (dChans d) c = Some ch" and "\<not> ch_closed ch"
  shows "free (snd (send_chan m h c d)) c' = (if c' = c then free d c - 1 else free d c')"
  using assms by (auto simp: send_chan_def free_def try_send_def has_room_def)

lemma room_in_free: "room_in d c \<longleftrightarrow> 0 < free d c"
  by (auto simp: room_in_def free_def has_room_def split: option.splits)

lemma free_send_chans:
  assumes "subs_wf d" and "distinct cs" and "\<forall>c\<in>set cs. \<exists>ch. gget (dChans d) c = Some ch \<and> \<not> ch_closed ch"
  shows "free (snd (send_chans m h cs d)) c = (if c \<in> set cs then free d c - 1 else free d c)"
  using assms
proof (induction cs arbitrary: d)
  case (Cons x cs)
  obtain ch where ch: "gget (dChans d) x = Some ch" "\<not> ch_closed ch" using Cons.prems by auto
  let ?d = "snd (send_chan m h x d)"
  have "\<forall>c\<in>set cs. \<exists>ch'. gget (dChans ?d) c = Some ch' \<and> \<not> ch_closed ch'"
    using Cons.prems(2,3) by (auto simp: send_chan_def split: option.splits)
  then show ?case
    using Cons.IH [of ?d] Cons.prems subs_wf_send_chan [OF Cons.prems(1)] free_send_chan [OF Cons.prems(1) ch] by simp
qed simp

lemma deliver_room_members_unfold:
  "deliver_room_members event (member # ms) d =
     (let subs = (if member = SenderHandle event \<or> \<not> HasHandle member d then [] else gget_or [] (dSubs d) member);
          r = send_chans (InRoomEvent event) member subs d;
          r' = deliver_room_members event ms (snd r)
      in (fst r \<or> fst r', snd r'))"
  by (auto simp: Let_def case_prod_unfold)

lemma HasHandle_cong: "dHandles d' = dHandles d \<Longrightarrow> HasHandle h d' = HasHandle h d"
  by (simp add: HasHandle_def)

lemma deliver_room_members_chan:
  assumes "subs_wf d" and "distinct ms" and "m \<noteq> SenderHandle event" and "HasHandle m d"
    and "c \<in> set (gget_or [] (dSubs d) m)"
  shows "let r = deliver_room_members event ms d in
    chan_of (snd r) c = (if m \<in> set ms \<and> 0 < free d c then chan_of d c @ [InRoomEvent event] else chan_of d c) \<and>
    free (snd r) c = (if m \<in> set ms then free d c - 1 else free d c) \<and>
    (m \<in> set ms \<and> 0 < free d c \<longrightarrow> fst r) \<and> subs_wf (snd r) \<and> dSubs (snd r) = dSubs d \<and> dHandles (snd r) = dHandles d"
  using assms
proof (induction ms arbitrary: d)
  case (Cons x ms)
  define cs where "cs = (if x = SenderHandle event \<or> \<not> HasHandle x d then [] else gget_or [] (dSubs d) x)"
  let ?d = "snd (send_chans (InRoomEvent event) x cs d)"
  have cs: "distinct cs" "\<forall>c\<in>set cs. \<exists>ch. gget (dChans d) c = Some ch \<and> \<not> ch_closed ch"
    using subs_wf_open [OF Cons.prems(1), of x] by (auto simp: cs_def)
  have mem: "c \<in> set cs \<longleftrightarrow> x = m"
    using Cons.prems(3-5) subs_wf_owner [OF Cons.prems(1) Cons.prems(5), of x] by (auto simp: cs_def)
  note sc = send_chans_open [OF cs, of "InRoomEvent event" x c] free_send_chans [OF Cons.prems(1) cs, of "InRoomEvent event" x c]
  have wf: "subs_wf ?d" using Cons.prems(1) by (rule subs_wf_send_chans)
  have "HasHandle m ?d" "c \<in> set (gget_or [] (dSubs ?d) m)"
    using Cons.prems(4,5) HasHandle_cong [of ?d d m] by simp_all
  moreover have ms: "distinct ms" "x \<notin> set ms" using Cons.prems(2) by simp_all
  ultimately have IH: "chan_of (snd (deliver_room_members event ms ?d)) c =
      (if m \<in> set ms \<and> 0 < free ?d c then chan_of ?d c @ [InRoomEvent event] else chan_of ?d c)"
    "free (snd (deliver_room_members event ms ?d)) c = (if m \<in> set ms then free ?d c - 1 else free ?d c)"
    "m \<in> set ms \<Longrightarrow> 0 < free ?d c \<Longrightarrow> fst (deliver_room_members event ms ?d)"
    "subs_wf (snd (deliver_room_members event ms ?d))" "dSubs (snd (deliver_room_members event ms ?d)) = dSubs d"
    "dHandles (snd (deliver_room_members event ms ?d)) = dHandles d"
    using Cons.IH [OF wf _ Cons.prems(3), unfolded Let_def] by simp_all
  have eq: "deliver_room_members event (x # ms) d =
      (fst (send_chans (InRoomEvent event) x cs d) \<or> fst (deliver_room_members event ms ?d), snd (deliver_room_members event ms ?d))"
    by (simp only: deliver_room_members_unfold Let_def cs_def)
  show ?case
  proof (cases "x = m")
    case True
    then have c: "c \<in> set cs" and m: "m \<notin> set ms" using mem ms(2) by simp_all
    have 1: "chan_of ?d c = (if 0 < free d c then chan_of d c @ [InRoomEvent event] else chan_of d c)"
      using sc(1) c by (simp add: room_in_free)
    have 2: "0 < free d c \<Longrightarrow> fst (send_chans (InRoomEvent event) x cs d)"
      using sc(1) c by (auto simp: room_in_free)
    have 3: "free ?d c = free d c - 1"
      using sc(2) c by simp
    show ?thesis
      using 2 True m IH(4) unfolding eq Let_def fst_conv snd_conv IH(1,2,5,6) 1 3 by simp
  next
    case False
    then have c: "c \<notin> set cs" using mem by simp
    have 1: "chan_of ?d c = chan_of d c" "free ?d c = free d c"
      using sc c by simp_all
    show ?thesis
      using IH(3,4) False unfolding eq Let_def fst_conv snd_conv IH(1,2,5,6) 1 by simp
  qed
qed (simp add: Let_def)

text \<open>The members other than the sender that the resolver places on this node.\<close>

definition placed_here :: "('r, 'w) daemon \<Rightarrow> room_event \<Rightarrow> string \<Rightarrow> bool" where
  "placed_here d event x \<longleftrightarrow> x \<noteq> SenderHandle event \<and>
     (case Resolver.Resolve (dResolver d) x of Inr p \<Rightarrow> pNodeID p = dNode d | Inl e \<Rightarrow> False)"

definition local_copies :: "('r, 'w) daemon \<Rightarrow> room_event \<Rightarrow> nat" where
  "local_copies d event = length (filter (placed_here d event) (EvMembers event))"

lemma placed_here_cong: "dResolver d' = dResolver d \<Longrightarrow> dNode d' = dNode d \<Longrightarrow> placed_here d' = placed_here d"
  by (auto simp: placed_here_def fun_eq_iff split: sum.splits)

lemma room_tables_place: "room_tables d' = room_tables d \<Longrightarrow> dResolver d' = dResolver d \<and> dNode d' = dNode d"
  by (simp add: room_tables_def)

lemma subs_wf_transport_send [simp]: "subs_wf (snd (transport_send rt a m d)) = subs_wf d"
  by (simp add: subs_wf_def)

lemma publish_members_chan:
  assumes "subs_wf d" and "distinct (EvMembers event)" and "m \<in> set (EvMembers event)" and "m \<noteq> SenderHandle event"
    and "HasHandle m d" and "c \<in> set (gget_or [] (dSubs d) m)"
    and "length (filter (placed_here d event) ms) \<le> free d c"
  shows "chan_of (snd (publish_members rt event ms sent del d)) c =
      chan_of d c @ replicate (length (filter (placed_here d event) ms)) (InRoomEvent event) \<and>
    (del \<or> 0 < length (filter (placed_here d event) ms) \<longrightarrow> fst (publish_members rt event ms sent del d))"
  using assms(1,5-7)
proof (induction ms arbitrary: sent del d)
  case (Cons x ms)
  let ?n = "\<lambda>d. length (filter (placed_here d event) ms)"
  have IH: "chan_of (snd (publish_members rt event ms sent' del' d')) c =
        chan_of d' c @ replicate (?n d) (InRoomEvent event)"
      "del' \<or> 0 < ?n d \<Longrightarrow> fst (publish_members rt event ms sent' del' d')"
    if "subs_wf d'" "dHandles d' = dHandles d" "dSubs d' = dSubs d" "room_tables d' = room_tables d" "?n d \<le> free d' c"
    for d' :: "('a, 'b) daemon" and sent' del'
  proof -
    have ph: "placed_here d' = placed_here d"
      using room_tables_place [OF that(4)] by (intro placed_here_cong) simp_all
    have "HasHandle m d'" "c \<in> set (gget_or [] (dSubs d') m)"
      using Cons.prems(2,3) HasHandle_cong [OF that(2), of m] that(3) by simp_all
    note i = Cons.IH [OF that(1) this, unfolded ph, OF that(5), of sent' del']
    show "chan_of (snd (publish_members rt event ms sent' del' d')) c =
        chan_of d' c @ replicate (?n d) (InRoomEvent event)"
      by (rule i [THEN conjunct1])
    show "del' \<or> 0 < ?n d \<Longrightarrow> fst (publish_members rt event ms sent' del' d')"
      by (rule i [THEN conjunct2, rule_format])
  qed
  consider (skip) "x = SenderHandle event" | (unknown) e where "x \<noteq> SenderHandle event" "Resolver.Resolve (dResolver d) x = Inl e"
    | (here) p where "x \<noteq> SenderHandle event" "Resolver.Resolve (dResolver d) x = Inr p" "pNodeID p = dNode d"
    | (away) p where "x \<noteq> SenderHandle event" "Resolver.Resolve (dResolver d) x = Inr p" "pNodeID p \<noteq> dNode d"
    by (cases "Resolver.Resolve (dResolver d) x") auto
  then show ?case
  proof cases
    case skip
    then have "\<not> placed_here d event x" by (simp add: placed_here_def)
    then show ?thesis using skip IH [of d] Cons.prems by simp
  next
    case unknown
    then have "\<not> placed_here d event x" by (simp add: placed_here_def)
    then show ?thesis using unknown IH [of d] Cons.prems by simp
  next
    case here
    let ?r = "DeliverRoomEventLocal event d"
    note dl = deliver_room_members_chan [OF Cons.prems(1) assms(2,4) Cons.prems(2,3), unfolded Let_def, folded DeliverRoomEventLocal_def]
    have x: "placed_here d event x" using here by (simp add: placed_here_def)
    then have fr: "0 < free d c" "?n d \<le> free d c - 1" using Cons.prems(4) by simp_all
    have st: "publish_members rt event (x # ms) sent del d = publish_members rt event ms sent (fst ?r \<or> del) (snd ?r)"
      using here by (simp add: case_prod_unfold)
    show ?thesis
      unfolding st using x dl fr assms(3) IH(1) [of "snd ?r" sent "fst ?r \<or> del"] IH(2) [of "snd ?r" "fst ?r \<or> del" sent] by simp
  next
    case away
    let ?d = "snd (transport_send rt (pAdvertiseAddr p) (wrap (BodyRoomEvent event)) d)"
    have "free ?d c = free d c" "chan_of ?d c = chan_of d c"
      by (simp_all add: free_def chan_of_def)
    moreover have "\<not> placed_here d event x" using away by (simp add: placed_here_def)
    ultimately show ?thesis
      using away IH [of ?d] IH [of d] Cons.prems by simp
  qed
qed (simp add: Let_def)

text \<open>
  \<open>publishEvent\<close> delivers an event to every local member once per member that the resolver places
  on this node: with \<open>n\<close> such members besides the sender, and room in its buffer, each subscriber of
  each of them receives the event \<open>n\<close> times.
\<close>

theorem publishEvent_local_copies:
  assumes "subs_wf d" and "distinct (EvMembers event)" and "m \<in> set (EvMembers event)" and "m \<noteq> SenderHandle event"
    and "HasHandle m d" and "c \<in> set (gget_or [] (dSubs d) m)"
    and "0 < local_copies d event" and "local_copies d event \<le> free d c"
  shows "chan_of (publishEvent rt event d) c = chan_of d c @ replicate (local_copies d event) (InRoomEvent event)"
proof -
  note p = publish_members_chan [OF assms(1-6) assms(8) [unfolded local_copies_def], folded local_copies_def, of rt "[]" False]
  then have "fst (publish_members rt event (EvMembers event) [] False d)"
    using assms(7) by simp
  with p show ?thesis
    by (simp add: publishEvent_def case_prod_unfold)
qed

text \<open>Two agents of one node in a room with an agent of another node.\<close>

definition duo_daemon :: "(blob, unit) daemon" where
  "duo_daemon = (NewDaemon ''n2'' blob_codec ())\<lparr>dHandles := [(''bob'', True), (''carol'', True)],
     dSubs := [(''bob'', [0]), (''carol'', [1])], dChans := [(0, make_chan 0 64), (1, make_chan 1 64)], dNextChan := 2,
     dResolver := UpdatePeerMap [(''bob'', \<lparr>pNodeID = ''n2'', pPublicKey = ''k2'', pAdvertiseAddr = ''a2'', pManifest = no_manifest\<rparr>),
       (''carol'', \<lparr>pNodeID = ''n2'', pPublicKey = ''k2'', pAdvertiseAddr = ''a2'', pManifest = no_manifest\<rparr>)] NewResolver\<rparr>"

definition duo_event :: room_event where
  "duo_event = \<lparr>EventId = ''e'', EvRoomId = ''r'', RoomSeq = 1, SenderHandle = ''alice'', SubjectHandle = [],
     EvPayload = ''hi'', EvContentType = [], EvSentAtUnix = 0, EvType = MESSAGE_POSTED, EvTraceId = [],
     EvMembers = [''alice'', ''bob'', ''carol'']\<rparr>"

theorem publishEvent_local_copies_witness:
  "chan_of (publishEvent sample_rt duo_event duo_daemon) 0 = [InRoomEvent duo_event, InRoomEvent duo_event]"
proof -
  have r: "GetPeerMap (dResolver duo_daemon) = GetPeerMap (dResolver duo_daemon)" by simp
  have wf: "subs_wf duo_daemon"
    by (auto simp: subs_wf_def duo_daemon_def gget_or_def make_chan_def chan_ok_def split: if_splits)
  have n: "local_copies duo_daemon duo_event = 2"
    by (simp add: local_copies_def placed_here_def duo_event_def duo_daemon_def Resolver.Resolve_def UpdatePeerMap_def NewDaemon_def)
  have c: "free duo_daemon 0 = 64" "chan_of duo_daemon 0 = []" "HasHandle ''bob'' duo_daemon"
    "0 \<in> set (gget_or [] (dSubs duo_daemon) ''bob'')"
    by (simp_all add: free_def chan_of_def duo_daemon_def make_chan_def HasHandle_def gget_or_def)
  have m: "distinct (EvMembers duo_event)" "''bob'' \<in> set (EvMembers duo_event)" "''bob'' \<noteq> SenderHandle duo_event"
    by (simp_all add: duo_event_def)
  show ?thesis
    using publishEvent_local_copies [OF wf m c(3,4), of sample_rt] by (simp add: n c numeral_2_eq_2)
qed

section \<open>Where the history breaks\<close>

text \<open>
  If the coordination server refuses the update of a room, a post is answered with its error
  although the event is already part of the room: it has its number and later replays show it; only
  the notification of the members is skipped.
\<close>

theorem refused_upsert_keeps_event:
  assumes "room_hist d rid room h" and "length h < 2 ^ 64 - 1" and "Status room = ''open''" and "isRoomMember room from"
    and "dCoordSet d" and "\<forall>r. rtUpsertRoom rt r = Some e"
  shows "\<exists>d' event room'. PostMessage rt rid from payload ct tr d = (Returned (Inl e), d') \<and>
     room_hist d' rid room' (h @ [event]) \<and> EvPayload event = payload \<and> dChans d' = dChans d \<and>
     dTransport d' = dTransport d"
proof -
  define er where "er = nextEvent rt room MESSAGE_POSTED from [] payload ct tr"
  have er: "RoomId (snd er) = rid" "HomeNodeId (snd er) = dNode d" "NextSeq (snd er) = of_nat (Suc (Suc (length h)))"
    "EvRoomId (fst er) = rid" "RoomSeq (fst er) = of_nat (Suc (length h))" "EvPayload (fst er) = payload"
    using assms(1) by (auto simp: er_def nextEvent_def room_hist_def)
  obtain ms1 ms2 where ms: "StoreRoom (snd er) (dStore d) = Inr ms1"
    "StoreRoomEvent (fst er) defaultRoomEventRetention ms1 = Inr ms2"
    "room_hist (d\<lparr>dStore := ms2\<rparr>) rid (snd er) (h @ [fst er])"
    using store_event_hist [OF assms(1,2) er(1-5)] by metis
  then have "persistAndPublish rt (snd er) (fst er) d = (Some e, d\<lparr>dStore := ms2\<rparr>)"
    using assms(5,6) by (simp add: persistAndPublish_def upsert_room_def)
  then have "PostMessage rt rid from payload ct tr d = (Returned (Inl e), d\<lparr>dStore := ms2\<rparr>)"
    using assms(3,4) resolveRoomInfo_hist [OF assms(1)]
    by (simp add: room_calls postLocal_def event_result_def emit_event_def er_def [symmetric] case_prod_unfold)
  then show ?thesis using ms(3) er(6) by force
qed

theorem refused_upsert_keeps_event_witness:
  "\<exists>d' event room'. PostMessage (sample_rt\<lparr>rtUpsertRoom := \<lambda>_. Some RoomUpsertFailed\<rparr>) ''uuid-4'' ''alice'' ''hi'' [] []
       (lobby\<lparr>dCoordSet := True\<rparr>) = (Returned (Inl RoomUpsertFailed), d') \<and>
     room_hist d' ''uuid-4'' room' [event] \<and> EvPayload event = ''hi''"
proof -
  have hist: "room_hist (lobby\<lparr>dCoordSet := True\<rparr>) ''uuid-4'' lobby_room []"
    using lobby_hist(1) by (simp add: room_hist_def)
  have room: "Status lobby_room = ''open''" "isRoomMember lobby_room ''alice''"
    by (simp_all add: lobby_room_def isRoomMember_def)
  show ?thesis
    using refused_upsert_keeps_event [OF hist _ room, of "sample_rt\<lparr>rtUpsertRoom := \<lambda>_. Some RoomUpsertFailed\<rparr>"
        RoomUpsertFailed "''hi''" "[]" "[]"] by simp blast
qed

lemma bput_last: "bwf (b @ [(k, v)]) \<Longrightarrow> bput k v' (b @ [(k, v)]) = b @ [(k, v')]"
  by (induction b) (auto simp: bwf_Cons)

lemma retained_snocD:
  assumes "event_entries C b" and "List.map_filter (\<lambda>(k, v). decEvent C v) b = E @ [e]"
  obtains b' v where "b = b' @ [(roomSeqKey (RoomSeq e), v)]" and "List.map_filter (\<lambda>(k, v). decEvent C v) b' = E"
proof (cases b rule: rev_cases)
  case (snoc b' kv)
  obtain k v where kv: "kv = (k, v)" by (cases kv)
  obtain x where x: "decEvent C v = Some x" "k = roomSeqKey (RoomSeq x)"
    using assms(1) by (auto simp: event_entries_def snoc kv)
  then have "List.map_filter (\<lambda>(k, v). decEvent C v) b' = E" "x = e"
    using assms(2) by (simp_all add: snoc kv map_filter_append List.map_filter_simps)
  then show ?thesis using that snoc kv x(2) by simp
qed (use assms(2) in \<open>simp add: List.map_filter_simps\<close>)

lemma StoreRoomEvent_overwrites:
  assumes "db_ok ms" and "log_wf ms rid" and "key_ok rid" and "retained ms rid = E @ [e]"
    and "length (E @ [e]) \<le> nat maxEvents" and "EvRoomId event = rid" and "RoomSeq event = RoomSeq e"
  shows "\<exists>ms'. StoreRoomEvent event maxEvents ms = Inr ms' \<and> log_wf ms' rid \<and> retained ms' rid = E @ [event]"
proof -
  let ?C = "msCodec ms" and ?k = "roomSeqKey (RoomSeq e)"
  let ?f = "\<lambda>(k :: string, v). decEvent ?C v"
  note ent = log_wf_entries [OF assms(2)]
  obtain b v where b: "room_log ms rid = b @ [(?k, v)]" "List.map_filter ?f b = E"
    using retained_snocD [of ?C "room_log ms rid" E e] ent assms(4) by (auto simp: retained_def)
  obtain raw where raw: "encEvent ?C event = Some raw" using assms(1) by (auto simp: db_ok_def)
  have dec: "decEvent ?C raw = Some event" using assms(1) raw by (simp add: db_ok_def codec_ok_def)
  have wf: "bwf (b @ [(?k, v)])" "bwf (bucketRoomLogs ms)" using ent assms(2) b(1) by (simp_all add: log_wf_def)
  then have wf': "bwf (b @ [(?k, raw)])" by (simp add: bwf_def)
  have "\<forall>x\<in>set b. ?f x \<noteq> None"
    using ent b(1) by (auto simp: event_entries_def)
  then have "length b = length E"
    using length_map_filter_all [of b ?f] b(2) by simp
  then have enf: "enforce_retention maxEvents (b @ [(?k, raw)]) = b @ [(?k, raw)]"
    using enforce_retention_drop [OF wf', of maxEvents] assms(5) by simp
  define ms' where "ms' = ms\<lparr>bucketRoomLogs := bput rid (b @ [(?k, raw)]) (bucketRoomLogs ms)\<rparr>"
  have st: "StoreRoomEvent event maxEvents ms = Inr ms'"
    using assms(1,3,6,7) raw enf bput_last [OF wf(1), of raw] b(1)
    by (simp add: StoreRoomEvent_def store_defs ms'_def Let_def room_log_def db_ok_def)
  have log: "room_log ms' rid = b @ [(?k, raw)]"
    by (simp add: room_log_def ms'_def bget_bput [OF wf(2)])
  have "event_entries ?C (b @ [(?k, raw)])"
    using ent b(1) dec assms(7) by (auto simp: event_entries_def)
  then have "log_wf ms' rid"
    using wf' bwf_bput [OF wf(2)] unfolding log_wf_def log event_entries_def by (simp add: ms'_def)
  moreover have "retained ms' rid = E @ [event]"
    using b(2) dec by (simp add: retained_def log map_filter_append List.map_filter_simps) (simp add: ms'_def)
  ultimately show ?thesis using st by blast
qed

text \<open>
  Commands for one room are not serialised. If two members post at the same time and both
  commands load the room before either stores it, both posts are answered with success and events of
  the same number, and the second event replaces the first in the log: no replay ever shows the first.
\<close>

theorem concurrent_posts_collide:
  assumes "room_hist d rid room h" and "length h < 2 ^ 64 - 1" and "Status room = ''open''"
    and "isRoomMember room from1" and "isRoomMember room from2" and "coord_accepts rt1 d" and "coord_accepts rt2 d"
    and "postLocal rt1 room from1 payload1 ct1 tr1 d = (res1, d1)"
    and "postLocal rt2 room from2 payload2 ct2 tr2 d1 = (res2, d2)"
  shows "\<exists>e1 e2 room'. result_events res1 = [e1] \<and> result_events res2 = [e2] \<and> RoomSeq e1 = RoomSeq e2 \<and>
     EvPayload e1 = payload1 \<and> EvPayload e2 = payload2 \<and> room_hist d2 rid room' (h @ [e2])"
proof -
  define er1 where "er1 = nextEvent rt1 room MESSAGE_POSTED from1 [] payload1 ct1 tr1"
  define er2 where "er2 = nextEvent rt2 room MESSAGE_POSTED from2 [] payload2 ct2 tr2"
  have "res1 = Inr (zero_result\<lparr>ResOk := True, ResRoom := Some (snd er1), ResEvent := Some (fst er1)\<rparr>) \<and>
      room_hist d1 rid (snd er1) (h @ [fst er1]) \<and> dCoordSet d1 = dCoordSet d"
    by (rule emit_event_hist [OF assms(1,6,2), of room MESSAGE_POSTED from1 "[]" payload1 ct1 tr1])
      (use assms(3,4,8) in \<open>auto simp: er1_def postLocal_def event_result_def case_prod_unfold\<close>)
  then have 1: "result_events res1 = [fst er1]" "room_hist d1 rid (snd er1) (h @ [fst er1])" "coord_accepts rt2 d1"
    using assms(7) by (simp_all add: result_events_def coord_accepts_def)
  note h = 1(2) [unfolded room_hist_def]
  have er2: "RoomId (snd er2) = rid" "HomeNodeId (snd er2) = dNode d1" "NextSeq (snd er2) = of_nat (Suc (Suc (length h)))"
    "EvRoomId (fst er2) = rid" "RoomSeq (fst er2) = of_nat (Suc (length h))"
    "RoomSeq (fst er2) = RoomSeq (fst er1)" "EvPayload (fst er2) = payload2" "EvPayload (fst er1) = payload1"
    using assms(1) h by (auto simp: er1_def er2_def nextEvent_def room_hist_def)
  obtain ms1 where ms1: "StoreRoom (snd er2) (dStore d1) = Inr ms1" "db_ok ms1" "msCodec ms1 = msCodec (dStore d1)"
    "bucketRoomLogs ms1 = bucketRoomLogs (dStore d1)" "LoadRoom rid ms1 = Inr (Some (snd er2))"
    using StoreRoom_ok [of "dStore d1" "snd er2" rid] h er2(1) by auto
  let ?k = "nat defaultRoomEventRetention"
  have log: "retained ms1 rid = drop (length (h @ [fst er1]) - ?k) h @ [fst er1]" "log_wf ms1 rid"
    using h by (simp_all add: room_log_def retained_def log_wf_def ms1(3,4) defaultRoomEventRetention_def)
  have "length (drop (length (h @ [fst er1]) - ?k) h @ [fst er1]) \<le> ?k"
    by (simp add: defaultRoomEventRetention_def)
  then obtain ms2 where ms2: "StoreRoomEvent (fst er2) defaultRoomEventRetention ms1 = Inr ms2" "log_wf ms2 rid"
    "retained ms2 rid = drop (length (h @ [fst er1]) - ?k) h @ [fst er2]"
    using StoreRoomEvent_overwrites [OF ms1(2) log(2) _ log(1) _ er2(4,6), of defaultRoomEventRetention] h by auto
  note fr = StoreRoomEvent_frame [OF ms2(1)]
  have "LoadRoom rid ms2 = Inr (Some (snd er2))" and "db_ok ms2"
    using fr ms1(2,5) ms2(2) LoadRoom_cong [of ms2 ms1 rid] by (simp_all add: db_ok_def log_wf_def)
  then have hist: "room_hist (d1\<lparr>dStore := ms2\<rparr>) rid (snd er2) (h @ [fst er2])"
    using h er2 ms2(2,3) by (simp add: room_hist_def numbered_snoc defaultRoomEventRetention_def)
  obtain d' where d': "persistAndPublish rt2 (snd er2) (fst er2) d1 = (None, d')" "room_hist d' rid (snd er2) (h @ [fst er2])"
    using persistAndPublish_stored [OF ms1(1) ms2(1) hist 1(3)] by blast
  then have "d2 = d'" "result_events res2 = [fst er2]"
    using assms(3,5,9) by (auto simp: postLocal_def event_result_def emit_event_def er2_def [symmetric] case_prod_unfold result_events_def)
  then show ?thesis using 1(1) d'(2) er2(6-8) by auto
qed

theorem concurrent_posts_collide_witness:
  "\<exists>e1 e2 d1 d2 res1 res2 room'. postLocal sample_rt lobby_room ''alice'' ''from alice'' [] [] lobby = (res1, d1) \<and>
     postLocal sample_rt lobby_room ''bob'' ''from bob'' [] [] d1 = (res2, d2) \<and>
     result_events res1 = [e1] \<and> EvPayload e1 = ''from alice'' \<and> RoomSeq e1 = RoomSeq e2 \<and>
     EvPayload e2 = ''from bob'' \<and> room_hist d2 ''uuid-4'' room' [e2]"
proof -
  obtain res1 d1 where 1: "postLocal sample_rt lobby_room ''alice'' ''from alice'' [] [] lobby = (res1, d1)"
    by (cases "postLocal sample_rt lobby_room ''alice'' ''from alice'' [] [] lobby")
  obtain res2 d2 where 2: "postLocal sample_rt lobby_room ''bob'' ''from bob'' [] [] d1 = (res2, d2)"
    by (cases "postLocal sample_rt lobby_room ''bob'' ''from bob'' [] [] d1")
  have room: "Status lobby_room = ''open''" "isRoomMember lobby_room ''alice''" "isRoomMember lobby_room ''bob''"
    by (simp_all add: lobby_room_def isRoomMember_def)
  show ?thesis
    using concurrent_posts_collide [OF lobby_hist(1) _ room lobby_hist(2,2) 1 2] 1 2 by auto
qed

lemma retained_cong: "msCodec ms' = msCodec ms \<Longrightarrow> bucketRoomLogs ms' = bucketRoomLogs ms \<Longrightarrow> retained ms' i = retained ms i"
  by (simp only: retained_def room_log_def)

lemma retained_room_tables: "room_tables d' = room_tables d \<Longrightarrow> retained (dStore d') i = retained (dStore d) i"
  by (rule retained_cong) (simp_all add: room_tables_def)

lemma LoadRoom_room_tables: "room_tables d' = room_tables d \<Longrightarrow> LoadRoom i (dStore d') = LoadRoom i (dStore d)"
  by (rule LoadRoom_cong) (simp_all add: room_tables_def)

lemma StoreRoom_logs: "StoreRoom r ms = Inr ms' \<Longrightarrow> msCodec ms' = msCodec ms \<and> bucketRoomLogs ms' = bucketRoomLogs ms"
  by (auto simp: StoreRoom_def db_update_def bolt_put_def split: option.splits if_splits)

lemma retained_cacheRoom [simp]: "retained (dStore (cacheRoom r d)) i = retained (dStore d) i"
  using StoreRoom_logs [of _ "dStore d"]
  by (auto simp: cacheRoom_def or_keep_def split: option.splits sum.splits intro!: retained_cong)

lemma retained_send_reply [simp]: "retained (dStore (send_reply rt cmd res d)) i = retained (dStore d) i"
  by (simp add: send_reply_def handleRemoteCommandResult_def Let_def split: option.splits sum.splits)

lemma persistAndPublish_first:
  assumes "db_ok (dStore d)" and "key_ok rid" and "log_wf (dStore d) rid \<and> retained (dStore d) rid = []"
    and "RoomId room = rid" and "EvRoomId event = rid" and "coord_accepts rt d"
  shows "\<exists>d'. persistAndPublish rt room event d = (None, d') \<and> retained (dStore d') rid = [event]"
proof -
  obtain ms1 where ms1: "StoreRoom room (dStore d) = Inr ms1" "db_ok ms1" "bucketRoomLogs ms1 = bucketRoomLogs (dStore d)"
    "msCodec ms1 = msCodec (dStore d)"
    using StoreRoom_ok [of "dStore d" room rid] assms(1,2,4) by auto
  have log: "retained ms1 rid = []" "log_wf ms1 rid"
    using assms(3) by (simp_all add: retained_def log_wf_def room_log_def ms1(3,4))
  obtain raw where "encEvent (msCodec ms1) event = Some raw" using ms1(2) by (auto simp: db_ok_def)
  then obtain ms2 where ms2: "StoreRoomEvent event defaultRoomEventRetention ms1 = Inr ms2" "retained ms2 rid = [event]"
    using StoreRoomEvent_facts [of ms1 event raw defaultRoomEventRetention] ms1(2) log assms(2,5)
    by (auto simp: db_ok_def defaultRoomEventRetention_def)
  obtain d2 where d2: "upsert_room rt room (d\<lparr>dStore := ms2\<rparr>) = (None, d2)"
    "room_tables d2 = room_tables (d\<lparr>dStore := ms2\<rparr>)"
    using upsert_accepted [of rt "d\<lparr>dStore := ms2\<rparr>" room] assms(6) by (auto simp: coord_accepts_def)
  let ?d = "publishEvent rt event (emitRoomActivity rt event d2)"
  have "retained (dStore ?d) rid = [event]"
    using retained_room_tables [of ?d "d\<lparr>dStore := ms2\<rparr>" rid] d2(2) ms2(2) by simp
  then show ?thesis
    by (simp add: persistAndPublish_def ms1(1) ms2(1) d2(1))
qed

text \<open>
  A room can split in two. A node that first hears of a room through a published event takes the
  node of the event's sender for its home, wherever the room lives, and sends its commands there; and
  a node executes a command it is sent whether or not it is the home of the room: a post is numbered
  from its cached copy and goes into a log of its own.
\<close>

theorem room_splits:
  assumes "db_ok (dStore d)" and "key_ok (EvRoomId event)" and "LoadRoom (EvRoomId event) (dStore d) = Inr None"
    and "SenderHandle event \<noteq> []" and "Resolver.Resolve (dResolver d) (SenderHandle event) = Inr peer"
    and "db_ok (dStore d2)" and "log_wf (dStore d2) (EvRoomId event) \<and> retained (dStore d2) (EvRoomId event) = []"
    and "coord_accepts rt2 d2"
    and "LoadRoom (EvRoomId event) (dStore d2) = Inr (Some room2)" and "RoomId room2 = EvRoomId event"
    and "HomeNodeId room2 \<noteq> dNode d2" and "Status room2 = ''open''" and "isRoomMember room2 (RequesterHandle cmd)"
    and "CmdType cmd = CMD_POST" and "CmdRoomId cmd = EvRoomId event"
  shows "(\<exists>room. resolveRoomInfo (EvRoomId event) (HandleTransportMessage rt (wrap (BodyRoomEvent event)) d) = Inr room \<and>
        HomeNodeId room = pNodeID peer) \<and>
     (\<exists>e. retained (dStore (handleRemoteCommand rt2 cmd d2)) (EvRoomId event) = [e] \<and>
        RoomSeq e = NextSeq room2 \<and> EvPayload e = CmdPayload cmd)"
proof
  let ?rid = "EvRoomId event"
  let ?room = "let r = \<lparr>RoomId = ?rid, Title = [], CreatedBy = [], HomeNodeId = pNodeID peer,
      Members = EvMembers event, Status = ''open'', NextSeq = RoomSeq event + 1,
      CreatedAtUnix = EvSentAtUnix event, UpdatedAtUnix = EvSentAtUnix event\<rparr>
    in if EvType event = ROOM_CLOSED then r\<lparr>Status := ''closed''\<rparr> else r"
  have r: "RoomId ?room = ?rid" "HomeNodeId ?room = pNodeID peer" by (simp_all add: Let_def)
  obtain ms where ms: "StoreRoom ?room (dStore d) = Inr ms" "LoadRoom ?rid ms = Inr (Some ?room)"
    using StoreRoom_ok [of "dStore d" ?room ?rid] assms(1,2) unfolding r by auto
  have "?rid \<noteq> []" using assms(2) by (auto simp: key_ok_def)
  then have "cacheRoomFromEvent event d = d\<lparr>dStore := ms\<rparr>"
    using assms(3-5) ms(1) by (simp add: cacheRoomFromEvent_def cacheRoom_def Let_def or_keep_def split: if_splits)
  then have "HandleTransportMessage rt (wrap (BodyRoomEvent event)) d = snd (DeliverRoomEventLocal event (d\<lparr>dStore := ms\<rparr>))"
    by (simp add: HandleTransportMessage_def wrap_def)
  moreover have "LoadRoom ?rid (dStore (snd (DeliverRoomEventLocal event (d\<lparr>dStore := ms\<rparr>)))) = Inr (Some ?room)"
    using LoadRoom_room_tables [OF room_tables_DeliverRoomEventLocal [of event "d\<lparr>dStore := ms\<rparr>"], of ?rid] ms(2) by simp
  ultimately show "\<exists>room. resolveRoomInfo ?rid (HandleTransportMessage rt (wrap (BodyRoomEvent event)) d) = Inr room \<and>
        HomeNodeId room = pNodeID peer"
    using r(2) by (simp add: resolveRoomInfo_def)
  define er where "er = nextEvent rt2 room2 MESSAGE_POSTED (RequesterHandle cmd) [] (CmdPayload cmd) (CmdContentType cmd) (CmdTraceId cmd)"
  have er: "RoomId (snd er) = ?rid" "EvRoomId (fst er) = ?rid" "RoomSeq (fst er) = NextSeq room2" "EvPayload (fst er) = CmdPayload cmd"
    using assms(10) by (simp_all add: er_def nextEvent_def)
  obtain d3 where d3: "persistAndPublish rt2 (snd er) (fst er) d2 = (None, d3)" "retained (dStore d3) ?rid = [fst er]"
    using persistAndPublish_first [OF assms(6,2,7) er(1,2) assms(8)] by blast
  have "resolveRoomInfo ?rid d2 = Inr room2" using assms(9) by (simp add: resolveRoomInfo_def)
  then have "\<exists>res. handleRemoteCommand rt2 cmd d2 = send_reply rt2 cmd res d3"
    using assms(12-15) d3(1)
    by (simp add: handleRemoteCommand_def executeCommand_def postLocal_def event_result_def emit_event_def
        er_def [symmetric] case_prod_unfold) blast
  then show "\<exists>e. retained (dStore (handleRemoteCommand rt2 cmd d2)) ?rid = [e] \<and>
        RoomSeq e = NextSeq room2 \<and> EvPayload e = CmdPayload cmd"
    using d3(2) er(3,4) by auto
qed

theorem room_splits_witness:
  "let event = duo_event\<lparr>EvRoomId := ''uuid-4'', SenderHandle := ''carol''\<rparr>; d2 = lobby\<lparr>dNode := ''n2''\<rparr>;
       cmd = lobby_post\<lparr>CmdRoomId := ''uuid-4''\<rparr>
   in (\<exists>room. resolveRoomInfo ''uuid-4'' (HandleTransportMessage sample_rt (wrap (BodyRoomEvent event)) (duo_daemon\<lparr>dNode := ''n3''\<rparr>))
          = Inr room \<and> HomeNodeId room = ''n2'') \<and>
      (\<exists>e. retained (dStore (handleRemoteCommand sample_rt cmd d2)) ''uuid-4'' = [e] \<and> RoomSeq e = 1)"
proof -
  let ?event = "duo_event\<lparr>EvRoomId := ''uuid-4'', SenderHandle := ''carol''\<rparr>" and ?d = "duo_daemon\<lparr>dNode := ''n3''\<rparr>"
  let ?d2 = "lobby\<lparr>dNode := ''n2''\<rparr>" and ?cmd = "lobby_post\<lparr>CmdRoomId := ''uuid-4''\<rparr>"
  let ?peer = "\<lparr>pNodeID = ''n2'', pPublicKey = ''k2'', pAdvertiseAddr = ''a2'', pManifest = no_manifest\<rparr>"
  have B: "db_ok (dStore ?d)" "key_ok (EvRoomId ?event)" "LoadRoom (EvRoomId ?event) (dStore ?d) = Inr None"
    "SenderHandle ?event \<noteq> []" "Resolver.Resolve (dResolver ?d) (SenderHandle ?event) = Inr ?peer"
    using db_ok_New [of "''n2''" "()"]
    by (simp_all add: duo_daemon_def key_ok_def LoadRoom_def Resolver.Resolve_def UpdatePeerMap_def)
      (simp add: NewDaemon_def NewMessageStore_def)
  note h = lobby_hist(1) [unfolded room_hist_def]
  have C: "db_ok (dStore ?d2)" "log_wf (dStore ?d2) (EvRoomId ?event) \<and> retained (dStore ?d2) (EvRoomId ?event) = []"
    "coord_accepts sample_rt ?d2"
    "LoadRoom (EvRoomId ?event) (dStore ?d2) = Inr (Some lobby_room)" "RoomId lobby_room = EvRoomId ?event"
    "isRoomMember lobby_room (RequesterHandle ?cmd)" "CmdType ?cmd = CMD_POST" "CmdRoomId ?cmd = EvRoomId ?event"
    using h lobby_hist(2) [of sample_rt] by (simp_all add: coord_accepts_def lobby_post_def zero_command_def)
      (simp_all add: lobby_room_def isRoomMember_def)
  have D: "HomeNodeId lobby_room \<noteq> dNode ?d2" "Status lobby_room = ''open''" by (simp_all add: lobby_room_def)
  show ?thesis
    using room_splits [OF B C(1-5) D C(6-8), of sample_rt] by (auto simp: Let_def lobby_room_def)
qed

end
