(* ===== verification/Two_Nodes.thy ===== *)
theory Two_Nodes
  imports Room_Publish
begin

text \<open>
  Two daemons: a message that one routes to a handle of the other, its delivery there, and the
  acknowledgement that comes back. The network carries what a stream accepted; the steps of the two
  daemons are the handlers of the earlier theories.
\<close>

lemma receive_envelope_chans:
  assumes "subs_wf d" and "trace_ok d" and "EType env \<noteq> ACK"
  shows "chan_of (receive_envelope rt env d) c =
      (if c \<in> set (gget_or [] (dSubs d) (ToHandle env)) \<and> room_in d c then chan_of d c @ [InEnvelope env] else chan_of d c)"
    and "dTasks (receive_envelope rt env d) = dTasks d @ (if gget_or [] (dSubs d) (ToHandle env) \<noteq> [] \<and> FromHandle env \<noteq> []
      then [TaskRoute (ack_for (rtUuid rt 9) (rtNow rt) env)] else [])"
    and "dTransport (receive_envelope rt env d) = dTransport d" and "dHandles (receive_envelope rt env d) = dHandles d"
    and "dResolver (receive_envelope rt env d) = dResolver d"
    and "dPanicked (receive_envelope rt env d) = dPanicked d"
proof -
  let ?d = "if TraceId env \<noteq> [] then record_span rt (TraceId env) (MessageId env) RECEIVED_FROM_TRANSPORT [] d else d"
  have wf: "subs_wf ?d" "trace_ok ?d" using assms(1,2) by (simp_all add: record_span_ok(1))
  note F = DeliverToLocal_facts [OF wf assms(3), of rt "fst (DeliverToLocal rt env ?d)" "snd (DeliverToLocal rt env ?d)"]
  have room: "room_in ?d c' = room_in d c'" "chan_of ?d c' = chan_of d c'" for c' by (simp_all add: room_in_def chan_of_def)
  have eq: "dChans (receive_envelope rt env d) = dChans (snd (DeliverToLocal rt env ?d))"
    "dTasks (receive_envelope rt env d) = dTasks (snd (DeliverToLocal rt env ?d))"
    "dTransport (receive_envelope rt env d) = dTransport (snd (DeliverToLocal rt env ?d))"
    "dHandles (receive_envelope rt env d) = dHandles (snd (DeliverToLocal rt env ?d))"
    "dPanicked (receive_envelope rt env d) = dPanicked (snd (DeliverToLocal rt env ?d))"
    "dResolver (receive_envelope rt env d) = dResolver (snd (DeliverToLocal rt env ?d))"
    by (simp_all add: receive_envelope_def Let_def)
  show "chan_of (receive_envelope rt env d) c =
      (if c \<in> set (gget_or [] (dSubs d) (ToHandle env)) \<and> room_in d c then chan_of d c @ [InEnvelope env] else chan_of d c)"
    using F room chan_of_cong [OF eq(1)] by (simp add: Let_def)
  show "dTasks (receive_envelope rt env d) = dTasks d @ (if gget_or [] (dSubs d) (ToHandle env) \<noteq> [] \<and> FromHandle env \<noteq> []
      then [TaskRoute (ack_for (rtUuid rt 9) (rtNow rt) env)] else [])"
    using F by (simp add: eq(2) Let_def)
  show "dTransport (receive_envelope rt env d) = dTransport d" "dHandles (receive_envelope rt env d) = dHandles d"
    "dResolver (receive_envelope rt env d) = dResolver d"
    unfolding eq using assms(3) by (simp_all add: DeliverToLocal_def deliver_subs_def Let_def)
  show "dPanicked (receive_envelope rt env d) = dPanicked d"
    using F record_span_ok(2) [OF assms(2)] by (simp add: eq(5) Let_def)
qed

lemma receive_ack:
  "EType env = ACK \<Longrightarrow> AckId env \<noteq> [] \<Longrightarrow>
     dAck (receive_envelope rt env d) = fst (snd (Acknowledge (AckId env) (dAck d, Some (dStore d))))"
  by (simp add: receive_envelope_def DeliverToLocal_def Let_def)

text \<open>What routing an envelope to another node puts on the wire.\<close>

lemma remote_route_accepted:
  assumes "\<not> HasHandle (ToHandle env) d" and "others_ok (rtNet rt)" and "conns_ok (dTransport d)" and "Route rt env d = (None, d')"
  obtains pc m where "accepted (dTransport d') = accepted (dTransport d) @ [(pc, m)]" and "Body m = BodyEnvelope env"
    and "EType env \<noteq> ACK \<Longrightarrow> gget (pending (dAck d')) (MessageId env) \<noteq> None"
  using Route_remote_facts [OF assms] that by auto


text \<open>Node \<open>n2\<close> with the handle \<open>bob\<close>, which knows \<open>alice\<close> on the other node.\<close>

definition bob_node :: "(blob, unit) daemon" where
  "bob_node = (bob_daemon 64)\<lparr>dResolver := \<lparr>handleTo = [(''alice'', \<lparr>pNodeID = ''n1'', pPublicKey = ''kA'', pAdvertiseAddr = ''a:1'',
       pManifest = no_manifest\<rparr>)],
     nodes = [], relays = [\<lparr>rNodeID = ''r'', rPublicKey = ''kR'', rAddr = ''r:1''\<rparr>], rooms = []\<rparr>\<rparr>"

lemma bob_node_ok:
  "subs_wf bob_node" "trace_ok bob_node" "gget_or [] (dSubs bob_node) ''bob'' = [0]" "room_in bob_node 0" "chan_of bob_node c = []"
  "dTransport bob_node = SetResolver (NewGRPCTransport True True ())" "dHandles bob_node = [(''bob'', True)]"
proof -
  have fields: "dSubs bob_node = dSubs (bob_daemon 64)" "dChans bob_node = dChans (bob_daemon 64)" "dTrace bob_node = dTrace (bob_daemon 64)"
    "dNextChan bob_node = dNextChan (bob_daemon 64)"
    by (simp_all add: bob_node_def)
  show "subs_wf bob_node" using bob_daemon_ok(1) [of 64] by (simp add: subs_wf_def fields)
  show "trace_ok bob_node" using bob_daemon_ok(2) [of 64] by (simp add: trace_ok_def fields)
  show "gget_or [] (dSubs bob_node) ''bob'' = [0]" using bob_daemon_ok(3) [of 64] by (simp add: fields)
  show "room_in bob_node 0" using bob_daemon_ok(5) [of 64] by (simp add: room_in_def fields)
  show "chan_of bob_node c = []" using bob_daemon_ok(4) [of 64 c] by (simp add: chan_of_def fields)
  show "dTransport bob_node = SetResolver (NewGRPCTransport True True ())" "dHandles bob_node = [(''bob'', True)]"
    by (simp_all add: bob_node_def bob_daemon_def NewDaemon_def)
qed

lemma sample_rt_net: "others_ok (rtNet sample_rt)" "conns_ok (SetResolver (NewGRPCTransport True True ()))"
  by (simp_all add: others_ok_def sample_rt_def relay_only_def conns_ok_def keyed_def SetResolver_def NewGRPCTransport_def)

lemma bob_resolver: "dResolver bob_node = \<lparr>handleTo = [(''alice'', \<lparr>pNodeID = ''n1'', pPublicKey = ''kA'', pAdvertiseAddr = ''a:1'',
       pManifest = no_manifest\<rparr>)], nodes = [], relays = [\<lparr>rNodeID = ''r'', rPublicKey = ''kR'', rAddr = ''r:1''\<rparr>], rooms = []\<rparr>"
  by (simp add: bob_node_def)

lemma reply_routed:
  assumes "\<not> HasHandle ''alice'' d" and "dResolver d = dResolver bob_node" and "dTransport d = SetResolver (NewGRPCTransport True True ())"
    and "ToHandle env = ''alice''"
  shows "fst (Route sample_rt env d) = None"
  using assms
  by (simp add: Route_def bob_resolver Resolver.Resolve_def transport_send_def sample_rt_def wrap_def send_eval Let_def)


end
