(* ===== verification/Coord_Store.thy ===== *)
theory Coord_Store
  imports Resolver
begin

text \<open>
  The database of the coordination server (\<open>internal/coord/store.go\<close>): its tables with their keys,
  foreign keys and cascades, and one definition per query method. A table is a list of rows in the
  order SQLite happens to return them where the query has no \<open>ORDER BY\<close>; the theorems hold for every
  order. A transaction that fails leaves the tables as they were. \<open>csOK = False\<close> stands for a database
  that answers every statement with an error; the JSON encoding of manifests is a parameter.
\<close>

section \<open>Tables\<close>

datatype coord_err =
    DbError
  | ConstraintFailed
  | CoordNodeNotFound string
  | RegisterHandleFailed string coord_err
  | InvalidAuthToken
  | TokenExpired string
  | TokenUsed string
  | CreateTeamFailed coord_err
  | AddOwnerFailed coord_err
  | NotTeamMember string
  | TeamNotFound
  | InvalidInvite
  | InviteExpired
  | InviteExhausted
  | PersonalTeamFailed coord_err
  | HandleClaimed string string
  | LookupFailed string coord_err
  | UpsertFailed coord_err
  | JwtInvalid
  | WrongTokenType string
  | JwtNotConfigured
  | AuthTokenRequired
  | TokenRejected coord_err
  | NotMemberOfTeam string
  | OwnersOnly
  | CannotRemoveSelf
  | BadRole
  | LastOwner
  | RoomRequired
  | SendFailed

type_synonym 'a cresult = "coord_err + 'a"

record node_row =
  nrPublicKey :: bytes
  nrAddr :: string
  nrHeartbeat :: int
  nrIsRelay :: bool
  nrTeam :: string

record handle_row =
  hrHandle :: string
  hrNode :: string
  hrDesc :: string
  hrManifest :: string

record token_row =
  tkName :: string
  tkHash :: string
  tkSingleUse :: bool
  tkUsedBy :: "string option"
  tkCreatedAt :: int
  tkExpiresAt :: "int option"

record team_row =
  tmName :: string
  tmCreatedBy :: string
  tmCreatedAt :: int

record member_row =
  mbRole :: string
  mbJoinedAt :: int

record invite_row =
  ivTeam :: string
  ivCreatedBy :: string
  ivCreatedAt :: int
  ivExpiresAt :: int
  ivMaxUses :: int
  ivUseCount :: int

record room_row =
  rwTitle :: string
  rwCreatedBy :: string
  rwHome :: string
  rwStatus :: string
  rwNextSeq :: int
  rwCreatedAt :: int
  rwUpdatedAt :: int
  rwTeam :: string

record coord_store =
  csOK :: bool
  csMarshal :: "pb_manifest \<Rightarrow> string option"
  csUnmarshal :: "string \<Rightarrow> pb_manifest option"
  csNodes :: "(string, node_row) gomap"
  csHandles :: "handle_row list"
  csTokens :: "token_row list"
  csUsers :: "(string, int \<times> int) gomap"
  csNodeUsers :: "(string \<times> string, int) gomap"
  csTeams :: "(string, team_row) gomap"
  csMembers :: "(string \<times> string, member_row) gomap"
  csInvites :: "(string, invite_row) gomap"
  csRooms :: "(string, room_row) gomap"
  csRoomMembers :: "(string \<times> string) list"

definition NewStore :: "(pb_manifest \<Rightarrow> string option) \<Rightarrow> (string \<Rightarrow> pb_manifest option) \<Rightarrow> coord_store" where
  "NewStore mar unmar = \<lparr>csOK = True, csMarshal = mar, csUnmarshal = unmar, csNodes = [], csHandles = [], csTokens = [],
     csUsers = [], csNodeUsers = [], csTeams = [], csMembers = [], csInvites = [], csRooms = [], csRoomMembers = []\<rparr>"

text \<open>One statement or transaction: it runs on a working database only.\<close>

definition sql :: "(coord_store \<Rightarrow> 'a cresult) \<Rightarrow> coord_store \<Rightarrow> 'a cresult" where
  "sql f s = (if csOK s then f s else Inl DbError)"

section \<open>Nodes and handles\<close>

record node_record =
  rcNodeID :: string
  rcPublicKey :: bytes
  rcAddr :: string
  rcHandles :: "string list"
  rcManifests :: "(string, pb_manifest) gomap"
  rcHeartbeat :: time
  rcIsRelay :: bool
  rcTeamID :: string

definition marshalManifest :: "coord_store \<Rightarrow> pb_manifest option \<Rightarrow> string" where
  "marshalManifest s m = (case m of None \<Rightarrow> ''{}'' | Some m \<Rightarrow> (case csMarshal s m of None \<Rightarrow> ''{}'' | Some t \<Rightarrow> t))"

definition unmarshalManifest :: "coord_store \<Rightarrow> string \<Rightarrow> pb_manifest option" where
  "unmarshalManifest s t = (if t = [] \<or> t = ''{}'' then None else csUnmarshal s t)"

definition has_handle_row :: "string \<Rightarrow> string \<Rightarrow> handle_row list \<Rightarrow> bool" where
  "has_handle_row h n rows \<longleftrightarrow> (\<exists>r\<in>set rows. hrHandle r = h \<and> hrNode r = n)"

definition new_handle_row :: "coord_store \<Rightarrow> (string, pb_manifest) gomap \<Rightarrow> string \<Rightarrow> string \<Rightarrow> handle_row" where
  "new_handle_row s manifests n h = (let m = gget manifests h in
     \<lparr>hrHandle = h, hrNode = n, hrDesc = (case m of None \<Rightarrow> [] | Some m \<Rightarrow> pmDescription m),
      hrManifest = marshalManifest s m\<rparr>)"

text \<open>The loop of plain \<open>INSERT\<close>s of \<open>UpsertNode\<close>: a second row for the same handle and node fails.\<close>

fun insert_handles ::
  "coord_store \<Rightarrow> (string, pb_manifest) gomap \<Rightarrow> string \<Rightarrow> string list \<Rightarrow> handle_row list \<Rightarrow> handle_row list cresult" where
  "insert_handles s ms n [] rows = Inr rows"
| "insert_handles s ms n (h # hs) rows =
     (if has_handle_row h n rows then Inl (RegisterHandleFailed h ConstraintFailed)
      else insert_handles s ms n hs (rows @ [new_handle_row s ms n h]))"

text \<open>The loop of \<open>INSERT OR REPLACE\<close>s of \<open>UpdateHeartbeat\<close>.\<close>

fun replace_handles ::
  "coord_store \<Rightarrow> (string, pb_manifest) gomap \<Rightarrow> string \<Rightarrow> string list \<Rightarrow> handle_row list \<Rightarrow> handle_row list" where
  "replace_handles s ms n [] rows = rows"
| "replace_handles s ms n (h # hs) rows =
     replace_handles s ms n hs (filter (\<lambda>r. \<not> (hrHandle r = h \<and> hrNode r = n)) rows @ [new_handle_row s ms n h])"

definition rows_without :: "string \<Rightarrow> handle_row list \<Rightarrow> handle_row list" where
  "rows_without n rows = filter (\<lambda>r. hrNode r \<noteq> n) rows"

definition UpsertNode :: "node_record \<Rightarrow> coord_store \<Rightarrow> coord_store cresult" where
  "UpsertNode rec = sql (\<lambda>s.
     let row = \<lparr>nrPublicKey = rcPublicKey rec, nrAddr = rcAddr rec, nrHeartbeat = unix (rcHeartbeat rec),
                nrIsRelay = rcIsRelay rec, nrTeam = rcTeamID rec\<rparr>
     in case insert_handles s (rcManifests rec) (rcNodeID rec) (rcHandles rec) (rows_without (rcNodeID rec) (csHandles s)) of
          Inl e \<Rightarrow> Inl e
        | Inr rows \<Rightarrow> Inr (s\<lparr>csNodes := gput (rcNodeID rec) row (csNodes s), csHandles := rows\<rparr>))"

definition UpdateHeartbeat ::
  "time \<Rightarrow> string \<Rightarrow> string list \<Rightarrow> (string, pb_manifest) gomap \<Rightarrow> coord_store \<Rightarrow> coord_store cresult" where
  "UpdateHeartbeat now n handles manifests = sql (\<lambda>s.
     case gget (csNodes s) n of
       None \<Rightarrow> Inl (CoordNodeNotFound n)
     | Some row \<Rightarrow>
         Inr (s\<lparr>csNodes := gput n (row\<lparr>nrHeartbeat := unix now\<rparr>) (csNodes s),
                csHandles := replace_handles s manifests n handles (rows_without n (csHandles s))\<rparr>))"

text \<open>Loading the handles of a node; an old row without manifest may get one from its description.\<close>

definition row_manifest :: "coord_store \<Rightarrow> bool \<Rightarrow> handle_row \<Rightarrow> pb_manifest option" where
  "row_manifest s fallback r =
     (case unmarshalManifest s (hrManifest r) of
        Some m \<Rightarrow> Some m
      | None \<Rightarrow> if fallback \<and> hrDesc r \<noteq> []
                then Some \<lparr>pmDescription = hrDesc r, pmCommands = [], pmTags = [], pmVersion = [], pmCapabilities = [],
                           pmDomains = [], pmInputTypes = [], pmOutputTypes = []\<rparr>
                else None)"

definition load_record :: "coord_store \<Rightarrow> bool \<Rightarrow> bool \<Rightarrow> string \<Rightarrow> node_row \<Rightarrow> node_record" where
  "load_record s fallback full n row = (let rows = filter (\<lambda>r. hrNode r = n) (csHandles s) in
     \<lparr>rcNodeID = n, rcPublicKey = nrPublicKey row, rcAddr = nrAddr row, rcHandles = map hrHandle rows,
      rcManifests = fold (\<lambda>r m. case row_manifest s fallback r of None \<Rightarrow> m | Some x \<Rightarrow> gput (hrHandle r) x m) rows [],
      rcHeartbeat = from_unix (nrHeartbeat row), rcIsRelay = (if full then nrIsRelay row else False),
      rcTeamID = (if full then nrTeam row else [])\<rparr>)"

definition GetAllNodes :: "coord_store \<Rightarrow> node_record list cresult" where
  "GetAllNodes = sql (\<lambda>s. Inr (map (\<lambda>(n, row). load_record s True True n row) (csNodes s)))"

definition GetNodesByTeam :: "string \<Rightarrow> coord_store \<Rightarrow> node_record list cresult" where
  "GetNodesByTeam team = sql (\<lambda>s.
     Inr (map (\<lambda>(n, row). load_record s True True n row)
            (filter (\<lambda>(n, row). nrTeam row = team \<or> nrIsRelay row) (csNodes s))))"

definition LookupHandle :: "string \<Rightarrow> coord_store \<Rightarrow> node_record option cresult" where
  "LookupHandle h = sql (\<lambda>s.
     case filter (\<lambda>r. hrHandle r = h) (csHandles s) of
       [] \<Rightarrow> Inr None
     | r # _ \<Rightarrow> (case gget (csNodes s) (hrNode r) of
                   None \<Rightarrow> Inl DbError
                 | Some row \<Rightarrow> Inr (Some (load_record s False False (hrNode r) row))))"

definition node_team :: "coord_store \<Rightarrow> string \<Rightarrow> string option" where
  "node_team s n = map_option nrTeam (gget (csNodes s) n)"

definition LookupHandleInTeam :: "string \<Rightarrow> string \<Rightarrow> coord_store \<Rightarrow> node_record option cresult" where
  "LookupHandleInTeam h team s =
     (if team = [] then LookupHandle h s
      else sql (\<lambda>s.
        case filter (\<lambda>r. hrHandle r = h \<and> node_team s (hrNode r) = Some team) (csHandles s) of
          [] \<Rightarrow> Inr None
        | r # _ \<Rightarrow> (case gget (csNodes s) (hrNode r) of
                      None \<Rightarrow> Inl DbError
                    | Some row \<Rightarrow> Inr (Some (load_record s False True (hrNode r) row)))) s)"

definition remove_nodes :: "(string \<Rightarrow> node_row \<Rightarrow> bool) \<Rightarrow> coord_store \<Rightarrow> coord_store" where
  "remove_nodes P s =
     (let gone = map fst (filter (\<lambda>(n, row). P n row) (csNodes s))
      in s\<lparr>csNodes := filter (\<lambda>(n, row). n \<notin> set gone) (csNodes s),
           csHandles := filter (\<lambda>r. hrNode r \<notin> set gone) (csHandles s)\<rparr>)"

definition RemoveNode :: "string \<Rightarrow> coord_store \<Rightarrow> coord_store cresult" where
  "RemoveNode n = sql (\<lambda>s. Inr (remove_nodes (\<lambda>m row. m = n) s))"

definition RemoveStaleNodes :: "time \<Rightarrow> coord_store \<Rightarrow> (nat \<times> coord_store) cresult" where
  "RemoveStaleNodes olderThan = sql (\<lambda>s.
     let P = (\<lambda>n row. nrHeartbeat row < unix olderThan)
     in Inr (length (filter (\<lambda>(n, row). P n row) (csNodes s)), remove_nodes P s))"

definition SetNodeTeam :: "string \<Rightarrow> string \<Rightarrow> coord_store \<Rightarrow> coord_store cresult" where
  "SetNodeTeam n team = sql (\<lambda>s.
     case gget (csNodes s) n of None \<Rightarrow> Inr s | Some row \<Rightarrow> Inr (s\<lparr>csNodes := gput n (row\<lparr>nrTeam := team\<rparr>) (csNodes s)\<rparr>))"

section \<open>Admission tokens and users\<close>

definition InsertAuthToken :: "time \<Rightarrow> string \<Rightarrow> string \<Rightarrow> bool \<Rightarrow> time option \<Rightarrow> coord_store \<Rightarrow> coord_store cresult" where
  "InsertAuthToken now name tokenHash singleUse expiresAt = sql (\<lambda>s.
     if \<exists>t\<in>set (csTokens s). tkName t = name \<or> tkHash t = tokenHash then Inl ConstraintFailed
     else Inr (s\<lparr>csTokens := csTokens s @ [\<lparr>tkName = name, tkHash = tokenHash, tkSingleUse = singleUse, tkUsedBy = None,
                   tkCreatedAt = unix now, tkExpiresAt = map_option unix expiresAt\<rparr>]\<rparr>))"

definition mark_used :: "string \<Rightarrow> string \<Rightarrow> token_row list \<Rightarrow> token_row list" where
  "mark_used tokenHash nodeID ts = map (\<lambda>t. if tkHash t = tokenHash then t\<lparr>tkUsedBy := Some nodeID\<rparr> else t) ts"

definition ValidateAndConsumeToken :: "time \<Rightarrow> string \<Rightarrow> string \<Rightarrow> coord_store \<Rightarrow> coord_store cresult" where
  "ValidateAndConsumeToken now tokenHash nodeID = sql (\<lambda>s.
     case filter (\<lambda>t. tkHash t = tokenHash) (csTokens s) of
       [] \<Rightarrow> Inl InvalidAuthToken
     | t # _ \<Rightarrow>
         if (case tkExpiresAt t of Some e \<Rightarrow> unix now > e | None \<Rightarrow> False) then Inl (TokenExpired (tkName t))
         else if tkSingleUse t \<and> tkUsedBy t \<noteq> None then Inl (TokenUsed (tkName t))
         else if tkSingleUse t then Inr (s\<lparr>csTokens := mark_used tokenHash nodeID (csTokens s)\<rparr>)
         else Inr s)"

definition HasAuthTokens :: "coord_store \<Rightarrow> bool cresult" where
  "HasAuthTokens = sql (\<lambda>s. Inr (csTokens s \<noteq> []))"

definition RevokeAuthToken :: "string \<Rightarrow> coord_store \<Rightarrow> coord_store cresult" where
  "RevokeAuthToken name = sql (\<lambda>s. Inr (s\<lparr>csTokens := filter (\<lambda>t. tkName t \<noteq> name) (csTokens s)\<rparr>))"

definition UpsertUser :: "time \<Rightarrow> string \<Rightarrow> coord_store \<Rightarrow> coord_store cresult" where
  "UpsertUser now email = sql (\<lambda>s.
     let created = (case gget (csUsers s) email of Some (c, l) \<Rightarrow> c | None \<Rightarrow> unix now)
     in Inr (s\<lparr>csUsers := gput email (created, unix now) (csUsers s)\<rparr>))"

definition BindNodeToUser :: "time \<Rightarrow> string \<Rightarrow> string \<Rightarrow> coord_store \<Rightarrow> coord_store cresult" where
  "BindNodeToUser now nodeID email = sql (\<lambda>s. Inr (s\<lparr>csNodeUsers := gput (nodeID, email) (unix now) (csNodeUsers s)\<rparr>))"

definition GetNodeUser :: "string \<Rightarrow> coord_store \<Rightarrow> string cresult" where
  "GetNodeUser nodeID = sql (\<lambda>s.
     case filter (\<lambda>k. fst k = nodeID) (gkeys (csNodeUsers s)) of [] \<Rightarrow> Inr [] | (n, email) # _ \<Rightarrow> Inr email)"

definition ListUserNodes :: "string \<Rightarrow> coord_store \<Rightarrow> string list cresult" where
  "ListUserNodes email = sql (\<lambda>s. Inr (map fst (filter (\<lambda>k. snd k = email) (gkeys (csNodeUsers s)))))"

section \<open>Teams\<close>

definition CreateTeam :: "time \<Rightarrow> string \<Rightarrow> string \<Rightarrow> string \<Rightarrow> coord_store \<Rightarrow> coord_store cresult" where
  "CreateTeam now teamID name email s =
     (if \<not> csOK s then Inl DbError
      else if gget (csTeams s) teamID \<noteq> None \<or> (\<exists>t\<in>set (gvals (csTeams s)). tmName t = name)
      then Inl (CreateTeamFailed ConstraintFailed)
      else if gget (csMembers s) (teamID, email) \<noteq> None then Inl (AddOwnerFailed ConstraintFailed)
      else Inr (s\<lparr>csTeams := gput teamID \<lparr>tmName = name, tmCreatedBy = email, tmCreatedAt = unix now\<rparr> (csTeams s),
                  csMembers := gput (teamID, email) \<lparr>mbRole = ''owner'', mbJoinedAt = unix now\<rparr> (csMembers s)\<rparr>))"

definition GetTeamByName :: "string \<Rightarrow> coord_store \<Rightarrow> (string \<times> string) cresult" where
  "GetTeamByName name = sql (\<lambda>s.
     case filter (\<lambda>(i, t). tmName t = name) (csTeams s) of [] \<Rightarrow> Inr ([], []) | (i, t) # _ \<Rightarrow> Inr (i, tmCreatedBy t))"

text \<open>The join of teams and memberships; a result is the identifier, the name and the role.\<close>

definition ListUserTeams :: "string \<Rightarrow> coord_store \<Rightarrow> (string \<times> string \<times> string) list cresult" where
  "ListUserTeams email = sql (\<lambda>s.
     Inr (sort_slice (\<lambda>(i, a, r) (j, b, q). a < b)
            (List.map_filter (\<lambda>(i, t). map_option (\<lambda>m. (i, tmName t, mbRole m)) (gget (csMembers s) (i, email))) (csTeams s))))"

definition AddTeamMember :: "time \<Rightarrow> string \<Rightarrow> string \<Rightarrow> string \<Rightarrow> coord_store \<Rightarrow> coord_store cresult" where
  "AddTeamMember now teamID email role = sql (\<lambda>s.
     if gget (csTeams s) teamID = None then Inl ConstraintFailed
     else let row = (case gget (csMembers s) (teamID, email) of
                       Some m \<Rightarrow> m\<lparr>mbRole := role\<rparr> | None \<Rightarrow> \<lparr>mbRole = role, mbJoinedAt = unix now\<rparr>)
          in Inr (s\<lparr>csMembers := gput (teamID, email) row (csMembers s)\<rparr>))"

definition RemoveTeamMember :: "string \<Rightarrow> string \<Rightarrow> coord_store \<Rightarrow> coord_store cresult" where
  "RemoveTeamMember teamID email = sql (\<lambda>s.
     if gget (csMembers s) (teamID, email) = None then Inl (NotTeamMember email)
     else Inr (s\<lparr>csMembers := gdel (teamID, email) (csMembers s)\<rparr>))"

definition UpdateTeamMemberRole :: "string \<Rightarrow> string \<Rightarrow> string \<Rightarrow> coord_store \<Rightarrow> coord_store cresult" where
  "UpdateTeamMemberRole teamID email role = sql (\<lambda>s.
     case gget (csMembers s) (teamID, email) of
       None \<Rightarrow> Inl (NotTeamMember email)
     | Some m \<Rightarrow> Inr (s\<lparr>csMembers := gput (teamID, email) (m\<lparr>mbRole := role\<rparr>) (csMembers s)\<rparr>))"

text \<open>Deleting a team takes its members and invites along and makes its nodes team-less.\<close>

definition DeleteTeam :: "string \<Rightarrow> coord_store \<Rightarrow> coord_store cresult" where
  "DeleteTeam teamID = sql (\<lambda>s.
     if gget (csTeams s) teamID = None then Inl TeamNotFound
     else Inr (s\<lparr>csTeams := gdel teamID (csTeams s),
                 csMembers := filter (\<lambda>((t, e), m). t \<noteq> teamID) (csMembers s),
                 csInvites := filter (\<lambda>(c, i). ivTeam i \<noteq> teamID) (csInvites s),
                 csNodes := map (\<lambda>(n, row). (n, if nrTeam row = teamID then row\<lparr>nrTeam := []\<rparr> else row)) (csNodes s)\<rparr>))"

definition GetTeamMembers :: "string \<Rightarrow> coord_store \<Rightarrow> (string \<times> string) list cresult" where
  "GetTeamMembers teamID = sql (\<lambda>s.
     Inr (sort_slice (\<lambda>(a, r) (b, q). a < b)
            (map (\<lambda>((t, e), m). (e, mbRole m)) (filter (\<lambda>((t, e), m). t = teamID) (csMembers s)))))"

definition GetUserTeamRole :: "string \<Rightarrow> string \<Rightarrow> coord_store \<Rightarrow> string cresult" where
  "GetUserTeamRole teamID email = sql (\<lambda>s.
     Inr (case gget (csMembers s) (teamID, email) of None \<Rightarrow> [] | Some m \<Rightarrow> mbRole m))"

definition CreateTeamInvite ::
  "time \<Rightarrow> string \<Rightarrow> string \<Rightarrow> string \<Rightarrow> time \<Rightarrow> int \<Rightarrow> coord_store \<Rightarrow> coord_store cresult" where
  "CreateTeamInvite now code teamID email expiresAt maxUses = sql (\<lambda>s.
     if gget (csInvites s) code \<noteq> None \<or> gget (csTeams s) teamID = None then Inl ConstraintFailed
     else Inr (s\<lparr>csInvites := gput code \<lparr>ivTeam = teamID, ivCreatedBy = email, ivCreatedAt = unix now,
                   ivExpiresAt = unix expiresAt, ivMaxUses = maxUses, ivUseCount = 0\<rparr> (csInvites s)\<rparr>))"

definition ConsumeTeamInvite :: "time \<Rightarrow> string \<Rightarrow> coord_store \<Rightarrow> (string \<times> coord_store) cresult" where
  "ConsumeTeamInvite now code = sql (\<lambda>s.
     case gget (csInvites s) code of
       None \<Rightarrow> Inl InvalidInvite
     | Some i \<Rightarrow>
         if unix now > ivExpiresAt i then Inl InviteExpired
         else if ivUseCount i \<ge> ivMaxUses i then Inl InviteExhausted
         else Inr (ivTeam i, s\<lparr>csInvites := gput code (i\<lparr>ivUseCount := ivUseCount i + 1\<rparr>) (csInvites s)\<rparr>))"

text \<open>\<open>ids\<close> are the random identifiers drawn: two team identifiers and the name suffix.\<close>

definition email_prefix :: "string \<Rightarrow> string" where
  "email_prefix email = (let p = takeWhile (\<lambda>c. c \<noteq> CHR ''@'') email in if p = email \<or> p = [] then email else p)"

definition EnsurePersonalTeam ::
  "time \<Rightarrow> (nat \<Rightarrow> string) \<Rightarrow> string \<Rightarrow> coord_store \<Rightarrow> (string \<times> string) cresult \<times> coord_store" where
  "EnsurePersonalTeam now ids email s =
     (case ListUserTeams email s of
        Inl e \<Rightarrow> (Inl (PersonalTeamFailed e), s)
      | Inr (_ # _) \<Rightarrow> (Inr ([], []), s)
      | Inr [] \<Rightarrow>
          (let name = email_prefix email
           in case CreateTeam now (ids 0) name email s of
                Inr s' \<Rightarrow> (Inr (ids 0, name), s')
              | Inl _ \<Rightarrow>
                  (let name = name @ ''-'' @ ids 2
                   in case CreateTeam now (ids 1) name email s of
                        Inr s' \<Rightarrow> (Inr (ids 1, name), s')
                      | Inl e \<Rightarrow> (Inl (PersonalTeamFailed e), s))))"

section \<open>Rooms\<close>

fun insert_members :: "string \<Rightarrow> string list \<Rightarrow> (string \<times> string) list \<Rightarrow> (string \<times> string) list cresult" where
  "insert_members i [] rows = Inr rows"
| "insert_members i (h # hs) rows = (if (i, h) \<in> set rows then Inl ConstraintFailed else insert_members i hs (rows @ [(i, h)]))"

text \<open>A sequence number of \<open>2^63\<close> or more is refused by the SQL driver.\<close>

definition UpsertRoom :: "room_info \<Rightarrow> string \<Rightarrow> coord_store \<Rightarrow> coord_store cresult" where
  "UpsertRoom room teamID = sql (\<lambda>s.
     if uint (NextSeq room) \<ge> 2 ^ 63 then Inl DbError
     else let row = \<lparr>rwTitle = Title room, rwCreatedBy = CreatedBy room, rwHome = HomeNodeId room, rwStatus = Status room,
                     rwNextSeq = uint (NextSeq room),
                     rwCreatedAt = (case gget (csRooms s) (RoomId room) of Some r \<Rightarrow> rwCreatedAt r | None \<Rightarrow> CreatedAtUnix room),
                     rwUpdatedAt = UpdatedAtUnix room, rwTeam = teamID\<rparr>
          in case insert_members (RoomId room) (Members room) (filter (\<lambda>(i, h). i \<noteq> RoomId room) (csRoomMembers s)) of
               Inl e \<Rightarrow> Inl e
             | Inr rows \<Rightarrow> Inr (s\<lparr>csRooms := gput (RoomId room) row (csRooms s), csRoomMembers := rows\<rparr>))"

definition room_of_row :: "coord_store \<Rightarrow> string \<Rightarrow> room_row \<Rightarrow> room_info" where
  "room_of_row s i r = \<lparr>RoomId = i, Title = rwTitle r, CreatedBy = rwCreatedBy r, HomeNodeId = rwHome r,
     Members = sort_slice (<) (map snd (filter (\<lambda>(j, h). j = i) (csRoomMembers s))), Status = rwStatus r,
     NextSeq = word_of_int (rwNextSeq r), CreatedAtUnix = rwCreatedAt r, UpdatedAtUnix = rwUpdatedAt r\<rparr>"

definition in_team :: "string \<Rightarrow> string \<Rightarrow> bool" where
  "in_team team t \<longleftrightarrow> team = [] \<or> t = team"

definition LookupRoom :: "string \<Rightarrow> string \<Rightarrow> coord_store \<Rightarrow> room_info option cresult" where
  "LookupRoom i team = sql (\<lambda>s.
     case gget (csRooms s) i of
       None \<Rightarrow> Inr None
     | Some r \<Rightarrow> if in_team team (rwTeam r) then Inr (Some (room_of_row s i r)) else Inr None)"

definition ListRoomsForHandle :: "string \<Rightarrow> string \<Rightarrow> coord_store \<Rightarrow> room_info list cresult" where
  "ListRoomsForHandle h team = sql (\<lambda>s.
     Inr (map (\<lambda>(i, r). room_of_row s i r)
            (sort_slice (\<lambda>(i, a) (j, b). rwUpdatedAt a > rwUpdatedAt b)
               (filter (\<lambda>(i, r). (h = [] \<or> (i, h) \<in> set (csRoomMembers s)) \<and> in_team team (rwTeam r)) (csRooms s)))))"

end
