(* ===== verification/Coord_Admission.thy ===== *)
theory Coord_Admission
  imports Coord_Store
begin

text \<open>
  Who may register (\<open>internal/coord/jwt.go\<close>, \<open>admission.go\<close>): signed tokens and pre-shared tokens.
  The JWT library and SHA-256 are parameters; \<open>jwt_ok\<close> names what the code relies on.
\<close>

section \<open>Tokens\<close>

record claims =
  clIssuer :: string
  clSubject :: string
  clIssuedAt :: int
  clExpiresAt :: int
  clEmail :: string
  clType :: string
  clTeamID :: string

text \<open>
  \<open>jlParse key now token\<close>: signature, method and expiry are checked. What was signed with a key parses
  with it until it expires, and a token starts with the encoding of the header's \<open>{"\<close>.
\<close>

record jwt_lib =
  jlSign :: "bytes \<Rightarrow> claims \<Rightarrow> string option"
  jlParse :: "bytes \<Rightarrow> time \<Rightarrow> string \<Rightarrow> claims option"

definition jwt_ok :: "jwt_lib \<Rightarrow> bool" where
  "jwt_ok J \<longleftrightarrow>
     (\<forall>key c t now. jlSign J key c = Some t \<longrightarrow>
        jlParse J key now t = (if unix now < clExpiresAt c then Some c else None) \<and> take 3 t = ''eyJ'')"

record crt =
  crNow :: time
  crIds :: "nat \<Rightarrow> string"
  crSha :: "string \<Rightarrow> string"
  crJwt :: jwt_lib

definition jwtIssuer :: string where
  "jwtIssuer = ''tailbus-coord''"

definition accessTokenDuration :: int where
  "accessTokenDuration = 3600 * second"

definition refreshTokenDuration :: int where
  "refreshTokenDuration = 30 * 24 * 3600 * second"

definition token_claims :: "time \<Rightarrow> int \<Rightarrow> string \<Rightarrow> string \<Rightarrow> string \<Rightarrow> claims" where
  "token_claims now dur typ email team = \<lparr>clIssuer = jwtIssuer, clSubject = email, clIssuedAt = unix now,
     clExpiresAt = unix (now + dur), clEmail = email, clType = typ, clTeamID = team\<rparr>"

text \<open>Both tokens are signed; the answer is the pair, or the first error.\<close>

definition IssueWithTeam :: "crt \<Rightarrow> bytes \<Rightarrow> string \<Rightarrow> string \<Rightarrow> (string \<times> string) cresult" where
  "IssueWithTeam rt key email team =
     (case jlSign (crJwt rt) key (token_claims (crNow rt) accessTokenDuration ''access'' email team) of
        None \<Rightarrow> Inl JwtInvalid
      | Some a \<Rightarrow>
          (case jlSign (crJwt rt) key (token_claims (crNow rt) refreshTokenDuration ''refresh'' email team) of
             None \<Rightarrow> Inl JwtInvalid
           | Some r \<Rightarrow> Inr (a, r)))"

definition Issue :: "crt \<Rightarrow> bytes \<Rightarrow> string \<Rightarrow> (string \<times> string) cresult" where
  "Issue rt key email = IssueWithTeam rt key email []"

definition Validate :: "crt \<Rightarrow> bytes \<Rightarrow> string \<Rightarrow> claims cresult" where
  "Validate rt key token = (case jlParse (crJwt rt) key (crNow rt) token of None \<Rightarrow> Inl JwtInvalid | Some c \<Rightarrow> Inr c)"

definition Refresh :: "crt \<Rightarrow> bytes \<Rightarrow> string \<Rightarrow> (string \<times> string) cresult" where
  "Refresh rt key token =
     (case Validate rt key token of
        Inl e \<Rightarrow> Inl e
      | Inr c \<Rightarrow>
          if clType c \<noteq> ''refresh'' then Inl (WrongTokenType (clType c))
          else if clTeamID c \<noteq> [] then IssueWithTeam rt key (clEmail c) (clTeamID c)
          else Issue rt key (clEmail c))"

section \<open>Admission\<close>

record admission_result =
  arEmail :: string
  arTeamID :: string

definition HashToken :: "crt \<Rightarrow> string \<Rightarrow> string" where
  "HashToken rt raw = crSha rt raw"

definition SeedToken :: "crt \<Rightarrow> string \<Rightarrow> string \<Rightarrow> bool \<Rightarrow> coord_store \<Rightarrow> coord_store" where
  "SeedToken rt name raw singleUse s =
     (case InsertAuthToken (crNow rt) name (HashToken rt raw) singleUse None s of Inl e \<Rightarrow> s | Inr s' \<Rightarrow> s')"

definition or_log :: "coord_store cresult \<Rightarrow> coord_store \<Rightarrow> coord_store" where
  "or_log r s = (case r of Inl e \<Rightarrow> s | Inr s' \<Rightarrow> s')"

definition has_prefix :: "string \<Rightarrow> string \<Rightarrow> bool" where
  "has_prefix s p \<longleftrightarrow> take (length p) s = p"

text \<open>\<open>key\<close> is the issuer's key if one is configured.\<close>

definition ValidateRegistration ::
  "crt \<Rightarrow> bytes option \<Rightarrow> string \<Rightarrow> string \<Rightarrow> coord_store \<Rightarrow> admission_result cresult \<times> coord_store" where
  "ValidateRegistration rt key authToken nodeID s =
     (case (if has_prefix authToken ''eyJ'' then key else None) of
        Some k \<Rightarrow>
          (case Validate rt k authToken of
             Inl e \<Rightarrow> (Inl e, s)
           | Inr c \<Rightarrow>
               if clType c \<noteq> ''access'' then (Inl (WrongTokenType (clType c)), s)
               else let s = or_log (UpsertUser (crNow rt) (clEmail c) s) s;
                        s = or_log (BindNodeToUser (crNow rt) nodeID (clEmail c) s) s;
                        s = snd (EnsurePersonalTeam (crNow rt) (crIds rt) (clEmail c) s)
                    in (Inr \<lparr>arEmail = clEmail c, arTeamID = clTeamID c\<rparr>, s))
      | None \<Rightarrow>
          (case HasAuthTokens s of
             Inl e \<Rightarrow> (Inl e, s)
           | Inr hasTokens \<Rightarrow>
               if \<not> hasTokens \<and> key = None then (Inr \<lparr>arEmail = [], arTeamID = []\<rparr>, s)
               else if authToken = [] then (Inl AuthTokenRequired, s)
               else (case ValidateAndConsumeToken (crNow rt) (HashToken rt authToken) nodeID s of
                       Inl e \<Rightarrow> (Inl (TokenRejected e), s)
                     | Inr s' \<Rightarrow> (Inr \<lparr>arEmail = [], arTeamID = []\<rparr>, s'))))"

end
