(* ===== verification/Peer_Map.thy ===== *)
theory Peer_Map
  imports Coord_Admission
begin

text \<open>
  The peer map of the coordination server (\<open>internal/coord/peermap.go\<close>): what a team's nodes are
  told, when they are told, and the channels of the watching nodes.
\<close>

record pb_peer =
  ppNodeId :: string
  ppPublicKey :: bytes
  ppAddr :: string
  ppHandles :: "string list"
  ppHeartbeat :: int
  ppDescs :: "(string, string) gomap"
  ppManifests :: "(string, pb_manifest) gomap"

record pb_relay =
  prNodeId :: string
  prPublicKey :: bytes
  prAddr :: string

record peer_update =
  puPeers :: "pb_peer list"
  puRelays :: "pb_relay list"
  puRooms :: "room_info list"
  puVersion :: "64 word"

text \<open>A watcher is the identity of its channel and its team; \<open>pmChans\<close> holds the channels.\<close>

record peer_map =
  pmVer :: "64 word"
  pmWatchers :: "(string, nat \<times> string) gomap"
  pmLastHash :: "(string, string) gomap"
  pmChans :: "(nat, peer_update chan) gomap"
  pmNextChan :: nat

definition NewPeerMap :: peer_map where
  "NewPeerMap = \<lparr>pmVer = 0, pmWatchers = [], pmLastHash = [], pmChans = [], pmNextChan = 0\<rparr>"

definition descriptions :: "(string, pb_manifest) gomap \<Rightarrow> (string, string) gomap" where
  "descriptions ms = map (\<lambda>(h, m). (h, pmDescription m)) (filter (\<lambda>(h, m). pmDescription m \<noteq> []) ms)"

definition peer_of_record :: "node_record \<Rightarrow> pb_peer" where
  "peer_of_record n = \<lparr>ppNodeId = rcNodeID n, ppPublicKey = rcPublicKey n, ppAddr = rcAddr n, ppHandles = rcHandles n,
     ppHeartbeat = unix (rcHeartbeat n), ppDescs = descriptions (rcManifests n), ppManifests = rcManifests n\<rparr>"

definition relay_of_record :: "node_record \<Rightarrow> pb_relay" where
  "relay_of_record n = \<lparr>prNodeId = rcNodeID n, prPublicKey = rcPublicKey n, prAddr = rcAddr n\<rparr>"

definition BuildForTeam :: "string \<Rightarrow> coord_store \<Rightarrow> peer_map \<Rightarrow> peer_update cresult \<times> peer_map" where
  "BuildForTeam team s pm =
     (case (if team = [] then GetAllNodes s else GetNodesByTeam team s) of
        Inl e \<Rightarrow> (Inl e, pm)
      | Inr ns \<Rightarrow>
          (case ListRoomsForHandle [] team s of
             Inl e \<Rightarrow> (Inl e, pm)
           | Inr rms \<Rightarrow>
               (let ver = pmVer pm + 1
                in (Inr \<lparr>puPeers = map peer_of_record (filter (\<lambda>n. \<not> rcIsRelay n) ns),
                         puRelays = map relay_of_record (filter rcIsRelay ns), puRooms = rms, puVersion = ver\<rparr>,
                    pm\<lparr>pmVer := ver\<rparr>))))"

definition Build :: "coord_store \<Rightarrow> peer_map \<Rightarrow> peer_update cresult \<times> peer_map" where
  "Build s pm = BuildForTeam [] s pm"

section \<open>Topology hash\<close>

fun join :: "string \<Rightarrow> string list \<Rightarrow> string" where
  "join sep [] = []"
| "join sep [x] = x"
| "join sep (x # xs) = x @ sep @ join sep xs"

definition newline :: string where
  "newline = [CHR 0x0A]"

definition peer_line :: "pb_peer \<Rightarrow> string" where
  "peer_line p = ppNodeId p @ ''|'' @ ppAddr p @ ''|'' @ join '','' (sort_slice (<) (ppHandles p)) @ newline"

definition relay_line :: "pb_relay \<Rightarrow> string" where
  "relay_line r = ''relay|'' @ prNodeId r @ ''|'' @ prAddr r @ newline"

definition topology_text :: "pb_peer list \<Rightarrow> pb_relay list \<Rightarrow> string" where
  "topology_text ps rs = concat (map peer_line (sort_slice (\<lambda>a b. ppNodeId a < ppNodeId b) ps)) @
     concat (map relay_line (sort_slice (\<lambda>a b. prNodeId a < prNodeId b) rs))"

definition peerHash :: "(string \<Rightarrow> string) \<Rightarrow> pb_peer list \<Rightarrow> pb_relay list \<Rightarrow> string" where
  "peerHash sha ps rs = sha (topology_text ps rs)"

section \<open>Watchers\<close>

definition AddWatcher :: "string \<Rightarrow> string \<Rightarrow> peer_map \<Rightarrow> nat \<times> peer_map" where
  "AddWatcher nodeID team pm =
     (let c = pmNextChan pm
      in (c, pm\<lparr>pmChans := gput c (make_chan c 8) (pmChans pm), pmNextChan := c + 1,
                pmWatchers := gput nodeID (c, team) (pmWatchers pm)\<rparr>))"

definition RemoveWatcher :: "string \<Rightarrow> peer_map \<Rightarrow> peer_map" where
  "RemoveWatcher nodeID pm =
     (case gget (pmWatchers pm) nodeID of
        None \<Rightarrow> pm
      | Some (c, team) \<Rightarrow>
          pm\<lparr>pmChans := (case gget (pmChans pm) c of
                            None \<Rightarrow> pmChans pm | Some ch \<Rightarrow> gput c (ch\<lparr>ch_closed := True\<rparr>) (pmChans pm)),
             pmWatchers := gdel nodeID (pmWatchers pm)\<rparr>)"

text \<open>One update per team that has a watcher; the first failing query ends the call.\<close>

fun build_updates ::
  "string list \<Rightarrow> coord_store \<Rightarrow> peer_map \<Rightarrow> (string, peer_update) gomap cresult \<times> peer_map" where
  "build_updates [] s pm = (Inr [], pm)"
| "build_updates (team # ts) s pm =
     (case BuildForTeam team s pm of
        (Inl e, pm) \<Rightarrow> (Inl e, pm)
      | (Inr u, pm) \<Rightarrow>
          (case build_updates ts s pm of
             (Inl e, pm) \<Rightarrow> (Inl e, pm)
           | (Inr us, pm) \<Rightarrow> (Inr ((team, u) # us), pm)))"

definition watched_teams :: "peer_map \<Rightarrow> string list" where
  "watched_teams pm = remdups (map snd (gvals (pmWatchers pm)))"

definition update_hash :: "(string \<Rightarrow> string) \<Rightarrow> peer_update \<Rightarrow> string" where
  "update_hash sha u = peerHash sha (puPeers u) (puRelays u)"

definition changed_teams :: "(string \<Rightarrow> string) \<Rightarrow> (string, peer_update) gomap \<Rightarrow> peer_map \<Rightarrow> string list" where
  "changed_teams sha us pm = map fst (filter (\<lambda>(t, u). update_hash sha u \<noteq> gget_or [] (pmLastHash pm) t) us)"

definition note_hashes :: "(string \<Rightarrow> string) \<Rightarrow> (string, peer_update) gomap \<Rightarrow> peer_map \<Rightarrow> peer_map" where
  "note_hashes sha us pm = pm\<lparr>pmLastHash := fold (\<lambda>(t, u). gput t (update_hash sha u)) us (pmLastHash pm)\<rparr>"

text \<open>A non-blocking send of each watcher's update to its channel.\<close>

definition send_updates :: "string list \<Rightarrow> (string, peer_update) gomap \<Rightarrow> peer_map \<Rightarrow> peer_map" where
  "send_updates teams us pm =
     pm\<lparr>pmChans := fold (\<lambda>(c, t) chans.
          if t \<in> set teams
          then case (gget us t, gget chans c) of (Some u, Some ch) \<Rightarrow> gput c (try_send u ch) chans | _ \<Rightarrow> chans
          else chans) (gvals (pmWatchers pm)) (pmChans pm)\<rparr>"

definition Broadcast :: "(string \<Rightarrow> string) \<Rightarrow> coord_store \<Rightarrow> peer_map \<Rightarrow> coord_err option \<times> peer_map" where
  "Broadcast sha s pm =
     (case build_updates (watched_teams pm) s pm of
        (Inl e, pm) \<Rightarrow> (Some e, pm)
      | (Inr us, pm) \<Rightarrow> (None, send_updates (changed_teams sha us pm) us (note_hashes sha us pm)))"

definition ForceBroadcast :: "(string \<Rightarrow> string) \<Rightarrow> coord_store \<Rightarrow> peer_map \<Rightarrow> coord_err option \<times> peer_map" where
  "ForceBroadcast sha s pm =
     (case build_updates (watched_teams pm) s pm of
        (Inl e, pm) \<Rightarrow> (Some e, pm)
      | (Inr us, pm) \<Rightarrow> (None, send_updates (map fst us) us (note_hashes sha us pm)))"

end
