(* ===== verification/Coord_Server.thy ===== *)
theory Coord_Server
  imports Peer_Map
begin

text \<open>
  The handlers of the coordination server (\<open>internal/coord/server.go\<close>, \<open>registry.go\<close>): registration,
  heartbeats, the peer-map stream, rooms, teams and invites, and the reaper.
\<close>

record coord =
  coStore :: coord_store
  coPeers :: peer_map
  coKey :: "bytes option"

definition NewServer :: "coord_store \<Rightarrow> coord" where
  "NewServer s = \<lparr>coStore = s, coPeers = NewPeerMap, coKey = None\<rparr>"

definition SetJWT :: "bytes \<Rightarrow> coord \<Rightarrow> coord" where
  "SetJWT key c = c\<lparr>coKey := Some key\<rparr>"

section \<open>Registration\<close>

fun check_conflicts :: "string \<Rightarrow> string \<Rightarrow> string list \<Rightarrow> coord_store \<Rightarrow> coord_err option" where
  "check_conflicts nodeID team [] s = None"
| "check_conflicts nodeID team (h # hs) s =
     (case LookupHandleInTeam h team s of
        Inl e \<Rightarrow> Some (LookupFailed h e)
      | Inr (Some rec) \<Rightarrow> if rcNodeID rec \<noteq> nodeID then Some (HandleClaimed h (rcNodeID rec)) else check_conflicts nodeID team hs s
      | Inr None \<Rightarrow> check_conflicts nodeID team hs s)"

text \<open>\<open>Registry.RegisterNode\<close>.\<close>

definition registry_RegisterNode :: "node_record \<Rightarrow> coord_store \<Rightarrow> coord_store cresult" where
  "registry_RegisterNode rec s =
     (case check_conflicts (rcNodeID rec) (rcTeamID rec) (rcHandles rec) s of
        Some e \<Rightarrow> Inl e
      | None \<Rightarrow> (case UpsertNode rec s of Inl e \<Rightarrow> Inl (UpsertFailed e) | Inr s' \<Rightarrow> Inr s'))"

definition synthesizeManifests :: "(string, string) gomap \<Rightarrow> (string, pb_manifest) gomap" where
  "synthesizeManifests ds = map (\<lambda>(h, t). (h, \<lparr>pmDescription = t, pmCommands = [], pmTags = [], pmVersion = [],
     pmCapabilities = [], pmDomains = [], pmInputTypes = [], pmOutputTypes = []\<rparr>)) (filter (\<lambda>(h, t). t \<noteq> []) ds)"

record register_request =
  rqNodeId :: string
  rqPublicKey :: bytes
  rqAddr :: string
  rqHandles :: "string list"
  rqDescs :: "(string, string) gomap"
  rqManifests :: "(string, pb_manifest) gomap"
  rqIsRelay :: bool
  rqAuthToken :: string
  rqTeamId :: string

definition broadcast :: "crt \<Rightarrow> coord \<Rightarrow> coord" where
  "broadcast rt c = c\<lparr>coPeers := snd (Broadcast (crSha rt) (coStore c) (coPeers c))\<rparr>"

definition force_broadcast :: "crt \<Rightarrow> coord \<Rightarrow> coord" where
  "force_broadcast rt c = c\<lparr>coPeers := snd (ForceBroadcast (crSha rt) (coStore c) (coPeers c))\<rparr>"

definition resolveTeamName :: "string \<Rightarrow> coord_store \<Rightarrow> string" where
  "resolveTeamName team s = (if csOK s then case gget (csTeams s) team of None \<Rightarrow> [] | Some t \<Rightarrow> tmName t else [])"

definition team_of_request :: "register_request \<Rightarrow> admission_result \<Rightarrow> string" where
  "team_of_request req res = (if rqTeamId req = [] then arTeamID res else rqTeamId req)"

definition check_membership :: "string \<Rightarrow> string \<Rightarrow> coord_store \<Rightarrow> coord_err option" where
  "check_membership team email s =
     (if team = [] \<or> email = [] then None
      else case GetUserTeamRole team email s of
             Inl e \<Rightarrow> Some e
           | Inr role \<Rightarrow> if role = [] then Some (NotMemberOfTeam team) else None)"

definition record_of_request :: "crt \<Rightarrow> register_request \<Rightarrow> string \<Rightarrow> node_record" where
  "record_of_request rt req team = \<lparr>rcNodeID = rqNodeId req, rcPublicKey = rqPublicKey req, rcAddr = rqAddr req,
     rcHandles = rqHandles req,
     rcManifests = (if rqManifests req = [] then synthesizeManifests (rqDescs req) else rqManifests req),
     rcHeartbeat = crNow rt, rcIsRelay = rqIsRelay req, rcTeamID = team\<rparr>"

text \<open>The answer of a successful registration: team, user and name of the team.\<close>

definition RegisterNode :: "crt \<Rightarrow> register_request \<Rightarrow> coord \<Rightarrow> (string \<times> string \<times> string) cresult \<times> coord" where
  "RegisterNode rt req c =
     (case ValidateRegistration rt (coKey c) (rqAuthToken req) (rqNodeId req) (coStore c) of
        (Inl e, s) \<Rightarrow> (Inl e, c\<lparr>coStore := s\<rparr>)
      | (Inr res, s) \<Rightarrow>
          (let c = c\<lparr>coStore := s\<rparr>; team = team_of_request req res
           in case check_membership team (arEmail res) s of
                Some e \<Rightarrow> (Inl e, c)
              | None \<Rightarrow>
                  (case registry_RegisterNode (record_of_request rt req team) s of
                     Inl e \<Rightarrow> (Inl e, c)
                   | Inr s \<Rightarrow>
                       (let s = (if team \<noteq> [] then or_log (SetNodeTeam (rqNodeId req) team s) s else s);
                            c = broadcast rt (c\<lparr>coStore := s\<rparr>)
                        in (Inr (team, arEmail res, if team \<noteq> [] then resolveTeamName team s else []), c)))))"

definition Heartbeat ::
  "crt \<Rightarrow> string \<Rightarrow> string list \<Rightarrow> (string, string) gomap \<Rightarrow> (string, pb_manifest) gomap \<Rightarrow> coord \<Rightarrow> bool \<times> coord" where
  "Heartbeat rt nodeID handles descs manifests c =
     (let ms = (if manifests = [] then synthesizeManifests descs else manifests)
      in case UpdateHeartbeat (crNow rt) nodeID handles ms (coStore c) of
           Inl e \<Rightarrow> (False, c)
         | Inr s \<Rightarrow> (True, broadcast rt (c\<lparr>coStore := s\<rparr>)))"

text \<open>One turn of the reaper's loop.\<close>

definition reap :: "crt \<Rightarrow> int \<Rightarrow> coord \<Rightarrow> coord" where
  "reap rt ttl c =
     (case RemoveStaleNodes (crNow rt - ttl) (coStore c) of
        Inl e \<Rightarrow> c
      | Inr (n, s) \<Rightarrow> (let c = c\<lparr>coStore := s\<rparr> in if n > 0 then force_broadcast rt c else c))"

section \<open>The peer-map stream\<close>

definition watch_team :: "string \<Rightarrow> string \<Rightarrow> coord_store \<Rightarrow> string" where
  "watch_team nodeID team s =
     (if team = [] \<and> csOK s then case node_team s nodeID of Some t \<Rightarrow> t | None \<Rightarrow> [] else team)"

text \<open>
  The start of \<open>WatchPeerMap\<close>: the current map is sent (\<open>sendOK\<close>), then the watcher is added; the
  result is the first update and the channel. Then one update of the loop, and the end of the call.
\<close>

definition WatchPeerMap_open :: "string \<Rightarrow> string \<Rightarrow> bool \<Rightarrow> coord \<Rightarrow> (peer_update \<times> nat) cresult \<times> coord" where
  "WatchPeerMap_open nodeID reqTeam sendOK c =
     (let team = watch_team nodeID reqTeam (coStore c)
      in case BuildForTeam team (coStore c) (coPeers c) of
           (Inl e, pm) \<Rightarrow> (Inl e, c\<lparr>coPeers := pm\<rparr>)
         | (Inr u, pm) \<Rightarrow>
             if \<not> sendOK then (Inl SendFailed, c\<lparr>coPeers := pm\<rparr>)
             else (case AddWatcher nodeID team pm of (ch, pm) \<Rightarrow> (Inr (u, ch), c\<lparr>coPeers := pm\<rparr>)))"

datatype watch_event = Update peer_update | Idle | Ended

definition WatchPeerMap_next :: "nat \<Rightarrow> coord \<Rightarrow> watch_event \<times> coord" where
  "WatchPeerMap_next ch c =
     (case gget (pmChans (coPeers c)) ch of
        None \<Rightarrow> (Idle, c)
      | Some q \<Rightarrow>
          (case ch_buf q of
             u # us \<Rightarrow> (Update u, c\<lparr>coPeers := (coPeers c)\<lparr>pmChans := gput ch (q\<lparr>ch_buf := us\<rparr>) (pmChans (coPeers c))\<rparr>\<rparr>)
           | [] \<Rightarrow> (if ch_closed q then Ended else Idle, c)))"

definition WatchPeerMap_close :: "string \<Rightarrow> coord \<Rightarrow> coord" where
  "WatchPeerMap_close nodeID c = c\<lparr>coPeers := RemoveWatcher nodeID (coPeers c)\<rparr>"

section \<open>Lookups and rooms\<close>

definition rpc_LookupHandle :: "string \<Rightarrow> string \<Rightarrow> coord \<Rightarrow> pb_peer option cresult" where
  "rpc_LookupHandle h team c =
     (case LookupHandleInTeam h team (coStore c) of
        Inl e \<Rightarrow> Inl e | Inr None \<Rightarrow> Inr None | Inr (Some rec) \<Rightarrow> Inr (Some (peer_of_record rec)))"

definition rpc_UpsertRoom :: "crt \<Rightarrow> room_info option \<Rightarrow> string \<Rightarrow> coord \<Rightarrow> coord_err option \<times> coord" where
  "rpc_UpsertRoom rt room team c =
     (case room of
        None \<Rightarrow> (Some RoomRequired, c)
      | Some r \<Rightarrow> (case UpsertRoom r team (coStore c) of
                     Inl e \<Rightarrow> (Some e, c)
                   | Inr s \<Rightarrow> (None, broadcast rt (c\<lparr>coStore := s\<rparr>))))"

definition rpc_LookupRoom :: "string \<Rightarrow> string \<Rightarrow> coord \<Rightarrow> room_info option cresult" where
  "rpc_LookupRoom i team c = LookupRoom i team (coStore c)"

definition rpc_ListRoomsForHandle :: "string \<Rightarrow> string \<Rightarrow> coord \<Rightarrow> room_info list cresult" where
  "rpc_ListRoomsForHandle h team c = ListRoomsForHandle h team (coStore c)"

section \<open>Teams\<close>

definition validateJWT :: "crt \<Rightarrow> string \<Rightarrow> coord \<Rightarrow> claims cresult" where
  "validateJWT rt authToken c =
     (case coKey c of
        None \<Rightarrow> Inl JwtNotConfigured
      | Some key \<Rightarrow> (case Validate rt key authToken of
                       Inl e \<Rightarrow> Inl e
                     | Inr cl \<Rightarrow> if clType cl \<noteq> ''access'' then Inl (WrongTokenType (clType cl)) else Inr cl))"

definition with_store :: "coord_store cresult \<Rightarrow> coord \<Rightarrow> coord_err option \<times> coord" where
  "with_store r c = (case r of Inl e \<Rightarrow> (Some e, c) | Inr s \<Rightarrow> (None, c\<lparr>coStore := s\<rparr>))"

definition rpc_CreateTeam :: "crt \<Rightarrow> string \<Rightarrow> string \<Rightarrow> coord \<Rightarrow> coord_err option \<times> coord" where
  "rpc_CreateTeam rt authToken name c =
     (case validateJWT rt authToken c of
        Inl e \<Rightarrow> (Some e, c)
      | Inr cl \<Rightarrow> with_store (CreateTeam (crNow rt) (crIds rt 0) name (clEmail cl) (coStore c)) c)"

definition rpc_ListTeams :: "crt \<Rightarrow> string \<Rightarrow> coord \<Rightarrow> (string \<times> string \<times> string) list cresult" where
  "rpc_ListTeams rt authToken c =
     (case validateJWT rt authToken c of Inl e \<Rightarrow> Inl e | Inr cl \<Rightarrow> ListUserTeams (clEmail cl) (coStore c))"

definition rpc_GetTeamMembers :: "crt \<Rightarrow> string \<Rightarrow> string \<Rightarrow> coord \<Rightarrow> (string \<times> string) list cresult" where
  "rpc_GetTeamMembers rt authToken team c =
     (case validateJWT rt authToken c of
        Inl e \<Rightarrow> Inl e
      | Inr cl \<Rightarrow> (case GetUserTeamRole team (clEmail cl) (coStore c) of
                     Inl e \<Rightarrow> Inl e
                   | Inr role \<Rightarrow> if role = [] then Inl (NotMemberOfTeam team) else GetTeamMembers team (coStore c)))"

text \<open>The common start of the owners' calls: the caller's claims if the caller owns the team.\<close>

definition owner_claims :: "crt \<Rightarrow> string \<Rightarrow> string \<Rightarrow> coord \<Rightarrow> claims cresult" where
  "owner_claims rt authToken team c =
     (case validateJWT rt authToken c of
        Inl e \<Rightarrow> Inl e
      | Inr cl \<Rightarrow> (case GetUserTeamRole team (clEmail cl) (coStore c) of
                     Inl e \<Rightarrow> Inl e
                   | Inr role \<Rightarrow> if role \<noteq> ''owner'' then Inl OwnersOnly else Inr cl))"

text \<open>\<open>time.Duration(ttlSeconds) * time.Second\<close> wraps at 64 bits.\<close>

definition duration64 :: "int \<Rightarrow> int" where
  "duration64 x = (x + 2 ^ 63) mod 2 ^ 64 - 2 ^ 63"

definition rpc_CreateTeamInvite ::
  "crt \<Rightarrow> string \<Rightarrow> string \<Rightarrow> int \<Rightarrow> int \<Rightarrow> coord \<Rightarrow> (string \<times> int) cresult \<times> coord" where
  "rpc_CreateTeamInvite rt authToken team reqMaxUses ttlSeconds c =
     (case owner_claims rt authToken team c of
        Inl e \<Rightarrow> (Inl e, c)
      | Inr cl \<Rightarrow>
          (let maxUses = (if reqMaxUses \<le> 0 then 1 else reqMaxUses);
               ttl = duration64 (ttlSeconds * second);
               ttl = (if ttl \<le> 0 then 7 * 24 * 3600 * second else ttl);
               expiresAt = crNow rt + ttl;
               code = crIds rt 0 @ ''-'' @ crIds rt 1
           in case CreateTeamInvite (crNow rt) code team (clEmail cl) expiresAt maxUses (coStore c) of
                Inl e \<Rightarrow> (Inl e, c)
              | Inr s \<Rightarrow> (Inr (code, unix expiresAt), c\<lparr>coStore := s\<rparr>)))"

definition rpc_AcceptTeamInvite :: "crt \<Rightarrow> string \<Rightarrow> string \<Rightarrow> coord \<Rightarrow> (string \<times> string) cresult \<times> coord" where
  "rpc_AcceptTeamInvite rt authToken code c =
     (case validateJWT rt authToken c of
        Inl e \<Rightarrow> (Inl e, c)
      | Inr cl \<Rightarrow>
          (case ConsumeTeamInvite (crNow rt) code (coStore c) of
             Inl e \<Rightarrow> (Inl e, c)
           | Inr (team, s) \<Rightarrow>
               (case AddTeamMember (crNow rt) team (clEmail cl) ''member'' s of
                  Inl e \<Rightarrow> (Inl e, c\<lparr>coStore := s\<rparr>)
                | Inr s \<Rightarrow> (Inr (team, resolveTeamName team s), c\<lparr>coStore := s\<rparr>))))"

definition rpc_RemoveTeamMember :: "crt \<Rightarrow> string \<Rightarrow> string \<Rightarrow> string \<Rightarrow> coord \<Rightarrow> coord_err option \<times> coord" where
  "rpc_RemoveTeamMember rt authToken team email c =
     (case owner_claims rt authToken team c of
        Inl e \<Rightarrow> (Some e, c)
      | Inr cl \<Rightarrow> if email = clEmail cl then (Some CannotRemoveSelf, c)
                   else with_store (RemoveTeamMember team email (coStore c)) c)"

definition owner_count :: "(string \<times> string) list \<Rightarrow> nat" where
  "owner_count ms = length (filter (\<lambda>(e, r). r = ''owner'') ms)"

definition rpc_UpdateTeamMemberRole ::
  "crt \<Rightarrow> string \<Rightarrow> string \<Rightarrow> string \<Rightarrow> string \<Rightarrow> coord \<Rightarrow> coord_err option \<times> coord" where
  "rpc_UpdateTeamMemberRole rt authToken team email role c =
     (case validateJWT rt authToken c of
        Inl e \<Rightarrow> (Some e, c)
      | Inr _ \<Rightarrow>
          if role \<noteq> ''owner'' \<and> role \<noteq> ''member'' then (Some BadRole, c)
          else (case owner_claims rt authToken team c of
                  Inl e \<Rightarrow> (Some e, c)
                | Inr cl \<Rightarrow>
                    (let update = with_store (UpdateTeamMemberRole team email role (coStore c)) c
                     in if email = clEmail cl \<and> role \<noteq> ''owner''
                        then case GetTeamMembers team (coStore c) of
                               Inl e \<Rightarrow> (Some e, c)
                             | Inr ms \<Rightarrow> if owner_count ms \<le> 1 then (Some LastOwner, c) else update
                        else update)))"

definition rpc_DeleteTeam :: "crt \<Rightarrow> string \<Rightarrow> string \<Rightarrow> coord \<Rightarrow> coord_err option \<times> coord" where
  "rpc_DeleteTeam rt authToken team c =
     (case owner_claims rt authToken team c of
        Inl e \<Rightarrow> (Some e, c)
      | Inr cl \<Rightarrow>
          (case DeleteTeam team (coStore c) of
             Inl e \<Rightarrow> (Some e, c)
           | Inr s \<Rightarrow> (None, force_broadcast rt (c\<lparr>coStore := s\<rparr>))))"

end
