(* ===== verification/Coord_Frame.thy ===== *)
theory Coord_Frame
  imports Coord_Server
begin

text \<open>
  What a call leaves as it was. A relation between stores that every statement of a group respects is
  respected by the calls made of those statements: admission, registration, and the calls of running
  nodes. The theories on handles, tokens, owners and invites interpret these interfaces.
\<close>

lemma broadcast_simps [simp]:
  "coStore (broadcast rt c) = coStore c" "coStore (force_broadcast rt c) = coStore c"
  "coKey (broadcast rt c) = coKey c" "coKey (force_broadcast rt c) = coKey c"
  by (simp_all add: broadcast_def force_broadcast_def)

lemma registry_RegisterNode_upserts: "registry_RegisterNode rec s = Inr s' \<Longrightarrow> UpsertNode rec s = Inr s'"
  by (auto simp: registry_RegisterNode_def split: option.splits sum.splits)

locale admission_frame =
  fixes keep :: "coord_store \<Rightarrow> coord_store \<Rightarrow> bool"
  assumes keep_refl: "keep s s"
    and keep_trans: "keep s t \<Longrightarrow> keep t u \<Longrightarrow> keep s u"
    and keep_user: "UpsertUser now email s = Inr s' \<Longrightarrow> keep s s'"
    and keep_bind: "BindNodeToUser now n email s = Inr s' \<Longrightarrow> keep s s'"
    and keep_consume: "ValidateAndConsumeToken now hash n s = Inr s' \<Longrightarrow> keep s s'"
    and keep_create: "CreateTeam now team name email s = Inr s' \<Longrightarrow> keep s s'"
begin

lemma keep_or_log: "(\<And>s'. r = Inr s' \<Longrightarrow> keep s s') \<Longrightarrow> keep s (or_log r s)"
  by (simp add: or_log_def keep_refl split: sum.splits)

lemma keep_personal: "keep s (snd (EnsurePersonalTeam now ids em s))"
  by (auto simp: EnsurePersonalTeam_def Let_def keep_refl split: sum.splits list.splits intro: keep_create)

lemma keep_admission: "keep s (snd (ValidateRegistration rt key tok n s))"
proof -
  have "keep s (snd (EnsurePersonalTeam now ids em (or_log (BindNodeToUser t n em (or_log (UpsertUser t em s) s)) (or_log (UpsertUser t em s) s))))"
    for now ids em t
    by (rule keep_trans [OF keep_trans [OF keep_or_log keep_or_log] keep_personal]) (auto intro: keep_user keep_bind)
  then show ?thesis
    by (simp add: ValidateRegistration_def Let_def keep_refl keep_consume split: option.split sum.split)
qed

lemma keep_with_store: "(\<And>s'. r = Inr s' \<Longrightarrow> keep (coStore c) s') \<Longrightarrow> keep (coStore c) (coStore (snd (with_store r c)))"
  by (simp add: with_store_def keep_refl split: sum.splits)

lemma keep_rpc_CreateTeam: "keep (coStore c) (coStore (snd (rpc_CreateTeam rt tok name c)))"
  by (auto simp: rpc_CreateTeam_def keep_refl split: sum.splits intro!: keep_with_store intro: keep_create)

lemma keep_watch:
  "keep (coStore c) (coStore (snd (WatchPeerMap_open n t ok c)))" "keep (coStore c) (coStore (WatchPeerMap_close n c))"
  by (auto simp: WatchPeerMap_open_def WatchPeerMap_close_def Let_def keep_refl split: prod.splits sum.splits)

end

locale registration_frame = admission_frame +
  assumes keep_upsert: "UpsertNode rec s = Inr s' \<Longrightarrow> keep s s'"
    and keep_set_team: "SetNodeTeam n team s = Inr s' \<Longrightarrow> keep s s'"
begin

lemma keep_after_admission:
  assumes v: "ValidateRegistration rt (coKey c) (rqAuthToken req) (rqNodeId req) (coStore c) = (r, s)"
  shows "keep s (coStore (snd (RegisterNode rt req c)))"
proof -
  have "keep s s1" "keep s (or_log (SetNodeTeam n team s1) s1)" if "registry_RegisterNode rec s = Inr s1" for rec s1 n team
  proof -
    show s1: "keep s s1" using keep_upsert [OF registry_RegisterNode_upserts [OF that]] .
    show "keep s (or_log (SetNodeTeam n team s1) s1)" by (rule keep_trans [OF s1 keep_or_log]) (rule keep_set_team)
  qed
  then show ?thesis by (auto simp: RegisterNode_def v Let_def keep_refl split: sum.splits option.splits)
qed

lemma keep_register: "keep (coStore c) (coStore (snd (RegisterNode rt req c)))"
  by (rule keep_trans [OF keep_admission keep_after_admission [OF surjective_pairing]])

end

locale node_frame = registration_frame +
  assumes keep_heartbeat: "UpdateHeartbeat now n hs ms s = Inr s' \<Longrightarrow> keep s s'"
    and keep_stale: "RemoveStaleNodes now s = Inr (k, s') \<Longrightarrow> keep s s'"
    and keep_room: "UpsertRoom room team s = Inr s' \<Longrightarrow> keep s s'"
begin

lemma keep_node_calls:
  "keep (coStore c) (coStore (snd (Heartbeat rt n hs ds ms c)))" "keep (coStore c) (coStore (reap rt ttl c))"
  "keep (coStore c) (coStore (snd (rpc_UpsertRoom rt r t c)))"
  by (auto simp: Heartbeat_def reap_def rpc_UpsertRoom_def Let_def keep_refl
      split: prod.splits sum.splits option.splits intro: keep_heartbeat keep_stale keep_room)

end

end
