(* ===== verification/Coord_Handles.thy ===== *)
theory Coord_Handles
  imports Coord_Frame
begin

text \<open>
  Who owns a handle at the coordination server: the invariant that registration keeps, runs of the
  server's calls, and the call that does not keep it.
\<close>

section \<open>Handles are unique within a team\<close>

text \<open>Every handle row belongs to a node, and no two nodes of a team offer the same handle.\<close>

definition store_inv :: "coord_store \<Rightarrow> bool" where
  "store_inv s \<longleftrightarrow> gwf (csNodes s) \<and> (\<forall>r\<in>set (csHandles s). gget (csNodes s) (hrNode r) \<noteq> None)"

definition offers :: "coord_store \<Rightarrow> string \<Rightarrow> string \<Rightarrow> bool" where
  "offers s n h \<longleftrightarrow> (\<exists>r\<in>set (csHandles s). hrNode r = n \<and> hrHandle r = h)"

definition team_unique :: "coord_store \<Rightarrow> bool" where
  "team_unique s \<longleftrightarrow> (\<forall>team n m h. team \<noteq> [] \<longrightarrow> node_team s n = Some team \<longrightarrow> node_team s m = Some team \<longrightarrow>
     offers s n h \<longrightarrow> offers s m h \<longrightarrow> n = m)"

lemma team_uniqueD:
  "team_unique s \<Longrightarrow> team \<noteq> [] \<Longrightarrow> node_team s n = Some team \<Longrightarrow> node_team s m = Some team \<Longrightarrow>
     offers s n h \<Longrightarrow> offers s m h \<Longrightarrow> n = m"
  unfolding team_unique_def by blast

lemma insert_handles_Inr:
  "insert_handles s ms n hs rows = Inr rows' \<Longrightarrow> rows' = rows @ map (new_handle_row s ms n) hs"
  by (induction hs arbitrary: rows) (fastforce split: if_splits)+

lemma new_handle_row_simps [simp]:
  "hrHandle (new_handle_row s ms n h) = h" "hrNode (new_handle_row s ms n h) = n"
  by (simp_all add: new_handle_row_def Let_def)

lemma rcNodeID_load_record [simp]: "rcNodeID (load_record s a b n row) = n"
  by (simp add: load_record_def Let_def)

lemma set_rows_without [simp]: "set (rows_without n rows) = {r \<in> set rows. hrNode r \<noteq> n}"
  by (auto simp: rows_without_def)

lemma UpsertNode_Inr:
  assumes "UpsertNode rec s = Inr s'"
  shows "gget (csNodes s') = (gget (csNodes s))(rcNodeID rec \<mapsto> \<lparr>nrPublicKey = rcPublicKey rec, nrAddr = rcAddr rec,
      nrHeartbeat = unix (rcHeartbeat rec), nrIsRelay = rcIsRelay rec, nrTeam = rcTeamID rec\<rparr>)"
    and "offers s' n h \<longleftrightarrow> (if n = rcNodeID rec then h \<in> set (rcHandles rec) else offers s n h)"
    and "store_inv s \<Longrightarrow> store_inv s'" and "csOK s"
proof -
  obtain row where s': "csOK s" "s' = s\<lparr>csNodes := gput (rcNodeID rec) row (csNodes s),
      csHandles := rows_without (rcNodeID rec) (csHandles s) @ map (new_handle_row s (rcManifests rec) (rcNodeID rec)) (rcHandles rec)\<rparr>"
    and row: "row = \<lparr>nrPublicKey = rcPublicKey rec, nrAddr = rcAddr rec,
      nrHeartbeat = unix (rcHeartbeat rec), nrIsRelay = rcIsRelay rec, nrTeam = rcTeamID rec\<rparr>"
    using assms by (auto simp: UpsertNode_def sql_def Let_def dest!: insert_handles_Inr split: if_splits sum.splits)
  show "csOK s" using s'(1) .
  show "gget (csNodes s') = (gget (csNodes s))(rcNodeID rec \<mapsto> \<lparr>nrPublicKey = rcPublicKey rec, nrAddr = rcAddr rec,
      nrHeartbeat = unix (rcHeartbeat rec), nrIsRelay = rcIsRelay rec, nrTeam = rcTeamID rec\<rparr>)"
    by (simp add: s'(2) row)
  have H: "set (csHandles s') = {r \<in> set (csHandles s). hrNode r \<noteq> rcNodeID rec} \<union>
      new_handle_row s (rcManifests rec) (rcNodeID rec) ` set (rcHandles rec)"
    by (simp add: s'(2))
  show "offers s' n h \<longleftrightarrow> (if n = rcNodeID rec then h \<in> set (rcHandles rec) else offers s n h)"
    unfolding offers_def H by (auto simp: bex_Un)
  show "store_inv s'" if "store_inv s"
    using that unfolding store_inv_def H by (auto simp: s'(2))
qed

lemma node_team_upsert:
  "UpsertNode rec s = Inr s' \<Longrightarrow> node_team s' n = (if n = rcNodeID rec then Some (rcTeamID rec) else node_team s n)"
  by (simp add: node_team_def UpsertNode_Inr(1))

text \<open>What a lookup within a team answers.\<close>

lemma LookupHandleInTeam_spec:
  assumes "store_inv s" and "csOK s" and "team \<noteq> []"
  shows "LookupHandleInTeam h team s = Inr None \<longleftrightarrow> (\<forall>n. node_team s n = Some team \<longrightarrow> \<not> offers s n h)"
    and "LookupHandleInTeam h team s = Inr (Some rec) \<Longrightarrow> node_team s (rcNodeID rec) = Some team \<and> offers s (rcNodeID rec) h"
    and "\<exists>r. LookupHandleInTeam h team s = Inr r"
proof -
  let ?rows = "filter (\<lambda>r. hrHandle r = h \<and> node_team s (hrNode r) = Some team) (csHandles s)"
  have mem: "r \<in> set (csHandles s) \<and> hrHandle r = h \<and> node_team s (hrNode r) = Some team"
    if "?rows = r # rs" for r rs
  proof -
    have "r \<in> set ?rows" by (simp only: that list.set_intros)
    then show ?thesis by simp
  qed
  have L: "LookupHandleInTeam h team s = (case ?rows of [] \<Rightarrow> Inr None | r # _ \<Rightarrow>
      (case gget (csNodes s) (hrNode r) of None \<Rightarrow> Inl DbError | Some row \<Rightarrow> Inr (Some (load_record s False True (hrNode r) row))))"
    using assms(2,3) by (simp add: LookupHandleInTeam_def sql_def)
  have node: "gget (csNodes s) (hrNode r) \<noteq> None" if "?rows = r # rs" for r rs
    using mem [OF that] assms(1) by (auto simp: store_inv_def)
  have nil: "?rows = [] \<longleftrightarrow> (\<forall>n. node_team s n = Some team \<longrightarrow> \<not> offers s n h)"
    by (auto simp: filter_empty_conv offers_def)
  show "LookupHandleInTeam h team s = Inr None \<longleftrightarrow> (\<forall>n. node_team s n = Some team \<longrightarrow> \<not> offers s n h)"
    unfolding L nil [symmetric] using node by (auto split: list.splits option.splits)
  show "\<exists>r. LookupHandleInTeam h team s = Inr r"
    unfolding L using node by (auto split: list.splits option.splits)
  show "node_team s (rcNodeID rec) = Some team \<and> offers s (rcNodeID rec) h" if "LookupHandleInTeam h team s = Inr (Some rec)"
  proof (cases ?rows)
    case Nil
    then show ?thesis using that unfolding L by simp
  next
    case (Cons r rs)
    then have "rcNodeID rec = hrNode r" using that unfolding L by (auto split: option.splits)
    then show ?thesis using mem [OF Cons] by (auto simp: offers_def)
  qed
qed

lemma check_conflicts_None:
  assumes "store_inv s" and "csOK s" and "team \<noteq> []" and "team_unique s" and "check_conflicts n team hs s = None"
    and "h \<in> set hs" and "node_team s m = Some team" and "offers s m h"
  shows "m = n"
  using assms(5,6)
proof (induction hs)
  case (Cons x hs)
  show ?case
  proof (cases "h = x")
    case True
    obtain rec where rec: "LookupHandleInTeam x team s = Inr (Some rec)"
      using LookupHandleInTeam_spec(1,3) [OF assms(1-3), of x] assms(7,8) True by (metis not_None_eq)
    then have "rcNodeID rec = n" using Cons.prems(1) by (auto split: if_splits)
    moreover have "rcNodeID rec = m"
      using LookupHandleInTeam_spec(2) [OF assms(1-3) rec] team_uniqueD [OF assms(4,3) _ assms(7) _ assms(8)] True by blast
    ultimately show ?thesis by simp
  next
    case False
    then show ?thesis using Cons by (auto split: sum.splits option.splits if_splits)
  qed
qed simp

lemma registry_RegisterNode_inv:
  assumes "store_inv s" and "team_unique s" and "registry_RegisterNode rec s = Inr s'"
  shows "store_inv s' \<and> team_unique s'"
proof -
  have c: "check_conflicts (rcNodeID rec) (rcTeamID rec) (rcHandles rec) s = None" and u: "UpsertNode rec s = Inr s'"
    using assms(3) by (auto simp: registry_RegisterNode_def split: option.splits sum.splits)
  have ok: "csOK s" using UpsertNode_Inr(4) [OF u] .
  have "n = m" if t: "team \<noteq> []" "node_team s' n = Some team" "node_team s' m = Some team" "offers s' n h" "offers s' m h"
    for team n m h
  proof -
    let ?n = "rcNodeID rec"
    note t' = t(2-5) [unfolded node_team_upsert [OF u] UpsertNode_Inr(2) [OF u]]
    have clash: "k = ?n" if "rcTeamID rec = team" "h \<in> set (rcHandles rec)" "node_team s k = Some team" "offers s k h" for k
      using check_conflicts_None [OF assms(1) ok t(1) assms(2) c [unfolded that(1)] that(2-4)] .
    consider "n = ?n" "m = ?n" | "n = ?n" "m \<noteq> ?n" | "n \<noteq> ?n" "m = ?n" | "n \<noteq> ?n" "m \<noteq> ?n" by blast
    then show ?thesis
    proof cases
      case 2
      have "rcTeamID rec = team" "h \<in> set (rcHandles rec)" using t'(1,3) 2(1) by simp_all
      moreover have "node_team s m = Some team" "offers s m h" using t'(2,4) 2(2) by simp_all
      ultimately have "m = ?n" by (rule clash)
      with 2 show ?thesis by simp
    next
      case 3
      have "rcTeamID rec = team" "h \<in> set (rcHandles rec)" using t'(2,4) 3(2) by simp_all
      moreover have "node_team s n = Some team" "offers s n h" using t'(1,3) 3(1) by simp_all
      ultimately have "n = ?n" by (rule clash)
      with 3 show ?thesis by simp
    next
      case 4
      have "node_team s n = Some team" "node_team s m = Some team" "offers s n h" "offers s m h"
        using t' 4 by simp_all
      then show ?thesis by (rule team_uniqueD [OF assms(2) t(1)])
    qed simp
  qed
  then have "team_unique s'" unfolding team_unique_def by (intro allI impI)
  then show ?thesis using UpsertNode_Inr(3) [OF u assms(1)] by simp
qed

text \<open>The other statements that touch nodes or handles.\<close>

lemma nodes_untouched:
  "csNodes s' = csNodes s \<Longrightarrow> csHandles s' = csHandles s \<Longrightarrow>
     (store_inv s' \<and> team_unique s') = (store_inv s \<and> team_unique s)"
  by (simp add: store_inv_def team_unique_def node_team_def offers_def)

lemma gget_filter_key: "gget (filter (\<lambda>(k, v). P k) m) k = (if P k then gget m k else None)"
  by (induction m) auto

lemma remove_nodes_inv:
  assumes "store_inv s" and "team_unique s"
  shows "store_inv (remove_nodes P s) \<and> team_unique (remove_nodes P s)"
proof -
  define gone where "gone = map fst (filter (\<lambda>(n, row). P n row) (csNodes s))"
  define s' where "s' = remove_nodes P s"
  have s': "csNodes s' = filter (\<lambda>(n, row). n \<notin> set gone) (csNodes s)" "csHandles s' = filter (\<lambda>r. hrNode r \<notin> set gone) (csHandles s)"
    by (simp_all add: s'_def remove_nodes_def Let_def gone_def)
  have "gget (csNodes s') n = (if n \<notin> set gone then gget (csNodes s) n else None)" for n
    unfolding s' by (rule gget_filter_key)
  then have "node_team s' n = Some t \<Longrightarrow> node_team s n = Some t" "offers s' n h \<Longrightarrow> offers s n h" "store_inv s'" for n t h
    using assms(1) gwf_filter [of "csNodes s"]
    by (auto simp: node_team_def offers_def store_inv_def s' split: if_splits)
  then have "store_inv s' \<and> team_unique s'"
    using assms(2) unfolding team_unique_def by blast
  then show ?thesis by (simp add: s'_def)
qed

lemma DeleteTeam_inv:
  assumes "store_inv s" and "team_unique s" and "DeleteTeam t s = Inr s'"
  shows "store_inv s' \<and> team_unique s'"
proof -
  have s': "csNodes s' = map (\<lambda>(n, row). (n, if nrTeam row = t then row\<lparr>nrTeam := []\<rparr> else row)) (csNodes s)"
    "csHandles s' = csHandles s"
    using assms(3) by (auto simp: DeleteTeam_def sql_def split: if_splits)
  have g: "gget (csNodes s') n = map_option (\<lambda>row. if nrTeam row = t then row\<lparr>nrTeam := []\<rparr> else row) (gget (csNodes s) n)" for n
    unfolding s'(1) by (rule gget_map_snd)
  have "node_team s n = Some team" if "node_team s' n = Some team" "team \<noteq> []" for n team
    using that by (auto simp: node_team_def g split: if_splits)
  moreover have "offers s' n h = offers s n h" for n h by (simp add: offers_def s')
  moreover have "store_inv s'"
    using assms(1) by (auto simp: store_inv_def s' g [unfolded s'])
  ultimately show ?thesis
    using assms(2) unfolding team_unique_def by blast
qed

lemma SetNodeTeam_same:
  assumes "registry_RegisterNode rec s = Inr s'" and "rcTeamID rec = team" and "rcNodeID rec = n"
    and "SetNodeTeam n team s' = Inr s''"
  shows "csHandles s'' = csHandles s' \<and> gget (csNodes s'') = gget (csNodes s') \<and> (gwf (csNodes s') \<longrightarrow> gwf (csNodes s''))"
proof -
  have "UpsertNode rec s = Inr s'"
    using registry_RegisterNode_upserts [OF assms(1)] .
  then obtain row where "gget (csNodes s') n = Some row" "nrTeam row = team"
    using UpsertNode_Inr(1) [of rec s s'] assms(2,3) by auto
  then show ?thesis
    using assms(4) by (auto simp: SetNodeTeam_def sql_def fun_eq_iff split: if_splits)
qed

text \<open>Admission and the calls about teams and rooms do not touch nodes and handles.\<close>

definition same_nodes :: "coord_store \<Rightarrow> coord_store \<Rightarrow> bool" where
  "same_nodes s s' \<longleftrightarrow> csNodes s' = csNodes s \<and> csHandles s' = csHandles s \<and> csOK s' = csOK s"

lemma same_nodes_stmts:
  "ValidateAndConsumeToken now hs n s = Inr s' \<Longrightarrow> same_nodes s s'"
  "UpsertUser now em s = Inr s' \<Longrightarrow> same_nodes s s'"
  "BindNodeToUser now n em s = Inr s' \<Longrightarrow> same_nodes s s'"
  "CreateTeam now i nm em s = Inr s' \<Longrightarrow> same_nodes s s'"
  "AddTeamMember now i em ro s = Inr s' \<Longrightarrow> same_nodes s s'"
  "RemoveTeamMember i em s = Inr s' \<Longrightarrow> same_nodes s s'"
  "UpdateTeamMemberRole i em ro s = Inr s' \<Longrightarrow> same_nodes s s'"
  "CreateTeamInvite now cd i em ex mu s = Inr s' \<Longrightarrow> same_nodes s s'"
  "ConsumeTeamInvite now cd s = Inr (t, s') \<Longrightarrow> same_nodes s s'"
  "UpsertRoom room t s = Inr s' \<Longrightarrow> same_nodes s s'"
  by (auto simp: same_nodes_def sql_def Let_def ValidateAndConsumeToken_def UpsertUser_def BindNodeToUser_def
      CreateTeam_def AddTeamMember_def RemoveTeamMember_def UpdateTeamMemberRole_def CreateTeamInvite_def ConsumeTeamInvite_def
      UpsertRoom_def split: if_splits list.splits option.splits sum.splits)

interpretation nodes_kept: admission_frame same_nodes
  by unfold_locales (simp add: same_nodes_def, simp add: same_nodes_def, (erule same_nodes_stmts)+)

section \<open>Runs of the server\<close>

datatype coord_op =
    OpRegister crt register_request
  | OpHeartbeat crt string "string list" "(string, string) gomap" "(string, pb_manifest) gomap"
  | OpReap crt int
  | OpWatch string string bool
  | OpUnwatch string
  | OpUpsertRoom crt "room_info option" string
  | OpCreateTeam crt string string
  | OpInvite crt string string int int
  | OpAccept crt string string
  | OpRemoveMember crt string string string
  | OpRole crt string string string string
  | OpDeleteTeam crt string string

fun run_coord_op :: "coord_op \<Rightarrow> coord \<Rightarrow> coord" where
  "run_coord_op (OpRegister rt req) c = snd (RegisterNode rt req c)"
| "run_coord_op (OpHeartbeat rt n hs ds ms) c = snd (Heartbeat rt n hs ds ms c)"
| "run_coord_op (OpReap rt ttl) c = reap rt ttl c"
| "run_coord_op (OpWatch n t ok) c = snd (WatchPeerMap_open n t ok c)"
| "run_coord_op (OpUnwatch n) c = WatchPeerMap_close n c"
| "run_coord_op (OpUpsertRoom rt room t) c = snd (rpc_UpsertRoom rt room t c)"
| "run_coord_op (OpCreateTeam rt tok name) c = snd (rpc_CreateTeam rt tok name c)"
| "run_coord_op (OpInvite rt tok t mu ttl) c = snd (rpc_CreateTeamInvite rt tok t mu ttl c)"
| "run_coord_op (OpAccept rt tok code) c = snd (rpc_AcceptTeamInvite rt tok code c)"
| "run_coord_op (OpRemoveMember rt tok t em) c = snd (rpc_RemoveTeamMember rt tok t em c)"
| "run_coord_op (OpRole rt tok t em ro) c = snd (rpc_UpdateTeamMemberRole rt tok t em ro c)"
| "run_coord_op (OpDeleteTeam rt tok t) c = snd (rpc_DeleteTeam rt tok t c)"

fun is_heartbeat :: "coord_op \<Rightarrow> bool" where
  "is_heartbeat (OpHeartbeat rt n hs ds ms) = True"
| "is_heartbeat _ = False"

lemma same_nodes_ops:
  "same_nodes (coStore c) (coStore (snd (rpc_UpsertRoom rt room t c)))"
  "same_nodes (coStore c) (coStore (snd (rpc_CreateTeamInvite rt tok t mu ttl c)))"
  "same_nodes (coStore c) (coStore (snd (rpc_RemoveTeamMember rt tok t em c)))"
  by (auto simp: rpc_UpsertRoom_def rpc_CreateTeamInvite_def rpc_RemoveTeamMember_def Let_def nodes_kept.keep_refl
      split: prod.splits sum.splits option.splits intro: same_nodes_stmts intro!: nodes_kept.keep_with_store)

lemma same_nodes_role: "same_nodes (coStore c) (coStore (snd (rpc_UpdateTeamMemberRole rt tok t em ro c)))"
proof -
  have "same_nodes (coStore c) (coStore (snd (with_store (UpdateTeamMemberRole t em ro (coStore c)) c)))"
    by (rule nodes_kept.keep_with_store) (rule same_nodes_stmts)
  then show ?thesis by (auto simp: rpc_UpdateTeamMemberRole_def Let_def nodes_kept.keep_refl split: sum.splits)
qed

lemma same_nodes_accept: "same_nodes (coStore c) (coStore (snd (rpc_AcceptTeamInvite rt tok code c)))"
  by (auto simp: rpc_AcceptTeamInvite_def nodes_kept.keep_refl split: sum.splits prod.splits
      intro: same_nodes_stmts nodes_kept.keep_trans [OF same_nodes_stmts(9) same_nodes_stmts(5)])

section \<open>Every call but the heartbeat keeps handles unique\<close>

definition handles_ok :: "coord \<Rightarrow> bool" where
  "handles_ok c \<longleftrightarrow> store_inv (coStore c) \<and> team_unique (coStore c)"

lemma handles_ok_same_nodes: "same_nodes (coStore c) (coStore c') \<Longrightarrow> handles_ok c \<Longrightarrow> handles_ok c'"
  using nodes_untouched [of "coStore c'" "coStore c"] by (simp add: handles_ok_def same_nodes_def)

lemma inv_same_lookup:
  assumes "csHandles s' = csHandles s" and "gget (csNodes s') = gget (csNodes s)" and "gwf (csNodes s) \<longrightarrow> gwf (csNodes s')"
    and "store_inv s \<and> team_unique s"
  shows "store_inv s' \<and> team_unique s'"
proof -
  have "node_team s' = node_team s" "offers s' = offers s" by (simp_all add: node_team_def offers_def assms(1,2) fun_eq_iff)
  then have "team_unique s' = team_unique s" unfolding team_unique_def by (simp only:)
  moreover have "store_inv s \<longrightarrow> store_inv s'" unfolding store_inv_def assms(1,2) using assms(3) by blast
  ultimately show ?thesis using assms(4) by blast
qed

lemma handles_ok_register:
  assumes "handles_ok c"
  shows "handles_ok (snd (RegisterNode rt req c))"
proof -
  obtain r s where v: "ValidateRegistration rt (coKey c) (rqAuthToken req) (rqNodeId req) (coStore c) = (r, s)"
    by (cases "ValidateRegistration rt (coKey c) (rqAuthToken req) (rqNodeId req) (coStore c)")
  have same: "same_nodes (coStore c) s"
    using nodes_kept.keep_admission [of "coStore c" rt "coKey c" "rqAuthToken req" "rqNodeId req"] v by simp
  then have inv: "store_inv s \<and> team_unique s"
    using handles_ok_same_nodes [of c "c\<lparr>coStore := s\<rparr>"] assms by (simp add: handles_ok_def)
  have step: "store_inv (or_log (SetNodeTeam (rqNodeId req) team s1) s1) \<and> team_unique (or_log (SetNodeTeam (rqNodeId req) team s1) s1)"
    "store_inv s1 \<and> team_unique s1"
    if reg: "registry_RegisterNode (record_of_request rt req team) s = Inr s1" for team s1
  proof -
    show i1: "store_inv s1 \<and> team_unique s1" using registry_RegisterNode_inv [OF _ _ reg] inv by blast
    have "csHandles s2 = csHandles s1 \<and> gget (csNodes s2) = gget (csNodes s1) \<and> (gwf (csNodes s1) \<longrightarrow> gwf (csNodes s2))"
      if "SetNodeTeam (rqNodeId req) team s1 = Inr s2" for s2
      by (rule SetNodeTeam_same [OF reg _ _ that]) (simp_all add: record_of_request_def)
    then have "store_inv s2 \<and> team_unique s2" if "SetNodeTeam (rqNodeId req) team s1 = Inr s2" for s2
      using inv_same_lookup [of s2 s1] i1 that by metis
    then show "store_inv (or_log (SetNodeTeam (rqNodeId req) team s1) s1) \<and> team_unique (or_log (SetNodeTeam (rqNodeId req) team s1) s1)"
      unfolding or_log_def using i1 by (simp split: sum.split)
  qed
  show ?thesis
    using inv step by (auto simp: RegisterNode_def v Let_def handles_ok_def split: sum.splits option.splits)
qed

lemma handles_ok_reap: "handles_ok c \<Longrightarrow> handles_ok (reap rt ttl c)"
  using remove_nodes_inv
  by (auto simp: reap_def RemoveStaleNodes_def sql_def handles_ok_def Let_def split: sum.splits)

lemma handles_ok_delete: "handles_ok c \<Longrightarrow> handles_ok (snd (rpc_DeleteTeam rt tok t c))"
  using DeleteTeam_inv [of "coStore c" t]
  by (auto simp: rpc_DeleteTeam_def handles_ok_def split: sum.splits)

lemmas handles_ok_unaffected = same_nodes_role same_nodes_accept same_nodes_ops nodes_kept.keep_watch nodes_kept.keep_rpc_CreateTeam

lemma handles_ok_op: "handles_ok c \<Longrightarrow> \<not> is_heartbeat op \<Longrightarrow> handles_ok (run_coord_op op c)"
  by (cases op)
    (simp_all add: handles_ok_register handles_ok_reap handles_ok_delete handles_ok_unaffected [THEN handles_ok_same_nodes])

lemma handles_ok_run: "handles_ok c \<Longrightarrow> \<forall>op\<in>set ops. \<not> is_heartbeat op \<Longrightarrow> handles_ok (fold run_coord_op ops c)"
  by (induction ops arbitrary: c) (simp_all add: handles_ok_op)

section \<open>What a team is told\<close>

lemma load_record_simps [simp]:
  "rcHandles (load_record s f full n row) = map hrHandle (filter (\<lambda>r. hrNode r = n) (csHandles s))"
  "rcIsRelay (load_record s f True n row) = nrIsRelay row"
  "rcTeamID (load_record s f True n row) = nrTeam row"
  by (simp_all add: load_record_def Let_def)

lemma offers_load_record: "h \<in> set (rcHandles (load_record s f full n row)) \<longleftrightarrow> offers s n h"
  by (auto simp: offers_def)

lemma peer_of_record_simps [simp]:
  "ppNodeId (peer_of_record rec) = rcNodeID rec" "ppHandles (peer_of_record rec) = rcHandles rec"
  by (simp_all add: peer_of_record_def)

lemma team_peers:
  assumes "store_inv s" and "team \<noteq> []" and "BuildForTeam team s pm = (Inr u, pm')" and "p \<in> set (puPeers u)"
  shows "node_team s (ppNodeId p) = Some team" and "h \<in> set (ppHandles p) \<longleftrightarrow> offers s (ppNodeId p) h"
proof -
  have "puPeers u = map peer_of_record (filter (\<lambda>n. \<not> rcIsRelay n) (map (\<lambda>(n, row). load_record s True True n row)
      (filter (\<lambda>(n, row). nrTeam row = team \<or> nrIsRelay row) (csNodes s))))"
    using assms(2,3) by (auto simp: BuildForTeam_def GetNodesByTeam_def sql_def Let_def split: sum.splits if_splits)
  then obtain n row where p: "(n, row) \<in> set (csNodes s)" "nrTeam row = team" "p = peer_of_record (load_record s True True n row)"
    using assms(4) by auto
  then have "gget (csNodes s) n = Some row" using assms(1) by (simp add: store_inv_def gget_eq_Some_iff)
  then show "node_team s (ppNodeId p) = Some team" by (simp add: p(2,3) node_team_def)
  show "h \<in> set (ppHandles p) \<longleftrightarrow> offers s (ppNodeId p) h"
    by (simp only: p(3) peer_of_record_simps offers_load_record rcNodeID_load_record)
qed

lemma LookupHandleInTeam_handles:
  "LookupHandleInTeam h team s = Inr (Some rec) \<Longrightarrow> team \<noteq> [] \<Longrightarrow> offers s (rcNodeID rec) h' \<longleftrightarrow> h' \<in> set (rcHandles rec)"
  by (auto simp: LookupHandleInTeam_def sql_def offers_load_record simp del: load_record_simps
      split: if_splits list.splits option.splits)

text \<open>
  C18. Handles are unique within a team as long as they change by registration. After any sequence of
  calls without heartbeats on a server that started without nodes, a handle offered by a node of a
  team is found by a lookup in the team exactly at that node, with the handle in its list, and no other
  peer of an update built for the team lists it.
\<close>

lemma handles_unique_per_team:
  assumes "csNodes (coStore c) = []" and "csHandles (coStore c) = []" and "\<forall>op\<in>set ops. \<not> is_heartbeat op"
    and "c' = fold run_coord_op ops c" and "csOK (coStore c')" and "team \<noteq> []"
    and "node_team (coStore c') n = Some team" and "offers (coStore c') n h"
  shows "(\<exists>p. rpc_LookupHandle h team c' = Inr (Some p) \<and> ppNodeId p = n \<and> h \<in> set (ppHandles p)) \<and>
    (\<forall>u pm p. BuildForTeam team (coStore c') (coPeers c') = (Inr u, pm) \<longrightarrow> p \<in> set (puPeers u) \<longrightarrow>
       h \<in> set (ppHandles p) \<longrightarrow> ppNodeId p = n)"
proof -
  have "handles_ok c"
    by (simp add: handles_ok_def store_inv_def team_unique_def offers_def assms(1,2) gwf_def)
  then have ok: "store_inv (coStore c')" "team_unique (coStore c')"
    using handles_ok_run [OF _ assms(3)] by (simp_all add: assms(4) handles_ok_def)
  have uniq: "m = n" if "node_team (coStore c') m = Some team" "offers (coStore c') m h" for m
    using team_uniqueD [OF ok(2) assms(6) that(1) assms(7) that(2) assms(8)] .
  note L = LookupHandleInTeam_spec [OF ok(1) assms(5,6), of h]
  obtain rec where rec: "LookupHandleInTeam h team (coStore c') = Inr (Some rec)"
    using L(1,3) assms(7,8) by (metis not_None_eq)
  then have "rcNodeID rec = n" and "h \<in> set (rcHandles rec)"
    using uniq L(2) LookupHandleInTeam_handles [OF rec assms(6)] by blast+
  then have "\<exists>p. rpc_LookupHandle h team c' = Inr (Some p) \<and> ppNodeId p = n \<and> h \<in> set (ppHandles p)"
    by (simp add: rpc_LookupHandle_def rec)
  moreover have "ppNodeId p = n" if "BuildForTeam team (coStore c') (coPeers c') = (Inr u, pm)" "p \<in> set (puPeers u)" "h \<in> set (ppHandles p)"
    for u pm p
    using team_peers [OF ok(1) assms(6) that(1,2)] that(3) uniq by blast
  ultimately show ?thesis by blast
qed

text \<open>
  Heartbeats are not checked. When a node of a team offers a handle, the registration of the same
  handle by another node of the team is refused as claimed, but a heartbeat of that other node that
  lists the handle is accepted, and then both nodes offer it.
\<close>

lemma heartbeat_takes_claimed_handle:
  assumes "store_inv (coStore c)" and "team_unique (coStore c)" and "csOK (coStore c)" and "team \<noteq> []" and "n \<noteq> m"
    and "node_team (coStore c) n = Some team" and "node_team (coStore c) m = Some team" and "offers (coStore c) n h"
    and "rcNodeID rec = m" and "rcTeamID rec = team" and "rcHandles rec = [h]"
  shows "registry_RegisterNode rec (coStore c) = Inl (HandleClaimed h n) \<and>
    (\<exists>c'. Heartbeat rt m [h] ds ms c = (True, c') \<and> offers (coStore c') n h \<and> offers (coStore c') m h)"
proof
  note L = LookupHandleInTeam_spec [OF assms(1,3,4), of h]
  obtain r where r: "LookupHandleInTeam h team (coStore c) = Inr (Some r)"
    using L(1,3) assms(6,8) by (metis not_None_eq)
  have "rcNodeID r = n"
    using team_uniqueD [OF assms(2,4) _ assms(6) _ assms(8)] L(2) [OF r] by blast
  then show "registry_RegisterNode rec (coStore c) = Inl (HandleClaimed h n)"
    using r assms(5) by (simp add: registry_RegisterNode_def assms(9-11))
  obtain row where row: "gget (csNodes (coStore c)) m = Some row" using assms(7) by (auto simp: node_team_def)
  define s' where "s' = (coStore c)\<lparr>csNodes := gput m (row\<lparr>nrHeartbeat := unix (crNow rt)\<rparr>) (csNodes (coStore c)),
      csHandles := replace_handles (coStore c) (if ms = [] then synthesizeManifests ds else ms) m [h] (rows_without m (csHandles (coStore c)))\<rparr>"
  have "Heartbeat rt m [h] ds ms c = (True, broadcast rt (c\<lparr>coStore := s'\<rparr>))"
    using assms(3) by (simp add: Heartbeat_def UpdateHeartbeat_def sql_def row s'_def Let_def)
  moreover have "offers s' n h" "offers s' m h"
    using assms(5,8) by (auto simp: s'_def offers_def)
  ultimately show "\<exists>c'. Heartbeat rt m [h] ds ms c = (True, c') \<and> offers (coStore c') n h \<and> offers (coStore c') m h"
    by simp
qed

text \<open>A small server for the witnesses: open admission, and two nodes of team \<open>t\<close>.\<close>

definition demo_rt :: crt where
  "demo_rt = \<lparr>crNow = 5 * second, crIds = (\<lambda>i. CHR ''x'' # replicate i CHR ''i''), crSha = (\<lambda>s. s),
     crJwt = \<lparr>jlSign = (\<lambda>k c. None), jlParse = (\<lambda>k now t. None)\<rparr>\<rparr>"

definition demo_request :: "string \<Rightarrow> string list \<Rightarrow> register_request" where
  "demo_request n hs = \<lparr>rqNodeId = n, rqPublicKey = ''k'', rqAddr = ''a:1'', rqHandles = hs, rqDescs = [], rqManifests = [],
     rqIsRelay = False, rqAuthToken = [], rqTeamId = ''t''\<rparr>"

definition demo_coord :: coord where
  "demo_coord = NewServer (NewStore (\<lambda>m. None) (\<lambda>t. None))"

definition demo_team :: coord where
  "demo_team = fold run_coord_op [OpRegister demo_rt (demo_request ''n1'' [''h'']), OpRegister demo_rt (demo_request ''n2'' [])] demo_coord"

lemmas demo_eval = demo_rt_def demo_request_def demo_coord_def demo_team_def NewServer_def NewStore_def RegisterNode_def
  ValidateRegistration_def HasAuthTokens_def has_prefix_def sql_def check_membership_def team_of_request_def
  registry_RegisterNode_def record_of_request_def LookupHandleInTeam_def UpsertNode_def rows_without_def has_handle_row_def
  SetNodeTeam_def or_log_def Let_def synthesizeManifests_def new_handle_row_def marshalManifest_def

lemma demo_team_facts:
  "csOK (coStore demo_team)" "node_team (coStore demo_team) ''n1'' = Some ''t''" "node_team (coStore demo_team) ''n2'' = Some ''t''"
  "offers (coStore demo_team) ''n1'' ''h''" "handles_ok demo_team"
proof -
  show "csOK (coStore demo_team)" "node_team (coStore demo_team) ''n1'' = Some ''t''" "node_team (coStore demo_team) ''n2'' = Some ''t''"
    "offers (coStore demo_team) ''n1'' ''h''"
    by (simp_all add: demo_eval node_team_def offers_def)
  show "handles_ok demo_team"
    unfolding demo_team_def
    by (rule handles_ok_run) (simp_all add: handles_ok_def store_inv_def team_unique_def offers_def demo_coord_def NewServer_def NewStore_def)
qed

theorem handles_unique_per_team_witness:
  "\<exists>p. rpc_LookupHandle ''h'' ''t'' demo_team = Inr (Some p) \<and> ppNodeId p = ''n1'' \<and> ''h'' \<in> set (ppHandles p)"
proof -
  have "csNodes (coStore demo_coord) = []" "csHandles (coStore demo_coord) = []"
    by (simp_all add: demo_coord_def NewServer_def NewStore_def)
  from handles_unique_per_team [OF this _ demo_team_def demo_team_facts(1) _ demo_team_facts(2,4)]
  show ?thesis by simp
qed

theorem heartbeat_takes_claimed_handle_witness:
  "registry_RegisterNode (record_of_request demo_rt (demo_request ''n2'' [''h'']) ''t'') (coStore demo_team) = Inl (HandleClaimed ''h'' ''n1'') \<and>
    (\<exists>c'. Heartbeat demo_rt ''n2'' [''h''] [] [] demo_team = (True, c') \<and> offers (coStore c') ''n1'' ''h'' \<and> offers (coStore c') ''n2'' ''h'')"
  by (rule heartbeat_takes_claimed_handle [OF _ _ demo_team_facts(1) _ _ demo_team_facts(2,3,4)])
    (use demo_team_facts(5) in \<open>simp_all add: handles_ok_def record_of_request_def demo_request_def\<close>)

end
