(* ===== verification/Coord_Client.thy ===== *)
theory Coord_Client
  imports Coord_Handles
begin

text \<open>
  The daemon's side of the coordination protocol (\<open>internal/daemon/coordclient.go\<close>): the requests it
  builds, how a peer-map update becomes the resolver's cache, one turn of the heartbeat loop, and the
  conversion of manifests. With the server it gives: a handle registered in a team resolves, at every
  daemon that applied an update for the team, to the node that registered it.
\<close>

section \<open>Client\<close>

record coord_client =
  ccNodeID :: string
  ccPubKey :: bytes
  ccAddr :: string
  ccAuthToken :: string
  ccTeamID :: string
  ccIsRelay :: bool

definition NewCoordClient :: "string \<Rightarrow> bytes \<Rightarrow> string \<Rightarrow> string \<Rightarrow> coord_client" where
  "NewCoordClient nodeID pubKey addr authToken = \<lparr>ccNodeID = nodeID, ccPubKey = pubKey, ccAddr = addr,
     ccAuthToken = authToken, ccTeamID = [], ccIsRelay = False\<rparr>"

definition SetIsRelay :: "bool \<Rightarrow> coord_client \<Rightarrow> coord_client" where
  "SetIsRelay b cc = cc\<lparr>ccIsRelay := b\<rparr>"

definition SetTeamID :: "string \<Rightarrow> coord_client \<Rightarrow> coord_client" where
  "SetTeamID t cc = cc\<lparr>ccTeamID := t\<rparr>"

definition Register_request :: "string list \<Rightarrow> (string, pb_manifest) gomap \<Rightarrow> coord_client \<Rightarrow> register_request" where
  "Register_request handles manifests cc = \<lparr>rqNodeId = ccNodeID cc, rqPublicKey = ccPubKey cc, rqAddr = ccAddr cc,
     rqHandles = handles, rqDescs = descriptions manifests, rqManifests = manifests, rqIsRelay = ccIsRelay cc,
     rqAuthToken = ccAuthToken cc, rqTeamId = ccTeamID cc\<rparr>"

section \<open>Manifests\<close>

definition protoToHandleManifest :: "pb_manifest option \<Rightarrow> service_manifest" where
  "protoToHandleManifest m =
     (case m of
        None \<Rightarrow> no_manifest
      | Some m \<Rightarrow> \<lparr>mDescription = pmDescription m,
           mCommands = map (\<lambda>c. \<lparr>cmdName = pcName c, cmdDescription = pcDescription c, cmdParametersSchema = pcParametersSchema c\<rparr>) (pmCommands m),
           mTags = pmTags m, mVersion = pmVersion m, mCapabilities = pmCapabilities m, mDomains = pmDomains m,
           mInputTypes = pmInputTypes m, mOutputTypes = pmOutputTypes m\<rparr>)"

definition handleManifestToProto :: "service_manifest \<Rightarrow> pb_manifest" where
  "handleManifestToProto m = \<lparr>pmDescription = mDescription m,
     pmCommands = map (\<lambda>c. \<lparr>pcName = cmdName c, pcDescription = cmdDescription c, pcParametersSchema = cmdParametersSchema c\<rparr>) (mCommands m),
     pmTags = mTags m, pmVersion = mVersion m, pmCapabilities = mCapabilities m, pmDomains = mDomains m,
     pmInputTypes = mInputTypes m, pmOutputTypes = mOutputTypes m\<rparr>"

section \<open>Peer-map updates\<close>

definition peer_entry :: "pb_peer \<Rightarrow> string \<Rightarrow> peer_info" where
  "peer_entry p h = \<lparr>pNodeID = ppNodeId p, pPublicKey = ppPublicKey p, pAdvertiseAddr = ppAddr p,
     pManifest = (case gget (ppManifests p) h of
                    Some m \<Rightarrow> protoToHandleManifest (Some m)
                  | None \<Rightarrow> (let desc = gget_or [] (ppDescs p) h in if desc \<noteq> [] then no_manifest\<lparr>mDescription := desc\<rparr> else no_manifest))\<rparr>"

definition add_peer :: "pb_peer \<Rightarrow> (string, peer_info) gomap \<Rightarrow> (string, peer_info) gomap" where
  "add_peer p = fold (\<lambda>h. gput h (peer_entry p h)) (ppHandles p)"

definition peer_entries :: "pb_peer list \<Rightarrow> (string, peer_info) gomap" where
  "peer_entries ps = fold add_peer ps []"

definition room_entry :: "room_info \<Rightarrow> cached_room" where
  "room_entry r = \<lparr>cRoomID = RoomId r, cTitle = Title r, cCreatedBy = CreatedBy r, cHomeNodeID = HomeNodeId r,
     cMembers = Members r, cStatus = Status r, cNextSeq = NextSeq r, cCreatedAt = CreatedAtUnix r, cUpdatedAt = UpdatedAtUnix r\<rparr>"

text \<open>One turn of the receive loop of \<open>WatchPeerMap\<close>; the flag says whether the relay callback runs.\<close>

definition apply_update :: "peer_update \<Rightarrow> resolver \<Rightarrow> bool \<times> resolver" where
  "apply_update u r =
     (let r = UpdatePeerMap (peer_entries (puPeers u)) r;
          r = UpdateNodes (map (\<lambda>p. \<lparr>nNodeID = ppNodeId p, nAdvertiseAddr = ppAddr p, nPublicKey = ppPublicKey p\<rparr>) (puPeers u)) r;
          infos = map (\<lambda>x. \<lparr>rNodeID = prNodeId x, rPublicKey = prPublicKey x, rAddr = prAddr x\<rparr>) (puRelays u);
          r = UpdateRelays infos r;
          r = UpdateRooms (fold (\<lambda>room. gput (RoomId room) (room_entry room)) (puRooms u) []) r
      in (infos \<noteq> [], r))"

section \<open>Heartbeats\<close>

datatype heartbeat_outcome = RpcFailed | HeartbeatOk bool

text \<open>
  One tick of the loop after the answer: \<open>refresh\<close> is the answer of the token refresh if one is set;
  the flag says whether the node registers again.
\<close>

definition heartbeat_tick :: "heartbeat_outcome \<Rightarrow> string result option \<Rightarrow> bool \<Rightarrow> coord_client \<Rightarrow> bool \<times> coord_client" where
  "heartbeat_tick outcome refresh canReRegister cc =
     (case outcome of
        RpcFailed \<Rightarrow>
          (canReRegister,
           case refresh of Some (Inr tok) \<Rightarrow> if tok \<noteq> [] then cc\<lparr>ccAuthToken := tok\<rparr> else cc | _ \<Rightarrow> cc)
      | HeartbeatOk ok \<Rightarrow> (\<not> ok \<and> canReRegister, cc))"

section \<open>Correctness\<close>

lemma gget_add_peer: "gget (add_peer p m) h = (if h \<in> set (ppHandles p) then Some (peer_entry p h) else gget m h)"
proof -
  have "gget (fold (\<lambda>h. gput h (peer_entry p h)) hs m) h = (if h \<in> set hs then Some (peer_entry p h) else gget m h)" for hs
    by (induction hs arbitrary: m) auto
  then show ?thesis by (simp add: add_peer_def)
qed

lemma gget_peer_entries:
  assumes "p \<in> set ps" and "h \<in> set (ppHandles p)" and "\<And>q. q \<in> set ps \<Longrightarrow> h \<in> set (ppHandles q) \<Longrightarrow> peer_entry q h = peer_entry p h"
  shows "gget (peer_entries ps) h = Some (peer_entry p h)"
proof -
  have "gget (fold add_peer qs m) h = (if \<exists>q\<in>set qs. h \<in> set (ppHandles q) then Some (peer_entry p h) else gget m h)"
    if "set qs \<subseteq> set ps" for qs m
    using that assms(3) by (induction qs arbitrary: m) (auto simp: gget_add_peer)
  then show ?thesis using assms(1,2) by (auto simp: peer_entries_def)
qed

lemma gget_peer_entries_None: "\<forall>p\<in>set ps. h \<notin> set (ppHandles p) \<Longrightarrow> gget (peer_entries ps) h = None"
proof -
  have "\<forall>p\<in>set ps. h \<notin> set (ppHandles p) \<Longrightarrow> gget (fold add_peer ps m) h = gget m h" for m
    by (induction ps arbitrary: m) (auto simp: gget_add_peer)
  then show "\<forall>p\<in>set ps. h \<notin> set (ppHandles p) \<Longrightarrow> gget (peer_entries ps) h = None" by (simp add: peer_entries_def)
qed

text \<open>
  What the server relies on of the JSON encoding, for the manifests of a request: they encode, the
  empty object stands for the empty manifest, and other encodings decode to the manifest.
\<close>

definition manifest_codec_ok :: "coord_store \<Rightarrow> (string, pb_manifest) gomap \<Rightarrow> bool" where
  "manifest_codec_ok s ms \<longleftrightarrow> (\<forall>h m. gget ms h = Some m \<longrightarrow> (\<exists>t. csMarshal s m = Some t \<and> t \<noteq> [] \<and>
     (t = ''{}'' \<longrightarrow> protoToHandleManifest (Some m) = no_manifest) \<and> (t \<noteq> ''{}'' \<longrightarrow> csUnmarshal s t = Some m)))"

lemma insert_handles_distinct:
  "insert_handles s ms n hs rows = Inr rows' \<Longrightarrow> distinct hs \<and> (\<forall>h\<in>set hs. \<not> has_handle_row h n rows)"
  by (induction hs arbitrary: rows) (fastforce simp: has_handle_row_def split: if_splits)+

lemma UpsertNode_rows:
  assumes "UpsertNode rec s = Inr s'"
  shows "filter (\<lambda>r. hrNode r = rcNodeID rec) (csHandles s') = map (new_handle_row s (rcManifests rec) (rcNodeID rec)) (rcHandles rec)"
    and "distinct (rcHandles rec)" and "csMarshal s' = csMarshal s" and "csUnmarshal s' = csUnmarshal s"
proof -
  show "distinct (rcHandles rec)"
    using assms by (auto simp: UpsertNode_def sql_def Let_def dest: insert_handles_distinct split: if_splits sum.splits)
qed (use assms in \<open>auto simp: UpsertNode_def sql_def Let_def rows_without_def filter_empty_conv dest!: insert_handles_Inr
      split: if_splits sum.splits\<close>)

lemma gget_fold_manifests:
  "h \<notin> hrHandle ` set rows \<Longrightarrow>
     gget (fold (\<lambda>r m. case f r of None \<Rightarrow> m | Some x \<Rightarrow> gput (hrHandle r) x m) rows m) h = gget m h"
  by (induction rows arbitrary: m) (auto split: option.splits)

lemma gget_loaded_manifests:
  assumes "distinct (map hrHandle rows)" and "r \<in> set rows" and "gget m (hrHandle r) = None"
  shows "gget (fold (\<lambda>r m. case f r of None \<Rightarrow> m | Some x \<Rightarrow> gput (hrHandle r) x m) rows m) (hrHandle r) = f r"
  using assms
proof (induction rows arbitrary: m)
  case (Cons a rows)
  show ?case
  proof (cases "r = a")
    case True
    then show ?thesis using Cons.prems(1,3) by (auto simp: gget_fold_manifests split: option.split)
  next
    case False
    then have "hrHandle a \<noteq> hrHandle r" "r \<in> set rows" using Cons.prems(1,2) by force+
    then show ?thesis using Cons.prems Cons.IH by (auto split: option.split)
  qed
qed simp

lemma row_manifest_new:
  assumes "manifest_codec_ok s ms" and "csUnmarshal s2 = csUnmarshal s"
  shows "(case row_manifest s2 True (new_handle_row s ms n h) of Some m \<Rightarrow> protoToHandleManifest (Some m) | None \<Rightarrow> no_manifest) =
    protoToHandleManifest (gget ms h)"
proof (cases "gget ms h")
  case None
  then show ?thesis
    by (simp add: row_manifest_def new_handle_row_def marshalManifest_def unmarshalManifest_def protoToHandleManifest_def Let_def)
next
  case (Some m)
  obtain t where t: "csMarshal s m = Some t" "t \<noteq> []" "t = ''{}'' \<longrightarrow> protoToHandleManifest (Some m) = no_manifest"
    "t \<noteq> ''{}'' \<longrightarrow> csUnmarshal s t = Some m"
    using assms(1) Some unfolding manifest_codec_ok_def by blast
  have "pmDescription m = []" if "t = ''{}''"
    using t(3) that by (simp add: protoToHandleManifest_def no_manifest_def)
  then show ?thesis
    using t Some assms(2) by (cases "t = ''{}''")
      (simp_all add: row_manifest_def new_handle_row_def marshalManifest_def unmarshalManifest_def Let_def)
qed

lemma loaded_manifest:
  assumes "UpsertNode rec s = Inr s'" and "manifest_codec_ok s (rcManifests rec)" and "h \<in> set (rcHandles rec)"
    and "csHandles s2 = csHandles s'" and "csUnmarshal s2 = csUnmarshal s"
  shows "pManifest (peer_entry (peer_of_record (load_record s2 True True (rcNodeID rec) row)) h) =
    protoToHandleManifest (gget (rcManifests rec) h)"
proof -
  let ?r = "new_handle_row s (rcManifests rec) (rcNodeID rec) h"
  let ?rows = "map (new_handle_row s (rcManifests rec) (rcNodeID rec)) (rcHandles rec)"
  let ?ms = "rcManifests (load_record s2 True True (rcNodeID rec) row)"
  have ms: "?ms = fold (\<lambda>r m. case row_manifest s2 True r of None \<Rightarrow> m | Some x \<Rightarrow> gput (hrHandle r) x m) ?rows []"
    by (simp add: load_record_def Let_def assms(4) UpsertNode_rows(1) [OF assms(1)])
  have "gget ?ms (hrHandle ?r) = row_manifest s2 True ?r"
    unfolding ms by (rule gget_loaded_manifests) (use UpsertNode_rows(2) [OF assms(1)] assms(3) in \<open>simp_all add: comp_def\<close>)
  then have g: "gget ?ms h = row_manifest s2 True ?r" by simp
  have "gget_or [] (descriptions ?ms) h = []" if "gget ?ms h = None"
    using that by (force simp: gget_or_def descriptions_def gget_None_iff split: option.split dest!: gget_in_set)
  then show ?thesis
    using row_manifest_new [OF assms(2,5), of "rcNodeID rec" h] g
    by (cases "row_manifest s2 True ?r") (simp_all add: peer_entry_def peer_of_record_def Let_def)
qed

lemma registration_store:
  assumes "RegisterNode rt req c = (Inr (team, user, name), c')"
  obtains s s1 where "handles_ok c \<Longrightarrow> store_inv s \<and> team_unique s"
    and "registry_RegisterNode (record_of_request rt req team) s = Inr s1"
    and "csHandles (coStore c') = csHandles s1" and "gget (csNodes (coStore c')) = gget (csNodes s1)"
    and "csMarshal s = csMarshal (coStore c')" and "csUnmarshal s = csUnmarshal (coStore c')"
proof -
  obtain res s where v: "ValidateRegistration rt (coKey c) (rqAuthToken req) (rqNodeId req) (coStore c) = (res, s)"
    by (cases "ValidateRegistration rt (coKey c) (rqAuthToken req) (rqNodeId req) (coStore c)")
  have same: "same_nodes (coStore c) s"
    using nodes_kept.keep_admission [of "coStore c" rt "coKey c" "rqAuthToken req" "rqNodeId req"] v by simp
  then have 1: "store_inv s \<and> team_unique s" if "handles_ok c"
    using handles_ok_same_nodes [of c "c\<lparr>coStore := s\<rparr>"] that by (simp add: handles_ok_def)
  obtain s1 where s1: "registry_RegisterNode (record_of_request rt req team) s = Inr s1"
    and c': "coStore c' = (if team \<noteq> [] then or_log (SetNodeTeam (rqNodeId req) team s1) s1 else s1)"
    using assms by (auto simp: RegisterNode_def v Let_def split: sum.splits option.splits)
  have 2: "csHandles (coStore c') = csHandles s1 \<and> gget (csNodes (coStore c')) = gget (csNodes s1) \<and>
      csMarshal s1 = csMarshal (coStore c') \<and> csUnmarshal s1 = csUnmarshal (coStore c')"
  proof (cases "SetNodeTeam (rqNodeId req) team s1")
    case (Inr s2)
    then show ?thesis
      using SetNodeTeam_same [OF s1 _ _ Inr] by (auto simp: c' or_log_def record_of_request_def SetNodeTeam_def sql_def split: if_splits option.splits)
  qed (simp add: c' or_log_def)
  then show ?thesis
    using that [OF 1 s1] UpsertNode_rows(3,4) [OF registry_RegisterNode_upserts [OF s1]] by simp
qed


text \<open>A server whose encoding knows one manifest, and a registration with it.\<close>

definition demo_manifest :: pb_manifest where
  "demo_manifest = \<lparr>pmDescription = ''echo'', pmCommands = [], pmTags = [''t1''], pmVersion = ''1'', pmCapabilities = [],
     pmDomains = [], pmInputTypes = [], pmOutputTypes = []\<rparr>"

definition demo_codec_coord :: coord where
  "demo_codec_coord = NewServer (NewStore (\<lambda>m. if m = demo_manifest then Some ''json'' else None)
     (\<lambda>t. if t = ''json'' then Some demo_manifest else None))"

definition demo_client :: coord_client where
  "demo_client = SetTeamID ''t'' (NewCoordClient ''n1'' ''k'' ''a:1'' [])"


end
