(* ===== verification/Node_Status.thy ===== *)
theory Node_Status
  imports Room_Publish Coord_Client
begin

text \<open>
  What a daemon tells its clients about itself: sessions, status of the node, activity, traces,
  introspection and discovery (\<open>internal/daemon/agentserver.go\<close>). Discovery merges the handles of the
  node with those of the peer map; it is proved equal to one ranked search of the whole directory.
\<close>

section \<open>Sessions and status\<close>

text \<open>Conversion to \<open>int32\<close>.\<close>

definition int32 :: "int \<Rightarrow> int" where
  "int32 i = sint (word_of_int i :: 32 word)"

record session_info =
  siId :: string
  siFrom :: string
  siTo :: string
  siState :: string
  siCreated :: int
  siUpdated :: int

definition session_info_of :: "session \<Rightarrow> session_info" where
  "session_info_of x = \<lparr>siId = sID x, siFrom = sFrom x, siTo = sTo x, siState = sState x,
     siCreated = unix (sCreatedAt x), siUpdated = unix (sUpdatedAt x)\<rparr>"

definition rpc_ListSessions :: "string \<Rightarrow> ('r, 'w) daemon \<Rightarrow> session_info list" where
  "rpc_ListSessions h d = map session_info_of (ListByHandle (dSessions d) h)"

definition queueDepth :: "string \<Rightarrow> ('r, 'w) daemon \<Rightarrow> int" where
  "queueDepth h d = sum_list (map (\<lambda>c. int (length (chan_of d c))) (gget_or [] (dSubs d) h))"

record handle_status =
  hiName :: string
  hiSubscribers :: int
  hiQueueDepth :: int
  hiIn :: "64 word"
  hiOut :: "64 word"
  hiDrops :: "64 word"
  hiManifest :: "pb_manifest option"
  hiDescription :: string

definition handle_status_of :: "('r, 'w) daemon \<Rightarrow> string \<Rightarrow> handle_status" where
  "handle_status_of d h =
     (let hi = \<lparr>hiName = h, hiSubscribers = int32 (int (length (gget_or [] (dSubs d) h))), hiQueueDepth = int32 (queueDepth h d),
                hiIn = 0, hiOut = 0, hiDrops = 0, hiManifest = None, hiDescription = []\<rparr>;
          hi = (case gget (dStats d) h of
                  None \<Rightarrow> hi
                | Some hs \<Rightarrow> hi\<lparr>hiIn := msgsIn hs, hiOut := msgsOut hs, hiDrops := drops hs\<rparr>)
      in case gget (dManifests d) h of
           None \<Rightarrow> hi
         | Some m \<Rightarrow> hi\<lparr>hiManifest := Some m, hiDescription := pmDescription m\<rparr>)"

record peer_status =
  psNode :: string
  psAddr :: string
  psHandles :: "string list"
  psConnected :: bool
  psConnectivity :: string

definition other_nodes :: "('r, 'w) daemon \<Rightarrow> (string, string) gomap" where
  "other_nodes d = fold (\<lambda>n m. if nNodeID n = dNode d then m else gput (nNodeID n) (nAdvertiseAddr n) m) (GetNodes (dResolver d)) []"

definition node_handles :: "('r, 'w) daemon \<Rightarrow> (string, string list) gomap" where
  "node_handles d = fold (\<lambda>(h, info) m. if pNodeID info = dNode d then m
     else gput (pNodeID info) (gget_or [] m (pNodeID info) @ [h]) m) (GetPeerMap (dResolver d)) []"

definition peer_status_of :: "('r, 'w) daemon \<Rightarrow> string \<times> string \<Rightarrow> peer_status" where
  "peer_status_of d = (\<lambda>(n, a).
     let ps = \<lparr>psNode = n, psAddr = a, psHandles = gget_or [] (node_handles d) n, psConnected = False, psConnectivity = []\<rparr>
     in if a \<in> set (ConnectedAddrs (dTransport d)) then ps\<lparr>psConnected := True, psConnectivity := ''direct''\<rparr>
        else if ConnectedRelayAddrs (dTransport d) \<noteq> [] then ps\<lparr>psConnected := True, psConnectivity := ''relay''\<rparr>
        else ps\<lparr>psConnected := False, psConnectivity := ''offline''\<rparr>)"

definition peer_statuses :: "('r, 'w) daemon \<Rightarrow> peer_status list" where
  "peer_statuses d = map (peer_status_of d) (other_nodes d)"

record relay_status =
  rsNode :: string
  rsAddr :: string
  rsConnected :: bool

definition relay_statuses :: "('r, 'w) daemon \<Rightarrow> relay_status list" where
  "relay_statuses d = map (\<lambda>r. \<lparr>rsNode = rNodeID r, rsAddr = rAddr r, rsConnected = rAddr r \<in> set (ConnectedRelayAddrs (dTransport d))\<rparr>)
     (GetRelays (dResolver d))"

record node_status =
  stNode :: string
  stStarted :: time
  stHandles :: "handle_status list"
  stPeers :: "peer_status list"
  stSessions :: "session_info list"
  stCounters :: bus_counters
  stRelays :: "relay_status list"
  stRooms :: "room_info list"
  stUsage :: "usage_history list"

text \<open>The resolver, the transport, the room manager, the bus and the usage history are set in a running daemon.\<close>

definition GetNodeStatus :: "time \<Rightarrow> ('r, 'w) daemon \<Rightarrow> node_status result" where
  "GetNodeStatus started d =
     (let handles = map (handle_status_of d) (gkeys (dHandles d))
      in case DashboardRooms (map hiName handles) d of
           Inl e \<Rightarrow> Inl e
         | Inr rms \<Rightarrow> Inr \<lparr>stNode = dNode d, stStarted = started, stHandles = handles, stPeers = peer_statuses d,
             stSessions = map session_info_of (ListAll (dSessions d)), stCounters = Counters (dBus d),
             stRelays = relay_statuses d, stRooms = rms, stUsage = fst (LoadUsageHistory (dStore d))\<rparr>)"

definition rpc_GetTrace :: "string \<Rightarrow> ('r, 'w) daemon \<Rightarrow> trace_span list" where
  "rpc_GetTrace t d = GetTrace t (dTrace d)"

section \<open>Activity stream\<close>

text \<open>
  \<open>WatchActivity\<close> subscribes, then forwards events until the stream fails or the client leaves, and
  unsubscribes. A turn takes the oldest buffered event and says what became of it.
\<close>

datatype watch_turn = Forwarded activity_event | SendFailed activity_event | ClientGone | NothingYet

definition WatchActivity_open :: "('r, 'w) daemon \<Rightarrow> nat \<times> ('r, 'w) daemon" where
  "WatchActivity_open d = (case SubscribeBus (dBus d) of (c, b) \<Rightarrow> (c, d\<lparr>dBus := b\<rparr>))"

definition WatchActivity_close :: "nat \<Rightarrow> ('r, 'w) daemon \<Rightarrow> ('r, 'w) daemon" where
  "WatchActivity_close c d = d\<lparr>dBus := UnsubscribeBus c (dBus d)\<rparr>"

definition take_event :: "nat \<Rightarrow> activity_bus \<Rightarrow> activity_event option \<times> activity_bus" where
  "take_event c b =
     (case filter (\<lambda>ch. ch_id ch = c) (busSubs b) of
        [] \<Rightarrow> (None, b)
      | ch # _ \<Rightarrow>
          (case ch_buf ch of
             [] \<Rightarrow> (None, b)
           | e # es \<Rightarrow> (Some e, b\<lparr>busSubs := map (\<lambda>ch. if ch_id ch = c then ch\<lparr>ch_buf := es\<rparr> else ch) (busSubs b)\<rparr>)))"

definition WatchActivity_turn :: "bool \<Rightarrow> bool \<Rightarrow> nat \<Rightarrow> ('r, 'w) daemon \<Rightarrow> watch_turn \<times> ('r, 'w) daemon" where
  "WatchActivity_turn gone fails c d =
     (if gone then (ClientGone, WatchActivity_close c d)
      else case take_event c (dBus d) of
             (None, b) \<Rightarrow> (NothingYet, d)
           | (Some e, b) \<Rightarrow>
               if fails then (SendFailed e, WatchActivity_close c (d\<lparr>dBus := b\<rparr>)) else (Forwarded e, d\<lparr>dBus := b\<rparr>))"

section \<open>Discovery\<close>

record introspection =
  inHandle :: string
  inFound :: bool
  inManifest :: "pb_manifest option"
  inDescription :: string

definition IntrospectHandle :: "string \<Rightarrow> ('r, 'w) daemon \<Rightarrow> introspection" where
  "IntrospectHandle h d =
     (case gget (dManifests d) h of
        Some m \<Rightarrow> \<lparr>inHandle = h, inFound = True, inManifest = Some m, inDescription = pmDescription m\<rparr>
      | None \<Rightarrow>
          (case GetManifest (dResolver d) h of
             Some m \<Rightarrow> \<lparr>inHandle = h, inFound = True, inManifest = Some (handleManifestToProto m), inDescription = mDescription m\<rparr>
           | None \<Rightarrow> \<lparr>inHandle = h, inFound = False, inManifest = None, inDescription = []\<rparr>))"

definition matchesTagsProto :: "pb_manifest option \<Rightarrow> string list \<Rightarrow> bool" where
  "matchesTagsProto m required =
     (if required = [] then True
      else case m of
             None \<Rightarrow> False
           | Some m \<Rightarrow> (let tagSet = fold (\<lambda>t. gput t True) (pmTags m) [] in list_all (\<lambda>r. gget_or False tagSet r) required))"

definition rpc_ListHandles :: "string list \<Rightarrow> ('r, 'w) daemon \<Rightarrow> (string \<times> pb_manifest option) list" where
  "rpc_ListHandles tags d =
     (let local = filter (\<lambda>(h, m). matchesTagsProto m tags) (map (\<lambda>h. (h, gget (dManifests d) h)) (gkeys (dHandles d)));
          remote = filter (\<lambda>(h, m). h \<notin> set (map fst local)) (ListHandlesByTags (dResolver d) tags)
      in local @ map (\<lambda>(h, m). (h, Some (handleManifestToProto m))) remote)"

record find_match =
  fmHandle :: string
  fmManifest :: pb_manifest
  fmScore :: int
  fmReasons :: "string list"

definition find_match_of :: "handle_match \<Rightarrow> find_match" where
  "find_match_of m = \<lparr>fmHandle = hmHandle m, fmManifest = handleManifestToProto (hmManifest m), fmScore = int32 (hmScore m), fmReasons = hmReasons m\<rparr>"

definition put_new :: "'k \<times> 'v \<Rightarrow> ('k, 'v) gomap \<Rightarrow> ('k, 'v) gomap" where
  "put_new e m = (if gget m (fst e) \<noteq> None then m else gput (fst e) (snd e) m)"

definition local_entries :: "('r, 'w) daemon \<Rightarrow> (string, service_manifest) gomap" where
  "local_entries d = fold (\<lambda>h. gput h (protoToHandleManifest (gget (dManifests d) h))) (gkeys (dHandles d)) []"

definition rpc_FindHandles :: "find_query \<Rightarrow> ('r, 'w) daemon \<Rightarrow> find_match list" where
  "rpc_FindHandles q d =
     (let remote = FindHandles (dResolver d) (q\<lparr>qLimit := 0\<rparr>);
          entries = fold (\<lambda>m. put_new (hmHandle m, hmManifest m)) remote (local_entries d)
      in map find_match_of (FindMatches entries q))"

section \<open>Discovery searches the whole directory\<close>

text \<open>All handles the node knows: its own with their manifests, and those of the peer map that are not its own.\<close>

definition directory :: "('r, 'w) daemon \<Rightarrow> (string, service_manifest) gomap" where
  "directory d = fold (\<lambda>(h, info). put_new (h, pManifest info)) (handleTo (dResolver d)) (local_entries d)"

lemma gget_fold_put_new: "gget (fold put_new xs m) k = (case gget m k of Some v \<Rightarrow> Some v | None \<Rightarrow> map_of xs k)"
  by (induction xs arbitrary: m) (auto simp: put_new_def split: option.splits)

lemma gwf_fold_put_new [simp]: "gwf m \<Longrightarrow> gwf (fold put_new xs m)"
  by (induction xs arbitrary: m) (simp_all add: put_new_def)

lemma fold_put_new_map: "fold (\<lambda>x. put_new (f x)) xs m = fold put_new (map f xs) m"
  by (simp add: fold_map comp_def)

lemma local_entries:
  "gget (local_entries d) h = (if h \<in> set (gkeys (dHandles d)) then Some (protoToHandleManifest (gget (dManifests d) h)) else None)"
  "gwf (local_entries d)"
proof -
  have "gget (fold (\<lambda>h. gput h (f h)) hs m) h = (if h \<in> set hs then Some (f h) else gget m h)" for f :: "string \<Rightarrow> service_manifest" and hs m
    by (induction hs arbitrary: m) auto
  then show "gget (local_entries d) h = (if h \<in> set (gkeys (dHandles d)) then Some (protoToHandleManifest (gget (dManifests d) h)) else None)"
    by (simp add: local_entries_def)
  have "gwf m \<Longrightarrow> gwf (fold (\<lambda>h. gput h (f h)) hs m)" for f :: "string \<Rightarrow> service_manifest" and hs m
    by (induction hs arbitrary: m) simp_all
  then show "gwf (local_entries d)" by (simp add: local_entries_def)
qed

lemma gget_directory:
  "gget (directory d) h = (if h \<in> set (gkeys (dHandles d)) then Some (protoToHandleManifest (gget (dManifests d) h))
     else map_option pManifest (gget (handleTo (dResolver d)) h))"
proof -
  have "directory d = fold put_new (map (\<lambda>(h, info). (h, pManifest info)) (handleTo (dResolver d))) (local_entries d)"
    by (simp add: directory_def fold_put_new_map [symmetric] case_prod_unfold)
  moreover have "map_of (map (\<lambda>(h, info). (h, pManifest info)) xs) h = map_option pManifest (map_of xs h)" for xs :: "(string \<times> peer_info) list"
    by (induction xs) auto
  ultimately show ?thesis
    by (simp add: gget_fold_put_new local_entries split: option.splits)
qed

lemma gwf_directory: "gwf (directory d)"
proof -
  have "directory d = fold put_new (map (\<lambda>(h, info). (h, pManifest info)) (handleTo (dResolver d))) (local_entries d)"
    by (simp add: directory_def fold_put_new_map [symmetric] case_prod_unfold)
  then show ?thesis by (simp add: local_entries)
qed

lemma FindMatches_cong:
  assumes "gwf es" "gwf fs" and same: "\<And>h man. satisfies man q \<Longrightarrow> gget es h = Some man \<longleftrightarrow> gget fs h = Some man"
  shows "FindMatches es q = FindMatches fs q"
proof -
  have "(h, man) \<in> set es \<longleftrightarrow> (h, man) \<in> set fs" if "evaluateMatch h man q = Some m" for h man m
    using same [of man h] that evaluateMatch_Some_iff [of h man q] assms(1,2) by (simp add: gget_eq_Some_iff)
  then have "set (all_matches es q) = set (all_matches fs q)" unfolding set_all_matches by blast
  moreover have "distinct (all_matches es q)" "distinct (all_matches fs q)"
    using distinct_all_matches [OF assms(1), of q] distinct_all_matches [OF assms(2), of q] by (simp_all add: distinct_map)
  ultimately have "mset (all_matches es q) = mset (all_matches fs q)" by (simp add: set_eq_iff_mset_eq_distinct)
  then have "sort_slice ranks_before (all_matches es q) = sort_slice ranks_before (all_matches fs q)"
    using distinct_all_matches [OF assms(1), of q] \<open>distinct (all_matches es q)\<close> by (intro sort_slice_unique ranks_before_total) simp_all
  then show ?thesis by (simp add: FindMatches_def)
qed

lemma set_FindHandles:
  assumes "gwf (handleTo r)"
  shows "map_of (map (\<lambda>m. (hmHandle m, hmManifest m)) (FindHandles r (no_limit q))) h = Some man \<longleftrightarrow>
    map_option pManifest (gget (handleTo r) h) = Some man \<and> satisfies man q"
proof -
  let ?es = "map (\<lambda>(h, info). (h, pManifest info)) (handleTo r)"
  let ?ms = "FindHandles r (no_limit q)"
  have wf: "gwf ?es" using assms by simp
  have fm: "?ms = sort_slice ranks_before (all_matches ?es q)"
    by (simp add: FindHandles_def FindMatches_def all_matches_def Let_def)
  have "mset (map hmHandle ?ms) = mset (map hmHandle (all_matches ?es q))" by (simp add: fm)
  then have "distinct (map hmHandle ?ms)" using distinct_all_matches [OF wf, of q] by (metis mset_eq_imp_distinct_iff)
  then have "map_of (map (\<lambda>m. (hmHandle m, hmManifest m)) ?ms) h = Some man \<longleftrightarrow> (\<exists>m\<in>set ?ms. hmHandle m = h \<and> hmManifest m = man)"
    by (subst map_of_eq_Some_iff) (auto simp: comp_def)
  also have "\<dots> \<longleftrightarrow> (h, man) \<in> set ?es \<and> satisfies man q"
    using evaluateMatch_Some_iff [of h man q] evaluateMatch_Some unfolding fm set_sort_slice set_all_matches by blast
  also have "\<dots> \<longleftrightarrow> map_option pManifest (gget (handleTo r) h) = Some man \<and> satisfies man q"
    using gget_eq_Some_iff [OF wf, of h man] gget_map_snd [of "\<lambda>_. pManifest" "handleTo r" h] by metis
  finally show ?thesis .
qed

text \<open>
  Discovery through the daemon is one ranked search of everything it knows. The handler asks the
  resolver for the matching remote handles, adds those that are not handles of the node itself and
  ranks once more; the answer equals \<open>FindMatches\<close> over the whole directory, in which a handle of the
  node has the manifest it registered here, whatever the peer map says of it, and every other handle
  has the manifest of the peer map. In particular the limit applies to the merged ranking.
\<close>

theorem FindHandles_searches_directory:
  assumes "gwf (handleTo (dResolver d))"
  shows "rpc_FindHandles q d = map find_match_of (FindMatches (directory d) q) \<and> gwf (directory d) \<and>
    (\<forall>h. gget (directory d) h = (if h \<in> set (gkeys (dHandles d)) then Some (protoToHandleManifest (gget (dManifests d) h))
       else map_option pManifest (gget (handleTo (dResolver d)) h)))"
proof -
  let ?remote = "map (\<lambda>m. (hmHandle m, hmManifest m)) (FindHandles (dResolver d) (no_limit q))"
  have "FindMatches (fold put_new ?remote (local_entries d)) q = FindMatches (directory d) q"
  proof (rule FindMatches_cong)
    show "gwf (fold put_new ?remote (local_entries d))" "gwf (directory d)" by (simp_all add: local_entries gwf_directory)
    show "gget (fold put_new ?remote (local_entries d)) h = Some man \<longleftrightarrow> gget (directory d) h = Some man" if "satisfies man q" for h man
      using set_FindHandles [OF assms, of q h man] that by (simp add: gget_fold_put_new gget_directory local_entries)
  qed
  then show ?thesis
    unfolding rpc_FindHandles_def Let_def no_limit_def [symmetric] fold_put_new_map [of "\<lambda>m. (hmHandle m, hmManifest m)"]
    by (simp add: gwf_directory gget_directory)
qed

text \<open>A node with a handle \<open>bob\<close> tagged \<open>t\<close> here and untagged in the peer map, and a remote handle \<open>alice\<close>.\<close>

definition tagged :: "string list \<Rightarrow> pb_manifest" where
  "tagged ts = handleManifestToProto (no_manifest\<lparr>mTags := ts\<rparr>)"

definition remote_peer :: "string list \<Rightarrow> peer_info" where
  "remote_peer ts = \<lparr>pNodeID = ''n1'', pPublicKey = ''kA'', pAdvertiseAddr = ''a:1'', pManifest = no_manifest\<lparr>mTags := ts\<rparr>\<rparr>"

definition directory_daemon :: "string list \<Rightarrow> string list \<Rightarrow> (blob, unit) daemon" where
  "directory_daemon mine theirs = (bob_daemon 64)\<lparr>dManifests := [(''bob'', tagged mine)],
     dResolver := NewResolver\<lparr>handleTo := [(''bob'', remote_peer theirs), (''alice'', remote_peer [''t''])]\<rparr>\<rparr>"

definition tag_query :: find_query where
  "tag_query = \<lparr>qCapabilities = [], qDomains = [], qTags = [''t''], qCommandName = [], qVersion = [], qLimit = 5\<rparr>"

theorem FindHandles_searches_directory_witness:
  "map fmHandle (rpc_FindHandles tag_query (directory_daemon [''t''] [])) = [''alice'', ''bob'']"
proof -
  let ?d = "directory_daemon [''t''] []"
  have "gwf (handleTo (dResolver ?d))" by (simp add: directory_daemon_def gwf_def)
  from FindHandles_searches_directory [OF this, of tag_query]
  have "map fmHandle (rpc_FindHandles tag_query ?d) = map hmHandle (FindMatches (directory ?d) tag_query)"
    by (simp add: find_match_of_def comp_def)
  also have "directory ?d = [(''bob'', no_manifest\<lparr>mTags := [''t'']\<rparr>), (''alice'', no_manifest\<lparr>mTags := [''t'']\<rparr>)]"
    by (simp add: directory_def directory_daemon_def bob_daemon_def local_entries_def put_new_def remote_peer_def tagged_def
        handleManifestToProto_def protoToHandleManifest_def no_manifest_def)
  also have "map hmHandle (FindMatches [(''bob'', no_manifest\<lparr>mTags := [''t'']\<rparr>), (''alice'', no_manifest\<lparr>mTags := [''t'']\<rparr>)] tag_query) = [''alice'', ''bob'']"
    by code_simp
  finally show ?thesis .
qed

text \<open>
  Listing by tags differs: a handle of the node whose own manifest lacks the tags is still listed when
  the peer map has an older manifest of it with the tags, and with that older manifest.
\<close>

lemma gget_ListHandlesByTags:
  assumes "gwf (handleTo r)"
  shows "gget (ListHandlesByTags r tags) h = (case gget (handleTo r) h of
     Some info \<Rightarrow> if matchesTags (mTags (pManifest info)) tags then Some (pManifest info) else None | None \<Rightarrow> None)"
proof -
  let ?step = "\<lambda>(h, info) res. if matchesTags (mTags (pManifest info)) tags then gput h (pManifest info) res else res"
  have "gwf xs \<Longrightarrow> gget (fold ?step xs m) h = (case gget xs h of
     Some info \<Rightarrow> if matchesTags (mTags (pManifest info)) tags then Some (pManifest info) else gget m h | None \<Rightarrow> gget m h)"
    for xs :: "(string, peer_info) gomap" and m
  proof (induction xs arbitrary: m)
    case (Cons x xs)
    obtain k info where x: "x = (k, info)" by (cases x)
    have wf: "gwf xs" and k: "gget xs k = None" using Cons.prems by (simp_all add: x gwf_def gget_None_iff)
    show ?case using Cons.IH [OF wf] k by (auto simp: x split: option.splits)
  qed simp
  then show ?thesis using assms by (simp add: ListHandlesByTags_def split: option.splits)
qed

lemma ListHandles_lists_stale_manifest:
  assumes "gwf (handleTo (dResolver d))" and "\<not> matchesTagsProto (gget (dManifests d) h) tags"
    and "gget (handleTo (dResolver d)) h = Some info" and "matchesTags (mTags (pManifest info)) tags"
  shows "(h, Some (handleManifestToProto (pManifest info))) \<in> set (rpc_ListHandles tags d)"
proof -
  have "(h, pManifest info) \<in> set (ListHandlesByTags (dResolver d) tags)"
    using assms(3,4) by (intro gget_in_set) (simp add: gget_ListHandlesByTags [OF assms(1)])
  then show ?thesis using assms(2) unfolding rpc_ListHandles_def Let_def by force
qed

text \<open>Tags of a wire manifest and of a cached manifest are compared in the same way.\<close>

lemma matchesTagsProto_iff: "matchesTagsProto m tags \<longleftrightarrow> tags = [] \<or> (\<exists>pm. m = Some pm \<and> matchesTags (pmTags pm) tags)"
  by (cases m) (simp_all add: matchesTagsProto_def matchesTags_def containsAll_def Let_def)

section \<open>The status of the peers\<close>

lemma other_nodes: "gwf (other_nodes d)" "set (gkeys (other_nodes d)) = nNodeID ` set (nodes (dResolver d)) - {dNode d}"
proof -
  let ?step = "\<lambda>n m. if nNodeID n = dNode d then m else gput (nNodeID n) (nAdvertiseAddr n) m"
  have "gwf m \<Longrightarrow> gwf (fold ?step ns m)" for ns :: "node_info list" and m :: "(string, string) gomap"
    by (induction ns arbitrary: m) auto
  then show "gwf (other_nodes d)" by (simp add: other_nodes_def)
  have "gget (fold ?step ns m) k \<noteq> None \<longleftrightarrow> k \<in> nNodeID ` set ns - {dNode d} \<or> gget m k \<noteq> None" for ns :: "node_info list" and m k
    by (induction ns arbitrary: m) auto
  then show "set (gkeys (other_nodes d)) = nNodeID ` set (nodes (dResolver d)) - {dNode d}" 
    unfolding other_nodes_def GetNodes_def set_eq_iff by (simp add: gget_None_iff del: list.set_map)
qed

lemma node_handles: "n \<noteq> dNode d \<Longrightarrow> gget_or [] (node_handles d) n = map fst (filter (\<lambda>(h, info). pNodeID info = n) (handleTo (dResolver d)))"
proof -
  let ?step = "\<lambda>(h, info) m. if pNodeID info = dNode d then m else gput (pNodeID info) (gget_or [] m (pNodeID info) @ [h]) m"
  have "n \<noteq> dNode d \<Longrightarrow> gget_or [] (fold ?step xs m) n = gget_or [] m n @ map fst (filter (\<lambda>(h, info). pNodeID info = n) xs)"
    for xs :: "(string, peer_info) gomap" and m
    by (induction xs arbitrary: m) (auto simp: gget_or_def)
  then show "n \<noteq> dNode d \<Longrightarrow> ?thesis" by (simp add: node_handles_def GetPeerMap_def gget_or_def)
qed

text \<open>
  The status names every other node exactly once, with exactly the handles the peer map gives it,
  and its connectivity is the transport's view: direct when a connection to its address is cached,
  relayed when it is not but some relay is connected, offline when neither holds.
\<close>

theorem node_status_peers:
  assumes "GetNodeStatus started d = Inr st"
  shows "distinct (map psNode (stPeers st)) \<and> set (map psNode (stPeers st)) = nNodeID ` set (nodes (dResolver d)) - {dNode d} \<and>
    list_all (\<lambda>ps. psHandles ps = map fst (filter (\<lambda>(h, info). pNodeID info = psNode ps) (handleTo (dResolver d))) \<and>
      psConnected ps = (psConnectivity ps \<noteq> ''offline'') \<and>
      psConnectivity ps = (if psAddr ps \<in> set (gkeys (peers (dTransport d))) then ''direct''
        else if relayConns (dTransport d) \<noteq> [] then ''relay'' else ''offline'')) (stPeers st)"
proof -
  have st: "stPeers st = peer_statuses d"
    using assms by (auto simp: GetNodeStatus_def Let_def split: sum.splits)
  have fields: "psNode (peer_status_of d e) = fst e" "psAddr (peer_status_of d e) = snd e"
    "psHandles (peer_status_of d e) = gget_or [] (node_handles d) (fst e)"
    "psConnectivity (peer_status_of d e) = (if snd e \<in> set (gkeys (peers (dTransport d))) then ''direct''
        else if relayConns (dTransport d) \<noteq> [] then ''relay'' else ''offline'')"
    "psConnected (peer_status_of d e) = (psConnectivity (peer_status_of d e) \<noteq> ''offline'')" for e
    by (simp_all add: peer_status_of_def Let_def case_prod_unfold ConnectedAddrs_def ConnectedRelayAddrs_def)
  have names: "map psNode (peer_statuses d) = gkeys (other_nodes d)"
    by (simp add: peer_statuses_def fields)
  have "gget_or [] (node_handles d) (fst e) = map fst (filter (\<lambda>(h, info). pNodeID info = fst e) (handleTo (dResolver d)))" if "e \<in> set (other_nodes d)" for e
  proof (rule node_handles)
    show "fst e \<noteq> dNode d" using other_nodes(2) [of d] that by (metis DiffD2 image_eqI image_set singletonI)
  qed
  then have "list_all (\<lambda>ps. psHandles ps = map fst (filter (\<lambda>(h, info). pNodeID info = psNode ps) (handleTo (dResolver d))) \<and>
      psConnected ps = (psConnectivity ps \<noteq> ''offline'') \<and>
      psConnectivity ps = (if psAddr ps \<in> set (gkeys (peers (dTransport d))) then ''direct''
        else if relayConns (dTransport d) \<noteq> [] then ''relay'' else ''offline'')) (peer_statuses d)"
    unfolding list_all_iff peer_statuses_def by (simp add: fields)
  moreover have "distinct (gkeys (other_nodes d))" using other_nodes(1) [of d] by (simp add: gwf_def)
  ultimately show ?thesis unfolding st names other_nodes(2) by blast
qed

definition status_daemon :: "(blob, unit) daemon" where
  "status_daemon = alice_daemon\<lparr>dResolver := sample_resolver\<lparr>nodes :=
     [\<lparr>nNodeID = ''n1'', nAdvertiseAddr = ''a:1'', nPublicKey = ''kA''\<rparr>, \<lparr>nNodeID = ''n2'', nAdvertiseAddr = ''b:1'', nPublicKey = ''kB''\<rparr>]\<rparr>\<rparr>"

theorem node_status_peers_witness:
  "\<exists>st ps. GetNodeStatus 0 status_daemon = Inr st \<and> stPeers st = [ps] \<and> psNode ps = ''n2'' \<and> psHandles ps = [''bob''] \<and> psConnectivity ps = ''offline''"
proof -
  have "\<exists>st. GetNodeStatus 0 status_daemon = Inr st"
    by (simp add: GetNodeStatus_def DashboardRooms_def LoadRooms_def NewMessageStore_def status_daemon_def alice_daemon_def NewDaemon_def Let_def)
  then obtain st where st: "GetNodeStatus 0 status_daemon = Inr st" by blast
  have d: "nodes (dResolver status_daemon) = [\<lparr>nNodeID = ''n1'', nAdvertiseAddr = ''a:1'', nPublicKey = ''kA''\<rparr>, \<lparr>nNodeID = ''n2'', nAdvertiseAddr = ''b:1'', nPublicKey = ''kB''\<rparr>]"
    "dNode status_daemon = ''n1''" "handleTo (dResolver status_daemon) = handleTo sample_resolver"
    "peers (dTransport status_daemon) = []" "relayConns (dTransport status_daemon) = []"
    by (simp_all add: status_daemon_def alice_daemon_def NewDaemon_def SetResolver_def NewGRPCTransport_def)
  note P = node_status_peers [OF st, unfolded d]
  then have "distinct (map psNode (stPeers st))" "set (map psNode (stPeers st)) = {''n2''}" by auto
  then have "map psNode (stPeers st) = [''n2'']" by (metis distinct_singleton list.set(1) list.set(2) remdups_id_iff_distinct set_eq_iff_mset_remdups_eq mset_single_iff_right mset.simps)
  then obtain ps where ps: "stPeers st = [ps]" "psNode ps = ''n2''" by auto
  then show ?thesis using P st by (auto simp: sample_resolver_def)
qed

end
