(* ===== verification/Agent_Bridge.thy ===== *)
theory Agent_Bridge
  imports Node_Status
begin

text \<open>
  The bridge between a program that speaks JSON lines and the daemon (\<open>cmd/tailbus/agent.go\<close>). A
  command of the program is one value of \<open>inbound_cmd\<close>, an answer one value of \<open>bridge_out\<close>; the
  JSON text of both is left to the library. The client interface \<open>bridge_client\<close> is a record of calls on a
  state; \<open>daemon_client\<close> fills it with the handlers of the agent server. The two goroutines of the
  bridge are a step relation.
\<close>

section \<open>Commands and answers\<close>

record command_cmd =
  ccName :: string
  ccDescription :: string
  ccParametersSchema :: string

record manifest_cmd =
  mcDescription :: string
  mcCommands :: "command_cmd list"
  mcTags :: "string list"
  mcVersion :: string
  mcCapabilities :: "string list"
  mcDomains :: "string list"
  mcInputTypes :: "string list"
  mcOutputTypes :: "string list"

record inbound_cmd =
  icType :: string
  icRequestID :: string
  icHandle :: string
  icDescription :: string
  icManifest :: "manifest_cmd option"
  icCapabilities :: "string list"
  icDomains :: "string list"
  icTags :: "string list"
  icCommandName :: string
  icVersion :: string
  icLimit :: "32 word"
  icTo :: string
  icSession :: string
  icRoomID :: string
  icTitle :: string
  icMembers :: "string list"
  icSinceSeq :: "64 word"
  icPayload :: string
  icContentType :: string
  icTraceID :: string

definition zero_cmd :: inbound_cmd where
  "zero_cmd = \<lparr>icType = [], icRequestID = [], icHandle = [], icDescription = [], icManifest = None, icCapabilities = [],
     icDomains = [], icTags = [], icCommandName = [], icVersion = [], icLimit = 0, icTo = [], icSession = [], icRoomID = [],
     icTitle = [], icMembers = [], icSinceSeq = 0, icPayload = [], icContentType = [], icTraceID = []\<rparr>"

text \<open>The manifest of an answer has the fields of \<open>manifestCmd\<close> again.\<close>

type_synonym introspect_manifest_resp = manifest_cmd

record list_entry =
  leHandle :: string
  leManifest :: "introspect_manifest_resp option"

record match_entry =
  meHandle :: string
  meManifest :: "introspect_manifest_resp option"
  meScore :: int
  meReasons :: "string list"

record message_resp =
  mrSession :: string
  mrFrom :: string
  mrTo :: string
  mrPayload :: string
  mrContentType :: string
  mrMessageType :: string
  mrTraceID :: string
  mrMessageID :: string
  mrSentAt :: int

record room_event_resp =
  rrRoomID :: string
  rrRoomSeq :: "64 word"
  rrSender :: string
  rrSubject :: string
  rrPayload :: string
  rrContentType :: string
  rrEventType :: string
  rrTraceID :: string
  rrEventID :: string
  rrSentAt :: int
  rrMembers :: "string list"

record room_info_resp =
  riRoomID :: string
  riTitle :: string
  riCreatedBy :: string
  riHomeNodeID :: string
  riMembers :: "string list"
  riStatus :: string
  riNextSeq :: "64 word"
  riCreatedAt :: int
  riUpdatedAt :: int

record session_item =
  itSession :: string
  itFrom :: string
  itTo :: string
  itState :: string

text \<open>The text of an error answer: a literal, the text of an error, or a literal before the text of an error.\<close>

datatype err_text = Text string | ErrorText go_err | PrefixedText string go_err

text \<open>
  One line of output. The first argument of an answer is the request identifier; \<open>RoomOpResp\<close> has the
  type of the answer next, the others have a fixed type.
\<close>

datatype bridge_out =
    RegisteredResp string string
  | OpenedResp string string string string
  | SentResp string string
  | ResolvedResp string string
  | IntrospectedResp string string bool "introspect_manifest_resp option"
  | ListResp string "list_entry list"
  | MatchesResp string "match_entry list"
  | MessageResp message_resp
  | RoomEventResp room_event_resp
  | RoomCreatedResp string string
  | RoomPostedResp string string "64 word"
  | RoomOpResp string string bool
  | RoomsResp string "room_info_resp list"
  | RoomMembersResp string "string list"
  | RoomReplayResp string "room_event_resp list"
  | SessionsResp string "session_item list"
  | ErrorResp string err_text string

section \<open>Conversions\<close>

definition envelopeTypeString :: "envelope_type \<Rightarrow> string" where
  "envelopeTypeString t =
     (case t of SESSION_OPEN \<Rightarrow> ''session_open'' | ENVELOPE_MESSAGE \<Rightarrow> ''message'' | SESSION_RESOLVE \<Rightarrow> ''session_resolve''
      | ACK \<Rightarrow> ''ack'' | ENVELOPE_UNSPECIFIED \<Rightarrow> ''unknown'')"

definition protoManifestToResp :: "pb_manifest option \<Rightarrow> introspect_manifest_resp option" where
  "protoManifestToResp = map_option (\<lambda>m. \<lparr>mcDescription = pmDescription m,
     mcCommands = map (\<lambda>c. \<lparr>ccName = pcName c, ccDescription = pcDescription c, ccParametersSchema = pcParametersSchema c\<rparr>) (pmCommands m),
     mcTags = pmTags m, mcVersion = pmVersion m, mcCapabilities = pmCapabilities m, mcDomains = pmDomains m,
     mcInputTypes = pmInputTypes m, mcOutputTypes = pmOutputTypes m\<rparr>)"

definition roomEventTypeString :: "room_event_type \<Rightarrow> string" where
  "roomEventTypeString t =
     (case t of MEMBER_JOINED \<Rightarrow> ''member_joined'' | MEMBER_LEFT \<Rightarrow> ''member_left'' | MESSAGE_POSTED \<Rightarrow> ''message_posted''
      | ROOM_CLOSED \<Rightarrow> ''room_closed'' | EVENT_UNSPECIFIED \<Rightarrow> ''unknown'')"

definition protoRoomEventToResp :: "room_event \<Rightarrow> room_event_resp" where
  "protoRoomEventToResp event = \<lparr>rrRoomID = EvRoomId event, rrRoomSeq = RoomSeq event, rrSender = SenderHandle event,
     rrSubject = SubjectHandle event, rrPayload = EvPayload event, rrContentType = EvContentType event,
     rrEventType = roomEventTypeString (EvType event), rrTraceID = EvTraceId event, rrEventID = EventId event,
     rrSentAt = EvSentAtUnix event, rrMembers = EvMembers event\<rparr>"

definition protoRoomInfoToResp :: "room_info \<Rightarrow> room_info_resp" where
  "protoRoomInfoToResp room = \<lparr>riRoomID = RoomId room, riTitle = Title room, riCreatedBy = CreatedBy room,
     riHomeNodeID = HomeNodeId room, riMembers = Members room, riStatus = Status room, riNextSeq = NextSeq room,
     riCreatedAt = CreatedAtUnix room, riUpdatedAt = UpdatedAtUnix room\<rparr>"

text \<open>A registration request: handle, manifest and description.\<close>

definition cmd_manifest :: "manifest_cmd \<Rightarrow> pb_manifest" where
  "cmd_manifest m = \<lparr>pmDescription = mcDescription m,
     pmCommands = map (\<lambda>c. \<lparr>pcName = ccName c, pcDescription = ccDescription c, pcParametersSchema = ccParametersSchema c\<rparr>) (mcCommands m),
     pmTags = mcTags m, pmVersion = mcVersion m, pmCapabilities = mcCapabilities m, pmDomains = mcDomains m,
     pmInputTypes = mcInputTypes m, pmOutputTypes = mcOutputTypes m\<rparr>"

definition buildRegisterRequest :: "inbound_cmd \<Rightarrow> string \<times> pb_manifest option \<times> string" where
  "buildRegisterRequest cmd =
     (case icManifest cmd of
        Some m \<Rightarrow> (icHandle cmd, Some (cmd_manifest m), [])
      | None \<Rightarrow> (icHandle cmd, None, icDescription cmd))"

text \<open>What the goroutine of \<open>startBridgeSubscription\<close> writes for a message of the stream.\<close>

definition incoming_out :: "incoming \<Rightarrow> bridge_out" where
  "incoming_out msg =
     (case msg of
        InEnvelope env \<Rightarrow> MessageResp \<lparr>mrSession = SessionId env, mrFrom = FromHandle env, mrTo = ToHandle env,
          mrPayload = Payload env, mrContentType = ContentType env, mrMessageType = envelopeTypeString (EType env),
          mrTraceID = TraceId env, mrMessageID = MessageId env, mrSentAt = SentAtUnix env\<rparr>
      | InRoomEvent event \<Rightarrow> RoomEventResp (protoRoomEventToResp event))"

section \<open>The client interface\<close>

text \<open>\<open>Register\<close> answers with the text of a refusal, \<open>None\<close> when the handle is registered.\<close>

record 's bridge_client =
  clRegister :: "string \<Rightarrow> pb_manifest option \<Rightarrow> string \<Rightarrow> 's \<Rightarrow> string option result \<times> 's"
  clIntrospect :: "string \<Rightarrow> 's \<Rightarrow> introspection result \<times> 's"
  clListHandles :: "string list \<Rightarrow> 's \<Rightarrow> (string \<times> pb_manifest option) list result \<times> 's"
  clFindHandles :: "find_query \<Rightarrow> 's \<Rightarrow> find_match list result \<times> 's"
  clOpenSession :: "open_request \<Rightarrow> 's \<Rightarrow> (string \<times> string \<times> string) result \<times> 's"
  clSendMessage :: "send_request \<Rightarrow> 's \<Rightarrow> string result \<times> 's"
  clSubscribe :: "string \<Rightarrow> 's \<Rightarrow> unit result \<times> 's"
  clResolveSession :: "send_request \<Rightarrow> 's \<Rightarrow> string result \<times> 's"
  clCreateRoom :: "string \<Rightarrow> string \<Rightarrow> string list \<Rightarrow> 's \<Rightarrow> string result \<times> 's"
  clJoinRoom :: "string \<Rightarrow> string \<Rightarrow> 's \<Rightarrow> bool result \<times> 's"
  clLeaveRoom :: "string \<Rightarrow> string \<Rightarrow> 's \<Rightarrow> bool result \<times> 's"
  clPostRoom :: "string \<Rightarrow> string \<Rightarrow> bytes \<Rightarrow> string \<Rightarrow> string \<Rightarrow> 's \<Rightarrow> (string \<times> 64 word) result \<times> 's"
  clListRooms :: "string \<Rightarrow> 's \<Rightarrow> room_info list result \<times> 's"
  clRoomMembers :: "string \<Rightarrow> string \<Rightarrow> 's \<Rightarrow> string list result \<times> 's"
  clReplayRoom :: "string \<Rightarrow> string \<Rightarrow> 64 word \<Rightarrow> 's \<Rightarrow> room_event list result \<times> 's"
  clCloseRoom :: "string \<Rightarrow> string \<Rightarrow> 's \<Rightarrow> bool result \<times> 's"
  clListSessions :: "string \<Rightarrow> 's \<Rightarrow> session_info list result \<times> 's"

section \<open>Executing a command\<close>

text \<open>
  The result of a command: the line it writes, the error \<open>executeBridgeCommand\<close> returns, the handle of the
  bridge and the state of the client afterwards. Every branch writes one line. \<open>bridge_fail\<close> is the
  closure \<open>fail\<close>, whose error is returned only for an initial command.
\<close>

type_synonym 's bridge_result = "bridge_out \<times> err_text option \<times> string \<times> 's"

definition bridge_fail :: "bool \<Rightarrow> inbound_cmd \<Rightarrow> string \<Rightarrow> err_text \<Rightarrow> err_text \<Rightarrow> string \<Rightarrow> 's \<Rightarrow> 's bridge_result" where
  "bridge_fail fatal cmd requestType message err handle s =
     (ErrorResp (icRequestID cmd) message requestType, if fatal then Some err else None, handle, s)"

text \<open>A failed call: the text of its error is the message.\<close>

definition answer ::
  "bool \<Rightarrow> inbound_cmd \<Rightarrow> string \<Rightarrow> string \<Rightarrow> ('a \<Rightarrow> bridge_out) \<Rightarrow> 'a result \<times> 's \<Rightarrow> 's bridge_result" where
  "answer fatal cmd requestType handle out = (\<lambda>(r, s).
     case r of
       Inl e \<Rightarrow> bridge_fail fatal cmd requestType (ErrorText e) (ErrorText e) handle s
     | Inr x \<Rightarrow> (out x, None, handle, s))"

definition default_content_type :: "string \<Rightarrow> string" where
  "default_content_type ct = (if ct = [] then ''text/plain'' else ct)"

definition bridge_register ::
  "'s bridge_client \<Rightarrow> bool \<Rightarrow> inbound_cmd \<Rightarrow> string \<Rightarrow> 's \<Rightarrow> 's bridge_result" where
  "bridge_register cl fatal cmd handle s =
     (let fail = bridge_fail fatal cmd ''register''
      in if handle \<noteq> [] then fail (Text (''already registered as '' @ handle)) (Text (''already registered as '' @ handle)) handle s
         else if icHandle cmd = [] then fail (Text ''handle is required'') (Text ''handle is required'') handle s
         else case buildRegisterRequest cmd of (h, manifest, description) \<Rightarrow>
              (case clRegister cl h manifest description s of
                 (Inl e, s) \<Rightarrow> fail (ErrorText e) (ErrorText e) handle s
               | (Inr (Some refusal), s) \<Rightarrow> fail (Text refusal) (Text refusal) handle s
               | (Inr None, s) \<Rightarrow>
                   (case clSubscribe cl (icHandle cmd) s of
                      (Inl e, s) \<Rightarrow> fail (PrefixedText ''subscribe failed: '' e) (ErrorText e) handle s
                    | (Inr _, s) \<Rightarrow> (RegisteredResp (icRequestID cmd) (icHandle cmd), None, icHandle cmd, s))))"

text \<open>The commands that act for the handle of the bridge.\<close>

definition send_request_of :: "inbound_cmd \<Rightarrow> string \<Rightarrow> send_request" where
  "send_request_of cmd handle = \<lparr>sqSession = icSession cmd, sqFrom = handle, sqPayload = icPayload cmd,
     sqContentType = default_content_type (icContentType cmd)\<rparr>"

definition bridge_session ::
  "'s bridge_client \<Rightarrow> bool \<Rightarrow> inbound_cmd \<Rightarrow> string \<Rightarrow> 's \<Rightarrow> 's bridge_result" where
  "bridge_session cl fatal cmd handle s =
     (let fail = bridge_fail fatal cmd (icType cmd); rid = icRequestID cmd; t = icType cmd
      in if handle = [] then fail (Text ''must register first'') (Text ''must register first'') handle s
         else if t = ''open'' then
           (if icTo cmd = [] then fail (Text ''to is required'') (Text ''to is required'') handle s
            else answer fatal cmd t handle (\<lambda>(session, message, trace). OpenedResp rid session message trace)
              (clOpenSession cl \<lparr>oqFrom = handle, oqTo = icTo cmd, oqPayload = icPayload cmd,
                 oqContentType = default_content_type (icContentType cmd), oqTraceId = icTraceID cmd\<rparr> s))
         else if t = ''sessions'' then
           answer fatal cmd t handle
             (\<lambda>xs. SessionsResp rid (map (\<lambda>x. \<lparr>itSession = siId x, itFrom = siFrom x, itTo = siTo x, itState = siState x\<rparr>) xs))
             (clListSessions cl handle s)
         else if icSession cmd = [] then fail (Text ''session is required'') (Text ''session is required'') handle s
         else if t = ''send'' then answer fatal cmd t handle (SentResp rid) (clSendMessage cl (send_request_of cmd handle) s)
         else answer fatal cmd t handle (ResolvedResp rid) (clResolveSession cl (send_request_of cmd handle) s))"

definition bridge_room ::
  "'s bridge_client \<Rightarrow> bool \<Rightarrow> inbound_cmd \<Rightarrow> string \<Rightarrow> 's \<Rightarrow> 's bridge_result" where
  "bridge_room cl fatal cmd handle s =
     (let rid = icRequestID cmd; t = icType cmd; room = icRoomID cmd
      in if handle = [] then bridge_fail fatal cmd t (Text ''must register first'') (Text ''must register first'') handle s
         else if t = ''create_room'' then
           answer fatal cmd t handle (RoomCreatedResp rid) (clCreateRoom cl handle (icTitle cmd) (icMembers cmd) s)
         else if t = ''join_room'' then answer fatal cmd t handle (RoomOpResp rid ''room_joined'') (clJoinRoom cl room handle s)
         else if t = ''leave_room'' then answer fatal cmd t handle (RoomOpResp rid ''room_left'') (clLeaveRoom cl room handle s)
         else if t = ''post_room'' then
           answer fatal cmd t handle (\<lambda>(event, seq). RoomPostedResp rid event seq)
             (clPostRoom cl room handle (icPayload cmd) (default_content_type (icContentType cmd)) (icTraceID cmd) s)
         else if t = ''list_rooms'' then
           answer fatal cmd t handle (\<lambda>rooms. RoomsResp rid (map protoRoomInfoToResp rooms)) (clListRooms cl handle s)
         else if t = ''room_members'' then answer fatal cmd t handle (RoomMembersResp rid) (clRoomMembers cl room handle s)
         else if t = ''replay_room'' then
           answer fatal cmd t handle (\<lambda>events. RoomReplayResp rid (map protoRoomEventToResp events))
             (clReplayRoom cl room handle (icSinceSeq cmd) s)
         else answer fatal cmd t handle (RoomOpResp rid ''room_closed'') (clCloseRoom cl room handle s))"

definition bridge_discover ::
  "'s bridge_client \<Rightarrow> bool \<Rightarrow> inbound_cmd \<Rightarrow> string \<Rightarrow> 's \<Rightarrow> 's bridge_result" where
  "bridge_discover cl fatal cmd handle s =
     (let rid = icRequestID cmd; t = icType cmd
      in if t = ''list'' then
           answer fatal cmd t handle (\<lambda>es. ListResp rid (map (\<lambda>(h, m). \<lparr>leHandle = h, leManifest = protoManifestToResp m\<rparr>) es))
             (clListHandles cl (icTags cmd) s)
         else if t = ''find'' then
           answer fatal cmd t handle
             (\<lambda>ms. MatchesResp rid (map (\<lambda>m. \<lparr>meHandle = fmHandle m, meManifest = protoManifestToResp (Some (fmManifest m)),
                 meScore = fmScore m, meReasons = fmReasons m\<rparr>) ms))
             (clFindHandles cl \<lparr>qCapabilities = icCapabilities cmd, qDomains = icDomains cmd, qTags = icTags cmd,
                 qCommandName = icCommandName cmd, qVersion = icVersion cmd, qLimit = uint (icLimit cmd)\<rparr> s)
         else if icHandle cmd = [] then bridge_fail fatal cmd t (Text ''handle is required'') (Text ''handle is required'') handle s
         else answer fatal cmd t handle (\<lambda>r. IntrospectedResp rid (inHandle r) (inFound r) (protoManifestToResp (inManifest r)))
             (clIntrospect cl (icHandle cmd) s))"

definition session_commands :: "string list" where
  "session_commands = [''open'', ''send'', ''resolve'', ''sessions'']"

definition room_commands :: "string list" where
  "room_commands = [''create_room'', ''join_room'', ''leave_room'', ''post_room'', ''list_rooms'', ''room_members'', ''replay_room'', ''close_room'']"

definition discover_commands :: "string list" where
  "discover_commands = [''introspect'', ''describe'', ''list'', ''find'']"

definition executeBridgeCommand ::
  "'s bridge_client \<Rightarrow> bool \<Rightarrow> inbound_cmd \<Rightarrow> string \<Rightarrow> 's \<Rightarrow> 's bridge_result" where
  "executeBridgeCommand cl fatal cmd handle s =
     (if icType cmd = ''register'' then bridge_register cl fatal cmd handle s
      else if icType cmd \<in> set session_commands then bridge_session cl fatal cmd handle s
      else if icType cmd \<in> set room_commands then bridge_room cl fatal cmd handle s
      else if icType cmd \<in> set discover_commands then bridge_discover cl fatal cmd handle s
      else bridge_fail fatal cmd (icType cmd) (Text (''unknown command type: '' @ icType cmd))
             (Text (''unknown command type: '' @ icType cmd)) handle s)"

section \<open>Every command has one answer\<close>

text \<open>The request an answer belongs to; messages and room events of the stream belong to none.\<close>

fun out_request :: "bridge_out \<Rightarrow> string option" where
  "out_request (MessageResp m) = None"
| "out_request (RoomEventResp e) = None"
| "out_request (RegisteredResp rid h) = Some rid"
| "out_request (OpenedResp rid s m t) = Some rid"
| "out_request (SentResp rid m) = Some rid"
| "out_request (ResolvedResp rid m) = Some rid"
| "out_request (IntrospectedResp rid h f m) = Some rid"
| "out_request (ListResp rid es) = Some rid"
| "out_request (MatchesResp rid ms) = Some rid"
| "out_request (RoomCreatedResp rid r) = Some rid"
| "out_request (RoomPostedResp rid e n) = Some rid"
| "out_request (RoomOpResp rid t ok) = Some rid"
| "out_request (RoomsResp rid rs) = Some rid"
| "out_request (RoomMembersResp rid ms) = Some rid"
| "out_request (RoomReplayResp rid es) = Some rid"
| "out_request (SessionsResp rid xs) = Some rid"
| "out_request (ErrorResp rid e t) = Some rid"

text \<open>The value of the field \<open>type\<close> of a line.\<close>

fun out_type :: "bridge_out \<Rightarrow> string" where
  "out_type (MessageResp m) = ''message''"
| "out_type (RoomEventResp e) = ''room_event''"
| "out_type (RegisteredResp rid h) = ''registered''"
| "out_type (OpenedResp rid s m t) = ''opened''"
| "out_type (SentResp rid m) = ''sent''"
| "out_type (ResolvedResp rid m) = ''resolved''"
| "out_type (IntrospectedResp rid h f m) = ''introspected''"
| "out_type (ListResp rid es) = ''handles''"
| "out_type (MatchesResp rid ms) = ''handle_matches''"
| "out_type (RoomCreatedResp rid r) = ''room_created''"
| "out_type (RoomPostedResp rid e n) = ''room_posted''"
| "out_type (RoomOpResp rid t ok) = t"
| "out_type (RoomsResp rid rs) = ''rooms''"
| "out_type (RoomMembersResp rid ms) = ''room_members''"
| "out_type (RoomReplayResp rid es) = ''room_replay''"
| "out_type (SessionsResp rid xs) = ''sessions''"
| "out_type (ErrorResp rid e t) = ''error''"

text \<open>The protocol: the answer each command has when it succeeds.\<close>

definition answer_types :: "(string \<times> string) list" where
  "answer_types = [(''register'', ''registered''), (''open'', ''opened''), (''send'', ''sent''), (''resolve'', ''resolved''),
     (''sessions'', ''sessions''), (''create_room'', ''room_created''), (''join_room'', ''room_joined''), (''leave_room'', ''room_left''),
     (''post_room'', ''room_posted''), (''list_rooms'', ''rooms''), (''room_members'', ''room_members''), (''replay_room'', ''room_replay''),
     (''close_room'', ''room_closed''), (''introspect'', ''introspected''), (''describe'', ''introspected''), (''list'', ''handles''),
     (''find'', ''handle_matches'')]"

text \<open>
  A result that answers a command: its own success line or an error that names its type; an error is
  returned only for a failed initial command.
\<close>

definition answers :: "bool \<Rightarrow> inbound_cmd \<Rightarrow> 's bridge_result \<Rightarrow> bool" where
  "answers fatal cmd = (\<lambda>(out, err, handle, s). out_request out = Some (icRequestID cmd) \<and>
     ((\<exists>e. out = ErrorResp (icRequestID cmd) e (icType cmd)) \<or> gget answer_types (icType cmd) = Some (out_type out)) \<and>
     (err \<noteq> None \<longleftrightarrow> fatal \<and> out_type out = ''error''))"

lemma answers_fail [simp]: "t = icType cmd \<Longrightarrow> answers fatal cmd (bridge_fail fatal cmd t m e h s)"
  by (simp add: answers_def bridge_fail_def)

lemma no_error_answer: "gget answer_types t \<noteq> Some ''error''"
  by (simp add: answer_types_def)

lemma answers_answer [simp]:
  assumes "icType cmd = t" and "\<forall>x. out_request (out x) = Some (icRequestID cmd)"
    and "\<forall>x. gget answer_types t = Some (out_type (out x))"
  shows "answers fatal cmd (answer fatal cmd t h out r)"
proof -
  have "out_type (out x) \<noteq> ''error''" for x
    using assms(3) no_error_answer [of t] by metis
  then show ?thesis
    using assms by (auto simp: answer_def answers_def bridge_fail_def split: prod.split sum.split)
qed

lemma answers_registered [simp]:
  "icType cmd = ''register'' \<Longrightarrow> answers fatal cmd (RegisteredResp (icRequestID cmd) h, None, h', s)"
  by (simp add: answers_def answer_types_def)

lemma answers_register: "icType cmd = ''register'' \<Longrightarrow> answers fatal cmd (bridge_register cl fatal cmd handle s)"
  by (simp add: bridge_register_def Let_def split: prod.split sum.split option.split)

lemma answer_types_simps [simp]:
  "gget answer_types ''open'' = Some ''opened''" "gget answer_types ''send'' = Some ''sent''"
  "gget answer_types ''resolve'' = Some ''resolved''" "gget answer_types ''sessions'' = Some ''sessions''"
  "gget answer_types ''create_room'' = Some ''room_created''" "gget answer_types ''join_room'' = Some ''room_joined''"
  "gget answer_types ''leave_room'' = Some ''room_left''" "gget answer_types ''post_room'' = Some ''room_posted''"
  "gget answer_types ''list_rooms'' = Some ''rooms''" "gget answer_types ''room_members'' = Some ''room_members''"
  "gget answer_types ''replay_room'' = Some ''room_replay''" "gget answer_types ''close_room'' = Some ''room_closed''"
  "gget answer_types ''introspect'' = Some ''introspected''" "gget answer_types ''describe'' = Some ''introspected''"
  "gget answer_types ''list'' = Some ''handles''" "gget answer_types ''find'' = Some ''handle_matches''"
  by (simp_all add: answer_types_def)

lemma answers_session: "icType cmd \<in> set session_commands \<Longrightarrow> answers fatal cmd (bridge_session cl fatal cmd handle s)"
  unfolding session_commands_def list.set by (elim insertE emptyE; simp add: bridge_session_def Let_def)

lemma answers_room: "icType cmd \<in> set room_commands \<Longrightarrow> answers fatal cmd (bridge_room cl fatal cmd handle s)"
  unfolding room_commands_def list.set by (elim insertE emptyE; simp add: bridge_room_def Let_def)

lemma answers_discover: "icType cmd \<in> set discover_commands \<Longrightarrow> answers fatal cmd (bridge_discover cl fatal cmd handle s)"
  unfolding discover_commands_def list.set by (elim insertE emptyE; simp add: bridge_discover_def Let_def)

lemma answers_command: "answers fatal cmd (executeBridgeCommand cl fatal cmd handle s)"
  by (simp add: executeBridgeCommand_def answers_register answers_session answers_room answers_discover)

text \<open>
  Every command is answered. Whatever the daemon does, a command writes one line, the line carries
  the request identifier of the command, and it is either the success line the protocol
  has for the command or an error that names the type of the command. The call returns an error only
  for a failed initial command.
\<close>

theorem commands_are_answered:
  "case executeBridgeCommand cl fatal cmd handle s of (out, err, handle', s') \<Rightarrow>
     out_request out = Some (icRequestID cmd) \<and>
     ((\<exists>e. out = ErrorResp (icRequestID cmd) e (icType cmd)) \<or> gget answer_types (icType cmd) = Some (out_type out)) \<and>
     (err \<noteq> None \<longleftrightarrow> fatal \<and> out_type out = ''error'')"
  using answers_command [of fatal cmd cl handle s] by (simp add: answers_def)

end
