(* ===== verification/Bridge_Daemon.thy ===== *)
theory Bridge_Daemon
  imports Agent_Bridge
begin

text \<open>
  The bridge on a daemon: the calls of \<open>bridge_client\<close> as the handlers of the agent server, on the
  connection of the bridge. The interface \<open>handle_owner\<close> says what the bridge relies on, that a
  registration gives the handle to the connection and that no call takes it away; it is interpreted for the
  daemon.
\<close>

section \<open>The daemon as client\<close>

text \<open>
  A room call that has to wait for another node ends with what the daemon received from the transport in
  the meantime, \<open>arrivals\<close>. A result of a post without its event makes the handler dereference nil.
\<close>

definition settle ::
  "'w rt \<Rightarrow> (string \<Rightarrow> transport_message list) \<Rightarrow> room_command_result result call \<times> ('r, 'w) daemon \<Rightarrow> ('r, 'w) cmd_result" where
  "settle rt arrivals = (\<lambda>(c, d). case c of Returned r \<Rightarrow> (r, d) | Waiting i \<Rightarrow> await_result i (fold (OnReceive rt) (arrivals i) d))"

definition room_ok :: "('r, 'w) cmd_result \<Rightarrow> bool result \<times> ('r, 'w) daemon" where
  "room_ok = map_prod (map_sum id (\<lambda>_. True)) id"

definition posted_event :: "('r, 'w) cmd_result \<Rightarrow> (string \<times> 64 word) result \<times> ('r, 'w) daemon" where
  "posted_event = (\<lambda>(r, d). case r of
     Inl e \<Rightarrow> (Inl e, d)
   | Inr res \<Rightarrow> (case ResEvent res of
       Some ev \<Rightarrow> (Inr (EventId ev, RoomSeq ev), d)
     | None \<Rightarrow> (Inl (StreamFailed ''connection closed''), d\<lparr>dPanicked := True\<rparr>)))"

text \<open>
  Opening a stream fails only with the connection; a refused subscription ends the stream, which the
  bridge does not report.
\<close>

definition daemon_client ::
  "'w rt \<Rightarrow> (string \<Rightarrow> transport_message list) \<Rightarrow> 64 word \<Rightarrow> ('r, 'w) daemon bridge_client" where
  "daemon_client rt arrivals conn =
     (let c = Some conn
      in \<lparr>clRegister = (\<lambda>h m desc d. case Register rt c h m desc d of (ok, d) \<Rightarrow>
             (Inr (if ok then None else Some ''handle already registered''), d)),
          clIntrospect = (\<lambda>h d. (Inr (IntrospectHandle h d), d)),
          clListHandles = (\<lambda>tags d. (Inr (rpc_ListHandles tags d), d)),
          clFindHandles = (\<lambda>q d. (Inr (rpc_FindHandles q d), d)),
          clOpenSession = (\<lambda>req d. OpenSession rt c req d),
          clSendMessage = (\<lambda>req d. SendMessage rt c req d),
          clSubscribe = (\<lambda>h d. (Inr (), snd (Subscribe_open c h d))),
          clResolveSession = (\<lambda>req d. ResolveSession rt c req d),
          clCreateRoom = (\<lambda>h title ms d. rpc_CreateRoom rt c h title ms d),
          clJoinRoom = (\<lambda>i h d. room_ok (settle rt arrivals (rpc_JoinRoom rt c i h d))),
          clLeaveRoom = (\<lambda>i h d. room_ok (settle rt arrivals (rpc_LeaveRoom rt c i h d))),
          clPostRoom = (\<lambda>i h p ct tr d. posted_event (settle rt arrivals (rpc_PostRoomMessage rt c i h p ct tr d))),
          clListRooms = (\<lambda>h d. (rpc_ListRooms rt c h d, d)),
          clRoomMembers = (\<lambda>i h d. map_prod (map_sum id ResMembers) id (settle rt arrivals (rpc_ListRoomMembers rt c i h d))),
          clReplayRoom = (\<lambda>i h seq d. map_prod (map_sum id ResEvents) id (settle rt arrivals (rpc_ReplayRoom rt c i h seq d))),
          clCloseRoom = (\<lambda>i h d. room_ok (settle rt arrivals (rpc_CloseRoom rt c i h d))),
          clListSessions = (\<lambda>h d. (Inr (rpc_ListSessions h d), d))\<rparr>)"

section \<open>Calls leave the owners of handles alone\<close>

lemma owner_emitRoomActivity [simp, frame]: "dHandleOwner (emitRoomActivity rt event d) = dHandleOwner d"
  by (simp add: emitRoomActivity_def split: room_event_type.split prod.split)

lemma owner_deliver_members [simp, frame]: "dHandleOwner (snd (deliver_room_members event ms d)) = dHandleOwner d"
  by (induction ms arbitrary: d) (simp_all add: Let_def case_prod_unfold)

lemma owner_DeliverRoomEventLocal [simp, frame]: "dHandleOwner (snd (DeliverRoomEventLocal event d)) = dHandleOwner d"
  by (simp add: DeliverRoomEventLocal_def)

lemma owner_publish_members [simp, frame]: "dHandleOwner (snd (publish_members rt event ms sent del d)) = dHandleOwner d"
proof (induction rt event ms sent del d rule: publish_members.induct)
  case (2 rt event member ms sent delivered d)
  show ?case
    using 2 by (auto simp: case_prod_unfold split: sum.splits)
qed simp

lemma owner_publishEvent [simp, frame]: "dHandleOwner (publishEvent rt event d) = dHandleOwner d"
  by (simp add: publishEvent_def case_prod_unfold)

lemma owner_upsert_room [simp, frame]: "dHandleOwner (snd (upsert_room rt room d)) = dHandleOwner d"
  by (simp add: upsert_room_def split: option.split)

lemma owner_persistAndPublish [simp, frame]: "dHandleOwner (snd (persistAndPublish rt room event d)) = dHandleOwner d"
  by (simp add: persistAndPublish_def Let_def case_prod_unfold split: sum.split option.split)

lemma owner_emit_event [simp, frame]: "dHandleOwner (snd (emit_event rt room typ f sub p ct tr d)) = dHandleOwner d"
  by (simp add: emit_event_def case_prod_unfold split: option.split)

lemma owner_event_result [simp, frame]: "dHandleOwner (snd (event_result r)) = dHandleOwner (snd r)"
  by (simp add: event_result_def case_prod_unfold split: sum.split)

lemma owner_recordMembershipEvent [simp, frame]: "dHandleOwner (snd (recordMembershipEvent rt room typ h d)) = dHandleOwner d"
  by (simp add: recordMembershipEvent_def case_prod_unfold split: sum.split)

lemma owner_executeCommand [simp, frame]: "dHandleOwner (snd (executeCommand rt room cmd d)) = dHandleOwner d"
  by (auto simp: executeCommand_def joinLocal_def leaveLocal_def postLocal_def replayLocal_def closeLocal_def
      split: room_command_type.split sum.split)

lemma owner_withRoomControl [simp, frame]: "dHandleOwner (snd (withRoomControl rt i cmd d)) = dHandleOwner d"
  by (simp add: withRoomControl_def Let_def case_prod_unfold split: sum.split option.split)

lemma owner_cacheRoom [simp, frame]: "dHandleOwner (cacheRoom r d) = dHandleOwner d"
  by (simp add: cacheRoom_def split: option.split)

lemma owner_handleRemoteCommandResult [simp, frame]: "dHandleOwner (handleRemoteCommandResult res d) = dHandleOwner d"
  by (simp add: handleRemoteCommandResult_def Let_def split: option.split)

lemma owner_send_reply [simp, frame]: "dHandleOwner (send_reply rt cmd res d) = dHandleOwner d"
  by (simp add: send_reply_def split: sum.split)

lemma owner_handleRemoteCommand [simp, frame]: "dHandleOwner (handleRemoteCommand rt cmd d) = dHandleOwner d"
  by (simp add: handleRemoteCommand_def replyWithError_def case_prod_unfold split: sum.split)

lemma owner_cacheRoomFromEvent [simp, frame]: "dHandleOwner (cacheRoomFromEvent ev d) = dHandleOwner d"
  by (simp add: cacheRoomFromEvent_def Let_def split: sum.split)

lemma owner_OnReceive [simp, frame]: "dHandleOwner (OnReceive rt msg d) = dHandleOwner d"
  by (simp add: OnReceive_def HandleTransportMessage_def receive_envelope_def Let_def split: transport_body.split)

lemma owner_fold_OnReceive [simp, frame]: "dHandleOwner (fold (OnReceive rt) msgs d) = dHandleOwner d"
  by (induction msgs arbitrary: d) simp_all

lemma owner_await_result [simp, frame]: "dHandleOwner (snd (await_result i d)) = dHandleOwner d"
  by (simp add: await_result_def Let_def split: option.split list.split)

lemma owner_settle [simp, frame]: "dHandleOwner (snd (settle rt arrivals r)) = dHandleOwner (snd r)"
  by (simp add: settle_def case_prod_unfold split: call.split)

lemma owner_posted_event [simp, frame]: "dHandleOwner (snd (posted_event r)) = dHandleOwner (snd r)"
  by (simp add: posted_event_def case_prod_unfold split: sum.split option.split)

lemma owner_owned_room_call [simp, frame]:
  "(\<And>d. dHandleOwner (snd (f d)) = dHandleOwner d) \<Longrightarrow> dHandleOwner (snd (owned_room_call conn h f d)) = dHandleOwner d"
  by (simp add: owned_room_call_def split: option.split)

lemma owner_room_rpcs [simp, frame]:
  "dHandleOwner (snd (rpc_JoinRoom rt conn i h d)) = dHandleOwner d" "dHandleOwner (snd (rpc_LeaveRoom rt conn i h d)) = dHandleOwner d"
  "dHandleOwner (snd (rpc_PostRoomMessage rt conn i h p ct tr d)) = dHandleOwner d"
  "dHandleOwner (snd (rpc_ListRoomMembers rt conn i h d)) = dHandleOwner d"
  "dHandleOwner (snd (rpc_ReplayRoom rt conn i h seq d)) = dHandleOwner d" "dHandleOwner (snd (rpc_CloseRoom rt conn i h d)) = dHandleOwner d"
  by (simp_all add: rpc_JoinRoom_def rpc_LeaveRoom_def rpc_PostRoomMessage_def rpc_ListRoomMembers_def rpc_ReplayRoom_def
      rpc_CloseRoom_def JoinRoom_def LeaveRoom_def PostMessage_def ListMembers_def Replay_def CloseRoom_def)

lemma owner_rpc_CreateRoom [simp, frame]: "dHandleOwner (snd (rpc_CreateRoom rt conn h t ms d)) = dHandleOwner d"
  by (simp add: rpc_CreateRoom_def CreateRoom_def Let_def case_prod_unfold split: option.split sum.split)

lemma owner_sessions [simp, frame]:
  "dHandleOwner (snd (OpenSession rt conn req d)) = dHandleOwner d" "dHandleOwner (snd (ResolveSession rt conn sreq d)) = dHandleOwner d"
  "dHandleOwner (snd (SendMessage rt conn sreq d)) = dHandleOwner d" "dHandleOwner (snd (Subscribe_open conn h d)) = dHandleOwner d"
  by (simp_all add: OpenSession_def ResolveSession_def commit_resolve_def SendMessage_def commit_send_def Subscribe_open_def Let_def case_prod_unfold
      split: option.split sum.split)

lemma fst_Register: "fst (Register rt c h m desc d) = (\<not> HasHandle h d)"
  by (simp add: Register_def Let_def)

lemma owner_Register:
  "gget (dHandleOwner (snd (Register rt (Some c) h m desc d))) =
     (if HasHandle h d then gget (dHandleOwner d) else (gget (dHandleOwner d))(h \<mapsto> c))"
  by (simp add: Register_def Let_def split: option.split)

section \<open>The interface the bridge relies on\<close>

text \<open>\<open>owns h s\<close>: in the state \<open>s\<close> the handle \<open>h\<close> belongs to the connection of the client.\<close>

locale handle_owner =
  fixes cl :: "'s bridge_client" and owns :: "string \<Rightarrow> 's \<Rightarrow> bool"
  assumes registers: "clRegister cl h m desc s = (Inr None, s') \<Longrightarrow> owns h s'"
    and keep_register: "owns h s \<Longrightarrow> owns h (snd (clRegister cl h' m desc s))"
    and keep_subscribe: "owns h s \<Longrightarrow> owns h (snd (clSubscribe cl h' s))"
    and keep_reads: "owns h s \<Longrightarrow> owns h (snd (clIntrospect cl h' s))" "owns h s \<Longrightarrow> owns h (snd (clListHandles cl tags s))"
      "owns h s \<Longrightarrow> owns h (snd (clFindHandles cl q s))" "owns h s \<Longrightarrow> owns h (snd (clListSessions cl h' s))"
      "owns h s \<Longrightarrow> owns h (snd (clListRooms cl h' s))"
    and keep_sessions: "owns h s \<Longrightarrow> owns h (snd (clOpenSession cl oreq s))" "owns h s \<Longrightarrow> owns h (snd (clSendMessage cl sreq s))"
      "owns h s \<Longrightarrow> owns h (snd (clResolveSession cl sreq s))"
    and keep_rooms: "owns h s \<Longrightarrow> owns h (snd (clCreateRoom cl h' title ms s))" "owns h s \<Longrightarrow> owns h (snd (clJoinRoom cl i h' s))"
      "owns h s \<Longrightarrow> owns h (snd (clLeaveRoom cl i h' s))" "owns h s \<Longrightarrow> owns h (snd (clPostRoom cl i h' p ct tr s))"
      "owns h s \<Longrightarrow> owns h (snd (clRoomMembers cl i h' s))" "owns h s \<Longrightarrow> owns h (snd (clReplayRoom cl i h' seq s))"
      "owns h s \<Longrightarrow> owns h (snd (clCloseRoom cl i h' s))"
begin

text \<open>The handle of a bridge is unset, or the connection owns it.\<close>

definition acts_as :: "string \<times> 's \<Rightarrow> bool" where
  "acts_as = (\<lambda>(handle, s). handle \<noteq> [] \<longrightarrow> owns handle s)"

lemma acts_as_unset [simp]: "acts_as ([], s)"
  by (simp add: acts_as_def)

lemma acts_as_fail [simp]: "acts_as (snd (snd (bridge_fail fatal cmd t m e handle s))) = acts_as (handle, s)"
  by (simp add: bridge_fail_def)

lemma acts_as_answer [simp]: "acts_as (snd (snd (answer fatal cmd t handle out r))) = acts_as (handle, snd r)"
  by (simp add: answer_def bridge_fail_def case_prod_unfold split: sum.split)

lemma acts_as_calls [simp]:
  assumes "acts_as (h, s)"
  shows "acts_as (h, snd (clIntrospect cl h' s))" "acts_as (h, snd (clListHandles cl tags s))" "acts_as (h, snd (clFindHandles cl q s))"
    "acts_as (h, snd (clListSessions cl h' s))" "acts_as (h, snd (clListRooms cl h' s))" "acts_as (h, snd (clOpenSession cl oreq s))"
    "acts_as (h, snd (clSendMessage cl sreq s))" "acts_as (h, snd (clResolveSession cl sreq s))"
    "acts_as (h, snd (clCreateRoom cl h' title ms s))" "acts_as (h, snd (clJoinRoom cl i h' s))" "acts_as (h, snd (clLeaveRoom cl i h' s))"
    "acts_as (h, snd (clPostRoom cl i h' p ct tr s))" "acts_as (h, snd (clRoomMembers cl i h' s))"
    "acts_as (h, snd (clReplayRoom cl i h' seq s))" "acts_as (h, snd (clCloseRoom cl i h' s))"
  using assms keep_reads keep_sessions keep_rooms by (simp_all add: acts_as_def)

lemma acts_as_register: "acts_as (handle, s) \<Longrightarrow> acts_as (snd (snd (bridge_register cl fatal cmd handle s)))"
proof (cases "handle = [] \<and> icHandle cmd \<noteq> []")
  case True
  obtain m desc where r: "buildRegisterRequest cmd = (icHandle cmd, m, desc)"
    by (cases "icManifest cmd") (simp_all add: buildRegisterRequest_def)
  have own: "owns (icHandle cmd) (snd (clSubscribe cl (icHandle cmd) s'))" if "clRegister cl (icHandle cmd) m desc s = (Inr None, s')" for s'
    by (rule keep_subscribe [OF registers [OF that]])
  have "owns (icHandle cmd) s2"
    if "clRegister cl (icHandle cmd) m desc s = (Inr None, s')" "clSubscribe cl (icHandle cmd) s' = (u, s2)" for s' s2 u
    using own [OF that(1)] that(2) by simp
  then show ?thesis
    using True by (auto simp: bridge_register_def Let_def r acts_as_def bridge_fail_def split: prod.split sum.split option.split)
qed (auto simp: bridge_register_def Let_def)

lemma acts_as_groups:
  assumes "acts_as (handle, s)"
  shows "acts_as (snd (snd (bridge_session cl fatal cmd handle s)))" "acts_as (snd (snd (bridge_room cl fatal cmd handle s)))"
    "acts_as (snd (snd (bridge_discover cl fatal cmd handle s)))"
  using assms by (simp_all add: bridge_session_def bridge_room_def bridge_discover_def Let_def)

lemma executeBridgeCommand_acts_as:
  "acts_as (handle, s) \<Longrightarrow> acts_as (snd (snd (executeBridgeCommand cl fatal cmd handle s)))"
  by (simp add: executeBridgeCommand_def acts_as_register acts_as_groups)

end

text \<open>Once set, the handle of a bridge never changes.\<close>

lemma handle_fail [simp]: "fst (snd (snd (bridge_fail fatal cmd t m e handle s))) = handle"
  by (simp add: bridge_fail_def)

lemma handle_answer [simp]: "fst (snd (snd (answer fatal cmd t handle out r))) = handle"
  by (simp add: answer_def case_prod_unfold split: sum.split)

lemma handle_stays: "handle \<noteq> [] \<Longrightarrow> fst (snd (snd (executeBridgeCommand cl fatal cmd handle s))) = handle"
  by (simp add: executeBridgeCommand_def bridge_register_def bridge_session_def bridge_room_def bridge_discover_def Let_def)

lemma register_sets:
  "fst (snd (snd (bridge_register cl fatal cmd [] s))) \<noteq> [] \<Longrightarrow>
     fst (bridge_register cl fatal cmd [] s) = RegisteredResp (icRequestID cmd) (fst (snd (snd (bridge_register cl fatal cmd [] s))))"
  by (simp add: bridge_register_def Let_def bridge_fail_def case_prod_unfold split: if_splits sum.splits option.splits)

lemma handle_set:
  assumes "executeBridgeCommand cl fatal cmd [] s = (out, err, handle', s')" and "handle' \<noteq> []"
  shows "out = RegisteredResp (icRequestID cmd) handle'"
proof -
  let ?r = "executeBridgeCommand cl fatal cmd [] s"
  have r: "fst (snd (snd ?r)) \<noteq> []" "fst ?r = out" "fst (snd (snd ?r)) = handle'" using assms by simp_all
  have "icType cmd = ''register''"
  proof (rule ccontr)
    assume "icType cmd \<noteq> ''register''"
    then have "fst (snd (snd ?r)) = []"
      by (simp add: executeBridgeCommand_def bridge_session_def bridge_room_def bridge_discover_def Let_def)
    then show False using r(1) by simp
  qed
  then show ?thesis
    using r register_sets [of cl fatal cmd s] by (simp add: executeBridgeCommand_def)
qed

section \<open>The bridge owns the handle it acts for\<close>

definition conn_owns :: "64 word \<Rightarrow> string \<Rightarrow> ('r, 'w) daemon \<Rightarrow> bool" where
  "conn_owns conn h d \<longleftrightarrow> gget (dHandleOwner d) h = Some conn"

lemma settle_maps [simp]:
  "snd (room_ok r) = snd r" "snd (map_prod f id r) = snd r"
  by (simp_all add: room_ok_def)

interpretation on_daemon: handle_owner "daemon_client rt arrivals conn" "conn_owns conn"
proof unfold_locales
  show "conn_owns conn h s'" if "clRegister (daemon_client rt arrivals conn) h m desc s = (Inr None, s')" for h m desc s s'
    using that owner_Register [of rt conn h m desc s]
    by (auto simp: daemon_client_def conn_owns_def Register_def Let_def split: prod.splits if_splits)
qed (simp_all add: daemon_client_def conn_owns_def Let_def owner_Register case_prod_unfold)

text \<open>
  A run of the bridge on its daemon: commands, each with its own clock, identifiers and arrivals, and
  messages that come in from other nodes between them.
\<close>

datatype 'w bridge_item =
    Command "'w rt" "string \<Rightarrow> transport_message list" inbound_cmd
  | Arrival "'w rt" transport_message

fun run_item :: "64 word \<Rightarrow> 'w bridge_item \<Rightarrow> bridge_out list \<times> string \<times> ('r, 'w) daemon \<Rightarrow> bridge_out list \<times> string \<times> ('r, 'w) daemon" where
  "run_item conn (Command rt arrivals cmd) (outs, handle, d) =
     (case executeBridgeCommand (daemon_client rt arrivals conn) False cmd handle d of (out, err, handle, d) \<Rightarrow> (outs @ [out], handle, d))"
| "run_item conn (Arrival rt msg) (outs, handle, d) = (outs, handle, OnReceive rt msg d)"

definition run_bridge_on :: "64 word \<Rightarrow> 'w bridge_item list \<Rightarrow> ('r, 'w) daemon \<Rightarrow> bridge_out list \<times> string \<times> ('r, 'w) daemon" where
  "run_bridge_on conn items d = fold (run_item conn) items ([], [], d)"

text \<open>The handle is owned and was announced.\<close>

definition announced :: "bridge_out list \<Rightarrow> string \<Rightarrow> bool" where
  "announced outs handle \<longleftrightarrow> (handle \<noteq> [] \<longrightarrow> (\<exists>rid. RegisteredResp rid handle \<in> set outs))"

lemma run_item_inv:
  assumes "on_daemon.acts_as conn (snd s)" and "announced (fst s) (fst (snd s))"
  shows "on_daemon.acts_as conn (snd (run_item conn item s)) \<and> announced (fst (run_item conn item s)) (fst (snd (run_item conn item s)))"
proof -
  obtain outs handle d where s: "s = (outs, handle, d)" by (cases s)
  show ?thesis
  proof (cases item)
    case (Command rt arrivals cmd)
    obtain out err h d' where x: "executeBridgeCommand (daemon_client rt arrivals conn) False cmd handle d = (out, err, h, d')"
      by (cases "executeBridgeCommand (daemon_client rt arrivals conn) False cmd handle d")
    have "on_daemon.acts_as conn (h, d')"
      using on_daemon.executeBridgeCommand_acts_as [of conn handle d rt arrivals False cmd] assms(1) by (simp add: s x)
    moreover have "announced (outs @ [out]) h"
      using assms(2) handle_stays [of handle "daemon_client rt arrivals conn" False cmd d] handle_set [of "daemon_client rt arrivals conn" False cmd d] x
      by (cases "handle = []") (auto simp: s announced_def)
    ultimately show ?thesis by (simp add: s Command x)
  next
    case (Arrival rt msg)
    then show ?thesis using assms by (simp add: s on_daemon.acts_as_def conn_owns_def)
  qed
qed

lemma run_items_inv:
  assumes "on_daemon.acts_as conn (snd s)" and "announced (fst s) (fst (snd s))"
  shows "on_daemon.acts_as conn (snd (fold (run_item conn) items s)) \<and>
    announced (fst (fold (run_item conn) items s)) (fst (snd (fold (run_item conn) items s)))"
  using assms by (induction items arbitrary: s) (simp_all add: run_item_inv)

text \<open>
  The bridge only acts for a handle of its connection: after any run of commands on a daemon, with
  messages from other nodes in between, the handle of the bridge, once it has one, is owned by the
  connection, so that the ownership check of every call it makes passes; and the handle was
  announced in the answer to a registration.
\<close>

theorem bridge_owns_its_handle:
  assumes "run_bridge_on conn items d = (outs, handle, d')" and "handle \<noteq> []"
  shows "verifyOwnership (Some conn) handle d' = None \<and> (\<exists>rid. RegisteredResp rid handle \<in> set outs)"
  using run_items_inv [of conn "([], [], d)" items] assms
  by (simp add: run_bridge_on_def announced_def on_daemon.acts_as_def conn_owns_def verifyOwnership_def)

theorem bridge_owns_its_handle_witness:
  "\<exists>d' rid. verifyOwnership (Some 7) ''ann'' d' = None \<and>
     run_bridge_on 7 [Command sample_rt (\<lambda>_. []) (zero_cmd\<lparr>icType := ''register'', icRequestID := rid, icHandle := ''ann''\<rparr>)]
       (NewDaemon ''n'' blob_codec ()) = ([RegisteredResp rid ''ann''], ''ann'', d')"
proof -
  let ?items = "[Command sample_rt (\<lambda>_. []) (zero_cmd\<lparr>icType := ''register'', icRequestID := ''r1'', icHandle := ''ann''\<rparr>)]"
  have new: "\<not> HasHandle ''ann'' (NewDaemon ''n'' blob_codec () :: (blob, unit) daemon)"
    by (simp add: NewDaemon_def HasHandle_def gget_or_def)
  obtain d' where r: "run_bridge_on 7 ?items (NewDaemon ''n'' blob_codec ()) = ([RegisteredResp ''r1'' ''ann''], ''ann'', d')"
    by (simp add: run_bridge_on_def executeBridgeCommand_def bridge_register_def zero_cmd_def buildRegisterRequest_def
        daemon_client_def Let_def fst_Register case_prod_unfold new)
  from bridge_owns_its_handle [OF r] show ?thesis using r by blast
qed

end
