(* ===== verification/Bridge_Loop.thy ===== *)
theory Bridge_Loop
  imports Bridge_Daemon
begin

text \<open>
  \<open>runBridge\<close> (\<open>cmd/tailbus/agent.go\<close>): a goroutine reads the lines of the program and offers commands on an
  unbuffered channel, the main loop takes and executes them, and the context may be cancelled at any time. The
  system is a step relation on both program counters. Without a cancellation the bridge executes
  exactly the commands of its input in order and ends; with one it can wait forever.
\<close>

section \<open>The two goroutines\<close>

text \<open>
  \<open>Scanning\<close> is the head of the loop over the lines, \<open>Offering\<close> its \<open>select\<close>, \<open>Closing\<close> the deferred
  \<open>close(cmdCh)\<close>. The main loop waits in its \<open>select\<close>, executes a command, waits for \<open>scanErrCh\<close>, or has
  returned.
\<close>

datatype scanner_pc = Scanning | Offering inbound_cmd | Closing | ScannerDone

datatype main_pc = Selecting | Executing inbound_cmd | AwaitScanErr | MainReturned "err_text option"

text \<open>
  \<open>brInput\<close> are the lines still to read and \<open>brScanErr\<close> the error the scanner reports at their end; the
  buffered channel \<open>scanErrCh\<close> holds at most one value. \<open>brRan\<close> is the history of executed commands.
\<close>

record 's bridge =
  brInput :: "string list"
  brReadErr :: "err_text option"
  brScanner :: scanner_pc
  brClosed :: bool
  brScanErrCh :: "err_text option option"
  brCancelled :: bool
  brMain :: main_pc
  brHandle :: string
  brClient :: 's
  brOut :: "bridge_out list"
  brRan :: "inbound_cmd list"

definition invalid_json :: "string \<Rightarrow> bridge_out" where
  "invalid_json e = ErrorResp [] (Text (''invalid JSON: '' @ e)) ''unknown''"

text \<open>
  \<open>parse\<close> decodes a line or says what is wrong with it. Other steps are those of the subscription, which writes incoming messages, and of
  the rest of the world, which changes the state behind the client.
\<close>

inductive bridge_step :: "(string \<Rightarrow> string + inbound_cmd) \<Rightarrow> 's bridge_client \<Rightarrow> 's bridge \<Rightarrow> 's bridge \<Rightarrow> bool"
  for parse cl where
  scan_empty: "brScanner b = Scanning \<Longrightarrow> brInput b = [] # ls \<Longrightarrow> bridge_step parse cl b (b\<lparr>brInput := ls\<rparr>)"
| scan_invalid: "brScanner b = Scanning \<Longrightarrow> brInput b = l # ls \<Longrightarrow> l \<noteq> [] \<Longrightarrow> parse l = Inl e \<Longrightarrow>
    bridge_step parse cl b (b\<lparr>brInput := ls, brOut := brOut b @ [invalid_json e]\<rparr>)"
| scan_command: "brScanner b = Scanning \<Longrightarrow> brInput b = l # ls \<Longrightarrow> l \<noteq> [] \<Longrightarrow> parse l = Inr cmd \<Longrightarrow>
    bridge_step parse cl b (b\<lparr>brInput := ls, brScanner := Offering cmd\<rparr>)"
| scan_end: "brScanner b = Scanning \<Longrightarrow> brInput b = [] \<Longrightarrow>
    bridge_step parse cl b (b\<lparr>brScanErrCh := Some (brReadErr b), brScanner := Closing\<rparr>)"
| scan_cancelled: "brScanner b = Offering cmd \<Longrightarrow> brCancelled b \<Longrightarrow> bridge_step parse cl b (b\<lparr>brScanner := Closing\<rparr>)"
| scan_close: "brScanner b = Closing \<Longrightarrow> bridge_step parse cl b (b\<lparr>brClosed := True, brScanner := ScannerDone\<rparr>)"
| hand_over: "brScanner b = Offering cmd \<Longrightarrow> brMain b = Selecting \<Longrightarrow>
    bridge_step parse cl b (b\<lparr>brScanner := Scanning, brMain := Executing cmd\<rparr>)"
| execute: "brMain b = Executing cmd \<Longrightarrow> executeBridgeCommand cl False cmd (brHandle b) (brClient b) = (out, err, handle, s) \<Longrightarrow>
    bridge_step parse cl b (b\<lparr>brMain := (case err of None \<Rightarrow> Selecting | Some e \<Rightarrow> MainReturned (Some e)), brHandle := handle,
      brClient := s, brOut := brOut b @ [out], brRan := brRan b @ [cmd]\<rparr>)"
| main_closed: "brMain b = Selecting \<Longrightarrow> brClosed b \<Longrightarrow> bridge_step parse cl b (b\<lparr>brMain := AwaitScanErr\<rparr>)"
| main_scan_err: "brMain b = AwaitScanErr \<Longrightarrow> brScanErrCh b = Some e \<Longrightarrow>
    bridge_step parse cl b (b\<lparr>brScanErrCh := None, brMain := MainReturned e\<rparr>)"
| main_cancelled: "brMain b = Selecting \<Longrightarrow> brCancelled b \<Longrightarrow> bridge_step parse cl b (b\<lparr>brMain := MainReturned None\<rparr>)"

text \<open>What happens around the bridge.\<close>

inductive outside_step :: "'s bridge \<Rightarrow> 's bridge \<Rightarrow> bool" where
  message: "brHandle b \<noteq> [] \<Longrightarrow> outside_step b (b\<lparr>brOut := brOut b @ [incoming_out msg]\<rparr>)"
| elsewhere: "outside_step b (b\<lparr>brClient := s\<rparr>)"

definition cancel :: "'s bridge \<Rightarrow> 's bridge" where
  "cancel b = b\<lparr>brCancelled := True\<rparr>"

text \<open>The state after the initial commands; they end the bridge when one of them fails.\<close>

fun run_initial ::
  "'s bridge_client \<Rightarrow> inbound_cmd list \<Rightarrow> string \<times> 's \<Rightarrow> bridge_out list \<times> err_text option \<times> string \<times> 's" where
  "run_initial cl [] (handle, s) = ([], None, handle, s)"
| "run_initial cl (cmd # cmds) (handle, s) =
     (case executeBridgeCommand cl True cmd handle s of
        (out, Some e, handle, s) \<Rightarrow> ([out], Some e, handle, s)
      | (out, None, handle, s) \<Rightarrow> (case run_initial cl cmds (handle, s) of (outs, r) \<Rightarrow> (out # outs, r)))"

definition runBridge_start ::
  "'s bridge_client \<Rightarrow> inbound_cmd list \<Rightarrow> string list \<Rightarrow> err_text option \<Rightarrow> 's \<Rightarrow> 's bridge" where
  "runBridge_start cl initial input readErr s =
     (case run_initial cl initial ([], s) of (outs, err, handle, s) \<Rightarrow>
        \<lparr>brInput = input, brReadErr = readErr, brScanner = (if err = None then Scanning else ScannerDone), brClosed = False,
         brScanErrCh = None, brCancelled = False, brMain = (if err = None then Selecting else MainReturned err),
         brHandle = handle, brClient = s, brOut = outs, brRan = []\<rparr>)"

inductive_cases bridge_stepE: "bridge_step parse cl b b'"
inductive_cases outside_stepE: "outside_step b b'"

text \<open>Runs of the system; \<open>quiet_step\<close> has no cancellation.\<close>

definition quiet_step :: "(string \<Rightarrow> string + inbound_cmd) \<Rightarrow> 's bridge_client \<Rightarrow> 's bridge \<Rightarrow> 's bridge \<Rightarrow> bool" where
  "quiet_step parse cl b b' \<longleftrightarrow> bridge_step parse cl b b' \<or> outside_step b b'"

definition any_step :: "(string \<Rightarrow> string + inbound_cmd) \<Rightarrow> 's bridge_client \<Rightarrow> 's bridge \<Rightarrow> 's bridge \<Rightarrow> bool" where
  "any_step parse cl b b' \<longleftrightarrow> quiet_step parse cl b b' \<or> b' = cancel b"

section \<open>Commands run in the order of the input\<close>

text \<open>The commands of an input, and those a state has read and not executed.\<close>

fun decoded :: "(string \<Rightarrow> string + inbound_cmd) \<Rightarrow> string list \<Rightarrow> inbound_cmd list" where
  "decoded parse [] = []"
| "decoded parse (l # ls) = (if l = [] then decoded parse ls
     else case parse l of Inl e \<Rightarrow> decoded parse ls | Inr cmd \<Rightarrow> cmd # decoded parse ls)"

definition underway :: "'s bridge \<Rightarrow> inbound_cmd list" where
  "underway b = (case brMain b of Executing cmd \<Rightarrow> [cmd] | _ \<Rightarrow> []) @ (case brScanner b of Offering cmd \<Rightarrow> [cmd] | _ \<Rightarrow> [])"

definition ahead :: "(string \<Rightarrow> string + inbound_cmd) \<Rightarrow> 's bridge \<Rightarrow> inbound_cmd list" where
  "ahead parse b = (if brScanner b \<in> {Closing, ScannerDone} then [] else decoded parse (brInput b))"

lemma never_fatal: "executeBridgeCommand cl False cmd handle s = (out, err, handle', s') \<Longrightarrow> err = None"
  using answers_command [of False cmd cl handle s] by (simp add: answers_def)

lemma bridge_step_order:
  assumes "bridge_step parse cl b b'"
  shows "brRan b' @ underway b' @ ahead parse b' = brRan b @ underway b @ ahead parse b \<or>
    brCancelled b \<and> (\<exists>cmd. brScanner b = Offering cmd \<and> brScanner b' = Closing \<and> brRan b' = brRan b \<and> brMain b' = brMain b)"
  using assms by cases (auto simp: underway_def ahead_def dest: never_fatal split: main_pc.splits)

lemma outside_step_fields:
  assumes "outside_step b b'"
  shows "brRan b' = brRan b" "brScanner b' = brScanner b" "brMain b' = brMain b" "brInput b' = brInput b" "brCancelled b' = brCancelled b"
    "brClosed b' = brClosed b" "brScanErrCh b' = brScanErrCh b" "brReadErr b' = brReadErr b"
  using assms by (cases; simp)+

lemma view_cong:
  "brMain b' = brMain b \<Longrightarrow> brScanner b' = brScanner b \<Longrightarrow> underway b' = underway b"
  "brScanner b' = brScanner b \<Longrightarrow> brInput b' = brInput b \<Longrightarrow> ahead parse b' = ahead parse b"
  by (simp_all add: underway_def ahead_def)

lemma order_prefix:
  assumes "any_step parse cl b b'" and "\<exists>rest. brRan b @ underway b @ ahead parse b @ rest = cmds"
  shows "\<exists>rest. brRan b' @ underway b' @ ahead parse b' @ rest = cmds"
proof -
  consider "bridge_step parse cl b b'" | "outside_step b b'" | "b' = cancel b"
    using assms(1) by (auto simp: any_step_def quiet_step_def)
  then show ?thesis
  proof cases
    case 1
    from bridge_step_order [OF 1] show ?thesis
    proof
      assume "brCancelled b \<and> (\<exists>cmd. brScanner b = Offering cmd \<and> brScanner b' = Closing \<and> brRan b' = brRan b \<and> brMain b' = brMain b)"
      then show ?thesis
        using assms(2) by (auto simp: underway_def ahead_def)
    next
      assume "brRan b' @ underway b' @ ahead parse b' = brRan b @ underway b @ ahead parse b"
      then show ?thesis
        using assms(2) by (metis append.assoc)
    qed
  next
    case 2
    then show ?thesis
      using assms(2) view_cong(1) [of b' b] view_cong(2) [of b' b parse] by (simp add: outside_step_fields)
  next
    case 3
    then show ?thesis
      using assms(2) view_cong(1) [of b' b] view_cong(2) [of b' b parse] by (simp add: cancel_def)
  qed
qed

lemma start_order:
  assumes "b = runBridge_start cl initial input readErr s"
  shows "\<exists>rest. brRan b @ underway b @ ahead parse b @ rest = decoded parse input"
  by (cases "run_initial cl initial ([], s)") (simp add: assms runBridge_start_def underway_def ahead_def)


section \<open>Without a cancellation the bridge ends\<close>

text \<open>The steps a state has left, for any schedule.\<close>

definition steps_left :: "'s bridge \<Rightarrow> nat" where
  "steps_left b = 3 * length (brInput b) +
     (case brScanner b of Scanning \<Rightarrow> 2 | Offering cmd \<Rightarrow> 4 | Closing \<Rightarrow> 1 | ScannerDone \<Rightarrow> 0) +
     (case brMain b of Executing cmd \<Rightarrow> 3 | Selecting \<Rightarrow> 2 | AwaitScanErr \<Rightarrow> 1 | MainReturned e \<Rightarrow> 0)"

lemma bridge_step_steps_left: "bridge_step parse cl b b' \<Longrightarrow> steps_left b' < steps_left b"
  by (induction rule: bridge_step.induct) (auto simp: steps_left_def dest: never_fatal)

lemma outside_steps_left: "outside_step b b' \<Longrightarrow> steps_left b' = steps_left b"
  by (simp add: steps_left_def outside_step_fields)

text \<open>What holds of the program counters and channels as long as nobody cancels.\<close>

definition pcs_ok :: "err_text option \<Rightarrow> 's bridge \<Rightarrow> bool" where
  "pcs_ok readErr b \<longleftrightarrow> \<not> brCancelled b \<and> brReadErr b = readErr \<and>
     (brClosed b \<longleftrightarrow> brScanner b = ScannerDone) \<and> (brMain b = AwaitScanErr \<longrightarrow> brClosed b) \<and>
     (brScanner b \<in> {Closing, ScannerDone} \<longrightarrow> brScanErrCh b = Some readErr \<or> brMain b = MainReturned readErr) \<and>
     (\<forall>e. brMain b = MainReturned e \<longrightarrow> e = readErr \<and> brScanner b = ScannerDone)"

lemma pcs_ok_bridge_step: "bridge_step parse cl b b' \<Longrightarrow> pcs_ok readErr b \<Longrightarrow> pcs_ok readErr b'"
  unfolding pcs_ok_def
  by (induction rule: bridge_step.induct) (simp_all, auto dest: never_fatal)

definition undisturbed :: "(string \<Rightarrow> string + inbound_cmd) \<Rightarrow> inbound_cmd list \<Rightarrow> err_text option \<Rightarrow> 's bridge \<Rightarrow> bool" where
  "undisturbed parse cmds readErr b \<longleftrightarrow> pcs_ok readErr b \<and> brRan b @ underway b @ ahead parse b = cmds"

lemma undisturbed_step:
  assumes "quiet_step parse cl b b'" and "undisturbed parse cmds readErr b"
  shows "undisturbed parse cmds readErr b'"
  using assms(1) unfolding quiet_step_def
proof
  assume s: "bridge_step parse cl b b'"
  have "\<not> brCancelled b" using assms(2) by (simp add: undisturbed_def pcs_ok_def)
  then show ?thesis
    using bridge_step_order [OF s] pcs_ok_bridge_step [OF s] assms(2) by (auto simp: undisturbed_def)
next
  assume "outside_step b b'"
  then show ?thesis
    using assms(2) view_cong(1) [of b' b] view_cong(2) [of b' b parse] by (auto simp: undisturbed_def pcs_ok_def outside_step_fields)
qed

lemma undisturbed_start:
  assumes "run_initial cl initial ([], s) = (outs, None, handle, s')"
  shows "undisturbed parse (decoded parse input) readErr (runBridge_start cl initial input readErr s)"
  using assms by (simp add: undisturbed_def pcs_ok_def runBridge_start_def underway_def ahead_def)

lemma scanner_stuck:
  assumes "pcs_ok readErr b" and stuck: "\<nexists>b'. bridge_step parse cl b b'"
  shows "brScanner b = ScannerDone"
proof (cases "brScanner b")
  case Scanning
  have "\<exists>b'. bridge_step parse cl b b'"
  proof (cases "brInput b")
    case (Cons l ls)
    then show ?thesis
      using Scanning by (cases "l = []"; cases "parse l") (blast intro: bridge_step.intros)+
  qed (use Scanning in \<open>blast intro: bridge_step.intros\<close>)
  with stuck show ?thesis by blast
next
  case (Offering cmd)
  have "\<exists>b'. bridge_step parse cl b b'"
  proof (cases "brMain b")
    case (Executing c)
    then show ?thesis
      by (cases "executeBridgeCommand cl False c (brHandle b) (brClient b)") (blast intro: bridge_step.intros)
  qed (use assms(1) Offering in \<open>auto simp: pcs_ok_def intro: bridge_step.intros\<close>)
  with stuck show ?thesis by blast
qed (use stuck in \<open>blast intro: bridge_step.intros\<close>)+

lemma main_stuck:
  assumes "pcs_ok readErr b" and "brScanner b = ScannerDone" and stuck: "\<nexists>b'. bridge_step parse cl b b'"
  shows "brMain b = MainReturned readErr"
proof (cases "brMain b")
  case (Executing c)
  then have "\<exists>b'. bridge_step parse cl b b'"
    by (cases "executeBridgeCommand cl False c (brHandle b) (brClient b)") (blast intro: bridge_step.intros)
  with stuck show ?thesis by blast
qed (use assms in \<open>auto simp: pcs_ok_def intro: bridge_step.intros\<close>)

text \<open>Runs of \<open>n\<close> steps of the bridge, with steps from outside between them.\<close>

inductive quiet_run :: "(string \<Rightarrow> string + inbound_cmd) \<Rightarrow> 's bridge_client \<Rightarrow> nat \<Rightarrow> 's bridge \<Rightarrow> 's bridge \<Rightarrow> bool"
  for parse cl where
  run_start: "quiet_run parse cl 0 b b"
| run_own: "quiet_run parse cl n b b' \<Longrightarrow> bridge_step parse cl b' b'' \<Longrightarrow> quiet_run parse cl (Suc n) b b''"
| run_outside: "quiet_run parse cl n b b' \<Longrightarrow> outside_step b' b'' \<Longrightarrow> quiet_run parse cl n b b''"

lemma quiet_run_inv:
  "quiet_run parse cl n b b' \<Longrightarrow> undisturbed parse cmds readErr b \<Longrightarrow>
     undisturbed parse cmds readErr b' \<and> n + steps_left b' \<le> steps_left b"
  by (induction rule: quiet_run.induct)
    (auto simp: quiet_step_def outside_steps_left dest: bridge_step_steps_left intro: undisturbed_step)


section \<open>A cancellation can leave the bridge waiting\<close>

definition hung :: "'s bridge \<Rightarrow> bool" where
  "hung b \<longleftrightarrow> brMain b = AwaitScanErr \<and> brScanErrCh b = None \<and> brScanner b = ScannerDone"

lemma hung_step: "any_step parse cl b b' \<Longrightarrow> hung b \<Longrightarrow> hung b'"
  unfolding any_step_def quiet_step_def
  by (auto simp: hung_def cancel_def outside_step_fields elim!: bridge_stepE)

lemma hung_forever: "(any_step parse cl)\<^sup>*\<^sup>* b b' \<Longrightarrow> hung b \<Longrightarrow> hung b'"
  by (induction rule: rtranclp_induct) (auto intro: hung_step)

lemma own_step: "bridge_step parse cl b b' \<Longrightarrow> any_step parse cl b b'"
  by (simp add: any_step_def quiet_step_def)

text \<open>
  When the context is cancelled while a command is being offered, the reading goroutine leaves without
  a value in \<open>scanErrCh\<close> and closes the command channel. If the main loop then sees the closed channel
  before the cancellation, it waits for a value that never comes: \<open>runBridge\<close> does not return, for any
  client and any further events. One line of input is enough.
\<close>

theorem cancellation_can_hang:
  assumes "run_initial cl initial ([], s) = (outs, None, handle, s')" and "l \<noteq> []" and "parse l = Inr cmd"
  shows "\<exists>b. (any_step parse cl)\<^sup>*\<^sup>* (runBridge_start cl initial (l # ls) readErr s) b \<and>
    (\<forall>b'. (any_step parse cl)\<^sup>*\<^sup>* b b' \<longrightarrow> brMain b' = AwaitScanErr)"
proof -
  define b0 where "b0 = runBridge_start cl initial (l # ls) readErr s"
  define b1 where "b1 = b0\<lparr>brInput := ls, brScanner := Offering cmd\<rparr>"
  define b2 where "b2 = cancel b1"
  define b3 where "b3 = b2\<lparr>brScanner := Closing\<rparr>"
  define b4 where "b4 = b3\<lparr>brClosed := True, brScanner := ScannerDone\<rparr>"
  define b5 where "b5 = b4\<lparr>brMain := AwaitScanErr\<rparr>"
  have b0: "brScanner b0 = Scanning" "brInput b0 = l # ls" "brMain b0 = Selecting" "brScanErrCh b0 = None"
    using assms(1) by (simp_all add: b0_def runBridge_start_def)
  have "any_step parse cl b0 b1" unfolding b1_def by (intro own_step scan_command) (use b0 assms in auto)
  moreover have "any_step parse cl b1 b2" by (simp add: any_step_def b2_def)
  moreover have "any_step parse cl b2 b3" unfolding b3_def by (intro own_step scan_cancelled) (simp_all add: b2_def b1_def cancel_def)
  moreover have "any_step parse cl b3 b4" unfolding b4_def by (intro own_step scan_close) (simp add: b3_def)
  moreover have "any_step parse cl b4 b5" unfolding b5_def
    by (intro own_step main_closed) (simp_all add: b4_def b3_def b2_def b1_def cancel_def b0)
  ultimately have "(any_step parse cl)\<^sup>*\<^sup>* b0 b5" by (meson converse_rtranclp_into_rtranclp rtranclp.rtrancl_refl)
  moreover have "hung b5" by (simp add: hung_def b5_def b4_def b3_def b2_def b1_def cancel_def b0)
  ultimately show ?thesis
    using hung_forever unfolding b0_def [symmetric] by (metis hung_def)
qed

section \<open>A bridge on a new daemon\<close>

text \<open>Every line is the command \<open>list\<close>.\<close>

definition list_cmd_line :: "string \<Rightarrow> string + inbound_cmd" where
  "list_cmd_line l = Inr (zero_cmd\<lparr>icType := ''list'', icRequestID := l\<rparr>)"

definition demo_start :: "(blob, unit) daemon bridge" where
  "demo_start = runBridge_start (daemon_client sample_rt (\<lambda>_. []) 7) [] [''a''] None (NewDaemon ''n'' blob_codec ())"

lemma demo_step: "bridge_step list_cmd_line cl demo_start (demo_start\<lparr>brInput := [], brScanner := Offering (zero_cmd\<lparr>icType := ''list'', icRequestID := ''a''\<rparr>)\<rparr>)"
  by (rule scan_command [of _ "''a''"]) (simp_all add: demo_start_def runBridge_start_def list_cmd_line_def)



theorem cancellation_can_hang_witness:
  "\<exists>b. (any_step list_cmd_line (daemon_client sample_rt (\<lambda>_. []) 7))\<^sup>*\<^sup>* demo_start b \<and> brMain b = AwaitScanErr"
proof -
  have i: "run_initial (daemon_client sample_rt (\<lambda>_. []) 7) [] ([], NewDaemon ''n'' blob_codec ()) =
    ([], None, [], NewDaemon ''n'' blob_codec () :: (blob, unit) daemon)" by simp
  from cancellation_can_hang [OF i, of "''a''" list_cmd_line "zero_cmd\<lparr>icType := ''list'', icRequestID := ''a''\<rparr>" "[]" None]
  show ?thesis
    unfolding demo_start_def by (auto simp: list_cmd_line_def)
qed

end
