(* ===== verification/Attach.thy ===== *)
theory Attach
  imports Bridge_Loop
begin

text \<open>
  \<open>tailbus attach\<close> (\<open>cmd/tailbus/attach.go\<close>): a child process behind the bridge, or, in exec mode, one run of a
  command per session. The operating system enters as a function from what is started to what it
  printed. Errors of the operating system and of the command are texts.
\<close>

section \<open>Flags\<close>

record attach_flags =
  afHandle :: string
  afManifest :: string
  afDescription :: string
  afVersion :: string
  afCwd :: string
  afExec :: bool
  afExecTimeout :: int
  afTags :: "string list"
  afCapabilities :: "string list"
  afDomains :: "string list"
  afInputTypes :: "string list"
  afOutputTypes :: "string list"
  afJoinRooms :: "string list"
  afEnv :: "string list"
  afArgs :: "string list"

definition hasInlineManifestFields :: "attach_flags \<Rightarrow> bool" where
  "hasInlineManifestFields f \<longleftrightarrow> afDescription f \<noteq> [] \<or> afVersion f \<noteq> [] \<or> afTags f \<noteq> [] \<or> afCapabilities f \<noteq> [] \<or>
     afDomains f \<noteq> [] \<or> afInputTypes f \<noteq> [] \<or> afOutputTypes f \<noteq> []"

definition buildInlineManifest :: "attach_flags \<Rightarrow> manifest_cmd option" where
  "buildInlineManifest f =
     (if \<not> hasInlineManifestFields f then None
      else Some \<lparr>mcDescription = afDescription f, mcCommands = [], mcTags = afTags f, mcVersion = afVersion f,
             mcCapabilities = afCapabilities f, mcDomains = afDomains f, mcInputTypes = afInputTypes f, mcOutputTypes = afOutputTypes f\<rparr>)"

definition join_command :: "nat \<Rightarrow> string \<Rightarrow> inbound_cmd" where
  "join_command idx roomID = zero_cmd\<lparr>icType := ''join_room'', icRequestID := ''attach-join-'' @ dec_nat (idx + 1), icRoomID := roomID\<rparr>"

definition buildAttachInitialCommands :: "string \<Rightarrow> manifest_cmd option \<Rightarrow> string list \<Rightarrow> inbound_cmd list" where
  "buildAttachInitialCommands handle manifest joinRooms =
     zero_cmd\<lparr>icType := ''register'', icRequestID := ''attach-register'', icHandle := handle, icManifest := manifest\<rparr> #
     map (\<lambda>(idx, roomID). join_command idx roomID) (enumerate 0 joinRooms)"

text \<open>What the checks of \<open>runAttach\<close> decide. \<open>load\<close> reads and parses a manifest file.\<close>

datatype attach_error =
    MissingHandle
  | MissingCommand
  | ManifestAndFlags
  | ManifestUnreadable string
  | InvalidEnv string

datatype attach_plan = RunExec "manifest_cmd option" | RunChild "manifest_cmd option"

definition attach_manifest :: "(string \<Rightarrow> string + manifest_cmd) \<Rightarrow> attach_flags \<Rightarrow> attach_error + manifest_cmd option" where
  "attach_manifest load f =
     (if afManifest f \<noteq> [] then (case load (afManifest f) of Inl e \<Rightarrow> Inl (ManifestUnreadable e) | Inr m \<Rightarrow> Inr (Some m))
      else Inr (buildInlineManifest f))"

definition runAttach_plan :: "(string \<Rightarrow> string + manifest_cmd) \<Rightarrow> attach_flags \<Rightarrow> attach_error + attach_plan" where
  "runAttach_plan load f =
     (if afHandle f = [] then Inl MissingHandle
      else if afArgs f = [] then Inl MissingCommand
      else if afManifest f \<noteq> [] \<and> buildInlineManifest f \<noteq> None then Inl ManifestAndFlags
      else case attach_manifest load f of
             Inl e \<Rightarrow> Inl e
           | Inr m \<Rightarrow>
               (case filter (\<lambda>v. CHR ''='' \<notin> set v) (afEnv f) of
                  v # _ \<Rightarrow> Inl (InvalidEnv v)
                | [] \<Rightarrow> Inr (if afExec f then RunExec m else RunChild m)))"

text \<open>
  The end of \<open>runAttach\<close> with a child: whichever of bridge and child returns first, the other one is
  cancelled and waited for, and the error of the bridge comes first.
\<close>

definition attach_result :: "'e option \<Rightarrow> 'e option \<Rightarrow> 'e option" where
  "attach_result bridgeErr childErr = (case bridgeErr of Some e \<Rightarrow> Some e | None \<Rightarrow> childErr)"

section \<open>Exec mode\<close>

record child =
  chPath :: string
  chArgs :: "string list"
  chDir :: string
  chEnv :: "string list"

text \<open>A finished run: standard output, standard error, and the text of an error.\<close>

type_synonym run_result = "string \<times> string \<times> string option"

definition exec_args :: "string list \<Rightarrow> string \<Rightarrow> string list" where
  "exec_args args payload =
     (let replaced = map (\<lambda>arg. if arg = ''{}'' then payload else arg) args
      in if ''{}'' \<notin> set args \<and> payload \<noteq> [] then replaced @ [payload] else replaced)"

definition execCommand ::
  "(child \<Rightarrow> run_result) \<Rightarrow> string list \<Rightarrow> string list \<Rightarrow> string \<Rightarrow> string \<Rightarrow> string list \<Rightarrow> string \<times> string option" where
  "execCommand run environ baseArgs payload cwdPath envVars =
     (case run \<lparr>chPath = hd baseArgs, chArgs = exec_args (tl baseArgs) payload, chDir = cwdPath,
                chEnv = environ @ envVars @ [''TAILBUS_PAYLOAD='' @ payload]\<rparr> of
        (stdout, stderr, err) \<Rightarrow> (if stdout = [] \<and> stderr \<noteq> [] then stderr else stdout, err))"

definition response_payload :: "string \<times> string option \<Rightarrow> string" where
  "response_payload r =
     (case r of
        (output, None) \<Rightarrow> output
      | (output, Some e) \<Rightarrow> if output \<noteq> [] then ''error: '' @ e @ [CHR 0x0A] @ output else ''error: '' @ e)"

text \<open>The start of \<open>runExecAttach\<close>: register, join the rooms, whatever the answers, and subscribe.\<close>

datatype exec_error = RegisterFailed err_text | SubscribeFailed go_err | RecvFailed go_err

definition exec_start ::
  "'s bridge_client \<Rightarrow> string \<Rightarrow> manifest_cmd option \<Rightarrow> string list \<Rightarrow> 's \<Rightarrow> exec_error option \<times> 's" where
  "exec_start cl handle manifest joinRooms s =
     (case buildRegisterRequest (zero_cmd\<lparr>icType := ''register'', icHandle := handle, icManifest := manifest\<rparr>) of (h, m, desc) \<Rightarrow>
        (case clRegister cl h m desc s of
           (Inl e, s) \<Rightarrow> (Some (RegisterFailed (ErrorText e)), s)
         | (Inr (Some refusal), s) \<Rightarrow> (Some (RegisterFailed (Text refusal)), s)
         | (Inr None, s) \<Rightarrow>
             (let s = fold (\<lambda>roomID s. snd (clJoinRoom cl roomID handle s)) joinRooms s
              in case clSubscribe cl handle s of
                   (Inl e, s) \<Rightarrow> (Some (SubscribeFailed e), s)
                 | (Inr _, s) \<Rightarrow> (None, s))))"

text \<open>One message of the stream. \<open>work\<close> is the response payload of a request payload, \<open>execCommand\<close> with the rest fixed.\<close>

definition exec_request :: "string \<Rightarrow> (string \<Rightarrow> string) \<Rightarrow> envelope \<Rightarrow> send_request" where
  "exec_request handle work env = \<lparr>sqSession = SessionId env, sqFrom = handle, sqPayload = work (Payload env), sqContentType = ''text/plain''\<rparr>"

definition exec_turn :: "'s bridge_client \<Rightarrow> string \<Rightarrow> (string \<Rightarrow> string) \<Rightarrow> incoming \<Rightarrow> 's \<Rightarrow> 's" where
  "exec_turn cl handle work msg s =
     (case msg of
        InRoomEvent e \<Rightarrow> s
      | InEnvelope env \<Rightarrow>
          if EType env \<noteq> SESSION_OPEN then s
          else snd (clResolveSession cl (exec_request handle work env) s))"

text \<open>The loop over what \<open>Recv\<close> returns; the end of the stream, or a cancelled context, ends it without an error.\<close>

datatype received = Received incoming | ReceivedEnd bool go_err

fun exec_loop :: "'s bridge_client \<Rightarrow> string \<Rightarrow> (string \<Rightarrow> string) \<Rightarrow> received list \<Rightarrow> 's \<Rightarrow> exec_error option option \<times> 's" where
  "exec_loop cl handle work [] s = (None, s)"
| "exec_loop cl handle work (Received msg # rs) s = exec_loop cl handle work rs (exec_turn cl handle work msg s)"
| "exec_loop cl handle work (ReceivedEnd quietly e # rs) s = (Some (if quietly then None else Some (RecvFailed e)), s)"

section \<open>Arguments and answers\<close>

text \<open>
  The payload reaches the command: it is an argument of the started process at every placeholder, or the
  last argument when there is no placeholder, and always in the environment; an empty payload without
  a placeholder adds no argument. The other arguments keep their places.
\<close>

theorem exec_args_payload:
  "(''{}'' \<in> set args \<longrightarrow> length (exec_args args payload) = length args \<and>
      (\<forall>i<length args. exec_args args payload ! i = (if args ! i = ''{}'' then payload else args ! i))) \<and>
   (''{}'' \<notin> set args \<longrightarrow> exec_args args payload = args @ (if payload = [] then [] else [payload]))"
  by (auto simp: exec_args_def Let_def intro!: map_idI)

text \<open>The requests for which a run of exec mode answers.\<close>

definition openings :: "received list \<Rightarrow> envelope list" where
  "openings rs = List.map_filter (\<lambda>r. case r of Received (InEnvelope env) \<Rightarrow> if EType env = SESSION_OPEN then Some env else None | _ \<Rightarrow> None)
     (takeWhile (\<lambda>r. case r of Received m \<Rightarrow> True | _ \<Rightarrow> False) rs)"

lemma openings_simps [simp]:
  "openings [] = []" "openings (ReceivedEnd q e # rs) = []"
  "openings (Received (InRoomEvent ev) # rs) = openings rs"
  "openings (Received (InEnvelope env) # rs) = (if EType env = SESSION_OPEN then env # openings rs else openings rs)"
  by (simp_all add: openings_def List.map_filter_simps)

text \<open>
  Exec mode answers every session exactly once, in the order in which the sessions arrive, with what the
  command answered for its payload, and does nothing for any other message: the effect of its loop
  on the daemon is that of these calls alone.
\<close>

theorem exec_answers_each_session:
  "snd (exec_loop cl handle work rs s) =
     fold (\<lambda>env s. snd (clResolveSession cl (exec_request handle work env) s)) (openings rs) s"
proof (induction rs arbitrary: s)
  case (Cons r rs)
  then show ?case
    by (cases r) (auto simp: exec_turn_def split: incoming.split)
qed simp

text \<open>
  An initial command that fails ends the run of the initial commands: its error is the last line written,
  and no later command is tried.
\<close>

lemma initial_stops_at_failure:
  "run_initial cl cmds (handle, s) = (outs, Some e, r) \<Longrightarrow> out_type (last outs) = ''error'' \<and> length outs \<le> length cmds"
proof (induction cmds arbitrary: handle s outs)
  case (Cons cmd cmds)
  obtain out err h s' where x: "executeBridgeCommand cl True cmd handle s = (out, err, h, s')"
    by (cases "executeBridgeCommand cl True cmd handle s")
  show ?case
  proof (cases err)
    case None
    then obtain outs' where o: "run_initial cl cmds (h, s') = (outs', Some e, r)" "outs = out # outs'"
      using Cons.prems x by (auto split: prod.splits)
    moreover have "outs' \<noteq> []" using o(1) by (cases cmds) (auto split: prod.splits option.splits)
    ultimately show ?thesis using Cons.IH [OF o(1)] by simp
  next
    case (Some e')
    then have "outs = [out]" using Cons.prems x by simp
    then show ?thesis using answers_command [of True cmd cl handle s] Some by (auto simp: x answers_def)
  qed
qed simp

end
