(* ===== verification/Device_Login.thy ===== *)
theory Device_Login
  imports Coord_Admission
begin

text \<open>
  The device-code and browser logins of the coordination server (\<open>internal/coord/oauth.go\<close>). A request
  handler is a function of its decoded input and the server state; undecodable bodies and failing
  random sources are \<open>None\<close>. The OpenID provider is a parameter: the address it sends the browser to,
  and the e-mail address it vouches for in exchange for an authorization code. The handlers take the
  provider that comes first in the iteration of the provider map, here the first of the list, so with
  several configured providers a run is one in which that iteration always starts at the same one.
  User input is ASCII.
\<close>

section \<open>State\<close>

definition deviceCodeTTL :: int where
  "deviceCodeTTL = 15 * 60 * second"

definition userCodeLength :: nat where
  "userCodeLength = 8"

definition pollInterval :: int where
  "pollInterval = 5"

record device_code =
  dcUserCode :: string
  dcExpiresAt :: time
  dcInterval :: int
  dcEmail :: string
  dcAccess :: string
  dcRefresh :: string
  dcCompleted :: bool
  dcState :: string

record oauth_provider =
  opAuthURL :: "string \<Rightarrow> string"
  opExchange :: "string \<Rightarrow> string option"

record oauth_server =
  oaKey :: bytes
  oaStore :: "coord_store option"
  oaProviders :: "(string, oauth_provider) gomap"
  oaExternalURL :: string
  oaWebAppURL :: string
  oaCodes :: "(string, device_code) gomap"
  oaBrowser :: "(string, time) gomap"

definition trim_slashes :: "string \<Rightarrow> string" where
  "trim_slashes s = rev (dropWhile (\<lambda>c. c = CHR ''/'') (rev s))"

text \<open>
  Discovery of a provider's endpoints is the OpenID library's: \<open>discover\<close> gives the provider for a
  configuration and the redirect address, or fails. A provider configured twice replaces the first.
\<close>

record provider_config =
  cfgName :: string
  cfgIssuer :: string
  cfgClientID :: string
  cfgClientSecret :: string

fun discover_providers ::
  "(provider_config \<Rightarrow> string \<Rightarrow> oauth_provider option) \<Rightarrow> string \<Rightarrow> provider_config list \<Rightarrow>
     (string, oauth_provider) gomap \<Rightarrow> string + (string, oauth_provider) gomap" where
  "discover_providers discover redirect [] ps = Inr ps"
| "discover_providers discover redirect (c # cs) ps =
     (case discover c redirect of
        None \<Rightarrow> Inl (''OIDC discovery for '' @ cfgName c)
      | Some p \<Rightarrow> discover_providers discover redirect cs (gput (cfgName c) p ps))"

definition NewOAuthServer ::
  "(provider_config \<Rightarrow> string \<Rightarrow> oauth_provider option) \<Rightarrow> bytes \<Rightarrow> coord_store option \<Rightarrow> provider_config list \<Rightarrow>
     string \<Rightarrow> string \<Rightarrow> string + oauth_server" where
  "NewOAuthServer discover key s cs externalURL webAppURL =
     (let web = trim_slashes webAppURL;
          ext = trim_slashes externalURL
      in case discover_providers discover (ext @ ''/oauth/callback'') cs [] of
           Inl e \<Rightarrow> Inl e
         | Inr ps \<Rightarrow> Inr \<lparr>oaKey = key, oaStore = s, oaProviders = ps, oaExternalURL = ext,
             oaWebAppURL = (if web = [] then ''https://tailbus.co'' else web), oaCodes = [], oaBrowser = []\<rparr>)"

text \<open>One turn of the cleanup loop.\<close>

definition cleanup :: "time \<Rightarrow> oauth_server \<Rightarrow> oauth_server" where
  "cleanup now st = st\<lparr>oaCodes := filter (\<lambda>(k, dc). \<not> now > dcExpiresAt dc) (oaCodes st),
     oaBrowser := filter (\<lambda>(k, e). \<not> now > e) (oaBrowser st)\<rparr>"

section \<open>User codes\<close>

definition user_code_chars :: string where
  "user_code_chars = ''ABCDEFGHJKLMNPQRSTUVWXYZ23456789''"

text \<open>\<open>ns\<close> are the numbers below 32 drawn from the random source.\<close>

definition randomUserCode :: "nat list \<Rightarrow> string" where
  "randomUserCode ns = map (\<lambda>n. user_code_chars ! n) ns"

definition formatUserCode :: "string \<Rightarrow> string" where
  "formatUserCode code = (if length code \<le> 4 then code else take 4 code @ ''-'' @ drop 4 code)"

definition upper_char :: "char \<Rightarrow> char" where
  "upper_char c = (if CHR ''a'' \<le> c \<and> c \<le> CHR ''z'' then char_of (of_char c - (32 :: nat)) else c)"

text \<open>What the verification page makes of the user's input.\<close>

definition normalize_code :: "string \<Rightarrow> string" where
  "normalize_code s = filter (\<lambda>c. c \<noteq> CHR ''-'') (map upper_char s)"

section \<open>Handlers\<close>

datatype oauth_reply =
    HttpError int string
  | JsonError int string
  | DeviceIssued string string string string
  | TokensIssued string string string
  | AuthURL string
  | RedirectTo string
  | NoReply

definition handleDeviceCode :: "time \<Rightarrow> string option \<Rightarrow> string option \<Rightarrow> oauth_server \<Rightarrow> oauth_reply \<times> oauth_server" where
  "handleDeviceCode now device user st =
     (case device of
        None \<Rightarrow> (HttpError 500 ''failed to generate device code'', st)
      | Some d \<Rightarrow>
          (case user of
             None \<Rightarrow> (HttpError 500 ''failed to generate user code'', st)
           | Some u \<Rightarrow>
               (let dc = \<lparr>dcUserCode = u, dcExpiresAt = now + deviceCodeTTL, dcInterval = pollInterval, dcEmail = [], dcAccess = [],
                          dcRefresh = [], dcCompleted = False, dcState = []\<rparr>;
                    uri = oaExternalURL st @ ''/oauth/verify''
                in (DeviceIssued d (formatUserCode u) uri (uri @ ''?code='' @ u), st\<lparr>oaCodes := gput d dc (oaCodes st)\<rparr>))))"

text \<open>
  Polling: the entry is looked up under the lock, then judged; the entry is shared with the map, and
  its removal is a second locked step.
\<close>

definition answer_poll :: "time \<Rightarrow> string \<Rightarrow> device_code option \<Rightarrow> oauth_server \<Rightarrow> oauth_reply \<times> oauth_server" where
  "answer_poll now d found st =
     (case found of
        None \<Rightarrow> (JsonError 400 ''invalid_device_code'', st)
      | Some dc \<Rightarrow>
          if now > dcExpiresAt dc then (JsonError 400 ''expired_token'', st\<lparr>oaCodes := gdel d (oaCodes st)\<rparr>)
          else if \<not> dcCompleted dc then (JsonError 200 ''authorization_pending'', st)
          else (TokensIssued (dcAccess dc) (dcRefresh dc) (dcEmail dc), st\<lparr>oaCodes := gdel d (oaCodes st)\<rparr>))"

definition handleDeviceToken :: "time \<Rightarrow> string option \<Rightarrow> oauth_server \<Rightarrow> oauth_reply \<times> oauth_server" where
  "handleDeviceToken now body st =
     (case body of
        None \<Rightarrow> (HttpError 400 ''invalid request body'', st)
      | Some d \<Rightarrow> answer_poll now d (gget (oaCodes st) d) st)"

text \<open>The first entry, in the order of the map, that is not completed and satisfies a condition.\<close>

definition pending_code :: "(device_code \<Rightarrow> bool) \<Rightarrow> oauth_server \<Rightarrow> (string \<times> device_code) option" where
  "pending_code P st = (case filter (\<lambda>(k, dc). P dc \<and> \<not> dcCompleted dc) (oaCodes st) of [] \<Rightarrow> None | e # _ \<Rightarrow> Some e)"

definition handleVerifySubmit :: "string option \<Rightarrow> string option \<Rightarrow> oauth_server \<Rightarrow> oauth_reply \<times> oauth_server" where
  "handleVerifySubmit body state st =
     (case body of
        None \<Rightarrow> (HttpError 400 ''invalid request'', st)
      | Some input \<Rightarrow>
          (case pending_code (\<lambda>dc. dcUserCode dc = normalize_code input) st of
             None \<Rightarrow> (JsonError 200 ''Invalid or expired code. Please check and try again.'', st)
           | Some (d, dc) \<Rightarrow>
               (case state of
                  None \<Rightarrow> (HttpError 500 ''internal error'', st)
                | Some s \<Rightarrow>
                    (let st = st\<lparr>oaCodes := gput d (dc\<lparr>dcState := s\<rparr>) (oaCodes st)\<rparr>;
                         url = (case oaProviders st of [] \<Rightarrow> [] | (n, p) # _ \<Rightarrow> opAuthURL p s)
                     in if url = [] then (HttpError 500 ''no OAuth provider configured'', st) else (AuthURL url, st)))))"

definition exchangeCodeForEmail :: "oauth_server \<Rightarrow> string \<Rightarrow> string" where
  "exchangeCodeForEmail st code =
     (case oaProviders st of
        [] \<Rightarrow> []
      | (n, p) # _ \<Rightarrow> (case opExchange p code of None \<Rightarrow> [] | Some email \<Rightarrow> email))"

definition welcome_user :: "crt \<Rightarrow> string \<Rightarrow> coord_store option \<Rightarrow> coord_store option" where
  "welcome_user rt email s =
     map_option (\<lambda>s. snd (EnsurePersonalTeam (crNow rt) (crIds rt) email (or_log (UpsertUser (crNow rt) email s) s))) s"

text \<open>The common part of the callback: the e-mail address and the tokens issued for it.\<close>

definition sign_in :: "crt \<Rightarrow> string \<Rightarrow> oauth_server \<Rightarrow> (oauth_reply + string \<times> string \<times> string) \<times> oauth_server" where
  "sign_in rt code st =
     (let email = exchangeCodeForEmail st code
      in if email = [] then (Inl (HttpError 500 ''authentication failed''), st)
         else case Issue rt (oaKey st) email of
                Inl e \<Rightarrow> (Inl (HttpError 500 ''failed to issue tokens''), st)
              | Inr (a, r) \<Rightarrow> (Inr (email, a, r), st\<lparr>oaStore := welcome_user rt email (oaStore st)\<rparr>))"

definition handleCallback :: "crt \<Rightarrow> string \<Rightarrow> string \<Rightarrow> oauth_server \<Rightarrow> oauth_reply \<times> oauth_server" where
  "handleCallback rt code state st =
     (if code = [] \<or> state = [] then (HttpError 400 ''missing code or state parameter'', st)
      else case gget (oaBrowser st) state of
             Some expires \<Rightarrow>
               (let st = st\<lparr>oaBrowser := gdel state (oaBrowser st)\<rparr>
                in if crNow rt > expires then (HttpError 400 ''session expired'', st)
                   else case sign_in rt code st of
                          (Inl e, st) \<Rightarrow> (e, st)
                        | (Inr (email, a, r), st) \<Rightarrow>
                            (RedirectTo (oaWebAppURL st @ ''/dashboard#access_token='' @ a @ ''&refresh_token='' @ r @ ''&email='' @ email), st))
           | None \<Rightarrow>
               (case pending_code (\<lambda>dc. dcState dc = state) st of
                  None \<Rightarrow> (HttpError 400 ''invalid or expired session'', st)
                | Some (d, dc) \<Rightarrow>
                    (case sign_in rt code st of
                       (Inl e, st) \<Rightarrow> (e, st)
                     | (Inr (email, a, r), st) \<Rightarrow>
                         (RedirectTo (oaExternalURL st @ ''/oauth/verify?success=true''),
                          st\<lparr>oaCodes := gput d (dc\<lparr>dcEmail := email, dcAccess := a, dcRefresh := r, dcCompleted := True\<rparr>) (oaCodes st)\<rparr>))))"

definition handleRefresh :: "crt \<Rightarrow> string option \<Rightarrow> oauth_server \<Rightarrow> oauth_reply \<times> oauth_server" where
  "handleRefresh rt body st =
     (case body of
        None \<Rightarrow> (HttpError 400 ''invalid request'', st)
      | Some tok \<Rightarrow>
          (case Refresh rt (oaKey st) tok of
             Inl e \<Rightarrow> (JsonError 401 ''invalid_refresh_token'', st)
           | Inr (a, r) \<Rightarrow>
               (TokensIssued a r (case Validate rt (oaKey st) a of Inl e \<Rightarrow> [] | Inr cl \<Rightarrow> clEmail cl), st)))"

definition handleBrowserLogin :: "time \<Rightarrow> string option \<Rightarrow> oauth_server \<Rightarrow> oauth_reply \<times> oauth_server" where
  "handleBrowserLogin now state st =
     (case state of
        None \<Rightarrow> (HttpError 500 ''internal error'', st)
      | Some s \<Rightarrow>
          (let st = st\<lparr>oaBrowser := gput s (now + 15 * 60 * second) (oaBrowser st)\<rparr>
           in case oaProviders st of
                [] \<Rightarrow> (HttpError 500 ''no OAuth provider configured'', st)
              | (n, p) # _ \<Rightarrow> (RedirectTo (opAuthURL p s), st)))"

section \<open>Runs of the server\<close>

text \<open>A request with what the random source gave it.\<close>

datatype oauth_request =
    DeviceCode time "string option" "string option"
  | Poll time "string option"
  | VerifySubmit "string option" "string option"
  | Callback crt string string
  | RefreshToken crt "string option"
  | BrowserLogin time "string option"
  | Cleanup time

fun serve :: "oauth_request \<Rightarrow> oauth_server \<Rightarrow> oauth_reply \<times> oauth_server" where
  "serve (DeviceCode now d u) st = handleDeviceCode now d u st"
| "serve (Poll now b) st = handleDeviceToken now b st"
| "serve (VerifySubmit b s) st = handleVerifySubmit b s st"
| "serve (Callback rt c s) st = handleCallback rt c s st"
| "serve (RefreshToken rt b) st = handleRefresh rt b st"
| "serve (BrowserLogin now s) st = handleBrowserLogin now s st"
| "serve (Cleanup now) st = (NoReply, cleanup now st)"

inductive login_run :: "oauth_server \<Rightarrow> (oauth_request \<times> oauth_reply) list \<Rightarrow> oauth_server \<Rightarrow> bool" for st0 where
  start: "login_run st0 [] st0"
| request: "login_run st0 tr st \<Longrightarrow> serve q st = (r, st') \<Longrightarrow> login_run st0 (tr @ [(q, r)]) st'"

inductive_cases login_run_snocE: "login_run st0 (tr @ [x]) st"

lemma login_run_append:
  "login_run st0 (tr1 @ (q, r) # tr2) st \<Longrightarrow> \<exists>s s'. login_run st0 tr1 s \<and> serve q s = (r, s') \<and> login_run s' tr2 st"
proof (induction tr2 arbitrary: st rule: rev_induct)
  case Nil
  then show ?case by (blast elim: login_run_snocE intro: login_run.start)
next
  case (snoc x tr2)
  obtain qx rx where x: "x = (qx, rx)" by (cases x)
  have "login_run st0 ((tr1 @ (q, r) # tr2) @ [(qx, rx)]) st" using snoc.prems by (simp add: x)
  then obtain sx where "login_run st0 (tr1 @ (q, r) # tr2) sx" "serve qx sx = (rx, st)" by (blast elim: login_run_snocE)
  then show ?case using snoc.IH by (fastforce simp: x intro: login_run.request)
qed

text \<open>Configuration never changes.\<close>

lemma sign_in_frame:
  "sign_in rt code st = (x, st') \<Longrightarrow> oaKey st' = oaKey st \<and> oaProviders st' = oaProviders st \<and> oaCodes st' = oaCodes st \<and> oaBrowser st' = oaBrowser st"
  by (auto simp: sign_in_def Let_def split: if_splits sum.splits)

lemma serve_config: "serve q st = (r, st') \<Longrightarrow> oaKey st' = oaKey st \<and> oaProviders st' = oaProviders st"
  by (cases q)
    (auto simp: handleDeviceCode_def handleDeviceToken_def answer_poll_def handleVerifySubmit_def handleCallback_def handleRefresh_def
      handleBrowserLogin_def cleanup_def Let_def dest: sign_in_frame split: option.splits if_splits sum.splits prod.splits list.splits)

lemma login_run_config: "login_run st0 tr st \<Longrightarrow> oaKey st = oaKey st0 \<and> oaProviders st = oaProviders st0"
  by (induction rule: login_run.induct) (auto dest: serve_config)

text \<open>What the past says of an entry: who asked for it, who confirmed it, and whose tokens it holds.\<close>

definition requested :: "(oauth_request \<times> oauth_reply) list \<Rightarrow> string \<Rightarrow> device_code \<Rightarrow> bool" where
  "requested tr d dc \<longleftrightarrow> (\<exists>now r. (DeviceCode now (Some d) (Some (dcUserCode dc)), r) \<in> set tr \<and> dcExpiresAt dc = now + deviceCodeTTL)"

definition confirmed :: "(oauth_request \<times> oauth_reply) list \<Rightarrow> device_code \<Rightarrow> bool" where
  "confirmed tr dc \<longleftrightarrow> (\<exists>input r. (VerifySubmit (Some input) (Some (dcState dc)), r) \<in> set tr \<and> normalize_code input = dcUserCode dc)"

definition vouched :: "oauth_server \<Rightarrow> (oauth_request \<times> oauth_reply) list \<Rightarrow> device_code \<Rightarrow> bool" where
  "vouched st tr dc \<longleftrightarrow> (\<exists>rt code u. (Callback rt code (dcState dc), RedirectTo u) \<in> set tr \<and> dcState dc \<noteq> [] \<and>
     exchangeCodeForEmail st code = dcEmail dc \<and> dcEmail dc \<noteq> [] \<and> Issue rt (oaKey st) (dcEmail dc) = Inr (dcAccess dc, dcRefresh dc))"

definition codes_justified :: "oauth_server \<Rightarrow> (oauth_request \<times> oauth_reply) list \<Rightarrow> oauth_server \<Rightarrow> bool" where
  "codes_justified st0 tr st \<longleftrightarrow> (\<forall>d dc. gget (oaCodes st) d = Some dc \<longrightarrow>
     requested tr d dc \<and> (dcState dc \<noteq> [] \<longrightarrow> confirmed tr dc) \<and> (dcCompleted dc \<longrightarrow> vouched st0 tr dc))"

lemma justified_mono:
  "requested tr d dc \<Longrightarrow> requested (tr @ x) d dc" "confirmed tr dc \<Longrightarrow> confirmed (tr @ x) dc" "vouched st tr dc \<Longrightarrow> vouched st (tr @ x) dc"
  by (auto simp: requested_def confirmed_def vouched_def)

lemma codes_justified_mono: "codes_justified st0 tr st \<Longrightarrow> codes_justified st0 (tr @ x) st"
  unfolding codes_justified_def by (blast intro: justified_mono)

lemma codes_justified_sub:
  "codes_justified st0 tr st \<Longrightarrow> (\<And>d dc. gget (oaCodes st') d = Some dc \<Longrightarrow> gget (oaCodes st) d = Some dc) \<Longrightarrow> codes_justified st0 (tr @ x) st'"
  unfolding codes_justified_def by (blast intro: justified_mono)

lemma codes_justified_put:
  assumes "codes_justified st0 tr st" and "oaCodes st' = gput d dc (oaCodes st)"
    and "requested (tr @ x) d dc" and "dcState dc \<noteq> [] \<longrightarrow> confirmed (tr @ x) dc" and "dcCompleted dc \<longrightarrow> vouched st0 (tr @ x) dc"
  shows "codes_justified st0 (tr @ x) st'"
  using assms unfolding codes_justified_def by (auto intro: justified_mono)

lemma pending_codeD:
  assumes "pending_code P st = Some (d, dc)" and "gwf (oaCodes st)"
  shows "gget (oaCodes st) d = Some dc" and "P dc" and "\<not> dcCompleted dc"
proof -
  obtain es where "filter (\<lambda>(k, dc). P dc \<and> \<not> dcCompleted dc) (oaCodes st) = (d, dc) # es"
    using assms(1) by (auto simp: pending_code_def split: list.splits)
  then have "(d, dc) \<in> set (filter (\<lambda>(k, dc). P dc \<and> \<not> dcCompleted dc) (oaCodes st))" by (simp only: list.set_intros)
  then show "gget (oaCodes st) d = Some dc" "P dc" "\<not> dcCompleted dc"
    using assms(2) by (simp_all add: gget_eq_Some_iff)
qed

lemma cleanup_sub: "gwf (oaCodes st) \<Longrightarrow> gget (oaCodes (cleanup now st)) d = Some dc \<Longrightarrow> gget (oaCodes st) d = Some dc"
  by (simp add: cleanup_def gget_eq_Some_iff)

lemma serve_gwf: "serve q st = (r, st') \<Longrightarrow> gwf (oaCodes st) \<Longrightarrow> gwf (oaCodes st')"
  by (cases q)
    (auto simp: handleDeviceCode_def handleDeviceToken_def answer_poll_def handleVerifySubmit_def handleCallback_def handleRefresh_def
      handleBrowserLogin_def cleanup_def Let_def dest: sign_in_frame split: option.splits if_splits sum.splits prod.splits list.splits)

lemma justified_verify:
  assumes "codes_justified st0 tr st" and "gwf (oaCodes st)" and "handleVerifySubmit b s st = (r, st')"
  shows "codes_justified st0 (tr @ [(VerifySubmit b s, r)]) st'"
proof (cases "oaCodes st' = oaCodes st")
  case True
  then show ?thesis by (intro codes_justified_sub [OF assms(1)]) simp
next
  case False
  then obtain input state d dc where b: "b = Some input" "s = Some state"
    and found: "pending_code (\<lambda>dc. dcUserCode dc = normalize_code input) st = Some (d, dc)"
    and st': "oaCodes st' = gput d (dc\<lparr>dcState := state\<rparr>) (oaCodes st)"
    using assms(3) by (auto simp: handleVerifySubmit_def Let_def split: option.splits if_splits list.splits)
  note P = pending_codeD [OF found assms(2)]
  have "requested tr d dc" using assms(1) P(1) by (simp add: codes_justified_def)
  then show ?thesis
    using P(2,3) by (intro codes_justified_put [OF assms(1) st']) (auto simp: requested_def confirmed_def b)
qed

lemma justified_callback:
  assumes "codes_justified st0 tr st" and "gwf (oaCodes st)" and "handleCallback rt code state st = (r, st')"
    and "oaKey st = oaKey st0" and "oaProviders st = oaProviders st0"
  shows "codes_justified st0 (tr @ [(Callback rt code state, r)]) st'"
proof (cases "oaCodes st' = oaCodes st")
  case True
  then show ?thesis by (intro codes_justified_sub [OF assms(1)]) simp
next
  case False
  then obtain d dc email a tok st1 u where found: "pending_code (\<lambda>dc. dcState dc = state) st = Some (d, dc)" and state: "state \<noteq> []"
    and sign: "sign_in rt code st = (Inr (email, a, tok), st1)" and r: "r = RedirectTo u"
    and st': "oaCodes st' = gput d (dc\<lparr>dcEmail := email, dcAccess := a, dcRefresh := tok, dcCompleted := True\<rparr>) (oaCodes st)"
    using assms(3) by (auto simp: handleCallback_def Let_def dest: sign_in_frame split: if_splits option.splits prod.splits sum.splits)
  note P = pending_codeD [OF found assms(2)]
  have "requested tr d dc" "confirmed tr dc" using assms(1) P(1,2) state by (auto simp: codes_justified_def)
  moreover have "exchangeCodeForEmail st0 code = email" "email \<noteq> []" "Issue rt (oaKey st0) email = Inr (a, tok)"
    using sign assms(4,5) by (auto simp: sign_in_def exchangeCodeForEmail_def Let_def split: if_splits sum.splits)
  ultimately show ?thesis
    using P(2) state by (intro codes_justified_put [OF assms(1) st']) (auto simp: requested_def confirmed_def vouched_def r)
qed

lemma justified_step:
  assumes "codes_justified st0 tr st" and "gwf (oaCodes st)" and "serve q st = (r, st')"
    and "oaKey st = oaKey st0" and "oaProviders st = oaProviders st0"
  shows "codes_justified st0 (tr @ [(q, r)]) st'"
proof (cases q)
  case (DeviceCode now d u)
  show ?thesis
  proof (cases "oaCodes st' = oaCodes st")
    case False
    then obtain d' u' where du: "d = Some d'" "u = Some u'" and st': "oaCodes st' = gput d' \<lparr>dcUserCode = u', dcExpiresAt = now + deviceCodeTTL,
        dcInterval = pollInterval, dcEmail = [], dcAccess = [], dcRefresh = [], dcCompleted = False, dcState = []\<rparr> (oaCodes st)"
      using assms(3) DeviceCode by (auto simp: handleDeviceCode_def Let_def split: option.splits)
    show ?thesis by (rule codes_justified_put [OF assms(1) st']) (auto simp: requested_def DeviceCode du)
  qed (auto intro: codes_justified_sub [OF assms(1)])
next
  case (VerifySubmit b s)
  then show ?thesis using justified_verify [OF assms(1,2)] assms(3) by simp
next
  case (Callback rt c s)
  then show ?thesis using justified_callback [OF assms(1,2) _ assms(4,5)] assms(3) by simp
next
  case (Cleanup now)
  then show ?thesis using assms(2,3) by (intro codes_justified_sub [OF assms(1)]) (auto intro: cleanup_sub)
qed (use assms(3) in \<open>auto simp: handleDeviceToken_def answer_poll_def handleRefresh_def handleBrowserLogin_def Let_def
    intro!: codes_justified_sub [OF assms(1)] split: option.splits if_splits sum.splits list.splits\<close>)

lemma login_run_justified:
  assumes "login_run st0 tr st" and "oaCodes st0 = []"
  shows "codes_justified st0 tr st \<and> gwf (oaCodes st)"
  using assms(1)
proof induction
  case start
  then show ?case by (simp add: codes_justified_def assms(2))
next
  case (request tr st q r st')
  then show ?case using justified_step serve_gwf login_run_config by blast
qed

lemma poll_tokens:
  assumes "serve (Poll now (Some d)) st = (TokensIssued a r e, st')"
  shows "\<exists>dc. gget (oaCodes st) d = Some dc \<and> dcCompleted dc \<and> now \<le> dcExpiresAt dc \<and> a = dcAccess dc \<and> r = dcRefresh dc \<and> e = dcEmail dc \<and>
    gget (oaCodes st') d = None"
  using assms by (auto simp: handleDeviceToken_def answer_poll_def split: option.splits if_splits)

text \<open>A device code that is gone stays gone until the random source draws it again.\<close>

lemma gone_stays_gone:
  assumes "login_run st0 tr st" and "gget (oaCodes st0) d = None" and "gwf (oaCodes st0)" and "\<forall>now u r. (DeviceCode now (Some d) u, r) \<notin> set tr"
  shows "gget (oaCodes st) d = None \<and> gwf (oaCodes st)"
  using assms(1,4)
proof induction
  case start
  then show ?case using assms(2,3) by simp
next
  case (request tr st q r st')
  then have IH: "gget (oaCodes st) d = None" "gwf (oaCodes st)" by auto
  have q: "\<And>now u. q \<noteq> DeviceCode now (Some d) u" using request.prems by auto
  have p: "pending_code P st \<noteq> Some (d, dc)" for P dc using pending_codeD(1) [OF _ IH(2)] IH(1) by force
  have "gget (oaCodes st') d = None"
  proof (cases q)
    case (DeviceCode now d' u)
    then show ?thesis using q [of now u] request.hyps IH by (auto simp: handleDeviceCode_def Let_def split: option.splits)
  next
    case (VerifySubmit b s)
    then show ?thesis using request.hyps IH p by (auto simp: handleVerifySubmit_def Let_def split: option.splits if_splits list.splits)
  next
    case (Callback rt c s)
    then show ?thesis using request.hyps IH p
      by (auto simp: handleCallback_def Let_def dest!: sign_in_frame split: if_splits option.splits prod.splits sum.splits)
  next
    case (Cleanup now)
    then show ?thesis using request.hyps IH cleanup_sub [OF IH(2)] by (cases "gget (oaCodes st') d") auto
  qed (use request.hyps IH in \<open>auto simp: handleDeviceToken_def answer_poll_def handleRefresh_def handleBrowserLogin_def Let_def
    split: option.splits if_splits sum.splits list.splits\<close>)
  then show ?case using serve_gwf request.hyps(2) IH(2) by blast
qed


text \<open>A login: request, confirmation with the code as displayed in small letters, callback and poll.\<close>

definition login_rt :: crt where
  "login_rt = \<lparr>crNow = 60 * second, crIds = (\<lambda>i. ''id''), crSha = (\<lambda>s. s),
     crJwt = \<lparr>jlSign = (\<lambda>k c. Some (''eyJ'' @ clType c)), jlParse = (\<lambda>k now t. None)\<rparr>\<rparr>"

definition login_server :: oauth_server where
  "login_server = \<lparr>oaKey = ''key'', oaStore = None, oaProviders = [(''idp'', \<lparr>opAuthURL = (\<lambda>s. ''https://idp?state='' @ s),
     opExchange = (\<lambda>c. if c = ''auth'' then Some ''u@x'' else None)\<rparr>)], oaExternalURL = ''https://coord'',
     oaWebAppURL = ''https://tailbus.co'', oaCodes = [], oaBrowser = []\<rparr>"

lemma login_server_starts:
  "NewOAuthServer (\<lambda>c u. Some \<lparr>opAuthURL = (\<lambda>s. ''https://idp?state='' @ s), opExchange = (\<lambda>c. if c = ''auth'' then Some ''u@x'' else None)\<rparr>)
     ''key'' None [\<lparr>cfgName = ''idp'', cfgIssuer = ''https://idp'', cfgClientID = ''id'', cfgClientSecret = ''secret''\<rparr>] ''https://coord/'' [] = Inr login_server"
  by (simp add: NewOAuthServer_def login_server_def trim_slashes_def Let_def)

definition login_trace :: "(oauth_request \<times> oauth_reply) list" where
  "login_trace = [(DeviceCode 0 (Some ''dev'') (Some ''ABCDEFGH''), DeviceIssued ''dev'' ''ABCD-EFGH'' ''https://coord/oauth/verify'' ''https://coord/oauth/verify?code=ABCDEFGH''),
       (VerifySubmit (Some ''abcd-efgh'') (Some ''S''), AuthURL ''https://idp?state=S''),
       (Callback login_rt ''auth'' ''S'', RedirectTo ''https://coord/oauth/verify?success=true'')]"


section \<open>User codes and races\<close>

text \<open>What the page displays, typed in capital or small letters, is the code that was drawn.\<close>

definition lower_char :: "char \<Rightarrow> char" where
  "lower_char c = (if CHR ''A'' \<le> c \<and> c \<le> CHR ''Z'' then char_of (of_char c + (32 :: nat)) else c)"

lemma user_code_char:
  "n < 32 \<Longrightarrow> upper_char (user_code_chars ! n) = user_code_chars ! n \<and> upper_char (lower_char (user_code_chars ! n)) = user_code_chars ! n \<and>
     user_code_chars ! n \<noteq> CHR ''-''"
proof -
  have "\<forall>c\<in>set user_code_chars. upper_char c = c \<and> upper_char (lower_char c) = c \<and> c \<noteq> CHR ''-''" by code_simp
  moreover have "length user_code_chars = 32" by (simp add: user_code_chars_def)
  ultimately show "n < 32 \<Longrightarrow> ?thesis" by (simp add: nth_mem)
qed

lemma normalize_user_code:
  assumes "\<forall>n\<in>set ns. n < 32"
  shows "normalize_code (formatUserCode (randomUserCode ns)) = randomUserCode ns"
    and "normalize_code (map lower_char (formatUserCode (randomUserCode ns))) = randomUserCode ns"
proof -
  have dash: "upper_char CHR ''-'' = CHR ''-''" "lower_char CHR ''-'' = CHR ''-''" by code_simp+
  have a: "normalize_code (randomUserCode ms) = randomUserCode ms"
    and b: "normalize_code (map lower_char (randomUserCode ms)) = randomUserCode ms" if "\<forall>n\<in>set ms. n < 32" for ms
    using that by (induction ms) (simp_all add: normalize_code_def randomUserCode_def user_code_char)
  have sub: "\<forall>n\<in>set (take 4 ns). n < 32" "\<forall>n\<in>set (drop 4 ns). n < 32"
    using assms by (auto dest: in_set_takeD in_set_dropD)
  have split: "randomUserCode ns = randomUserCode (take 4 ns) @ randomUserCode (drop 4 ns)"
    by (simp add: randomUserCode_def flip: map_append)
  have td: "take 4 (randomUserCode ns) = randomUserCode (take 4 ns)" "drop 4 (randomUserCode ns) = randomUserCode (drop 4 ns)"
    by (simp_all add: randomUserCode_def take_map drop_map)
  have app: "normalize_code (xs @ CHR ''-'' # ys) = normalize_code xs @ normalize_code ys" for xs ys
    by (simp add: normalize_code_def dash)
  show "normalize_code (formatUserCode (randomUserCode ns)) = randomUserCode ns"
    unfolding formatUserCode_def td using a [OF assms] a [OF sub(1)] a [OF sub(2)] split by (simp add: app)
  have app': "normalize_code (map lower_char xs @ CHR ''-'' # map lower_char ys) = normalize_code (map lower_char xs) @ normalize_code (map lower_char ys)" for xs ys
    by (simp add: normalize_code_def dash)
  show "normalize_code (map lower_char (formatUserCode (randomUserCode ns))) = randomUserCode ns"
    unfolding formatUserCode_def td using b [OF assms] b [OF sub(1)] b [OF sub(2)] split by (simp add: app' dash)
qed

text \<open>
  The poll handler drops the lock between finding the entry and removing it: two polls that overlap
  there are both answered with the tokens.
\<close>

lemma overlapping_polls_both_get_tokens:
  assumes "gget (oaCodes st) d = Some dc" and "dcCompleted dc" and "now1 \<le> dcExpiresAt dc" and "now2 \<le> dcExpiresAt dc"
    and "answer_poll now1 d (gget (oaCodes st) d) st = (r1, st1)"
  shows "r1 = TokensIssued (dcAccess dc) (dcRefresh dc) (dcEmail dc) \<and>
    fst (answer_poll now2 d (gget (oaCodes st) d) st1) = TokensIssued (dcAccess dc) (dcRefresh dc) (dcEmail dc) \<and>
    fst (handleDeviceToken now2 (Some d) st1) = JsonError 400 ''invalid_device_code''"
  using assms by (auto simp: answer_poll_def handleDeviceToken_def)

end
