(* ===== verification/Login_Client.thy ===== *)
theory Login_Client
  imports Device_Login
begin

text \<open>
  The login client (\<open>internal/auth/device_flow.go\<close>, \<open>credentials.go\<close>, \<open>refresh.go\<close>): polling for the
  tokens of a device login until an answer settles it, stored credentials and their refresh. HTTP and
  the file system are parameters: what a tick of the poll loop met, what the refresh endpoint
  answered, what the credentials file holds. Together with the server: the loop ends.
\<close>

section \<open>Polling\<close>

record token_response =
  trAccess :: string
  trRefresh :: string
  trExpiresIn :: int
  trEmail :: string
  trError :: string

definition zero_response :: token_response where
  "zero_response = \<lparr>trAccess = [], trRefresh = [], trExpiresIn = 0, trEmail = [], trError = []\<rparr>"

datatype poll_error = PollCancelled | PollRequestFailed | DeviceCodeExpired | TokenError string

text \<open>A turn of the loop: cancellation, a request that cannot be built, a network error, or a decoded answer.\<close>

datatype tick = Cancelled | RequestFailed | NetworkError | Answer token_response

definition decide :: "tick \<Rightarrow> (poll_error + token_response) option" where
  "decide t =
     (case t of
        Cancelled \<Rightarrow> Some (Inl PollCancelled)
      | RequestFailed \<Rightarrow> Some (Inl PollRequestFailed)
      | NetworkError \<Rightarrow> None
      | Answer r \<Rightarrow>
          if trError r = ''authorization_pending'' then None
          else if trError r = ''slow_down'' then None
          else if trError r = ''expired_token'' then Some (Inl DeviceCodeExpired)
          else if trError r = [] then (if trAccess r \<noteq> [] then Some (Inr r) else None)
          else Some (Inl (TokenError (trError r))))"

text \<open>The loop from turn \<open>n\<close> on; \<open>None\<close> if it never returns.\<close>

partial_function (option) poll_from :: "(nat \<Rightarrow> tick) \<Rightarrow> nat \<Rightarrow> (poll_error + token_response) option" where
  [code]: "poll_from ticks n = (case decide (ticks n) of Some r \<Rightarrow> Some r | None \<Rightarrow> poll_from ticks (Suc n))"

definition PollForToken :: "(nat \<Rightarrow> tick) \<Rightarrow> (poll_error + token_response) option" where
  "PollForToken ticks = poll_from ticks 0"

text \<open>Seconds between two turns; after the server asked to slow down, five more.\<close>

definition poll_interval :: "int \<Rightarrow> bool \<Rightarrow> int" where
  "poll_interval interval slowed = (let i = (if interval < 1 then 5 else interval) in if slowed then i + 5 else i)"

text \<open>How the client decodes the server's answers.\<close>

fun decode_reply :: "oauth_reply \<Rightarrow> token_response" where
  "decode_reply (HttpError s e) = zero_response\<lparr>trError := e\<rparr>"
| "decode_reply (JsonError s e) = zero_response\<lparr>trError := e\<rparr>"
| "decode_reply (TokensIssued a r e) = \<lparr>trAccess = a, trRefresh = r, trExpiresIn = 3600, trEmail = e, trError = []\<rparr>"
| "decode_reply _ = zero_response"

section \<open>Credentials\<close>

record credentials =
  crAccess :: string
  crRefresh :: string
  crEmail :: string
  crCoordAddr :: string
  crExpires :: int
  crTeamID :: string
  crTeamName :: string

definition NeedsRefresh :: "time \<Rightarrow> credentials \<Rightarrow> bool" where
  "NeedsRefresh now c \<longleftrightarrow> unix now \<ge> crExpires c - 300"

definition IsExpired :: "time \<Rightarrow> credentials \<Rightarrow> bool" where
  "IsExpired now c \<longleftrightarrow> unix now \<ge> crExpires c"

datatype cred_error = LoadFailed | RefreshFailed string | SaveFailed

text \<open>The answer of the refresh endpoint: a transport error, or the decoded body.\<close>

definition RefreshAccessToken :: "token_response option \<Rightarrow> string + token_response" where
  "RefreshAccessToken answer =
     (case answer of
        None \<Rightarrow> Inl ''refresh request''
      | Some r \<Rightarrow>
          if trError r \<noteq> [] then Inl (''refresh failed: '' @ trError r)
          else if trAccess r = [] then Inl ''refresh returned empty access token''
          else Inr r)"

text \<open>\<open>file\<close> is the content of the credentials file, \<open>ask\<close> the refresh endpoint; the result includes the new file.\<close>

definition RefreshIfNeeded ::
  "time \<Rightarrow> (string \<Rightarrow> token_response option) \<Rightarrow> bool \<Rightarrow> credentials option \<Rightarrow> (cred_error + credentials) \<times> credentials option" where
  "RefreshIfNeeded now ask canWrite file =
     (case file of
        None \<Rightarrow> (Inl LoadFailed, file)
      | Some c \<Rightarrow>
          if \<not> NeedsRefresh now c then (Inr c, file)
          else case RefreshAccessToken (ask (crRefresh c)) of
                 Inl e \<Rightarrow> (Inl (RefreshFailed e), file)
               | Inr r \<Rightarrow>
                   (let c = c\<lparr>crAccess := trAccess r, crRefresh := trRefresh r, crExpires := unix (now + trExpiresIn r * second)\<rparr>;
                        c = (if trEmail r \<noteq> [] then c\<lparr>crEmail := trEmail r\<rparr> else c)
                    in if canWrite then (Inr c, Some c) else (Inl SaveFailed, file)))"

section \<open>The poll loop\<close>

lemma poll_from_Some:
  "poll_from ticks n = Some r \<longleftrightarrow> (\<exists>m\<ge>n. decide (ticks m) = Some r \<and> (\<forall>k. n \<le> k \<longrightarrow> k < m \<longrightarrow> decide (ticks k) = None))"
proof
  show "\<exists>m\<ge>n. decide (ticks m) = Some r \<and> (\<forall>k. n \<le> k \<longrightarrow> k < m \<longrightarrow> decide (ticks k) = None)" if "poll_from ticks n = Some r"
  proof (rule poll_from.raw_induct [OF _ that])
    fix poll ticks n r
    assume 1: "\<And>ticks n r. poll ticks n = Some r \<Longrightarrow> \<exists>m\<ge>n. decide (ticks m) = Some r \<and> (\<forall>k. n \<le> k \<longrightarrow> k < m \<longrightarrow> decide (ticks k) = None)"
      "(case decide (ticks n) of None \<Rightarrow> poll ticks (Suc n) | Some r \<Rightarrow> Some r) = Some r"
    show "\<exists>m\<ge>n. decide (ticks m) = Some r \<and> (\<forall>k. n \<le> k \<longrightarrow> k < m \<longrightarrow> decide (ticks k) = None)"
    proof (cases "decide (ticks n)")
      case None
      then have "poll ticks (Suc n) = Some r" using 1(2) by simp
      then obtain m where m: "m \<ge> Suc n" "decide (ticks m) = Some r" "\<forall>k. Suc n \<le> k \<longrightarrow> k < m \<longrightarrow> decide (ticks k) = None"
        using 1(1) by blast
      have "decide (ticks k) = None" if "n \<le> k" "k < m" for k
        using that None m(3) by (cases "k = n") auto
      then show ?thesis using m(1,2) by (intro exI [of _ m]) simp
    next
      case (Some x)
      then show ?thesis using 1(2) by auto
    qed
  qed
  show "poll_from ticks n = Some r" if ex: "\<exists>m\<ge>n. decide (ticks m) = Some r \<and> (\<forall>k. n \<le> k \<longrightarrow> k < m \<longrightarrow> decide (ticks k) = None)"
  proof -
    obtain m where m: "m \<ge> n" "decide (ticks m) = Some r" "\<forall>k. n \<le> k \<longrightarrow> k < m \<longrightarrow> decide (ticks k) = None" using ex by blast
    have "poll_from ticks (m - l) = Some r" if "l \<le> m - n" for l
      using that
    proof (induction l)
      case 0
      show ?case using m(2) by (subst poll_from.simps) simp
    next
      case (Suc l)
      then have "decide (ticks (m - Suc l)) = None" "Suc (m - Suc l) = m - l" using m(3) by auto
      then show ?case using Suc by (subst poll_from.simps) simp
    qed
    from this [of "m - n"] show ?thesis using m(1) by simp
  qed
qed

lemma decide_expired:
  assumes "gget (oaCodes st) d = None \<or> (\<exists>dc. gget (oaCodes st) d = Some dc \<and> now > dcExpiresAt dc)"
  shows "decide (Answer (decode_reply (fst (handleDeviceToken now (Some d) st)))) \<noteq> None"
  using assms by (auto simp: decide_def handleDeviceToken_def answer_poll_def zero_response_def)

text \<open>
  A login ends. Let the client poll for a device code that the server issued at time \<open>t0\<close>, in
  whatever states the server's other requests put it between the polls, with network errors where they
  may fall. As soon as one poll later than fifteen minutes after \<open>t0\<close> reaches the server, the loop has
  returned, with tokens or an error; what it returns is settled by the first decisive answer.
\<close>

theorem device_login_ends:
  assumes "oaCodes st0 = []" and "\<And>n. login_run st0 (tr n) (st n)"
    and "\<And>n now u x. (DeviceCode now (Some d) u, x) \<in> set (tr n) \<Longrightarrow> now = t0"
    and "ticks m = Answer (decode_reply (fst (handleDeviceToken (tm m) (Some d) (st m))))" and "tm m > t0 + deviceCodeTTL"
  shows "\<exists>k\<le>m. \<exists>r. PollForToken ticks = Some r \<and> decide (ticks k) = Some r \<and> (\<forall>j. j < k \<longrightarrow> decide (ticks j) = None)"
proof -
  have "dcExpiresAt dc = t0 + deviceCodeTTL" if "gget (oaCodes (st m)) d = Some dc" for dc
    using login_run_justified [OF assms(2,1)] that assms(3) by (fastforce simp: codes_justified_def requested_def)
  then have "gget (oaCodes (st m)) d = None \<or> (\<exists>dc. gget (oaCodes (st m)) d = Some dc \<and> tm m > dcExpiresAt dc)"
    using assms(5) by (cases "gget (oaCodes (st m)) d") auto
  then have settled: "decide (ticks m) \<noteq> None" unfolding assms(4) by (rule decide_expired)
  define k where "k = (LEAST k. decide (ticks k) \<noteq> None)"
  have k: "decide (ticks k) \<noteq> None" "k \<le> m" unfolding k_def using settled by (rule LeastI, rule Least_le)
  have before: "decide (ticks j) = None" if "j < k" for j
    using not_less_Least that unfolding k_def by blast
  obtain r where r: "decide (ticks k) = Some r" using k(1) by blast
  then have "PollForToken ticks = Some r" unfolding PollForToken_def poll_from_Some using before by blast
  then show ?thesis using k(2) r before by blast
qed

theorem device_login_ends_witness:
  "\<exists>r. PollForToken (\<lambda>n. if n = 0 then NetworkError else
       Answer (decode_reply (fst (handleDeviceToken (1000 * second) (Some ''dev'') (snd (handleDeviceCode 0 (Some ''dev'') (Some ''ABCDEFGH'') login_server)))))) = Some r"
proof -
  let ?q = "DeviceCode 0 (Some ''dev'') (Some ''ABCDEFGH'')"
  let ?st = "snd (handleDeviceCode 0 (Some ''dev'') (Some ''ABCDEFGH'') login_server)"
  let ?ticks = "\<lambda>n :: nat. if n = 0 then NetworkError else Answer (decode_reply (fst (handleDeviceToken (1000 * second) (Some ''dev'') ?st)))"
  have run: "login_run login_server ([] @ [(?q, fst (handleDeviceCode 0 (Some ''dev'') (Some ''ABCDEFGH'') login_server))]) ?st"
    by (rule login_run.request [OF login_run.start]) simp
  have "oaCodes login_server = []" by (simp add: login_server_def)
  from device_login_ends [OF this run, of "''dev''" 0 ?ticks 1 "\<lambda>n. 1000 * second"]
  have "\<exists>k\<le>1. \<exists>r. PollForToken ?ticks = Some r \<and> decide (?ticks k) = Some r \<and> (\<forall>j. j < k \<longrightarrow> decide (?ticks j) = None)"
    by (simp add: deviceCodeTTL_def second_def)
  then show ?thesis by blast
qed

text \<open>
  Without such an answer there is no end: answers that do not decode (a proxy's error page) count as
  neither error nor tokens, and the loop polls forever.
\<close>

lemma undecodable_answers_poll_forever: "PollForToken (\<lambda>n. Answer zero_response) = None"
proof (cases "PollForToken (\<lambda>n. Answer zero_response)")
  case (Some r)
  then show ?thesis unfolding PollForToken_def poll_from_Some by (simp add: decide_def zero_response_def)
qed

text \<open>What \<open>RefreshIfNeeded\<close> returns is what the file holds, and an error leaves the file alone.\<close>

lemma RefreshIfNeeded_file:
  "RefreshIfNeeded now ask canWrite file = (r, file') \<Longrightarrow> (case r of Inl e \<Rightarrow> file' = file | Inr c \<Rightarrow> file' = Some c)"
  by (auto simp: RefreshIfNeeded_def Let_def split: option.splits if_splits sum.splits)

end
