(* ===== verification/Daemon_Start.thy ===== *)
theory Daemon_Start
  imports Login_Client
begin

text \<open>
  What the daemon does before and while it registers (\<open>internal/daemon/daemon.go\<close>): where the
  authentication token and the team come from, the address of the login server, and the retry loop
  around registration. The credentials file, the refresh endpoint, the device endpoint and the poll
  loop are those of the login client; what happens at each attempt of the retry loop is an argument.
\<close>

section \<open>Addresses\<close>

text \<open>The loop that looks for the last colon, from index \<open>i\<close> down; index 0 counts as not found.\<close>

fun last_colon :: "string \<Rightarrow> nat \<Rightarrow> nat" where
  "last_colon host i = (if i > 0 \<and> host ! i \<noteq> CHR '':'' then last_colon host (i - 1) else i)"

declare last_colon.simps [simp del]

definition strip_port :: "string \<Rightarrow> string" where
  "strip_port host =
     (if length host > 1
      then let i = last_colon host (length host - 1) in if i > 0 then take i host else host
      else host)"

definition coordHTTPURL :: "string \<Rightarrow> string \<Rightarrow> string" where
  "coordHTTPURL grpcAddr override =
     (if override \<noteq> [] then override
      else let host = strip_port grpcAddr
           in if host = ''localhost'' \<or> host = ''127.0.0.1'' then ''http://'' @ host @ '':8080'' else ''https://'' @ host)"

section \<open>Authentication\<close>

record start_config =
  scAuthToken :: string
  scTeamID :: string
  scCoordAddr :: string
  scOAuthURL :: string

record device_auth =
  daDeviceCode :: string
  daInterval :: int

text \<open>What the outside answers: the refresh and device endpoints at an address, the turns of the poll loop, the file system.\<close>

record login_env =
  leRefresh :: "string \<Rightarrow> string \<Rightarrow> token_response option"
  leDevice :: "string \<Rightarrow> device_auth option"
  leTicks :: "string \<Rightarrow> string \<Rightarrow> nat \<Rightarrow> tick"
  leCanWrite :: bool

definition new_credentials :: "time \<Rightarrow> string \<Rightarrow> token_response \<Rightarrow> credentials" where
  "new_credentials now coordAddr r = \<lparr>crAccess = trAccess r, crRefresh = trRefresh r, crEmail = trEmail r, crCoordAddr = coordAddr,
     crExpires = unix (now + trExpiresIn r * second), crTeamID = [], crTeamName = []\<rparr>"

text \<open>The interactive login; \<open>None\<close> if polling never ends.\<close>

definition device_flow ::
  "login_env \<Rightarrow> time \<Rightarrow> start_config \<Rightarrow> string \<Rightarrow> credentials option \<Rightarrow> ((poll_error + string) \<times> credentials option) option" where
  "device_flow le now cfg url file =
     (case leDevice le url of
        None \<Rightarrow> Some (Inr [], file)
      | Some dev \<Rightarrow>
          (case PollForToken (leTicks le url (daDeviceCode dev)) of
             None \<Rightarrow> None
           | Some (Inl e) \<Rightarrow> Some (Inl e, file)
           | Some (Inr r) \<Rightarrow>
               Some (Inr (trAccess r), if leCanWrite le then Some (new_credentials now (scCoordAddr cfg) r) else file)))"

definition resolveAuth ::
  "login_env \<Rightarrow> time \<Rightarrow> start_config \<Rightarrow> credentials option \<Rightarrow> ((poll_error + string) \<times> credentials option) option" where
  "resolveAuth le now cfg file =
     (if scAuthToken cfg \<noteq> [] then Some (Inr (scAuthToken cfg), file)
      else let url = coordHTTPURL (scCoordAddr cfg) (scOAuthURL cfg)
           in case file of
                None \<Rightarrow> device_flow le now cfg url file
              | Some c \<Rightarrow>
                  if \<not> NeedsRefresh now c then Some (Inr (crAccess c), file)
                  else case RefreshIfNeeded now (leRefresh le url) (leCanWrite le) file of
                         (Inr c, file) \<Rightarrow> Some (Inr (crAccess c), file)
                       | (Inl e, file) \<Rightarrow> device_flow le now cfg url file)"

definition resolveTeamID :: "start_config \<Rightarrow> credentials option \<Rightarrow> string" where
  "resolveTeamID cfg file =
     (if scTeamID cfg \<noteq> [] then scTeamID cfg
      else case file of None \<Rightarrow> [] | Some c \<Rightarrow> if crTeamID c \<noteq> [] then crTeamID c else [])"

section \<open>Retries\<close>

text \<open>
  An attempt: whether the operation failed, whether the context was done after it or during the sleep,
  and the jitter added to the backoff. The loop gives its result and the sleeps it took; \<open>None\<close> if it
  never returns.
\<close>

record attempt =
  atFails :: bool
  atCtxErr :: bool
  atDone :: bool
  atJitter :: "int \<Rightarrow> int"

datatype retry_result = RetryOk | RetryCancelled

partial_function (option) retry_from ::
  "(nat \<Rightarrow> attempt) \<Rightarrow> int \<Rightarrow> nat \<Rightarrow> int \<Rightarrow> int list \<Rightarrow> (retry_result \<times> int list) option" where
  [code]: "retry_from att mx n backoff sleeps =
     (if \<not> atFails (att n) then Some (RetryOk, sleeps)
      else if atCtxErr (att n) then Some (RetryCancelled, sleeps)
      else if atDone (att n) then Some (RetryCancelled, sleeps)
      else let sleeps = sleeps @ [backoff + atJitter (att n) backoff];
               backoff = backoff * 2;
               backoff = (if backoff > mx then mx else backoff)
           in retry_from att mx (Suc n) backoff sleeps)"

definition retryWithBackoff :: "int \<Rightarrow> int \<Rightarrow> (nat \<Rightarrow> attempt) \<Rightarrow> (retry_result \<times> int list) option" where
  "retryWithBackoff initial mx att = retry_from att mx 0 initial []"

definition registerWithRetry :: "(nat \<Rightarrow> attempt) \<Rightarrow> (retry_result \<times> int list) option" where
  "registerWithRetry = retryWithBackoff second (30 * second)"

definition millisecond :: int where
  "millisecond = 1000000"

definition registerHandlesWithRetry :: "(nat \<Rightarrow> attempt) \<Rightarrow> (retry_result \<times> int list) option" where
  "registerHandlesWithRetry = retryWithBackoff (100 * millisecond) (2 * second)"

section \<open>The retry schedule\<close>

definition ends :: "attempt \<Rightarrow> bool" where
  "ends a \<longleftrightarrow> \<not> atFails a \<or> atCtxErr a \<or> atDone a"

definition outcome :: "attempt \<Rightarrow> retry_result" where
  "outcome a = (if atFails a then RetryCancelled else RetryOk)"

definition backoff_at :: "int \<Rightarrow> int \<Rightarrow> nat \<Rightarrow> int" where
  "backoff_at initial mx n = min mx (initial * 2 ^ n)"

lemma retry_from_ends: "ends (att n) \<Longrightarrow> retry_from att mx n b ss = Some (outcome (att n), ss)"
  by (subst retry_from.simps) (auto simp: ends_def outcome_def)

lemma retry_from_again:
  "\<not> ends (att n) \<Longrightarrow> retry_from att mx n b ss = retry_from att mx (Suc n) (min mx (b * 2)) (ss @ [b + atJitter (att n) b])"
  by (subst retry_from.simps) (auto simp: ends_def min_def Let_def)

lemma retry_from_runs:
  assumes "\<And>i. i < k \<Longrightarrow> \<not> ends (att (n + i))" and "0 < initial" and "initial \<le> mx"
  shows "retry_from att mx n (backoff_at initial mx n) ss = retry_from att mx (n + k) (backoff_at initial mx (n + k))
    (ss @ map (\<lambda>i. backoff_at initial mx i + atJitter (att i) (backoff_at initial mx i)) [n..<n + k])"
  using assms(1)
proof (induction k)
  case (Suc k)
  have double: "min mx (backoff_at initial mx i * 2) = backoff_at initial mx (Suc i)" for i
    using assms(2,3) by (auto simp: backoff_at_def min_def mult.commute)
  have "\<not> ends (att (n + k))" using Suc.prems by simp
  then show ?case using Suc by (simp add: retry_from_again double)
qed simp

lemma retryWithBackoff_stops:
  assumes "\<And>i. i < k \<Longrightarrow> \<not> ends (att i)" and "ends (att k)" and "0 < initial" and "initial \<le> mx"
  shows "retryWithBackoff initial mx att = Some (outcome (att k), map (\<lambda>i. backoff_at initial mx i + atJitter (att i) (backoff_at initial mx i)) [0..<k])"
proof -
  have "initial = backoff_at initial mx 0" using assms(4) by (simp add: backoff_at_def)
  then show ?thesis
    using retry_from_runs [of k att 0 initial mx "[]"] assms by (simp add: retryWithBackoff_def retry_from_ends)
qed

lemma retry_from_Some: "retry_from att mx n b ss = Some r \<Longrightarrow> \<exists>m\<ge>n. ends (att m)"
proof (rule retry_from.raw_induct [of "\<lambda>att mx n b ss r. \<exists>m\<ge>n. ends (att m)"])
  fix rec att mx n b ss r
  assume IH: "\<And>att mx n b ss r. rec att mx n b ss = Some r \<Longrightarrow> \<exists>m\<ge>n. ends (att m)"
    and step: "(if \<not> atFails (att n) then Some (RetryOk, ss) else if atCtxErr (att n) then Some (RetryCancelled, ss)
      else if atDone (att n) then Some (RetryCancelled, ss)
      else let sleeps = ss @ [b + atJitter (att n) b]; backoff = b * 2; backoff = (if backoff > mx then mx else backoff)
           in rec att mx (Suc n) backoff sleeps) = Some r"
  show "\<exists>m\<ge>n. ends (att m)"
  proof (cases "ends (att n)")
    case False
    then obtain b' ss' where "rec att mx (Suc n) b' ss' = Some r" using step by (auto simp: ends_def Let_def)
    then show ?thesis using IH Suc_leD by blast
  qed blast
qed


text \<open>A registration that is accepted at the fourth attempt.\<close>

definition late_success :: "nat \<Rightarrow> attempt" where
  "late_success n = \<lparr>atFails = n < 3, atCtxErr = False, atDone = False, atJitter = (\<lambda>b. b div 10)\<rparr>"


section \<open>Credentials at start\<close>

text \<open>
  Whatever way the token was found, the file then holds either what it held before, or credentials with
  exactly the returned token.
\<close>

lemma resolveAuth_saves_token:
  assumes "resolveAuth le now cfg file = Some (Inr tok, file')" and "file' \<noteq> file"
  shows "\<exists>c. file' = Some c \<and> crAccess c = tok"
  using assms by (auto simp: resolveAuth_def device_flow_def RefreshIfNeeded_def new_credentials_def Let_def split: if_splits option.splits sum.splits)

text \<open>
  A login after a failed refresh writes new credentials without the team of the old ones: the daemon,
  which reads the team after it resolved the token, then registers outside its team.
\<close>

lemma relogin_forgets_team:
  assumes "scAuthToken cfg = []" and "scTeamID cfg = []" and "NeedsRefresh now c" and "crTeamID c \<noteq> []"
    and "leRefresh le (coordHTTPURL (scCoordAddr cfg) (scOAuthURL cfg)) (crRefresh c) = None"
    and "leDevice le (coordHTTPURL (scCoordAddr cfg) (scOAuthURL cfg)) = Some dev"
    and "PollForToken (leTicks le (coordHTTPURL (scCoordAddr cfg) (scOAuthURL cfg)) (daDeviceCode dev)) = Some (Inr r)" and "leCanWrite le"
  shows "\<exists>file'. resolveAuth le now cfg (Some c) = Some (Inr (trAccess r), file') \<and> resolveTeamID cfg (Some c) = crTeamID c \<and> resolveTeamID cfg file' = []"
  using assms by (simp add: resolveAuth_def device_flow_def RefreshIfNeeded_def RefreshAccessToken_def new_credentials_def resolveTeamID_def Let_def)

section \<open>Ports\<close>

lemma last_colon_colon: "CHR '':'' \<notin> set port \<Longrightarrow> i \<le> length port \<Longrightarrow> host \<noteq> [] \<Longrightarrow> last_colon (host @ CHR '':'' # port) (length host + i) = length host"
proof (induction i)
  case 0
  then show ?case by (subst last_colon.simps) (simp add: nth_append)
next
  case (Suc i)
  then have "(host @ CHR '':'' # port) ! (length host + Suc i) = port ! i" by (simp add: nth_append)
  moreover have "port ! i \<noteq> CHR '':''" using Suc.prems(1,2) by (metis Suc_le_lessD nth_mem)
  ultimately show ?case using Suc by (subst last_colon.simps) simp
qed

text \<open>Any host, colons included, loses exactly its port; a bracketed IPv6 address without a port loses its last group.\<close>

lemma strip_port:
  "CHR '':'' \<notin> set port \<Longrightarrow> host \<noteq> [] \<Longrightarrow> strip_port (host @ CHR '':'' # port) = host"
  using last_colon_colon [of port "length port" host] by (simp add: strip_port_def Let_def)

lemma strip_port_ipv6: "strip_port ''[::1]'' = ''[:''"
  using strip_port [of "''1]''" "''[:''"] by simp

end
