(* ===== verification/Cli.thy ===== *)
theory Cli
  imports Attach Daemon_Start Handle
begin

text \<open>
  The commands of \<open>tailbus\<close> (\<open>cmd/tailbus/main.go\<close>). A command is a function of its parsed flags and arguments,
  the client and the state behind it; its result is what it prints, how the process ends, and the
  new state. Parsing of flags, the format of times and \<open>%q\<close> are arguments.
\<close>

section \<open>Helpers\<close>

definition GetRequestMetadata :: "string \<Rightarrow> (string, string list) gomap" where
  "GetRequestMetadata token = [(''authorization'', [''Bearer '' @ token])]"

text \<open>The token file next to the socket; without one the calls carry no metadata of their own.\<close>

definition call_metadata :: "unicode \<Rightarrow> string option \<Rightarrow> (string, string list) gomap" where
  "call_metadata U tokenFile = (case tokenFile of None \<Rightarrow> [] | Some data \<Rightarrow> GetRequestMetadata (TrimSpace U data))"

definition short :: "string \<Rightarrow> string" where
  "short i = (if length i > 8 then take 8 i else i)"

text \<open>The loop of \<open>stripPort\<close> from an index down to 1.\<close>

fun strip_loop :: "string \<Rightarrow> nat \<Rightarrow> string" where
  "strip_loop addr 0 = addr"
| "strip_loop addr (Suc i) = (if addr ! Suc i = CHR '':'' then take (Suc i) addr else strip_loop addr i)"

definition stripPort :: "string \<Rightarrow> string" where
  "stripPort addr = strip_loop addr (length addr - 1)"

text \<open>\<open>strings.Split\<close> for a one-byte separator.\<close>

fun split_on :: "char \<Rightarrow> string \<Rightarrow> string list" where
  "split_on c [] = [[]]"
| "split_on c (x # xs) = (if x = c then [] # split_on c xs else (x # hd (split_on c xs)) # tl (split_on c xs))"

text \<open>\<open>None\<close> is the nil slice of an empty value.\<close>

definition splitCSV :: "unicode \<Rightarrow> string \<Rightarrow> string list option" where
  "splitCSV U value = (if value = [] then None else Some (filter (\<lambda>part. part \<noteq> []) (map (TrimSpace U) (split_on CHR '','' value))))"

fun join_with :: "string \<Rightarrow> string list \<Rightarrow> string" where
  "join_with sep [] = []"
| "join_with sep [x] = x"
| "join_with sep (x # xs) = x @ sep @ join_with sep xs"

definition field_line :: "string \<Rightarrow> string \<Rightarrow> string list \<Rightarrow> string list" where
  "field_line indent name vs = (if vs = [] then [] else [indent @ name @ '': '' @ join_with '', '' vs])"

definition command_line :: "string \<Rightarrow> pb_command_spec \<Rightarrow> string" where
  "command_line indent c = (if pcDescription c \<noteq> [] then indent @ ''  '' @ pcName c @ '' - '' @ pcDescription c else indent @ ''  '' @ pcName c)"

definition printManifestSummary :: "pb_manifest option \<Rightarrow> string \<Rightarrow> string list" where
  "printManifestSummary m indent =
     (case m of
        None \<Rightarrow> []
      | Some m \<Rightarrow>
          (if pmDescription m \<noteq> [] then [indent @ ''description: '' @ pmDescription m] else []) @
          (if pmVersion m \<noteq> [] then [indent @ ''version: '' @ pmVersion m] else []) @
          field_line indent ''capabilities'' (pmCapabilities m) @ field_line indent ''domains'' (pmDomains m) @
          field_line indent ''input_types'' (pmInputTypes m) @ field_line indent ''output_types'' (pmOutputTypes m) @
          field_line indent ''tags'' (pmTags m) @
          (if pmCommands m \<noteq> [] then (indent @ ''commands:'') # map (command_line indent) (pmCommands m) else []))"

section \<open>Mesh commands\<close>

datatype cli_exit = Exit nat | Panic

type_synonym 's cli_result = "string list \<times> cli_exit \<times> 's"

definition usage :: "string \<Rightarrow> 's \<Rightarrow> 's cli_result" where
  "usage text s = ([''Usage: '' @ text], Exit 1, s)"

definition cli_register ::
  "(string \<Rightarrow> string) \<Rightarrow> 's bridge_client \<Rightarrow> string \<Rightarrow> string \<Rightarrow> string \<Rightarrow> string list \<Rightarrow> 's \<Rightarrow> 's cli_result" where
  "cli_register quote cl desc tags version args s =
     (case args of
        [] \<Rightarrow> usage ''tailbus register <handle> [-description \"...\"] [-tags \"a,b\"] [-version \"1.0\"]'' s
      | handle # _ \<Rightarrow>
          (let manifest = (if desc \<noteq> [] \<or> tags \<noteq> [] \<or> version \<noteq> []
                 then Some (no_pb_manifest\<lparr>pmDescription := desc, pmVersion := version,
                        pmTags := (if tags \<noteq> [] then split_on CHR '','' tags else [])\<rparr>)
                 else None)
           in case clRegister cl handle manifest [] s of
                (Inl e, s) \<Rightarrow> ([], Exit 1, s)
              | (Inr (Some refusal), s) \<Rightarrow> ([''Registration failed: '' @ refusal], Exit 1, s)
              | (Inr None, s) \<Rightarrow> ([''Registered as '' @ quote handle], Exit 0, s)))"

definition introspect_lines :: "introspection \<Rightarrow> string list" where
  "introspect_lines r = (''Handle: '' @ inHandle r) #
     (case inManifest r of
        Some m \<Rightarrow>
          (if pmDescription m \<noteq> [] then [''Description: '' @ pmDescription m] else []) @
          (if pmVersion m \<noteq> [] then [''Version: '' @ pmVersion m] else []) @ field_line [] ''Tags'' (pmTags m) @
          (if pmCommands m \<noteq> [] then ''Commands:'' # map (command_line []) (pmCommands m) else [])
      | None \<Rightarrow> if inDescription r \<noteq> [] then [''Description: '' @ inDescription r] else [''(no manifest)''])"

definition cli_introspect :: "(string \<Rightarrow> string) \<Rightarrow> 's bridge_client \<Rightarrow> string list \<Rightarrow> 's \<Rightarrow> 's cli_result" where
  "cli_introspect quote cl args s =
     (case args of
        [] \<Rightarrow> usage ''tailbus introspect <handle>'' s
      | h # _ \<Rightarrow>
          (case clIntrospect cl h s of
             (Inl e, s) \<Rightarrow> ([], Exit 1, s)
           | (Inr r, s) \<Rightarrow> if \<not> inFound r then ([''Handle '' @ quote h @ '' not found''], Exit 1, s)
                          else (introspect_lines r, Exit 0, s)))"

definition list_line :: "bool \<Rightarrow> string \<times> pb_manifest option \<Rightarrow> string list" where
  "list_line verbose = (\<lambda>(h, m).
     if verbose then (''  '' @ h) # printManifestSummary m ''    ''
     else [''  '' @ h @
       (case m of Some m \<Rightarrow> if pmDescription m \<noteq> [] then '' - '' @ pmDescription m else [] | None \<Rightarrow> []) @
       (case m of Some m \<Rightarrow> if pmTags m \<noteq> [] then '' ['' @ join_with '', '' (pmTags m) @ '']'' else [] | None \<Rightarrow> [])])"

text \<open>The tags of \<open>list\<close>: those of the flag, or of the first argument when the flag is missing.\<close>

definition list_tags :: "unicode \<Rightarrow> string \<Rightarrow> string list \<Rightarrow> string list" where
  "list_tags U tags args =
     (case splitCSV U tags of
        Some ts \<Rightarrow> ts
      | None \<Rightarrow> (case args of [] \<Rightarrow> [] | a # _ \<Rightarrow> (case splitCSV U a of Some ts \<Rightarrow> ts | None \<Rightarrow> [])))"

definition cli_list :: "unicode \<Rightarrow> 's bridge_client \<Rightarrow> string \<Rightarrow> bool \<Rightarrow> string list \<Rightarrow> 's \<Rightarrow> 's cli_result" where
  "cli_list U cl tags verbose args s =
     (case clListHandles cl (list_tags U tags args) s of
        (Inl e, s) \<Rightarrow> ([], Exit 1, s)
      | (Inr es, s) \<Rightarrow> (if es = [] then [''No handles found''] else concat (map (list_line verbose) es), Exit 0, s))"

definition csv :: "unicode \<Rightarrow> string \<Rightarrow> string list" where
  "csv U value = (case splitCSV U value of None \<Rightarrow> [] | Some xs \<Rightarrow> xs)"

definition match_lines :: "find_match \<Rightarrow> string list" where
  "match_lines m =
     (''  '' @ fmHandle m @ '' (score='' @ dec_nat (nat (fmScore m)) @ '')'' @
        (if pmDescription (fmManifest m) \<noteq> [] then '' - '' @ pmDescription (fmManifest m) else [])) #
     field_line ''    '' ''reasons'' (fmReasons m)"

definition cli_find ::
  "unicode \<Rightarrow> 's bridge_client \<Rightarrow> string \<Rightarrow> string \<Rightarrow> string \<Rightarrow> string \<Rightarrow> string \<Rightarrow> 64 word \<Rightarrow> 's \<Rightarrow> 's cli_result" where
  "cli_find U cl capabilities domains tags command version limit s =
     (case clFindHandles cl \<lparr>qCapabilities = csv U capabilities, qDomains = csv U domains, qTags = csv U tags,
               qCommandName = command, qVersion = version, qLimit = uint (ucast limit :: 32 word)\<rparr> s of
        (Inl e, s) \<Rightarrow> ([], Exit 1, s)
      | (Inr ms, s) \<Rightarrow> (if ms = [] then [''No matching handles found''] else concat (map match_lines ms), Exit 0, s))"

definition cli_open :: "'s bridge_client \<Rightarrow> string list \<Rightarrow> 's \<Rightarrow> 's cli_result" where
  "cli_open cl args s =
     (case args of
        from # to # msg # _ \<Rightarrow>
          (case clOpenSession cl \<lparr>oqFrom = from, oqTo = to, oqPayload = msg, oqContentType = ''text/plain'', oqTraceId = []\<rparr> s of
             (Inl e, s) \<Rightarrow> ([], Exit 1, s)
           | (Inr (sid, mid, t), s) \<Rightarrow> ([''Session: '' @ sid, ''Message: '' @ mid], Exit 0, s))
      | _ \<Rightarrow> usage ''tailbus open <from> <to> <message>'' s)"

definition cli_send :: "'s bridge_client \<Rightarrow> string list \<Rightarrow> 's \<Rightarrow> 's cli_result" where
  "cli_send cl args s =
     (case args of
        sid # from # msg # _ \<Rightarrow>
          (case clSendMessage cl \<lparr>sqSession = sid, sqFrom = from, sqPayload = msg, sqContentType = ''text/plain''\<rparr> s of
             (Inl e, s) \<Rightarrow> ([], Exit 1, s)
           | (Inr mid, s) \<Rightarrow> ([''Message: '' @ mid], Exit 0, s))
      | _ \<Rightarrow> usage ''tailbus send <session-id> <from> <message>'' s)"

definition cli_resolve :: "'s bridge_client \<Rightarrow> string list \<Rightarrow> 's \<Rightarrow> 's cli_result" where
  "cli_resolve cl args s =
     (case args of
        sid # from # rest \<Rightarrow>
          (case clResolveSession cl \<lparr>sqSession = sid, sqFrom = from, sqPayload = (case rest of [] \<Rightarrow> [] | m # _ \<Rightarrow> m),
                  sqContentType = ''text/plain''\<rparr> s of
             (Inl e, s) \<Rightarrow> ([], Exit 1, s)
           | (Inr mid, s) \<Rightarrow> ([''Resolved. Message: '' @ mid], Exit 0, s))
      | _ \<Rightarrow> usage ''tailbus resolve <session-id> <from> [message]'' s)"

text \<open>
  A line of \<open>sessions\<close> and of \<open>subscribe\<close> cuts the session identifier to eight bytes, which panics on a
  shorter one; \<open>subscribe\<close> reads the envelope of every message, which a room event does not have.
\<close>

definition cut8 :: "string \<Rightarrow> string option" where
  "cut8 i = (if length i < 8 then None else Some (take 8 i))"

fun session_lines :: "session_info list \<Rightarrow> string list \<times> cli_exit" where
  "session_lines [] = ([], Exit 0)"
| "session_lines (x # xs) =
     (case cut8 (siId x) of
        None \<Rightarrow> ([], Panic)
      | Some i \<Rightarrow> (case session_lines xs of (ls, e) \<Rightarrow>
          ((''  '' @ i @ ''  '' @ siFrom x @ '' -> '' @ siTo x @ ''  ['' @ siState x @ '']'') # ls, e)))"

definition cli_sessions :: "'s bridge_client \<Rightarrow> string list \<Rightarrow> 's \<Rightarrow> 's cli_result" where
  "cli_sessions cl args s =
     (case args of
        [] \<Rightarrow> usage ''tailbus sessions <handle>'' s
      | h # _ \<Rightarrow>
          (case clListSessions cl h s of
             (Inl e, s) \<Rightarrow> ([], Exit 1, s)
           | (Inr xs, s) \<Rightarrow> (case session_lines xs of (ls, e) \<Rightarrow> (ls, e, s))))"

definition subscribe_line :: "incoming \<Rightarrow> string option" where
  "subscribe_line msg =
     (case msg of
        InRoomEvent e \<Rightarrow> None
      | InEnvelope env \<Rightarrow> map_option (\<lambda>i. ''['' @ i @ ''] '' @ FromHandle env @ '' -> '' @ ToHandle env @ '': '' @ Payload env) (cut8 (SessionId env)))"

fun subscribe_lines :: "received list \<Rightarrow> string list \<times> cli_exit option" where
  "subscribe_lines [] = ([], None)"
| "subscribe_lines (ReceivedEnd q e # rs) = ([], Some (Exit 1))"
| "subscribe_lines (Received msg # rs) =
     (case subscribe_line msg of
        None \<Rightarrow> ([], Some Panic)
      | Some l \<Rightarrow> (case subscribe_lines rs of (ls, e) \<Rightarrow> (l # ls, e)))"

section \<open>Status and traces\<close>

text \<open>
  \<open>status\<close>: \<open>path\<close> is the credentials file and \<open>handles\<close> the answer of the daemon, if there is a connection and it
  answers within two seconds.
\<close>

definition credential_lines :: "(int \<Rightarrow> string) \<Rightarrow> time \<Rightarrow> string \<Rightarrow> credentials option \<Rightarrow> string list" where
  "credential_lines fmt now path file =
     (case file of
        None \<Rightarrow> [''Not logged in.'', ''  Credential file: '' @ path @ '' (not found)'']
      | Some c \<Rightarrow>
          [''Logged in as: '' @ crEmail c, ''  Coord: '' @ crCoordAddr c,
           if IsExpired now c then ''  Token: expired at '' @ fmt (crExpires c) @ '' (will auto-refresh)''
           else ''  Token: valid until '' @ fmt (crExpires c),
           ''  Credentials: '' @ path,
           if crTeamID c \<noteq> [] then ''  Team: '' @ crTeamName c @ '' ('' @ crTeamID c @ '')'' else ''  Team: (personal mode)''])"

definition cli_status ::
  "(int \<Rightarrow> string) \<Rightarrow> time \<Rightarrow> string \<Rightarrow> credentials option \<Rightarrow> bool \<Rightarrow> 's bridge_client \<Rightarrow> 's \<Rightarrow> 's cli_result" where
  "cli_status fmt now path file connects cl s =
     (if \<not> connects then (credential_lines fmt now path file @ [''  Daemon: not running''], Exit 0, s)
      else case clListHandles cl [] s of
             (Inl e, s) \<Rightarrow> (credential_lines fmt now path file @ [''  Daemon: not reachable''], Exit 0, s)
           | (Inr es, s) \<Rightarrow> (credential_lines fmt now path file @ [''  Daemon: running ('' @ dec_nat (length es) @ '' handles)''], Exit 0, s))"

definition action_name :: "trace_action \<Rightarrow> string" where
  "action_name a = ''TRACE_ACTION_'' @
     (case a of ACTION_UNSPECIFIED \<Rightarrow> ''UNSPECIFIED'' | MESSAGE_CREATED \<Rightarrow> ''MESSAGE_CREATED'' | ROUTED_LOCAL \<Rightarrow> ''ROUTED_LOCAL''
      | ROUTED_REMOTE \<Rightarrow> ''ROUTED_REMOTE'' | SENT_TO_TRANSPORT \<Rightarrow> ''SENT_TO_TRANSPORT''
      | RECEIVED_FROM_TRANSPORT \<Rightarrow> ''RECEIVED_FROM_TRANSPORT'' | DELIVERED_TO_SUBSCRIBER \<Rightarrow> ''DELIVERED_TO_SUBSCRIBER'')"

definition pad_right :: "nat \<Rightarrow> string \<Rightarrow> string" where
  "pad_right n s = s @ replicate (n - length s) CHR '' ''"

text \<open>The metadata is listed in the order of the map's iteration.\<close>

definition span_line :: "(time \<Rightarrow> string) \<Rightarrow> trace_span \<Rightarrow> string" where
  "span_line clock x =
     ''  '' @ clock (tsTimestamp x) @ ''  '' @ pad_right 40 (action_name (tsAction x)) @ ''  msg:'' @ short (tsMessageId x) @ ''  node:'' @ tsNodeId x @
     (if tsMetadata x = [] then [] else '' ['' @ join_with '' '' (map (\<lambda>(k, v). k @ ''='' @ v) (tsMetadata x)) @ '']'')"

definition cli_trace :: "(time \<Rightarrow> string) \<Rightarrow> (string \<Rightarrow> trace_span list option) \<Rightarrow> string list \<Rightarrow> string list \<times> cli_exit" where
  "cli_trace clock getTrace args =
     (case args of
        [] \<Rightarrow> ([''Usage: tailbus trace <trace-id>''], Exit 1)
      | t # _ \<Rightarrow>
          (case getTrace t of
             None \<Rightarrow> ([], Exit 1)
           | Some [] \<Rightarrow> ([''No spans found for trace '' @ t], Exit 0)
           | Some xs \<Rightarrow> ((''Trace '' @ t @ '' ('' @ dec_nat (length xs) @ '' spans):'') # [] # map (span_line clock) xs, Exit 0)))"

section \<open>One-shot requests\<close>

text \<open>
  \<open>fire\<close> registers a handle with the current time in its name, subscribes, opens a session and waits
  for a message of it. A turn of its loop says whether the deadline had passed before it, and what \<open>Recv\<close>
  returned: a message, or an error with whether the deadline is its reason.
\<close>

datatype fire_end = FirePrinted string | FireTimeout | FireStreamError | FirePanic | FireWaiting

record fire_turn =
  ftExpired :: bool
  ftRecv :: "incoming option"
  ftDeadline :: bool

fun fire_wait :: "string \<Rightarrow> fire_turn list \<Rightarrow> fire_end" where
  "fire_wait sid [] = FireWaiting"
| "fire_wait sid (t # ts) =
     (if ftExpired t then FireTimeout
      else case ftRecv t of
             None \<Rightarrow> if ftDeadline t then FireTimeout else FireStreamError
           | Some (InRoomEvent e) \<Rightarrow> FirePanic
           | Some (InEnvelope env) \<Rightarrow> if SessionId env \<noteq> sid then fire_wait sid ts else FirePrinted (Payload env))"

definition fire_handle :: "int \<Rightarrow> string" where
  "fire_handle nanos = ''_fire_'' @ dec_nat (nat nanos)"

definition fire_start :: "'s bridge_client \<Rightarrow> int \<Rightarrow> string \<Rightarrow> string \<Rightarrow> 's \<Rightarrow> string option \<times> 's" where
  "fire_start cl nanos target payload s =
     (let tmp = fire_handle nanos
      in case clRegister cl tmp None [] s of
           (Inr None, s) \<Rightarrow>
             (case clSubscribe cl tmp s of
                (Inl e, s) \<Rightarrow> (None, s)
              | (Inr _, s) \<Rightarrow>
                  (case clOpenSession cl \<lparr>oqFrom = tmp, oqTo = target, oqPayload = payload,
                           oqContentType = ''application/json'', oqTraceId = []\<rparr> s of
                     (Inl e, s) \<Rightarrow> (None, s)
                   | (Inr (sid, mid, t), s) \<Rightarrow> (Some sid, s)))
         | (_, s) \<Rightarrow> (None, s))"

section \<open>Login\<close>

definition cli_coord_url :: "string \<Rightarrow> string \<Rightarrow> string" where
  "cli_coord_url coordAddr oauthURL =
     (let coordHost = stripPort coordAddr
      in if oauthURL \<noteq> [] then oauthURL
         else if coordHost = ''localhost'' \<or> coordHost = ''127.0.0.1'' then ''http://'' @ coordHost @ '':8080''
         else ''https://'' @ coordHost)"

text \<open>
  \<open>login\<close>: \<open>file\<close> is the credentials file and \<open>listTeams\<close> the answer to \<open>ListTeams\<close> with an access token, the
  identifiers and names of the teams. \<open>None\<close> if the poll loop never returns. The credentials are read
  back from the file before the team is set.
\<close>

definition cli_login ::
  "login_env \<Rightarrow> time \<Rightarrow> (string \<Rightarrow> (string \<times> string) list option) \<Rightarrow> string \<Rightarrow> string \<Rightarrow> credentials option \<Rightarrow>
     (nat \<times> credentials option) option" where
  "cli_login le now listTeams coordAddr oauthURL file =
     (let url = cli_coord_url coordAddr oauthURL; loggedIn = (case file of None \<Rightarrow> False | Some c \<Rightarrow> \<not> IsExpired now c)
      in if loggedIn then Some (0, file)
         else case leDevice le url of
                None \<Rightarrow> Some (1, file)
              | Some dev \<Rightarrow>
                  (case PollForToken (leTicks le url (daDeviceCode dev)) of
                     None \<Rightarrow> None
                   | Some (Inl e) \<Rightarrow> Some (1, file)
                   | Some (Inr r) \<Rightarrow>
                       if \<not> leCanWrite le then Some (1, file)
                       else let creds = new_credentials now coordAddr r
                            in case listTeams (crAccess creds) of
                                 Some ((i, n) # _) \<Rightarrow>
                                   if crTeamID creds = [] then Some (0, Some (creds\<lparr>crTeamID := i, crTeamName := n\<rparr>))
                                   else Some (0, Some creds)
                               | _ \<Rightarrow> Some (0, Some creds)))"

definition cli_logout :: "bool \<Rightarrow> credentials option \<Rightarrow> nat \<times> credentials option" where
  "cli_logout canRemove file = (if canRemove then (0, None) else (1, file))"

section \<open>The helpers\<close>

lemma strip_loop_eq: "strip_loop addr i = (if last_colon addr i > 0 then take (last_colon addr i) addr else addr)"
  by (induction i) (simp_all add: last_colon.simps [of addr 0] last_colon.simps [of addr "Suc i" for i])

text \<open>
  The command line and the daemon derive the same login server from an address, although each has a loop
  of its own for the port.
\<close>

theorem cli_and_daemon_agree_on_server: "cli_coord_url addr url = coordHTTPURL addr url"
proof -
  have "stripPort addr = strip_port addr"
    by (cases "length addr > 1") (auto simp: stripPort_def strip_port_def strip_loop_eq Let_def not_less last_colon.simps [of addr 0] le_Suc_eq)
  then show ?thesis by (simp add: cli_coord_url_def coordHTTPURL_def Let_def)
qed

lemma split_on_ne [simp]: "split_on c s \<noteq> []"
  by (cases s) simp_all

lemma split_on_none: "c \<notin> set x \<Longrightarrow> split_on c x = [x]"
  by (induction x) auto

lemma split_on_append: "c \<notin> set x \<Longrightarrow> split_on c (x @ c # ys) = x # split_on c ys"
  by (induction x) auto

text \<open>A value that can stand in a comma-separated list: it is not empty, has no comma and no space around it.\<close>

definition clean :: "string \<Rightarrow> bool" where
  "clean x \<longleftrightarrow> x \<noteq> [] \<and> is_ascii x \<and> trim x = x \<and> CHR '','' \<notin> set x"

lemma clean_TrimSpace: "clean x \<Longrightarrow> TrimSpace U x = x" "clean x \<Longrightarrow> TrimSpace U (CHR '' '' # x) = x"
  by (simp_all add: clean_def TrimSpace_def is_ascii_def) (simp add: trim_def is_space_def)

lemma split_joined:
  "xs \<noteq> [] \<Longrightarrow> \<forall>x\<in>set xs. clean x \<Longrightarrow>
     map (TrimSpace U) (split_on CHR '','' (join_with '', '' xs)) = xs \<and>
     map (TrimSpace U) (split_on CHR '','' (CHR '' '' # join_with '', '' xs)) = xs"
proof (induction xs rule: induct_list012)
  case (2 x)
  then show ?case using clean_TrimSpace [of x U] by (simp add: split_on_none clean_def)
next
  case (3 x y zs)
  have x: "clean x" "CHR '','' \<notin> set x" using 3 by (auto simp: clean_def)
  let ?r = "CHR '' '' # join_with '', '' (y # zs)"
  have j: "join_with '', '' (x # y # zs) = x @ CHR '','' # ?r" by simp
  have r: "map (TrimSpace U) (split_on CHR '','' ?r) = y # zs" using 3 by simp
  have "split_on CHR '','' (x @ CHR '','' # ?r) = x # split_on CHR '','' ?r"
    "split_on CHR '','' ((CHR '' '' # x) @ CHR '','' # ?r) = (CHR '' '' # x) # split_on CHR '','' ?r"
    using x(2) split_on_append [of "CHR '',''" x] split_on_append [of "CHR '',''" "CHR '' '' # x"] by simp_all
  then show ?case using r clean_TrimSpace [OF x(1), of U] unfolding j by simp
qed simp

text \<open>
  A list that a command prints can be given back to a flag: the values joined with a comma and a space,
  as \<open>list -verbose\<close> prints capabilities, domains and tags, are read by \<open>find\<close> and \<open>list\<close> as these
  values.
\<close>

theorem csv_reads_printed_list: "\<forall>x\<in>set xs. clean x \<Longrightarrow> csv U (join_with '', '' xs) = xs"
proof (cases "xs = []")
  case False
  moreover assume clean: "\<forall>x\<in>set xs. clean x"
  ultimately have ne: "join_with '', '' xs \<noteq> []" by (cases "('', '', xs)" rule: join_with.cases) (auto simp: clean_def)
  have "filter (\<lambda>part. part \<noteq> []) xs = xs" using clean by (auto simp: clean_def filter_id_conv)
  then show ?thesis using split_joined [OF False clean, of U] ne by (simp add: csv_def splitCSV_def)
qed (simp add: csv_def splitCSV_def)

theorem csv_reads_printed_list_witness: "csv \<lparr>uLower = id, uTrim = id\<rparr> ''a, b-2'' = [''a'', ''b-2'']"
  using csv_reads_printed_list [of "[''a'', ''b-2'']" "\<lparr>uLower = id, uTrim = id\<rparr>"]
  by (simp add: clean_def is_ascii_def trim_def is_space_def)

text \<open>\<open>register\<close> splits its tags without trimming, so that a tag after a comma and a space is not found by its name.\<close>

definition spaced_daemon :: "unit rt \<Rightarrow> (blob, unit) daemon" where
  "spaced_daemon rt = snd (snd (cli_register id (daemon_client rt (\<lambda>_. []) 7) [] ''math, text'' [] [''ann''] (NewDaemon ''n'' blob_codec ())))"

theorem spaced_tag_not_found:
  "fst (cli_list U (daemon_client rt (\<lambda>_. []) 7) ''math'' False [] (spaced_daemon rt)) = [''  ann [math,  text]''] \<and>
   fst (cli_list U (daemon_client rt (\<lambda>_. []) 7) ''text'' False [] (spaced_daemon rt)) = [''No handles found'']"
proof -
  let ?m = "no_pb_manifest\<lparr>pmTags := [''math'', '' text'']\<rparr>"
  have split: "split_on CHR '','' ''math, text'' = [''math'', '' text'']" by simp
  have reg: "spaced_daemon rt = snd (Register rt (Some 7) ''ann'' (Some ?m) [] (NewDaemon ''n'' blob_codec ()))"
    unfolding spaced_daemon_def cli_register_def daemon_client_def split
    by (simp add: Let_def no_pb_manifest_def split: prod.split)
  have l: "rpc_ListHandles [''math''] (spaced_daemon rt) = [(''ann'', Some ?m)]" "rpc_ListHandles [''text''] (spaced_daemon rt) = []"
    unfolding reg by (simp_all add: rpc_ListHandles_def Register_def NewDaemon_def Let_def HasHandle_def gget_or_def
        matchesTagsProto_def no_pb_manifest_def NewResolver_def ListHandlesByTags_def)
  have tags: "list_tags U ''math'' [] = [''math'']" "list_tags U ''text'' [] = [''text'']"
    by (simp_all add: list_tags_def splitCSV_def TrimSpace_def is_ascii_def trim_def is_space_def)
  show ?thesis
    by (simp add: cli_list_def tags daemon_client_def Let_def l list_line_def no_pb_manifest_def)
qed

text \<open>The token in the file next to the socket opens the daemon that wrote it.\<close>

lemma cli_token_accepted: "TrimSpace U data = dAuthToken d \<Longrightarrow> checkAuth (Some (call_metadata U (Some data))) d = None"
  by (simp add: checkAuth_def call_metadata_def GetRequestMetadata_def TrimPrefix_def gget_or_def)

text \<open>
  \<open>fire\<close> prints the payload of the first message of its own session, if it arrives before the
  deadline and nothing but messages of other sessions arrives before it.
\<close>

definition foreign :: "string \<Rightarrow> fire_turn \<Rightarrow> bool" where
  "foreign sid t \<longleftrightarrow> \<not> ftExpired t \<and> (case ftRecv t of Some (InEnvelope env) \<Rightarrow> SessionId env \<noteq> sid | _ \<Rightarrow> False)"

lemma fire_prints_first:
  "fire_wait sid ts = FirePrinted p \<longleftrightarrow>
     (\<exists>t rest env. dropWhile (foreign sid) ts = t # rest \<and>
        \<not> ftExpired t \<and> ftRecv t = Some (InEnvelope env) \<and> SessionId env = sid \<and> Payload env = p)"
  by (induction ts) (auto simp: foreign_def split: option.splits incoming.splits)

text \<open>
  A login that is not yet in a team makes the first listed team active, and the daemon joins it.
\<close>

lemma login_activates_first_team:
  assumes "cli_login le now listTeams addr url file = Some (0, Some c)" and "scTeamID cfg = []"
    and "case file of None \<Rightarrow> True | Some c \<Rightarrow> IsExpired now c"
    and "listTeams (crAccess c) = Some ((i, n) # ts)"
  shows "resolveTeamID cfg (Some c) = i"
  using assms by (auto simp: cli_login_def Let_def new_credentials_def resolveTeamID_def split: option.splits sum.splits list.splits if_splits)

section \<open>A connection for every command\<close>

text \<open>
  Every command dials a connection of its own, and handles belong to connections. A connection that has
  just been made owns none, so the commands that act for a handle, \<open>open\<close>, \<open>send\<close> and \<open>resolve\<close>, are refused
  whatever the state of the daemon and leave it as it is.
\<close>

theorem commands_own_no_handle:
  assumes "\<And>h. gget (dHandleOwner d) h \<noteq> Some conn"
  shows "cli_open (daemon_client rt arrivals conn) (a # b # c # rest) d = ([], Exit 1, d) \<and>
    cli_send (daemon_client rt arrivals conn) (a # b # c # rest) d = ([], Exit 1, d) \<and>
    cli_resolve (daemon_client rt arrivals conn) (a # b # rest) d = ([], Exit 1, d)"
proof -
  have "\<exists>e. verifyOwnership (Some conn) h d = Some e" for h
    using assms [of h] by (auto simp: verifyOwnership_def split: option.split)
  then obtain e where v: "\<And>h. verifyOwnership (Some conn) h d = Some (e h)" by metis
  show ?thesis
    by (simp add: cli_open_def cli_send_def cli_resolve_def daemon_client_def Let_def OpenSession_def SendMessage_def
        ResolveSession_def check_session_def v)
qed

theorem commands_own_no_handle_witness:
  "cli_open (daemon_client sample_rt (\<lambda>_. []) 9) [''ann'', ''bob'', ''hi''] (spaced_daemon sample_rt) = ([], Exit 1, spaced_daemon sample_rt)"
proof -
  have "gget (dHandleOwner (spaced_daemon sample_rt)) h \<noteq> Some 9" for h
    by (simp add: spaced_daemon_def cli_register_def daemon_client_def Let_def Register_def NewDaemon_def)
  from commands_own_no_handle [OF this, of sample_rt "\<lambda>_. []" "''ann''" "''bob''" "''hi''" "[]"] show ?thesis by simp
qed

text \<open>\<open>register\<close> exits after it has registered, which closes its connection and releases the handle again.\<close>

lemma register_command_leaves_nothing:
  assumes "cli_register quote (daemon_client rt arrivals conn) desc tags version (h # rest) d = (ls, Exit 0, d')"
  shows "HasHandle h d' \<and> \<not> HasHandle h (disconnectConn conn d')"
proof -
  define m where "m = (if desc \<noteq> [] \<or> tags \<noteq> [] \<or> version \<noteq> []
    then Some (no_pb_manifest\<lparr>pmDescription := desc, pmVersion := version, pmTags := (if tags \<noteq> [] then split_on CHR '','' tags else [])\<rparr>)
    else None)"
  have r: "(\<not> HasHandle h d \<longrightarrow> d' = snd (Register rt (Some conn) h m [] d)) \<and> \<not> HasHandle h d"
    using assms fst_Register [of rt "Some conn" h m "[]" d] unfolding cli_register_def m_def [symmetric]
    by (cases "HasHandle h d") (simp_all add: daemon_client_def Let_def m_def [symmetric] case_prod_unfold)
  then have "\<not> HasHandle h d" and d': "d' = snd (Register rt (Some conn) h m [] d)" by blast+
  then have "gget (dHandles d') h = Some True" "h \<in> set (gkeys (gget_or [] (dConnHandles d') conn))"
    using gget_None_iff [of "gput h True _" h] by (simp_all add: Register_def Let_def gget_or_def split: option.split)
  then show ?thesis
    using disconnectConn_tables [of d' conn] by (simp add: HasHandle_def gget_or_def Let_def)
qed

end
