(* ===== verification/Fire.thy ===== *)
theory Fire
  imports Cli
begin

text \<open>
  A one-shot request from end to end: \<open>tailbus fire\<close> and \<open>tailbus attach -exec\<close> on one daemon, over the
  handlers of the agent server and the channels of their subscriptions.
\<close>

section \<open>Local routing to one subscriber\<close>

lemma recordRouteDone_live [simp]: "live d \<Longrightarrow> live (recordRouteDone rt env remote d)"
  by (simp add: recordRouteDone_def live_def Let_def record_span_ok)

lemma Route_local:
  assumes "live d" and "HasHandle (ToHandle env) d" and "gget_or [] (dSubs d) (ToHandle env) = [c]"
    and "gget (dChans d) c = Some ch" and "\<not> ch_closed ch" and "has_room ch" and "EType env \<noteq> ACK"
  shows "fst (Route rt env d) = None \<and> live (snd (Route rt env d)) \<and>
    gget (dChans (snd (Route rt env d))) = (gget (dChans d))(c \<mapsto> ch\<lparr>ch_buf := ch_buf ch @ [InEnvelope env]\<rparr>)"
proof -
  have ok: "fst (DeliverToLocal rt env d)"
    using assms(3,7) by (simp add: DeliverToLocal_def deliver_subs_def Let_def)
  have r: "Route rt env d = (None, recordRouteDone rt env False (snd (DeliverToLocal rt env d)))"
    using assms(2) ok by (simp add: Route_def case_prod_unfold)
  have "dChans (recordRouteDone rt env False e) = dChans e" for e :: "('a, 'b) daemon"
    by (simp add: recordRouteDone_def Let_def)
  moreover have "gget (dChans (snd (DeliverToLocal rt env d))) = (gget (dChans d))(c \<mapsto> ch\<lparr>ch_buf := ch_buf ch @ [InEnvelope env]\<rparr>)"
    using assms(3-7) by (simp add: DeliverToLocal_def deliver_subs_def Let_def send_chan_def try_send_def case_prod_unfold)
  ultimately show ?thesis
    using live_DeliverToLocal [OF assms(1)] by (simp add: r)
qed

lemma fold_spawn_live:
  "dChans (fold (\<lambda>m. spawn (g m)) ms d) = dChans d" "live d \<Longrightarrow> live (fold (\<lambda>m. spawn (g m)) ms d)"
  by (induction ms arbitrary: d) (simp_all add: live_def)

lemma maybeRouteMentions_live [simp]:
  "dChans (maybeRouteMentions f t ct p d) = dChans d" "live d \<Longrightarrow> live (maybeRouteMentions f t ct p d)"
  by (simp_all add: maybeRouteMentions_def fold_spawn_live)

lemma live_simps [simp]:
  "live (bump_stats f h d) = live d" "live (on_bus g d) = live d" "live (put_session x d) = live d"
  "live d \<Longrightarrow> live (record_span rt t m a md d)"
  by (simp_all add: live_def record_span_ok subs_wf_cong [of "bump_stats f h d"] trace_ok_cong [of "bump_stats f h d"])

lemma Route_open_session:
  "Get (dSessions d) (SessionId env) = Some x \<Longrightarrow> dSessions (snd (Route rt env d)) = dSessions d"
  by (rule Route_cases [where P = "\<lambda>_ d'. dSessions d' = dSessions d"])
    (simp_all add: DeliverToLocal_def open_remote_session_def Let_def)

text \<open>The envelope that opens a session.\<close>

definition open_envelope :: "'w rt \<Rightarrow> open_request \<Rightarrow> envelope" where
  "open_envelope rt req = zero_envelope\<lparr>MessageId := rtUuid rt 2, SessionId := rtUuid rt 0, FromHandle := oqFrom req,
     ToHandle := oqTo req, Payload := oqPayload req, ContentType := oqContentType req, SentAtUnix := unix (rtNow rt),
     EType := SESSION_OPEN, TraceId := (if oqTraceId req = [] then rtUuid rt 1 else oqTraceId req), Sequence := 1\<rparr>"

lemma OpenSession_local:
  assumes "live d" and "verifyOwnership conn (oqFrom req) d = None" and "HasHandle (oqTo req) d"
    and "gget_or [] (dSubs d) (oqTo req) = [c]"
    and "gget (dChans d) c = Some ch" and "\<not> ch_closed ch" and "has_room ch"
  obtains d' sess t where "OpenSession rt conn req d = (Inr (rtUuid rt 0, rtUuid rt 2, t), d')" "live d'"
    "gget (dChans d') = (gget (dChans d))(c \<mapsto> ch\<lparr>ch_buf := ch_buf ch @ [InEnvelope (open_envelope rt req)]\<rparr>)"
    "Get (dSessions d') (rtUuid rt 0) = Some sess" "sFrom sess = oqFrom req" "sTo sess = oqTo req" "sState sess = StateOpen"
    "sID sess = rtUuid rt 0"
    "dSubs d' = dSubs d" "dHandles d' = dHandles d" "dHandleOwner d' = dHandleOwner d"
proof -
  define t where "t = (if oqTraceId req = [] then rtUuid rt 1 else oqTraceId req)"
  let ?new = "(New (rtUuid rt 0) (rtNow rt) (oqFrom req) (oqTo req))\<lparr>sTrace := t\<rparr>"
  define sess where "sess = advanced (rtNow rt) ?new"
  have sess: "NextSequence (rtNow rt) ?new = (1, sess)" "sID sess = rtUuid rt 0" "sCreatedAt sess = rtNow rt"
    "sFrom sess = oqFrom req" "sTo sess = oqTo req" "sState sess = StateOpen"
    by (simp_all add: sess_def NextSequence_eq New_def advanced_def)
  let ?d = "record_span rt t (rtUuid rt 2) MESSAGE_CREATED [(''from'', oqFrom req), (''to'', oqTo req), (''type'', ''session_open'')] (put_session sess d)"
  let ?env = "open_envelope rt req"
  have r: "fst (Route rt ?env ?d) = None \<and> live (snd (Route rt ?env ?d)) \<and>
      gget (dChans (snd (Route rt ?env ?d))) = (gget (dChans ?d))(c \<mapsto> ch\<lparr>ch_buf := ch_buf ch @ [InEnvelope ?env]\<rparr>)"
    using assms by (intro Route_local) (simp_all add: open_envelope_def zero_envelope_def HasHandle_def)
  have s: "Get (dSessions ?d) (SessionId ?env) = Some sess"
    by (simp add: open_envelope_def sess zero_envelope_def)
  obtain e where e: "Route rt ?env ?d = (None, e)" using r by (cases "Route rt ?env ?d") simp
  note route = e [unfolded open_envelope_def t_def [symmetric]]
  define d' where "d' = maybeRouteMentions (oqFrom req) (oqTo req) (oqContentType req) (oqPayload req)
      (on_bus (EmitSessionOpened (rtNow rt) (rtUuid rt 0) (oqFrom req) (oqTo req))
        (bump_stats (msgsOut_update (\<lambda>n. n + 1)) (oqFrom req) e))"
  have "OpenSession rt conn req d = (Inr (rtUuid rt 0, rtUuid rt 2, t), d')"
    using assms(2) unfolding OpenSession_def t_def [symmetric] by (simp add: Let_def d'_def sess route)
  moreover have "dSessions d' = dSessions ?d" using Route_open_session [OF s, of rt] by (simp add: d'_def e)
  moreover have "dSubs e = dSubs d" "dHandles e = dHandles d" "dHandleOwner e = dHandleOwner d"
    using Route_frame [of rt ?env ?d] by (simp_all add: e)
  moreover have "Get (dSessions d') (rtUuid rt 0) = Some sess" using calculation(2) by (simp add: sess)
  moreover have "live d'" "gget (dChans d') = (gget (dChans d))(c \<mapsto> ch\<lparr>ch_buf := ch_buf ch @ [InEnvelope ?env]\<rparr>)"
    using r by (simp_all add: d'_def e)
  ultimately show ?thesis
    using sess that [of t d' sess] by (simp add: d'_def)
qed

lemma ResolveSession_local:
  assumes "live d" and chk: "check_session conn req d = Inr sess" and "HasHandle (other_end sess (sqFrom req)) d"
    and "gget_or [] (dSubs d) (other_end sess (sqFrom req)) = [c]"
    and "gget (dChans d) c = Some ch" and "\<not> ch_closed ch" and "has_room ch"
  obtains d' where "ResolveSession rt conn req d = (Inr (rtUuid rt 2), d')" "live d'"
    "gget (dChans d') = (gget (dChans d))(c \<mapsto> ch\<lparr>ch_buf := ch_buf ch @
       [InEnvelope (session_envelope rt req SESSION_RESOLVE (advanced (rtNow rt) sess) (sNextSeq sess))]\<rparr>)"
proof -
  let ?sess = "advanced (rtNow rt) sess"
  let ?env = "session_envelope rt req SESSION_RESOLVE ?sess (sNextSeq sess)" and ?d = "created_span rt req ''session_resolve'' ?sess d"
  have span: "live ?d" "dChans ?d = dChans d" "HasHandle h ?d = HasHandle h d" "dSubs ?d = dSubs d" for h
    using assms(1) by (simp_all add: created_span_def HasHandle_def)
  have to: "other_end ?sess (sqFrom req) = other_end sess (sqFrom req)" by (simp add: other_end_def)
  have r: "fst (Route rt ?env ?d) = None \<and> live (snd (Route rt ?env ?d)) \<and>
      gget (dChans (snd (Route rt ?env ?d))) = (gget (dChans ?d))(c \<mapsto> ch\<lparr>ch_buf := ch_buf ch @ [InEnvelope ?env]\<rparr>)"
    using assms(3-) span by (intro Route_local) (simp_all add: to)
  obtain e where e: "Route rt ?env ?d = (None, e)" using r by (cases "Route rt ?env ?d") simp
  have "sState ?sess = StateOpen" using chk by (simp add: check_session_ok)
  then obtain x where x: "Session.Resolve (rtNow rt) ?sess = Inr x" by (auto simp: Session.Resolve_def)
  show ?thesis
    by (rule that [of "snd (ResolveSession rt conn req d)"])
      (use r in \<open>simp_all add: ResolveSession_def chk commit_resolve_def NextSequence_eq Let_def e x span(2)\<close>)
qed

section \<open>A request and its answer\<close>

text \<open>
  The agent \<open>h\<close> listens on the channel \<open>c\<close>, on its connection \<open>conn\<close>: registered, with one open
  subscription and nothing waiting.
\<close>

definition listens :: "64 word \<Rightarrow> string \<Rightarrow> nat \<Rightarrow> ('r, 'w) daemon \<Rightarrow> bool" where
  "listens conn h c d \<longleftrightarrow> HasHandle h d \<and> gget (dHandleOwner d) h = Some conn \<and> gget_or [] (dSubs d) h = [c] \<and>
     (\<exists>ch. gget (dChans d) c = Some ch \<and> \<not> ch_closed ch \<and> ch_buf ch = [] \<and> ch_cap ch > 0)"

lemma fire_start_local:
  assumes "live d" and "listens conn h c d" and new: "\<not> HasHandle (fire_handle nanos) d" "gget_or [] (dSubs d) (fire_handle nanos) = []"
  obtains d' ch where
    "fire_start (daemon_client rt arrivals fconn) nanos h payload d = (Some (rtUuid rt 0), d')" "live d'"
    "gget (dChans d') (dNextChan d) = Some (make_chan (dNextChan d) 64)" "c \<noteq> dNextChan d"
    "gget (dChans d') c = Some ch" "ch_buf ch = [InEnvelope (open_envelope rt
       \<lparr>oqFrom = fire_handle nanos, oqTo = h, oqPayload = payload, oqContentType = ''application/json'', oqTraceId = []\<rparr>)]"
    "HasHandle (fire_handle nanos) d'" "gget_or [] (dSubs d') (fire_handle nanos) = [dNextChan d]"
    "verifyOwnership (Some conn) h d' = None"
    "\<exists>sess. Get (dSessions d') (rtUuid rt 0) = Some sess \<and> sFrom sess = fire_handle nanos \<and> sTo sess = h \<and> sState sess = StateOpen"
proof -
  let ?tmp = "fire_handle nanos" and ?c = "Some fconn"
  let ?req = "\<lparr>oqFrom = ?tmp, oqTo = h, oqPayload = payload, oqContentType = ''application/json'', oqTraceId = []\<rparr>"
  obtain ch where ch: "gget (dChans d) c = Some ch" "\<not> ch_closed ch" "ch_buf ch = []" "ch_cap ch > 0"
    using assms(2) by (auto simp: listens_def)
  have ne: "?tmp \<noteq> h" using assms(2) new by (auto simp: listens_def)
  have c: "c \<noteq> dNextChan d" using assms(1) ch(1) by (force simp: live_def subs_wf_def)
  let ?r = "snd (Register rt ?c ?tmp None [] d)" and ?s = "snd (Subscribe_open ?c ?tmp (snd (Register rt ?c ?tmp None [] d)))"
  have r: "fst (Register rt ?c ?tmp None [] d)" "gget (dHandleOwner ?r) = (gget (dHandleOwner d))(?tmp \<mapsto> fconn)"
    "HasHandle x ?r \<longleftrightarrow> x = ?tmp \<or> HasHandle x d" for x
    using new by (auto simp: Register_def Let_def HasHandle_def gget_or_def)
  have own: "verifyOwnership ?c ?tmp ?r = None" by (simp add: verifyOwnership_def r)
  have s: "dHandleOwner ?s = dHandleOwner ?r" "dHandles ?s = dHandles ?r"
    "gget (dChans ?s) = (gget (dChans d))(dNextChan d \<mapsto> make_chan (dNextChan d) 64)"
    "gget (dSubs ?s) = (gget (dSubs d))(?tmp \<mapsto> [dNextChan d])"
    using new(2) by (simp_all add: Subscribe_open_def own Let_def)
  have "live ?s"
    using assms(1) live_run_agent_op [of ?r rt "agent_op.OpSubscribe ?c ?tmp"] live_run_agent_op [of d rt "agent_op.OpRegister ?c ?tmp"] by simp
  then obtain d' sess t where o: "OpenSession rt ?c ?req ?s = (Inr (rtUuid rt 0, rtUuid rt 2, t), d')" "live d'"
    "gget (dChans d') = (gget (dChans ?s))(c \<mapsto> ch\<lparr>ch_buf := ch_buf ch @ [InEnvelope (open_envelope rt ?req)]\<rparr>)"
    "Get (dSessions d') (rtUuid rt 0) = Some sess" "sFrom sess = ?tmp" "sTo sess = h" "sState sess = StateOpen"
    "dSubs d' = dSubs ?s" "dHandles d' = dHandles ?s" "dHandleOwner d' = dHandleOwner ?s"
    using assms(2) ch c own r ne by (elim OpenSession_local [of ?s ?c ?req c ch rt])
      (simp_all add: s listens_def verifyOwnership_cong [OF s(1)] HasHandle_def gget_or_def has_room_def)
  have "fire_start (daemon_client rt arrivals fconn) nanos h payload d = (Some (rtUuid rt 0), d')"
    using r(1) o(1) by (simp add: fire_start_def daemon_client_def Let_def case_prod_unfold)
  then show ?thesis
    using that [of d' "ch\<lparr>ch_buf := [InEnvelope (open_envelope rt ?req)]\<rparr>"] o c s r ch assms(2) ne
    by (simp add: verifyOwnership_def listens_def HasHandle_def gget_or_def)
qed

text \<open>
  One exchange: \<open>fire\<close> starts, the agent takes the next message of its subscription \<open>c\<close> and runs one turn of
  exec mode on it, and \<open>fire\<close> takes the next message of its own subscription. Each process has a
  run-time environment and a connection of its own. The result is what \<open>fire\<close> prints.
\<close>

definition fire_exchange ::
  "'w rt \<Rightarrow> 'w rt \<Rightarrow> (string \<Rightarrow> transport_message list) \<Rightarrow> 64 word \<Rightarrow> 64 word \<Rightarrow> nat \<Rightarrow> (string \<Rightarrow> string) \<Rightarrow> int \<Rightarrow> string \<Rightarrow> string \<Rightarrow>
     ('r, 'w) daemon \<Rightarrow> fire_end" where
  "fire_exchange rt rt' arrivals fconn conn c work nanos h payload d =
     (case fire_start (daemon_client rt arrivals fconn) nanos h payload d of
        (None, d) \<Rightarrow> FireStreamError
      | (Some sid, d1) \<Rightarrow>
          (case Subscribe_next c d1 of
             (None, d2) \<Rightarrow> FireWaiting
           | (Some msg, d2) \<Rightarrow>
               (let d3 = exec_turn (daemon_client rt' arrivals conn) h work msg d2
                in case Subscribe_next (dNextChan d) d3 of
                     (None, _) \<Rightarrow> FireWaiting
                   | (Some reply, _) \<Rightarrow> fire_wait sid [\<lparr>ftExpired = False, ftRecv = Some reply, ftDeadline = False\<rparr>])))"


text \<open>The state after an agent in exec mode has started on a fresh daemon.\<close>

definition agent_daemon :: "(blob, unit) daemon" where
  "agent_daemon = snd (exec_start (daemon_client sample_rt (\<lambda>_. []) 1) ''calc'' None [] (NewDaemon ''n'' blob_codec ()))"

lemma agent_listens: "live agent_daemon" "listens 1 ''calc'' 0 agent_daemon" "gkeys (dHandles agent_daemon) = [''calc'']"
  "gkeys (dSubs agent_daemon) = [''calc'']"
proof -
  let ?n = "NewDaemon ''n'' blob_codec () :: (blob, unit) daemon"
  let ?r = "snd (Register sample_rt (Some 1) ''calc'' None [] ?n)"
  have new: "\<not> HasHandle ''calc'' ?n" by (simp add: NewDaemon_def HasHandle_def gget_or_def)
  have d: "agent_daemon = snd (Subscribe_open (Some 1) ''calc'' ?r)"
    by (simp add: agent_daemon_def exec_start_def buildRegisterRequest_def zero_cmd_def daemon_client_def Let_def
        fst_Register new case_prod_unfold)
  show "live agent_daemon"
    using live_New [of "''n''" blob_codec "()"] live_run_agent_op [of ?r sample_rt "agent_op.OpSubscribe (Some 1) ''calc''"]
      live_run_agent_op [of ?n sample_rt "agent_op.OpRegister (Some 1) ''calc''"]
    by (simp add: d)
  have "verifyOwnership (Some 1) ''calc'' ?r = None"
    using new by (simp add: verifyOwnership_def Register_def Let_def)
  then show "listens 1 ''calc'' 0 agent_daemon" "gkeys (dHandles agent_daemon) = [''calc'']" "gkeys (dSubs agent_daemon) = [''calc'']"
    using new unfolding d
    by (simp_all add: listens_def Subscribe_open_def Register_def NewDaemon_def HasHandle_def gget_or_def make_chan_def Let_def)
qed

lemma fire_handle_free: "\<not> HasHandle (fire_handle 5) agent_daemon" "gget_or [] (dSubs agent_daemon) (fire_handle 5) = []"
proof -
  have "fire_handle 5 \<noteq> ''calc''" by (simp add: fire_handle_def)
  then have "gget (dHandles agent_daemon) (fire_handle 5) = None" "gget (dSubs agent_daemon) (fire_handle 5) = None"
    using agent_listens(3,4) by (auto simp: gget_None_iff)
  then show "\<not> HasHandle (fire_handle 5) agent_daemon" "gget_or [] (dSubs agent_daemon) (fire_handle 5) = []"
    by (simp_all add: HasHandle_def gget_or_def)
qed


section \<open>A subscription that comes late\<close>

text \<open>
  Opening the stream does not wait for the handler, so the daemon may handle \<open>OpenSession\<close> before \<open>Subscribe\<close>,
  and a quick agent may answer in between: the other order of the same calls.
\<close>

definition late_exchange ::
  "'w rt \<Rightarrow> 'w rt \<Rightarrow> (string \<Rightarrow> transport_message list) \<Rightarrow> 64 word \<Rightarrow> 64 word \<Rightarrow> nat \<Rightarrow> (string \<Rightarrow> string) \<Rightarrow> int \<Rightarrow> string \<Rightarrow> string \<Rightarrow>
     ('r, 'w) daemon \<Rightarrow> (string \<times> ('r, 'w) daemon) option" where
  "late_exchange rt rt' arrivals fconn conn c work nanos h payload d =
     (let fire = daemon_client rt arrivals fconn; tmp = fire_handle nanos;
          d = snd (clRegister fire tmp None [] d)
      in case clOpenSession fire \<lparr>oqFrom = tmp, oqTo = h, oqPayload = payload, oqContentType = ''application/json'', oqTraceId = []\<rparr> d of
           (Inl e, d) \<Rightarrow> None
         | (Inr (sid, _), d) \<Rightarrow>
             (case Subscribe_next c d of
                (None, d) \<Rightarrow> None
              | (Some msg, d) \<Rightarrow>
                  (let d = exec_turn (daemon_client rt' arrivals conn) h work msg d
                   in Some (sid, snd (clSubscribe fire tmp d)))))"

lemma ResolveSession_unheard:
  assumes chk: "check_session conn req d = Inr sess" and "HasHandle (other_end sess (sqFrom req)) d"
    and "gget_or [] (dSubs d) (other_end sess (sqFrom req)) = []"
  shows "fst (ResolveSession rt conn req d) = Inl (RouteFailed ''route resolve'' (LocalNoSubscribers (other_end sess (sqFrom req))))"
    and "dChans (snd (ResolveSession rt conn req d)) = dChans d" and "dSessions (snd (ResolveSession rt conn req d)) = dSessions d"
    and "dSubs (snd (ResolveSession rt conn req d)) = dSubs d" and "dHandleOwner (snd (ResolveSession rt conn req d)) = dHandleOwner d"
proof -
  let ?sess = "advanced (rtNow rt) sess"
  let ?env = "session_envelope rt req SESSION_RESOLVE ?sess (sNextSeq sess)" and ?d = "created_span rt req ''session_resolve'' ?sess d"
  have to: "other_end ?sess (sqFrom req) = other_end sess (sqFrom req)" by (simp add: other_end_def)
  have span: "dSubs ?d = dSubs d" "HasHandle h ?d = HasHandle h d" "dChans ?d = dChans d" "dNextChan ?d = dNextChan d" for h
    by (simp_all add: created_span_def HasHandle_def)
  have "Route rt ?env ?d = (Some (LocalNoSubscribers (other_end sess (sqFrom req))), ?d)"
    using assms(2,3) by (simp add: Route_def span to DeliverToLocal_def open_remote_session_def deliver_subs_def)
  then have "ResolveSession rt conn req d = (Inl (RouteFailed ''route resolve'' (LocalNoSubscribers (other_end sess (sqFrom req)))), ?d)"
    by (simp add: ResolveSession_def chk commit_resolve_def NextSequence_eq Let_def)
  then show "fst (ResolveSession rt conn req d) = Inl (RouteFailed ''route resolve'' (LocalNoSubscribers (other_end sess (sqFrom req))))"
    "dChans (snd (ResolveSession rt conn req d)) = dChans d" "dSessions (snd (ResolveSession rt conn req d)) = dSessions d"
    "dSubs (snd (ResolveSession rt conn req d)) = dSubs d" "dHandleOwner (snd (ResolveSession rt conn req d)) = dHandleOwner d"
    by (simp_all add: span)
qed

text \<open>
  In this order the answer is lost: the agent's attempt to resolve the session is refused, its result
  is thrown away and nothing retries it; the subscription that comes after is empty and the session
  stays open. \<open>fire\<close> then waits until its deadline.
\<close>

theorem late_subscription_loses_answer:
  assumes "live d" and "listens conn h c d"
    and new: "\<not> HasHandle (fire_handle nanos) d" "gget_or [] (dSubs d) (fire_handle nanos) = []"
  shows "\<exists>d' own sess. late_exchange rt rt' arrivals fconn conn c work nanos h payload d = Some (rtUuid rt 0, d') \<and>
    gget_or [] (dSubs d') (fire_handle nanos) = [own] \<and> chan_of d' own = [] \<and>
    Get (dSessions d') (rtUuid rt 0) = Some sess \<and> sState sess = StateOpen"
proof -
  let ?tmp = "fire_handle nanos" and ?c = "Some fconn"
  let ?req = "\<lparr>oqFrom = ?tmp, oqTo = h, oqPayload = payload, oqContentType = ''application/json'', oqTraceId = []\<rparr>"
  let ?r = "snd (Register rt ?c ?tmp None [] d)"
  obtain ch where ch: "gget (dChans d) c = Some ch" "\<not> ch_closed ch" "ch_buf ch = []" "ch_cap ch > 0"
    using assms(2) by (auto simp: listens_def)
  have ne: "?tmp \<noteq> h" using assms(2) new by (auto simp: listens_def)
  have r: "gget (dHandleOwner ?r) = (gget (dHandleOwner d))(?tmp \<mapsto> fconn)" "HasHandle x ?r \<longleftrightarrow> x = ?tmp \<or> HasHandle x d" for x
    using new by (auto simp: Register_def Let_def HasHandle_def gget_or_def)
  have pre: "live ?r" "verifyOwnership ?c (oqFrom ?req) ?r = None" "HasHandle (oqTo ?req) ?r" "gget_or [] (dSubs ?r) (oqTo ?req) = [c]"
    "gget (dChans ?r) c = Some ch" "\<not> ch_closed ch" "has_room ch"
    using assms(1,2) ch live_run_agent_op [of d rt "agent_op.OpRegister ?c ?tmp"]
    by (simp_all add: verifyOwnership_def r listens_def has_room_def)
  let ?env = "open_envelope rt ?req"
  obtain d1 sess t where o: "OpenSession rt ?c ?req ?r = (Inr (rtUuid rt 0, rtUuid rt 2, t), d1)"
    "gget (dChans d1) = (gget (dChans ?r))(c \<mapsto> ch\<lparr>ch_buf := ch_buf ch @ [InEnvelope ?env]\<rparr>)"
    "Get (dSessions d1) (rtUuid rt 0) = Some sess" "sFrom sess = oqFrom ?req" "sTo sess = oqTo ?req" "sState sess = StateOpen"
    "dSubs d1 = dSubs ?r" "dHandles d1 = dHandles ?r" "dHandleOwner d1 = dHandleOwner ?r"
    by (rule OpenSession_local [OF pre, of rt])
  define d2 where "d2 = d1\<lparr>dChans := gput c (ch\<lparr>ch_buf := []\<rparr>) (dChans d1)\<rparr>"
  have n: "Subscribe_next c d1 = (Some (InEnvelope ?env), d2)"
    by (simp add: Subscribe_next_def o(2) d2_def ch(3))
  have env: "SessionId ?env = rtUuid rt 0" "EType ?env = SESSION_OPEN" by (simp_all add: open_envelope_def zero_envelope_def)
  let ?sreq = "exec_request h work ?env"
  have to: "other_end sess (sqFrom ?sreq) = ?tmp" by (simp add: exec_request_def other_end_def o)
  have chk: "check_session (Some conn) ?sreq d2 = Inr sess"
    using o assms(2) ne by (simp add: check_session_ok exec_request_def env d2_def verifyOwnership_def r listens_def)
  have "HasHandle (other_end sess (sqFrom ?sreq)) d2" "gget_or [] (dSubs d2) (other_end sess (sqFrom ?sreq)) = []"
    using r(2) [of ?tmp] new(2) unfolding to by (simp_all add: d2_def HasHandle_def o)
  note lost = ResolveSession_unheard [OF chk this, of rt']
  let ?d3 = "snd (ResolveSession rt' (Some conn) ?sreq d2)"
  have d2: "dSubs d2 = dSubs d" "gget (dHandleOwner d2) ?tmp = Some fconn" by (simp_all add: d2_def o r)
  then have "gget_or [] (dSubs ?d3) ?tmp = []" "verifyOwnership ?c ?tmp ?d3 = None"
    using new(2) by (simp_all add: verifyOwnership_def lost)
  then obtain own where sub: "gget_or [] (dSubs (snd (Subscribe_open ?c ?tmp ?d3))) ?tmp = [own]"
    "chan_of (snd (Subscribe_open ?c ?tmp ?d3)) own = []" "dSessions (snd (Subscribe_open ?c ?tmp ?d3)) = dSessions ?d3"
    by (simp add: Subscribe_open_def Let_def chan_of_def make_chan_def gget_or_def)
  have "late_exchange rt rt' arrivals fconn conn c work nanos h payload d = Some (rtUuid rt 0, snd (Subscribe_open ?c ?tmp ?d3))"
    using o(1) n by (simp add: late_exchange_def daemon_client_def Let_def case_prod_unfold exec_turn_def env)
  then show ?thesis using sub o(3,6) lost(3) by (simp add: d2_def)
qed

theorem late_subscription_loses_answer_witness:
  "\<exists>d' own sess. late_exchange sample_rt sample_rt (\<lambda>_. []) 2 1 0 id 5 ''calc'' ''x'' agent_daemon = Some (rtUuid sample_rt 0, d') \<and>
    gget_or [] (dSubs d') (fire_handle 5) = [own] \<and> chan_of d' own = [] \<and>
    Get (dSessions d') (rtUuid sample_rt 0) = Some sess \<and> sState sess = StateOpen"
  by (rule late_subscription_loses_answer [OF agent_listens(1,2) fire_handle_free])

end
