(* ===== verification/Mcp_Gateway.thy ===== *)
theory Mcp_Gateway
  imports Node_Status
begin

text \<open>
  The MCP gateway (\<open>internal/mcp/gateway.go\<close>): the handles of the mesh as tools of a language model.
  A tool call opens a session from the gateway's own handle and waits for the answer, which another
  goroutine receives and hands to the waiter of its session. The two run concurrently: their locked
  sections are separate steps here. JSON is a parameter.
\<close>

section \<open>Waiting for answers\<close>

definition mcpGatewayHandle :: string where
  "mcpGatewayHandle = ''_mcp_gateway''"

record mcp_gateway =
  mgWaiters :: "(string, envelope chan) gomap"
  mgBuffered :: "(string, envelope) gomap"
  mgPanicked :: bool

definition NewGateway :: mcp_gateway where
  "NewGateway = \<lparr>mgWaiters = [], mgBuffered = [], mgPanicked = False\<rparr>"

definition gateway_manifest :: pb_manifest where
  "gateway_manifest = no_pb_manifest\<lparr>pmDescription := ''MCP Gateway (internal)'', pmTags := [''internal'', ''mcp'']\<rparr>"

text \<open>\<open>Start\<close> registers the handle and subscribes to it; the answer is the channel of the subscription.\<close>

definition gateway_Start :: "'w rt \<Rightarrow> ('r, 'w) daemon \<Rightarrow> nat result option \<times> ('r, 'w) daemon" where
  "gateway_Start rt d =
     (case Register rt None mcpGatewayHandle (Some gateway_manifest) [] d of
        (False, d) \<Rightarrow> (None, d)
      | (True, d) \<Rightarrow> (case Subscribe_open None mcpGatewayHandle d of (c, d) \<Rightarrow> (Some c, d)))"

text \<open>
  One message of \<open>subscribeLoop\<close>. A room event has no envelope: reading its session dereferences a nil
  pointer.
\<close>

definition subscribeLoop_turn :: "incoming \<Rightarrow> mcp_gateway \<Rightarrow> mcp_gateway" where
  "subscribeLoop_turn msg g =
     (case msg of
        InRoomEvent ev \<Rightarrow> g\<lparr>mgPanicked := True\<rparr>
      | InEnvelope env \<Rightarrow>
          (case gget (mgWaiters g) (SessionId env) of
             Some ch \<Rightarrow> g\<lparr>mgWaiters := gput (SessionId env) (try_send env ch) (mgWaiters g)\<rparr>
           | None \<Rightarrow> g\<lparr>mgBuffered := gput (SessionId env) env (mgBuffered g)\<rparr>))"

text \<open>\<open>callAgent\<close>: open the session, register the waiter, wait, clean up.\<close>

definition callAgent_open ::
  "'w rt \<Rightarrow> string \<Rightarrow> bytes \<Rightarrow> ('r, 'w) daemon \<Rightarrow> (string \<times> string \<times> string) result \<times> ('r, 'w) daemon" where
  "callAgent_open rt target payload d =
     OpenSession rt None \<lparr>oqFrom = mcpGatewayHandle, oqTo = target, oqPayload = payload, oqContentType = ''application/json'', oqTraceId = []\<rparr> d"

definition register_waiter :: "string \<Rightarrow> mcp_gateway \<Rightarrow> mcp_gateway" where
  "register_waiter sid g =
     (let ch = make_chan 0 1
      in case gget (mgBuffered g) sid of
           None \<Rightarrow> g\<lparr>mgWaiters := gput sid ch (mgWaiters g)\<rparr>
         | Some env \<Rightarrow> g\<lparr>mgWaiters := gput sid (try_send env ch) (mgWaiters g), mgBuffered := gdel sid (mgBuffered g)\<rparr>)"

definition remove_waiter :: "string \<Rightarrow> mcp_gateway \<Rightarrow> mcp_gateway" where
  "remove_waiter sid g = g\<lparr>mgWaiters := gdel sid (mgWaiters g), mgBuffered := gdel sid (mgBuffered g)\<rparr>"

text \<open>What the waiter's channel holds.\<close>

definition answer_of :: "string \<Rightarrow> mcp_gateway \<Rightarrow> envelope list" where
  "answer_of sid g = (case gget (mgWaiters g) sid of None \<Rightarrow> [] | Some ch \<Rightarrow> ch_buf ch)"

text \<open>
  The end of the call: \<open>None\<close> while it has to wait; a message is answered and its session resolved. When
  an answer is there and the context is done, \<open>select\<close> may take either; here it takes the answer.
\<close>

definition callAgent_finish ::
  "'w rt \<Rightarrow> bool \<Rightarrow> string \<Rightarrow> mcp_gateway \<Rightarrow> ('r, 'w) daemon \<Rightarrow> ((unit + bytes) \<times> mcp_gateway \<times> ('r, 'w) daemon) option" where
  "callAgent_finish rt ctxDone sid g d =
     (case answer_of sid g of
        [] \<Rightarrow> if ctxDone then Some (Inl (), remove_waiter sid g, d) else None
      | env # _ \<Rightarrow>
          (let d = (if EType env = ENVELOPE_MESSAGE
                    then snd (ResolveSession rt None \<lparr>sqSession = sid, sqFrom = mcpGatewayHandle, sqPayload = [], sqContentType = []\<rparr> d)
                    else d)
           in Some (Inr (Payload env), remove_waiter sid g, d)))"

section \<open>Tools\<close>

record 'j tool =
  tlName :: string
  tlDescription :: string
  tlSchema :: "'j option"

text \<open>\<open>parse\<close> decodes a schema; \<open>dflt\<close> is the schema of a message tool. A schema that does not parse leaves the field out.\<close>

definition command_tool :: "(string \<Rightarrow> 'j option) \<Rightarrow> 'j \<Rightarrow> string \<Rightarrow> pb_command_spec \<Rightarrow> 'j tool" where
  "command_tool parse dflt h cmd = \<lparr>tlName = h @ ''.'' @ pcName cmd, tlDescription = ''['' @ h @ ''] '' @ pcDescription cmd,
     tlSchema = (if pcParametersSchema cmd \<noteq> [] then parse (pcParametersSchema cmd) else Some dflt)\<rparr>"

definition entry_tools :: "(string \<Rightarrow> 'j option) \<Rightarrow> 'j \<Rightarrow> string \<times> pb_manifest option \<Rightarrow> 'j tool list" where
  "entry_tools parse dflt = (\<lambda>(h, m).
     let cmds = (case m of None \<Rightarrow> [] | Some m \<Rightarrow> pmCommands m)
     in if cmds \<noteq> [] then map (command_tool parse dflt h) cmds
        else [\<lparr>tlName = h, tlDescription = (case m of
                  None \<Rightarrow> ''Send a message to '' @ h
                | Some m \<Rightarrow> if pmDescription m \<noteq> [] then ''['' @ h @ ''] '' @ pmDescription m else ''Send a message to '' @ h),
                tlSchema = Some dflt\<rparr>])"

definition handleToolsList :: "(string \<Rightarrow> 'j option) \<Rightarrow> 'j \<Rightarrow> ('r, 'w) daemon \<Rightarrow> 'j tool list" where
  "handleToolsList parse dflt d =
     concat (map (entry_tools parse dflt) (filter (\<lambda>(h, m). h \<noteq> mcpGatewayHandle) (rpc_ListHandles [] d)))"

text \<open>The loop of \<open>parseToolName\<close>, from index \<open>i - 1\<close> down.\<close>

fun split_at_dot :: "string \<Rightarrow> nat \<Rightarrow> string \<times> string" where
  "split_at_dot name 0 = (name, [])"
| "split_at_dot name (Suc i) = (if name ! i = CHR ''.'' then (take i name, drop (Suc i) name) else split_at_dot name i)"

definition parseToolName :: "string \<Rightarrow> string \<times> string" where
  "parseToolName name = split_at_dot name (length name)"

text \<open>\<open>marshalCall\<close> and \<open>marshalArgs\<close> are the JSON texts of a command invocation and of the arguments.\<close>

definition buildPayload ::
  "(string \<Rightarrow> (string, json) gomap \<Rightarrow> bytes) \<Rightarrow> ((string, json) gomap \<Rightarrow> bytes) \<Rightarrow> string \<Rightarrow> (string, json) gomap \<Rightarrow> bytes" where
  "buildPayload marshalCall marshalArgs command args =
     (if command \<noteq> [] then marshalCall command args
      else case gget args ''message'' of Some (JString s) \<Rightarrow> s | _ \<Rightarrow> marshalArgs args)"

text \<open>What a request asks for: an immediate answer, an error, or a call of an agent with a payload.\<close>

datatype 'j mcp_action =
    McpInitialize
  | McpNothing
  | McpTools "'j tool list"
  | McpPong
  | McpCall string bytes
  | McpError int string

definition handleToolsCall ::
  "(string \<Rightarrow> (string, json) gomap \<Rightarrow> bytes) \<Rightarrow> ((string, json) gomap \<Rightarrow> bytes) \<Rightarrow> (string \<times> (string, json) gomap option) option \<Rightarrow> 'j mcp_action" where
  "handleToolsCall marshalCall marshalArgs params =
     (case params of
        None \<Rightarrow> McpError (- 32602) ''Invalid params''
      | Some (name, None) \<Rightarrow> McpError (- 32602) ''Invalid arguments''
      | Some (name, Some args) \<Rightarrow>
          (case parseToolName name of (target, command) \<Rightarrow> McpCall target (buildPayload marshalCall marshalArgs command args)))"

definition dispatch ::
  "(string \<Rightarrow> 'j option) \<Rightarrow> 'j \<Rightarrow> (string \<Rightarrow> (string, json) gomap \<Rightarrow> bytes) \<Rightarrow> ((string, json) gomap \<Rightarrow> bytes) \<Rightarrow>
     string \<Rightarrow> (string \<times> (string, json) gomap option) option \<Rightarrow> ('r, 'w) daemon \<Rightarrow> 'j mcp_action" where
  "dispatch parse dflt marshalCall marshalArgs meth params d =
     (if meth = ''initialize'' then McpInitialize
      else if meth = ''notifications/initialized'' then McpNothing
      else if meth = ''tools/list'' then McpTools (handleToolsList parse dflt d)
      else if meth = ''tools/call'' then handleToolsCall marshalCall marshalArgs params
      else if meth = ''ping'' then McpPong
      else McpError (- 32601) (''Method not found: '' @ meth))"

section \<open>A call gets the answer to its session\<close>

text \<open>The locked sections of the goroutines, in the order in which they happen to run.\<close>

datatype gateway_step = Arrives envelope | Waits string | Leaves string

fun gateway_run :: "gateway_step \<Rightarrow> mcp_gateway \<Rightarrow> mcp_gateway" where
  "gateway_run (Arrives env) g = subscribeLoop_turn (InEnvelope env) g"
| "gateway_run (Waits sid) g = register_waiter sid g"
| "gateway_run (Leaves sid) g = remove_waiter sid g"

definition arrivals :: "string \<Rightarrow> gateway_step list \<Rightarrow> envelope list" where
  "arrivals sid = List.map_filter (\<lambda>x. case x of Arrives env \<Rightarrow> if SessionId env = sid then Some env else None | _ \<Rightarrow> None)"

fun of_call :: "string \<Rightarrow> gateway_step \<Rightarrow> bool" where
  "of_call sid (Arrives env) = False"
| "of_call sid (Waits s) = (s = sid)"
| "of_call sid (Leaves s) = (s = sid)"

lemma arrivals_Cons: "arrivals sid (x # xs) = (case x of Arrives env \<Rightarrow> if SessionId env = sid then [env] else [] | _ \<Rightarrow> []) @ arrivals sid xs"
  by (simp add: arrivals_def List.map_filter_simps split: gateway_step.split)

lemma before_waiting:
  assumes "list_all (\<lambda>x. \<not> of_call sid x) xs" and "gget (mgWaiters g) sid = None"
  shows "gget (mgWaiters (fold gateway_run xs g)) sid = None \<and>
    gget (mgBuffered (fold gateway_run xs g)) sid = (if arrivals sid xs = [] then gget (mgBuffered g) sid else Some (last (arrivals sid xs)))"
  using assms
proof (induction xs arbitrary: g)
  case (Cons x xs)
  have step: "gget (mgWaiters (gateway_run x g)) sid = None" "gget (mgBuffered (gateway_run x g)) sid =
      (case x of Arrives env \<Rightarrow> if SessionId env = sid then Some env else gget (mgBuffered g) sid | _ \<Rightarrow> gget (mgBuffered g) sid)"
    using Cons.prems by (cases x; auto simp: subscribeLoop_turn_def register_waiter_def remove_waiter_def Let_def split: option.splits)+
  have "list_all (\<lambda>x. \<not> of_call sid x) xs" using Cons.prems(1) by simp
  from Cons.IH [OF this step(1)] show ?case by (simp add: step(2) arrivals_Cons split: gateway_step.split)
qed (simp add: arrivals_def List.map_filter_simps)

lemma while_waiting:
  assumes "list_all (\<lambda>x. \<not> of_call sid x) xs" and "gget (mgWaiters g) sid = Some ch" and "ch_cap ch = 1"
  shows "answer_of sid (fold gateway_run xs g) = (if ch_buf ch = [] then take 1 (arrivals sid xs) else ch_buf ch)"
  using assms
proof (induction xs arbitrary: g ch)
  case (Cons x xs)
  let ?ch = "case x of Arrives env \<Rightarrow> if SessionId env = sid then try_send env ch else ch | _ \<Rightarrow> ch"
  have step: "gget (mgWaiters (gateway_run x g)) sid = Some ?ch"
    using Cons.prems by (cases x) (auto simp: subscribeLoop_turn_def register_waiter_def remove_waiter_def Let_def split: option.splits)
  have cap: "ch_cap ?ch = 1" using Cons.prems(3) by (simp split: gateway_step.split)
  have "list_all (\<lambda>x. \<not> of_call sid x) xs" using Cons.prems(1) by simp
  from Cons.IH [OF this step cap] show ?case
    using Cons.prems(3) by (auto simp: arrivals_Cons try_send_def has_room_def split: gateway_step.splits)
qed (simp add: answer_of_def arrivals_def List.map_filter_simps)

text \<open>
  No answer is lost and none goes astray. However the goroutines of the gateway interleave, with
  whatever other calls, the channel of a waiting call holds a message exactly when one of its session
  has arrived since the session was opened, before or after the call began to wait: the last that came
  before, or else the first that came since, and never a message of another session.
\<close>

theorem call_gets_its_answer:
  assumes "list_all (\<lambda>x. \<not> of_call sid x) before" and "list_all (\<lambda>x. \<not> of_call sid x) since"
    and "gget (mgWaiters g) sid = None" and "gget (mgBuffered g) sid = None"
  shows "answer_of sid (fold gateway_run (before @ Waits sid # since) g) =
    (if arrivals sid before = [] then take 1 (arrivals sid since) else [last (arrivals sid before)])"
proof -
  let ?g = "fold gateway_run before g"
  have b: "gget (mgBuffered ?g) sid = (if arrivals sid before = [] then None else Some (last (arrivals sid before)))"
    using before_waiting [OF assms(1,3)] assms(4) by simp
  define ch :: "envelope chan" where "ch = (if arrivals sid before = [] then make_chan 0 1 else try_send (last (arrivals sid before)) (make_chan 0 1))"
  have "gget (mgWaiters (register_waiter sid ?g)) sid = Some ch" by (simp add: register_waiter_def b ch_def Let_def)
  moreover have "ch_cap ch = 1" "ch_buf ch = (if arrivals sid before = [] then [] else [last (arrivals sid before)])"
    by (simp_all add: ch_def make_chan_def try_send_def has_room_def)
  ultimately show ?thesis using while_waiting [OF assms(2)] by simp
qed

text \<open>Two calls at once: an early answer to the second, then one to each and one more.\<close>

definition gw_msg :: "string \<Rightarrow> string \<Rightarrow> envelope" where
  "gw_msg sid payload = zero_envelope\<lparr>SessionId := sid, Payload := payload, EType := ENVELOPE_MESSAGE\<rparr>"

theorem call_gets_its_answer_witness:
  "map Payload (answer_of ''s2'' (fold gateway_run ([Waits ''s1'', Arrives (gw_msg ''s2'' ''early'')] @ Waits ''s2'' # [Arrives (gw_msg ''s1'' ''one''), Arrives (gw_msg ''s2'' ''late'')]) NewGateway)) = [''early'']"
proof -
  have "SessionId (gw_msg a b) = a" "Payload (gw_msg a b) = b" for a b by (simp_all add: gw_msg_def)
  then show ?thesis
    using call_gets_its_answer [of "''s2''" "[Waits ''s1'', Arrives (gw_msg ''s2'' ''early'')]" "[Arrives (gw_msg ''s1'' ''one''), Arrives (gw_msg ''s2'' ''late'')]" NewGateway]
    by (simp add: NewGateway_def arrivals_Cons arrivals_def List.map_filter_simps)
qed

text \<open>
  Two weaknesses of the receiving goroutine. A room event, which any agent can direct at the gateway's
  handle by making it a member of a room, ends the process. And a message of a session nobody waits for
  stays buffered: only a call of the same session would remove it.
\<close>

lemma room_event_panics: "mgPanicked (subscribeLoop_turn (InRoomEvent ev) g)"
  by (simp add: subscribeLoop_turn_def)

lemma unclaimed_message_stays:
  assumes "SessionId env = sid" and "gget (mgWaiters g) sid = None" and "list_all (\<lambda>x. \<not> of_call sid x) xs"
  shows "gget (mgBuffered (fold gateway_run (Arrives env # xs) g)) sid \<noteq> None"
proof -
  let ?g = "subscribeLoop_turn (InEnvelope env) g"
  have "gget (mgWaiters ?g) sid = None" "gget (mgBuffered ?g) sid = Some env" using assms(1,2) by (simp_all add: subscribeLoop_turn_def)
  then show ?thesis using before_waiting [OF assms(3)] by simp
qed

section \<open>Tool names\<close>

lemma split_at_dot_none: "i \<le> length name \<Longrightarrow> CHR ''.'' \<notin> set (take i name) \<Longrightarrow> split_at_dot name i = (name, [])"
proof (induction i)
  case (Suc i)
  have "name ! i \<in> set (take (Suc i) name)" using Suc.prems(1) by (simp add: take_Suc_conv_app_nth)
  then have "name ! i \<noteq> CHR ''.''" using Suc.prems(2) by auto
  moreover have "CHR ''.'' \<notin> set (take i name)" using Suc.prems by (auto simp: take_Suc_conv_app_nth)
  ultimately show ?case using Suc by simp
qed simp

lemma split_at_dot_last: "i \<le> length b \<Longrightarrow> CHR ''.'' \<notin> set b \<Longrightarrow> split_at_dot (a @ CHR ''.'' # b) (Suc (length a) + i) = (a, b)"
proof (induction i)
  case (Suc i)
  have "(a @ CHR ''.'' # b) ! (Suc (length a) + i) = b ! i" by (simp add: nth_append)
  moreover have "b ! i \<noteq> CHR ''.''" using Suc.prems by (metis Suc_le_lessD nth_mem)
  ultimately show ?case using Suc by simp
qed simp

lemma parseToolName:
  "CHR ''.'' \<notin> set b \<Longrightarrow> parseToolName (a @ ''.'' @ b) = (a, b)" "CHR ''.'' \<notin> set a \<Longrightarrow> parseToolName a = (a, [])"
  using split_at_dot_last [of "length b" b a] split_at_dot_none [of "length a" a] by (simp_all add: parseToolName_def)

text \<open>
  Listed tools can be called: the name of every listed tool, given back in a call, is taken apart into
  the handle that offers it and either nothing or the name of one of its commands, provided handles and
  command names contain no dot; and the gateway never lists itself.
\<close>

theorem listed_tools_parse_back:
  assumes "t \<in> set (handleToolsList parse dflt d)"
    and "\<And>h m c. (h, m) \<in> set (rpc_ListHandles [] d) \<Longrightarrow> c \<in> set (case m of None \<Rightarrow> [] | Some m \<Rightarrow> pmCommands m) \<Longrightarrow> CHR ''.'' \<notin> set (pcName c)"
    and "\<And>h m. (h, m) \<in> set (rpc_ListHandles [] d) \<Longrightarrow> CHR ''.'' \<notin> set h"
  shows "\<exists>h m cmd. (h, m) \<in> set (rpc_ListHandles [] d) \<and> h \<noteq> mcpGatewayHandle \<and> parseToolName (tlName t) = (h, cmd) \<and>
    (cmd = [] \<or> cmd \<in> pcName ` set (case m of None \<Rightarrow> [] | Some m \<Rightarrow> pmCommands m))"
proof -
  obtain h m where e: "(h, m) \<in> set (rpc_ListHandles [] d)" "h \<noteq> mcpGatewayHandle" and t: "t \<in> set (entry_tools parse dflt (h, m))"
    using assms(1) by (auto simp: handleToolsList_def)
  let ?cmds = "case m of None \<Rightarrow> [] | Some m \<Rightarrow> pmCommands m"
  show ?thesis
  proof (cases "?cmds = []")
    case True
    then have "tlName t = h" using t by (simp add: entry_tools_def Let_def)
    then show ?thesis using e parseToolName(2) [OF assms(3) [OF e(1)]] by auto
  next
    case False
    then obtain c where c: "c \<in> set ?cmds" "tlName t = h @ ''.'' @ pcName c"
      using t by (auto simp: entry_tools_def command_tool_def Let_def)
    then have "parseToolName (tlName t) = (h, pcName c)" using parseToolName(1) [OF assms(2) [OF e(1) c(1)], of h] by simp
    then show ?thesis using e c(1) by blast
  qed
qed

theorem listed_tools_parse_back_witness:
  "\<exists>h cmd. parseToolName (tlName (hd (handleToolsList (\<lambda>s. Some s) [] (directory_daemon [''t''] [])))) = (h, cmd) \<and> h \<noteq> mcpGatewayHandle"
proof -
  let ?d = "directory_daemon [''t''] []"
  have entries: "set (rpc_ListHandles [] ?d) = {(''bob'', Some (tagged [''t''])), (''alice'', Some (tagged [''t'']))}"
    by (simp add: rpc_ListHandles_def directory_daemon_def bob_daemon_def matchesTagsProto_def ListHandlesByTags_def matchesTags_def
        containsAll_def remote_peer_def tagged_def Let_def)
  have none: "pmCommands (tagged ts) = []" for ts by (simp add: tagged_def handleManifestToProto_def no_manifest_def)
  have "handleToolsList (\<lambda>s. Some s) [] ?d \<noteq> []"
    by (simp add: handleToolsList_def rpc_ListHandles_def directory_daemon_def bob_daemon_def matchesTagsProto_def entry_tools_def none mcpGatewayHandle_def Let_def)
  then have "hd (handleToolsList (\<lambda>s. Some s) [] ?d) \<in> set (handleToolsList (\<lambda>s. Some s) [] ?d)" by simp
  from listed_tools_parse_back [OF this] show ?thesis by (fastforce simp: entries none)
qed

end
