(* ===== verification/Mcp_Http.thy ===== *)
theory Mcp_Http
  imports Fire Mcp_Gateway
begin

text \<open>
  The HTTP side of the MCP gateway (\<open>internal/mcp/gateway.go\<close>): JSON-RPC over POST, the event stream, and the two REST
  endpoints of its web page. A request that calls an agent is begun by one step and ended by another, with the
  goroutines of the gateway running in between. Decoded bodies are arguments, \<open>None\<close> when decoding fails;
  error texts of the daemon's calls are printed by \<open>show\<close>.
\<close>

section \<open>JSON-RPC\<close>

text \<open>The identifier is any JSON value; \<open>None\<close> is null, also when the field is missing.\<close>

record 'i rpc_request =
  rqId :: "'i option"
  rqMethod :: string
  rqParams :: "(string \<times> (string, json) gomap option) option"

definition mcpProtocolVersion :: string where
  "mcpProtocolVersion = ''2024-11-05''"

datatype 'j rpc_result =
    InitializeResult string string string
  | ToolsResult "'j tool list"
  | EmptyResult
  | TextResult string bool

record ('i, 'j) rpc_response =
  rsId :: "'i option"
  rsResult :: "'j rpc_result option"
  rsError :: "(int \<times> string) option"

definition handleInitialize :: "'j rpc_result" where
  "handleInitialize = InitializeResult mcpProtocolVersion ''tailbus-mcp-gateway'' ''0.1.0''"

definition writeJSONRPCErrorResp :: "'i option \<Rightarrow> int \<times> string \<Rightarrow> ('i, 'j) rpc_response" where
  "writeJSONRPCErrorResp i e = \<lparr>rsId = i, rsResult = None, rsError = Some e\<rparr>"

definition writeJSONRPCError :: "'i option \<Rightarrow> int \<Rightarrow> string \<Rightarrow> ('i, 'j) rpc_response" where
  "writeJSONRPCError i code message = writeJSONRPCErrorResp i (code, message)"

definition success :: "'i option \<Rightarrow> 'j rpc_result option \<Rightarrow> ('i, 'j) rpc_response" where
  "success i r = \<lparr>rsId = i, rsResult = r, rsError = None\<rparr>"

text \<open>A request is answered at once, or waits for the answer to a session.\<close>

datatype ('i, 'j) mcp_state = Answered "('i, 'j) rpc_response" | Waiting "'i option" string

definition tool_error :: "string \<Rightarrow> 'j rpc_result" where
  "tool_error e = TextResult (''Error: '' @ e) True"

text \<open>What the JSON decoder and encoder are to the gateway.\<close>

record 'j mcp_codec =
  jcSchema :: "string \<Rightarrow> 'j option"
  jcDefault :: 'j
  jcCall :: "string \<Rightarrow> (string, json) gomap \<Rightarrow> bytes"
  jcArgs :: "(string, json) gomap \<Rightarrow> bytes"
  jcShow :: "go_err \<Rightarrow> string"

text \<open>
  \<open>handleMCP\<close> up to the point where it waits. The daemon may deliver an answer between opening the session and
  registering the waiter, so the two are separate steps: this one ends with the session opened, and
  \<open>register_waiter\<close> follows.
\<close>

definition handleMCP_begin ::
  "'j mcp_codec \<Rightarrow> 'w rt \<Rightarrow> 'i rpc_request option \<Rightarrow> ('r, 'w) daemon \<Rightarrow> ('i, 'j) mcp_state \<times> ('r, 'w) daemon" where
  "handleMCP_begin J rt body d =
     (case body of
        None \<Rightarrow> (Answered (writeJSONRPCError None (- 32700) ''Parse error''), d)
      | Some req \<Rightarrow>
          (case dispatch (jcSchema J) (jcDefault J) (jcCall J) (jcArgs J) (rqMethod req) (rqParams req) d of
             McpInitialize \<Rightarrow> (Answered (success (rqId req) (Some handleInitialize)), d)
           | McpNothing \<Rightarrow> (Answered (success (rqId req) None), d)
           | McpTools ts \<Rightarrow> (Answered (success (rqId req) (Some (ToolsResult ts))), d)
           | McpPong \<Rightarrow> (Answered (success (rqId req) (Some EmptyResult)), d)
           | McpError code msg \<Rightarrow> (Answered (writeJSONRPCErrorResp (rqId req) (code, msg)), d)
           | McpCall target payload \<Rightarrow>
               (case callAgent_open rt target payload d of
                  (Inl e, d) \<Rightarrow> (Answered (success (rqId req) (Some (tool_error (''open session: '' @ jcShow J e)))), d)
                | (Inr (sid, _, _), d) \<Rightarrow> (Waiting (rqId req) sid, d))))"

text \<open>The end of a waiting request; \<open>ctxErr\<close> is the text of the context's error.\<close>

definition handleMCP_finish ::
  "'w rt \<Rightarrow> bool \<Rightarrow> string \<Rightarrow> 'i option \<Rightarrow> string \<Rightarrow> mcp_gateway \<Rightarrow> ('r, 'w) daemon \<Rightarrow> (('i, 'j) rpc_response \<times> mcp_gateway \<times> ('r, 'w) daemon) option" where
  "handleMCP_finish rt ctxDone ctxErr i sid g d =
     (case callAgent_finish rt ctxDone sid g d of
        None \<Rightarrow> None
      | Some (Inl _, g, d) \<Rightarrow> Some (success i (Some (tool_error ctxErr)), g, d)
      | Some (Inr result, g, d) \<Rightarrow> Some (success i (Some (TextResult result False)), g, d))"

text \<open>The event stream announces where to post and stays silent; \<open>None\<close> without a flusher.\<close>

definition handleMCPSSE :: "bool \<Rightarrow> nat + string" where
  "handleMCPSSE flusher = (if flusher then Inr (''event: endpoint'' @ newline @ ''data: /mcp'' @ newline @ newline) else Inl 500)"

section \<open>The REST endpoints\<close>

record agent_info =
  aiHandle :: string
  aiDescription :: string
  aiTags :: "string list"
  aiVersion :: string
  aiCommands :: "(string \<times> string \<times> string) list"

definition agent_of_entry :: "string \<times> pb_manifest option \<Rightarrow> agent_info" where
  "agent_of_entry = (\<lambda>(h, m).
     case m of
       None \<Rightarrow> \<lparr>aiHandle = h, aiDescription = [], aiTags = [], aiVersion = [], aiCommands = []\<rparr>
     | Some m \<Rightarrow> \<lparr>aiHandle = h, aiDescription = pmDescription m, aiTags = pmTags m, aiVersion = pmVersion m,
         aiCommands = map (\<lambda>c. (pcName c, pcDescription c, pcParametersSchema c)) (pmCommands m)\<rparr>)"

text \<open>\<open>None\<close> is the JSON null of a nil slice.\<close>

definition handleAPIAgents :: "('r, 'w) daemon \<Rightarrow> agent_info list option" where
  "handleAPIAgents d =
     (case filter (\<lambda>(h, m). h \<noteq> mcpGatewayHandle) (rpc_ListHandles [] d) of [] \<Rightarrow> None | es \<Rightarrow> Some (map agent_of_entry es))"

datatype send_reply = SendBadRequest | SendDone bool string | SendWaiting string

definition handleAPISend_begin ::
  "'j mcp_codec \<Rightarrow> 'w rt \<Rightarrow> (string \<times> string) option \<Rightarrow> ('r, 'w) daemon \<Rightarrow> send_reply \<times> ('r, 'w) daemon" where
  "handleAPISend_begin J rt body d =
     (case body of
        None \<Rightarrow> (SendBadRequest, d)
      | Some (h, message) \<Rightarrow>
          (case callAgent_open rt h message d of
             (Inl e, d) \<Rightarrow> (SendDone True (''open session: '' @ jcShow J e), d)
           | (Inr (sid, _, _), d) \<Rightarrow> (SendWaiting sid, d)))"

definition handleAPISend_finish ::
  "'w rt \<Rightarrow> bool \<Rightarrow> string \<Rightarrow> string \<Rightarrow> mcp_gateway \<Rightarrow> ('r, 'w) daemon \<Rightarrow> (send_reply \<times> mcp_gateway \<times> ('r, 'w) daemon) option" where
  "handleAPISend_finish rt ctxDone ctxErr sid g d =
     (case callAgent_finish rt ctxDone sid g d of
        None \<Rightarrow> None
      | Some (Inl _, g, d) \<Rightarrow> Some (SendDone True ctxErr, g, d)
      | Some (Inr result, g, d) \<Rightarrow> Some (SendDone False result, g, d))"

section \<open>Every request is answered under its identifier\<close>

lemma begin_keeps_id:
  assumes "handleMCP_begin J rt (Some req) d = (st, d')"
  shows "case st of Answered resp \<Rightarrow> rsId resp = rqId req \<and> (rsResult resp = None \<or> rsError resp = None) | Waiting i sid \<Rightarrow> i = rqId req"
  using assms
  by (cases "dispatch (jcSchema J) (jcDefault J) (jcCall J) (jcArgs J) (rqMethod req) (rqParams req) d")
    (auto simp: handleMCP_begin_def success_def writeJSONRPCErrorResp_def split: prod.splits sum.splits)

text \<open>Only the notification that ends the handshake is answered with neither a result nor an error.\<close>

lemma call_is_something: "handleToolsCall mc ma params \<noteq> McpNothing"
  by (simp add: handleToolsCall_def split: option.split prod.split)

lemma begin_has_content:
  assumes "handleMCP_begin J rt (Some req) d = (Answered resp, d')" and "rqMethod req \<noteq> ''notifications/initialized''"
  shows "rsResult resp \<noteq> None \<or> rsError resp \<noteq> None"
proof (cases "dispatch (jcSchema J) (jcDefault J) (jcCall J) (jcArgs J) (rqMethod req) (rqParams req) d")
  case McpNothing
  then show ?thesis using assms(2) by (simp add: dispatch_def call_is_something split: if_splits)
qed (use assms(1) in \<open>auto simp: handleMCP_begin_def success_def writeJSONRPCErrorResp_def split: prod.splits sum.splits\<close>)

lemma answer_when_arrived:
  assumes "list_all (\<lambda>x. \<not> of_call sid x) before" and "list_all (\<lambda>x. \<not> of_call sid x) since"
    and "gget (mgWaiters g) sid = None" and "gget (mgBuffered g) sid = None"
  shows "answer_of sid (fold gateway_run since (register_waiter sid (fold gateway_run before g))) =
    (if arrivals sid before = [] then take 1 (arrivals sid since) else [last (arrivals sid before)])"
proof -
  let ?g = "fold gateway_run before g"
  let ?early = "if arrivals sid before = [] then [] else [last (arrivals sid before)]"
  have b: "gget (mgBuffered ?g) sid = (if arrivals sid before = [] then None else Some (last (arrivals sid before)))"
    using before_waiting [OF assms(1,3)] assms(4) by simp
  obtain ch where ch: "gget (mgWaiters (register_waiter sid ?g)) sid = Some ch" "ch_cap ch = 1" "ch_buf ch = ?early"
    by (cases "arrivals sid before = []") (auto simp: register_waiter_def b Let_def make_chan_def try_send_def has_room_def)
  from while_waiting [OF assms(2) ch(1,2)] show ?thesis using ch(3) by simp
qed

text \<open>
  C37. A tool call returns what the agent says. A request that calls an agent waits for the session it opened; however the
  gateway's goroutines interleave, also when the answer overtakes the registration of the waiter, the
  HTTP response carries the request's identifier and the payload of a message of that session as soon as one has arrived,
  and leaves neither a waiter nor a buffered message behind.
\<close>

theorem tool_call_returns_answer:
  fixes J :: "'j mcp_codec" and req :: "'i rpc_request"
  assumes "handleMCP_begin J rt (Some req) d = (Waiting i sid, d1)"
    and "list_all (\<lambda>x. \<not> of_call sid x) before" and "list_all (\<lambda>x. \<not> of_call sid x) since"
    and "gget (mgWaiters g) sid = None" and "gget (mgBuffered g) sid = None"
    and "arrivals sid (before @ since) \<noteq> []"
    and g': "g' = fold gateway_run since (register_waiter sid (fold gateway_run before g))"
  shows "\<exists>env g'' d3. env \<in> set (arrivals sid (before @ since)) \<and>
    handleMCP_finish rt' False e i sid g' d2 = Some (success (rqId req) (Some (TextResult (Payload env) False)) :: ('i, 'j) rpc_response, g'', d3) \<and>
    gget (mgWaiters g'') sid = None \<and> gget (mgBuffered g'') sid = None"
proof -
  have i: "i = rqId req" using begin_keeps_id [OF assms(1)] by simp
  have app: "arrivals sid (before @ since) = arrivals sid before @ arrivals sid since" by (simp add: arrivals_def List.map_filter_def)
  obtain env where env: "answer_of sid g' = [env]" "env \<in> set (arrivals sid (before @ since))"
    using answer_when_arrived [OF assms(2-5)] assms(6) unfolding g' app
    by (cases "arrivals sid before = []"; cases "arrivals sid since") (auto simp: last_in_set)
  then show ?thesis
    by (auto simp: handleMCP_finish_def callAgent_finish_def i remove_waiter_def Let_def)
qed

text \<open>A call of the tool \<open>calc\<close> on the daemon with an agent of that name; the agent answers before the waiter is registered.\<close>

definition demo_codec :: "string mcp_codec" where
  "demo_codec = \<lparr>jcSchema = Some, jcDefault = [], jcCall = (\<lambda>c args. c), jcArgs = (\<lambda>args. []), jcShow = (\<lambda>e. ''error'')\<rparr>"

definition demo_rpc :: "nat rpc_request" where
  "demo_rpc = \<lparr>rqId = Some 7, rqMethod = ''tools/call'', rqParams = Some (''calc'', Some [(''message'', JString ''hi'')])\<rparr>"

lemma demo_rpc_waits: "\<exists>d1. handleMCP_begin demo_codec sample_rt (Some demo_rpc) agent_daemon = (Waiting (Some 7) ''uuid-0'', d1)"
proof -
  let ?req = "\<lparr>oqFrom = mcpGatewayHandle, oqTo = ''calc'', oqPayload = ''hi'', oqContentType = ''application/json'', oqTraceId = []\<rparr>"
  have l: "verifyOwnership None (oqFrom ?req) agent_daemon = None" "HasHandle (oqTo ?req) agent_daemon" "gget_or [] (dSubs agent_daemon) (oqTo ?req) = [0]"
    using agent_listens(2) by (simp_all add: verifyOwnership_def listens_def)
  obtain ch where "gget (dChans agent_daemon) 0 = Some ch" "\<not> ch_closed ch" "has_room ch"
    using agent_listens(2) by (auto simp: listens_def has_room_def)
  from OpenSession_local [OF agent_listens(1) l this, of sample_rt] obtain d' t where
    o: "OpenSession sample_rt None ?req agent_daemon = (Inr (rtUuid sample_rt 0, rtUuid sample_rt 2, t), d')" by metis
  have "dispatch (jcSchema demo_codec) (jcDefault demo_codec) (jcCall demo_codec) (jcArgs demo_codec) ''tools/call''
      (Some (''calc'', Some [(''message'', JString ''hi'')])) agent_daemon = McpCall ''calc'' ''hi''"
    using parseToolName(2) [of "''calc''"] by (simp add: dispatch_def handleToolsCall_def buildPayload_def)
  moreover have zero: "dec_nat 0 = ''0''" by code_simp
  ultimately show ?thesis
    by (simp add: handleMCP_begin_def demo_rpc_def callAgent_open_def o) (simp add: sample_rt_def zero)
qed

theorem tool_call_returns_answer_witness:
  "\<exists>d1 g'' d3. handleMCP_begin demo_codec sample_rt (Some demo_rpc) agent_daemon = (Waiting (Some 7) ''uuid-0'', d1) \<and>
     (\<exists>resp. handleMCP_finish sample_rt False [] (Some (7 :: nat)) ''uuid-0''
        (fold gateway_run [] (register_waiter ''uuid-0'' (fold gateway_run [Arrives (gw_msg ''uuid-0'' ''42'')] NewGateway))) d1 = Some (resp, g'', d3) \<and>
        resp = (success (Some 7) (Some (TextResult ''42'' False)) :: (nat, string) rpc_response))"
proof -
  obtain d1 where d1: "handleMCP_begin demo_codec sample_rt (Some demo_rpc) agent_daemon = (Waiting (Some 7) ''uuid-0'', d1)"
    using demo_rpc_waits by blast
  have m: "SessionId (gw_msg a b) = a" "Payload (gw_msg a b) = b" for a b by (simp_all add: gw_msg_def)
  have "arrivals ''uuid-0'' [Arrives (gw_msg ''uuid-0'' ''42'')] = [gw_msg ''uuid-0'' ''42'']"
    by (simp add: arrivals_def List.map_filter_simps m)
  then show ?thesis
    using tool_call_returns_answer [OF d1, of "[Arrives (gw_msg ''uuid-0'' ''42'')]" "[]" NewGateway _ sample_rt "[]" d1] d1
    by (simp add: NewGateway_def demo_rpc_def m) blast
qed

text \<open>An answer that never comes is reported when the time is up, as a failed tool call under the same identifier.\<close>

lemma tool_call_times_out:
  assumes "handleMCP_begin J rt (Some req) d = (Waiting i sid, d1)" and "answer_of sid g = []"
  shows "handleMCP_finish rt' False e i sid g d2 = None"
    and "handleMCP_finish rt' True e i sid g d2 = Some (success (rqId req) (Some (tool_error e)), remove_waiter sid g, d2)"
  using begin_keeps_id [OF assms(1)] assms(2) by (simp_all add: handleMCP_finish_def callAgent_finish_def)

section \<open>The list of agents\<close>

text \<open>The page shows every handle of the mesh but the gateway's own, and an empty mesh as null.\<close>

lemma agents_listed:
  "aiHandle ` set (case handleAPIAgents d of None \<Rightarrow> [] | Some as \<Rightarrow> as) = fst ` set (rpc_ListHandles [] d) - {mcpGatewayHandle}"
proof -
  have h: "aiHandle (agent_of_entry e) = fst e" for e by (cases e) (simp add: agent_of_entry_def split: option.split)
  let ?es = "filter (\<lambda>(h, m). h \<noteq> mcpGatewayHandle) (rpc_ListHandles [] d)"
  have "set (case handleAPIAgents d of None \<Rightarrow> [] | Some as \<Rightarrow> as) = agent_of_entry ` set ?es"
    by (cases ?es) (simp_all add: handleAPIAgents_def)
  then show ?thesis by (force simp: image_image h)
qed

end
