(* ===== verification/Chat_Gateway.thy ===== *)
theory Chat_Gateway
  imports Node_Status
begin

text \<open>
  The web chat of a daemon (\<open>internal/chat\<close>): one handle for the user, a token check around every
  handler, fan-out of what arrives to the WebSocket clients, and requests that wait for the answer of
  an agent. A JSON text is represented by the message it encodes; a request body that does not decode
  is \<open>None\<close>.
\<close>

section \<open>Authentication\<close>

record http_request =
  hqAuthorization :: string
  hqCookie :: "string option"
  hqQueryToken :: string

definition extractToken :: "http_request \<Rightarrow> string" where
  "extractToken r =
     (if hqAuthorization r \<noteq> [] \<and> HasPrefix (hqAuthorization r) ''Bearer '' then TrimPrefix (hqAuthorization r) ''Bearer ''
      else case hqCookie r of Some v \<Rightarrow> v | None \<Rightarrow> if hqQueryToken r \<noteq> [] then hqQueryToken r else [])"

definition chat_checkAuth :: "string \<Rightarrow> http_request \<Rightarrow> bool" where
  "chat_checkAuth meshToken r = (if meshToken = [] then True else extractToken r = meshToken)"

datatype 'a chat_reply = ChatError int string | ChatFailed go_err | ChatReply 'a | ChatWaits string

definition withAuth :: "string \<Rightarrow> http_request \<Rightarrow> ('s \<Rightarrow> 'a chat_reply \<times> 's) \<Rightarrow> 's \<Rightarrow> 'a chat_reply \<times> 's" where
  "withAuth meshToken r handler s =
     (if meshToken = [] then handler s
      else if extractToken r \<noteq> meshToken then (ChatError 401 ''unauthorized'', s) else handler s)"

section \<open>Clients and waiters\<close>

definition chatUserHandle :: string where
  "chatUserHandle = ''u-you''"

datatype ws_message =
    WsSession envelope
  | WsRoomEvent room_event
  | WsAgentOnline string
  | WsRoomCreated string string

record chat_state =
  ctClients :: "(nat, ws_message chan) gomap"
  ctWaiters :: "(string, (string \<times> bytes) chan) gomap"

definition NewUserManager :: chat_state where
  "NewUserManager = \<lparr>ctClients = [], ctWaiters = []\<rparr>"

definition chat_manifest :: pb_manifest where
  "chat_manifest = no_pb_manifest\<lparr>pmDescription := ''Chat UI user'', pmTags := [''human'', ''chat-ui'']\<rparr>"

definition chat_Start :: "'w rt \<Rightarrow> ('r, 'w) daemon \<Rightarrow> nat result option \<times> ('r, 'w) daemon" where
  "chat_Start rt d =
     (case Register rt None chatUserHandle (Some chat_manifest) [] d of
        (False, d) \<Rightarrow> (None, d)
      | (True, d) \<Rightarrow> (case Subscribe_open None chatUserHandle d of (c, d) \<Rightarrow> (Some c, d)))"

text \<open>A client is named by its address in memory.\<close>

definition AddClient :: "nat \<Rightarrow> chat_state \<Rightarrow> chat_state" where
  "AddClient c s = s\<lparr>ctClients := gput c (make_chan c 64) (ctClients s)\<rparr>"

definition RemoveClient :: "nat \<Rightarrow> chat_state \<Rightarrow> chat_state" where
  "RemoveClient c s = s\<lparr>ctClients := gdel c (ctClients s)\<rparr>"

definition WaitForSession :: "string \<Rightarrow> chat_state \<Rightarrow> chat_state" where
  "WaitForSession sid s = s\<lparr>ctWaiters := gput sid (make_chan 0 1) (ctWaiters s)\<rparr>"

definition StopWaiting :: "string \<Rightarrow> chat_state \<Rightarrow> chat_state" where
  "StopWaiting sid s = s\<lparr>ctWaiters := gdel sid (ctWaiters s)\<rparr>"

text \<open>Encoding a message also offers it to the waiter of its session.\<close>

definition encodeIncomingMessage :: "incoming \<Rightarrow> chat_state \<Rightarrow> ws_message \<times> chat_state" where
  "encodeIncomingMessage msg s =
     (case msg of
        InEnvelope env \<Rightarrow>
          (WsSession env, case gget (ctWaiters s) (SessionId env) of
             None \<Rightarrow> s
           | Some ch \<Rightarrow> s\<lparr>ctWaiters := gput (SessionId env) (try_send (FromHandle env, Payload env) ch) (ctWaiters s)\<rparr>)
      | InRoomEvent ev \<Rightarrow> (WsRoomEvent ev, s))"

definition broadcast_chat :: "incoming \<Rightarrow> chat_state \<Rightarrow> chat_state" where
  "broadcast_chat msg s =
     (case encodeIncomingMessage msg s of (m, s) \<Rightarrow> s\<lparr>ctClients := map (\<lambda>(c, ch). (c, try_send m ch)) (ctClients s)\<rparr>)"

definition encodeActivityEvent :: "activity_event \<Rightarrow> ws_message option" where
  "encodeActivityEvent ev =
     (case snd ev of
        EvHandleRegistered h \<Rightarrow> Some (WsAgentOnline h)
      | EvRoomCreated room title creator members \<Rightarrow> Some (WsRoomCreated room title)
      | _ \<Rightarrow> None)"

text \<open>One turn of a WebSocket's write loop, for the case of the \<open>select\<close> that is ready.\<close>

datatype ws_turn = WsClientMessage | WsActivity activity_event | WsClosed

definition ws_write :: "nat \<Rightarrow> ws_turn \<Rightarrow> chat_state \<Rightarrow> ws_message option \<times> chat_state" where
  "ws_write c t s =
     (case t of
        WsClosed \<Rightarrow> (None, RemoveClient c s)
      | WsActivity ev \<Rightarrow> (encodeActivityEvent ev, s)
      | WsClientMessage \<Rightarrow>
          (case gget (ctClients s) c of
             None \<Rightarrow> (None, s)
           | Some ch \<Rightarrow> (case ch_buf ch of
                           [] \<Rightarrow> (None, s)
                         | m # ms \<Rightarrow> (Some m, s\<lparr>ctClients := gput c (ch\<lparr>ch_buf := ms\<rparr>) (ctClients s)\<rparr>))))"

section \<open>Handlers\<close>

record agent_info =
  aiHandle :: string
  aiDescription :: string
  aiTags :: "string list"
  aiVersion :: string
  aiCommands :: "pb_command_spec list"

definition agent_info_of :: "string \<times> pb_manifest option \<Rightarrow> agent_info" where
  "agent_info_of = (\<lambda>(h, m). case m of
     None \<Rightarrow> \<lparr>aiHandle = h, aiDescription = [], aiTags = [], aiVersion = [], aiCommands = []\<rparr>
   | Some m \<Rightarrow> \<lparr>aiHandle = h, aiDescription = pmDescription m, aiTags = pmTags m, aiVersion = pmVersion m, aiCommands = pmCommands m\<rparr>)"

definition handleListAgents :: "('r, 'w) daemon \<Rightarrow> agent_info list chat_reply \<times> ('r, 'w) daemon" where
  "handleListAgents d = (ChatReply (map agent_info_of (filter (\<lambda>(h, m). h \<noteq> chatUserHandle \<and> h \<noteq> ''_mcp_gateway'') (rpc_ListHandles [] d))), d)"

definition handleIntrospectAgent :: "string \<Rightarrow> ('r, 'w) daemon \<Rightarrow> introspection chat_reply \<times> ('r, 'w) daemon" where
  "handleIntrospectAgent h d =
     (let i = IntrospectHandle h d in if \<not> inFound i then (ChatError 404 ''agent not found'', d) else (ChatReply i, d))"

definition failed_or :: "'a result \<Rightarrow> 'a chat_reply" where
  "failed_or r = (case r of Inl e \<Rightarrow> ChatFailed e | Inr x \<Rightarrow> ChatReply x)"

definition call_reply :: "'a result call \<Rightarrow> 'a chat_reply" where
  "call_reply c = (case c of Returned r \<Rightarrow> failed_or r | Waiting i \<Rightarrow> ChatWaits i)"

text \<open>The three parts of \<open>handleSendToAgent\<close>: the session is opened first, the waiter registered afterwards.
  A client that has left is as the deadline, without an answer.\<close>

definition handleSendToAgent_open :: "'w rt \<Rightarrow> string \<Rightarrow> bytes option \<Rightarrow> ('r, 'w) daemon \<Rightarrow> string chat_reply \<times> ('r, 'w) daemon" where
  "handleSendToAgent_open rt h body d =
     (case body of
        None \<Rightarrow> (ChatError 400 ''invalid JSON'', d)
      | Some msg \<Rightarrow>
          (case OpenSession rt None \<lparr>oqFrom = chatUserHandle, oqTo = h, oqPayload = msg, oqContentType = ''text/plain'', oqTraceId = []\<rparr> d of
             (Inl e, d) \<Rightarrow> (ChatFailed e, d)
           | (Inr (sid, m, t), d) \<Rightarrow> (ChatReply sid, d)))"

definition chat_answer :: "string \<Rightarrow> chat_state \<Rightarrow> (string \<times> bytes) list" where
  "chat_answer sid s = (case gget (ctWaiters s) sid of None \<Rightarrow> [] | Some ch \<Rightarrow> ch_buf ch)"

definition handleSendToAgent_finish ::
  "'w rt \<Rightarrow> bool \<Rightarrow> string \<Rightarrow> chat_state \<Rightarrow> ('r, 'w) daemon \<Rightarrow> ((string \<times> string \<times> bytes) chat_reply \<times> chat_state \<times> ('r, 'w) daemon) option" where
  "handleSendToAgent_finish rt deadline sid s d =
     (case chat_answer sid s of
        (from, payload) # _ \<Rightarrow>
          Some (ChatReply (sid, from, payload), StopWaiting sid s,
                snd (ResolveSession rt None \<lparr>sqSession = sid, sqFrom = chatUserHandle, sqPayload = [], sqContentType = []\<rparr> d))
      | [] \<Rightarrow> if deadline then Some (ChatError 504 ''timeout waiting for agent response'', StopWaiting sid s, d) else None)"

definition handleCreateRoom :: "'w rt \<Rightarrow> (string \<times> string list) option \<Rightarrow> ('r, 'w) daemon \<Rightarrow> string chat_reply \<times> ('r, 'w) daemon" where
  "handleCreateRoom rt body d =
     (case body of
        None \<Rightarrow> (ChatError 400 ''invalid JSON'', d)
      | Some (title, members) \<Rightarrow> (case rpc_CreateRoom rt None chatUserHandle title members d of (r, d) \<Rightarrow> (failed_or r, d)))"

record chat_room =
  crmRoomID :: string
  crmTitle :: string
  crmMembers :: "string list"
  crmStatus :: string
  crmCreatedBy :: string

definition handleListRooms :: "'w rt \<Rightarrow> ('r, 'w) daemon \<Rightarrow> chat_room list chat_reply \<times> ('r, 'w) daemon" where
  "handleListRooms rt d =
     (failed_or (map_sum id (map (\<lambda>r. \<lparr>crmRoomID = RoomId r, crmTitle = Title r, crmMembers = Members r, crmStatus = Status r, crmCreatedBy = CreatedBy r\<rparr>))
        (rpc_ListRooms rt None chatUserHandle d)), d)"

definition ParseUint :: "string \<Rightarrow> 64 word option" where
  "ParseUint s = (if s = [] \<or> \<not> list_all is_digit s \<or> digits_val s \<ge> 2 ^ 64 then None else Some (of_nat (digits_val s)))"

definition since_of :: "string \<Rightarrow> 64 word" where
  "since_of s = (if s \<noteq> [] then case ParseUint s of Some v \<Rightarrow> v | None \<Rightarrow> 0 else 0)"

definition handleReplayRoom :: "'w rt \<Rightarrow> string \<Rightarrow> string \<Rightarrow> ('r, 'w) daemon \<Rightarrow> room_command_result chat_reply \<times> ('r, 'w) daemon" where
  "handleReplayRoom rt room since d =
     (case rpc_ReplayRoom rt None room chatUserHandle (since_of since) d of (r, d) \<Rightarrow> (call_reply r, d))"

definition handlePostRoomMessage ::
  "'w rt \<Rightarrow> string \<Rightarrow> (bytes \<times> string) option \<Rightarrow> ('r, 'w) daemon \<Rightarrow> room_command_result chat_reply \<times> ('r, 'w) daemon" where
  "handlePostRoomMessage rt room body d =
     (case body of
        None \<Rightarrow> (ChatError 400 ''invalid JSON'', d)
      | Some (msg, ct) \<Rightarrow>
          (case rpc_PostRoomMessage rt None room chatUserHandle msg (if ct = [] then ''text/plain'' else ct) [] d of (r, d) \<Rightarrow> (call_reply r, d)))"

definition handleJoinRoom :: "'w rt \<Rightarrow> string \<Rightarrow> ('r, 'w) daemon \<Rightarrow> room_command_result chat_reply \<times> ('r, 'w) daemon" where
  "handleJoinRoom rt room d = (case rpc_JoinRoom rt None room chatUserHandle d of (r, d) \<Rightarrow> (call_reply r, d))"

record chat_status =
  csNode :: string
  csHandleInfos :: "(string \<times> string \<times> int) list"
  csRouted :: "64 word"
  csSessionsOpened :: "64 word"
  csRoomsCreated :: "64 word"
  csRoomMessages :: "64 word"

definition handleNodeStatus :: "time \<Rightarrow> ('r, 'w) daemon \<Rightarrow> chat_status chat_reply \<times> ('r, 'w) daemon" where
  "handleNodeStatus started d =
     (failed_or (map_sum id (\<lambda>st. \<lparr>csNode = stNode st,
        csHandleInfos = map (\<lambda>h. (hiName h, case hiManifest h of None \<Rightarrow> [] | Some m \<Rightarrow> pmDescription m, hiSubscribers h)) (stHandles st),
        csRouted = MessagesRouted (stCounters st), csSessionsOpened = SessionsOpened (stCounters st),
        csRoomsCreated = RoomsCreated (stCounters st), csRoomMessages = RoomMessagesPosted (stCounters st)\<rparr>) (GetNodeStatus started d)), d)"

section \<open>What reaches a client, and what a request misses\<close>

datatype chat_step = ChatArrives incoming | Connects nat | Disconnects nat | SessionWaits string | SessionLeaves string

fun chat_run :: "chat_step \<Rightarrow> chat_state \<Rightarrow> chat_state" where
  "chat_run (ChatArrives m) s = broadcast_chat m s"
| "chat_run (Connects c) s = AddClient c s"
| "chat_run (Disconnects c) s = RemoveClient c s"
| "chat_run (SessionWaits sid) s = WaitForSession sid s"
| "chat_run (SessionLeaves sid) s = StopWaiting sid s"

fun ws_of :: "incoming \<Rightarrow> ws_message" where
  "ws_of (InEnvelope env) = WsSession env"
| "ws_of (InRoomEvent ev) = WsRoomEvent ev"

definition sent_to_clients :: "chat_step list \<Rightarrow> ws_message list" where
  "sent_to_clients = List.map_filter (\<lambda>x. case x of ChatArrives m \<Rightarrow> Some (ws_of m) | _ \<Rightarrow> None)"

lemma broadcast_chat_clients: "ctClients (broadcast_chat m s) = map (\<lambda>(c, ch). (c, try_send (ws_of m) ch)) (ctClients s)"
  by (cases m) (simp_all add: broadcast_chat_def encodeIncomingMessage_def split: option.split)

text \<open>
  A connected client that reads nothing holds the first 64 of the messages that arrived for the user since it
  connected, session messages and room events alike, in order.
\<close>

lemma client_sees_prefix:
  assumes "list_all (\<lambda>x. x \<noteq> Connects c \<and> x \<noteq> Disconnects c) xs" and "gget (ctClients s) c = Some ch" and "ch_cap ch = 64" and "length (ch_buf ch) \<le> 64"
  shows "\<exists>ch'. gget (ctClients (fold chat_run xs s)) c = Some ch' \<and> ch_buf ch' = take 64 (ch_buf ch @ sent_to_clients xs)"
  using assms
proof (induction xs arbitrary: s ch)
  case (Cons x xs)
  let ?ch = "case x of ChatArrives m \<Rightarrow> try_send (ws_of m) ch | _ \<Rightarrow> ch"
  have step: "gget (ctClients (chat_run x s)) c = Some ?ch"
    using Cons.prems(1,2) by (cases x)
      (auto simp: broadcast_chat_clients gget_map_snd AddClient_def RemoveClient_def WaitForSession_def StopWaiting_def)
  have ch: "ch_cap ?ch = 64" "length (ch_buf ?ch) \<le> 64"
    using Cons.prems(3,4) by (auto simp: try_send_def has_room_def split: chat_step.split)
  have "list_all (\<lambda>x. x \<noteq> Connects c \<and> x \<noteq> Disconnects c) xs" using Cons.prems(1) by simp
  from Cons.IH [OF this step ch] show ?case
    using Cons.prems(3,4) by (auto simp: sent_to_clients_def List.map_filter_simps try_send_def has_room_def take_Cons' split: chat_step.splits)
qed (simp add: sent_to_clients_def List.map_filter_simps)

text \<open>
  The waiter of a request is registered after its session was opened, and nothing is kept for it: an
  answer that arrives in between never reaches the request, which then waits for its deadline.
\<close>

lemma early_answer_lost:
  assumes "gget (ctWaiters s) sid = None" and "SessionId env = sid"
  shows "chat_answer sid (WaitForSession sid (broadcast_chat (InEnvelope env) s)) = []"
  using assms by (simp add: chat_answer_def WaitForSession_def make_chan_def)

end
