(* ===== verification/Coord_Access.thy ===== *)
theory Coord_Access
  imports Coord_Handles
begin

text \<open>
  What tokens, invites and roles guarantee at the coordination server: single-use tokens, the two kinds
  of signed tokens, the bound of an invite, and the owners of a team.
\<close>

section \<open>Single-use tokens\<close>

definition spent :: "string \<Rightarrow> coord_store \<Rightarrow> bool" where
  "spent hash s \<longleftrightarrow> (\<forall>t\<in>set (csTokens s). tkHash t = hash \<longrightarrow> tkSingleUse t \<and> tkUsedBy t \<noteq> None) \<and> csTokens s \<noteq> []"

lemma spent_mark_used: "spent hash s \<Longrightarrow> spent hash (s\<lparr>csTokens := mark_used h n (csTokens s)\<rparr>)"
  by (auto simp: spent_def mark_used_def)

lemma spent_cong: "csTokens s' = csTokens s \<Longrightarrow> spent hash s \<Longrightarrow> spent hash s'"
  by (simp add: spent_def)

lemma spent_consume: "ValidateAndConsumeToken now h n s = Inr s' \<Longrightarrow> spent hash s \<Longrightarrow> spent hash s'"
  by (auto simp: ValidateAndConsumeToken_def sql_def intro: spent_mark_used split: if_splits list.splits option.splits)

text \<open>The other statements leave the tokens alone.\<close>

lemma spent_stmts:
  "UpsertNode rec s = Inr s' \<Longrightarrow> spent hash s' = spent hash s"
  "UpdateHeartbeat now n hs ms s = Inr s' \<Longrightarrow> spent hash s' = spent hash s"
  "RemoveStaleNodes now s = Inr (k, s') \<Longrightarrow> spent hash s' = spent hash s"
  "SetNodeTeam n team s = Inr s' \<Longrightarrow> spent hash s' = spent hash s"
  "UpsertUser now em s = Inr s' \<Longrightarrow> spent hash s' = spent hash s"
  "BindNodeToUser now n em s = Inr s' \<Longrightarrow> spent hash s' = spent hash s"
  "CreateTeam now i nm em s = Inr s' \<Longrightarrow> spent hash s' = spent hash s"
  "AddTeamMember now i em ro s = Inr s' \<Longrightarrow> spent hash s' = spent hash s"
  "RemoveTeamMember i em s = Inr s' \<Longrightarrow> spent hash s' = spent hash s"
  "UpdateTeamMemberRole i em ro s = Inr s' \<Longrightarrow> spent hash s' = spent hash s"
  "CreateTeamInvite now cd i em ex mu s = Inr s' \<Longrightarrow> spent hash s' = spent hash s"
  "ConsumeTeamInvite now cd s = Inr (t, s') \<Longrightarrow> spent hash s' = spent hash s"
  "UpsertRoom room t s = Inr s' \<Longrightarrow> spent hash s' = spent hash s"
  "DeleteTeam t s = Inr s' \<Longrightarrow> spent hash s' = spent hash s"
  by (auto simp: spent_def sql_def Let_def UpsertNode_def UpdateHeartbeat_def RemoveStaleNodes_def remove_nodes_def SetNodeTeam_def
      UpsertUser_def BindNodeToUser_def CreateTeam_def AddTeamMember_def RemoveTeamMember_def UpdateTeamMemberRole_def
      CreateTeamInvite_def ConsumeTeamInvite_def UpsertRoom_def DeleteTeam_def split: if_splits list.splits option.splits sum.splits)

interpretation spent_kept: node_frame "\<lambda>s s'. spent hash s \<longrightarrow> spent hash s'" for hash
  by unfold_locales (auto dest: spent_stmts intro: spent_consume)

lemma spent_team_calls:
  "spent hash (coStore c) \<Longrightarrow> spent hash (coStore (snd (rpc_CreateTeamInvite rt tok t mu ttl c)))"
  "spent hash (coStore c) \<Longrightarrow> spent hash (coStore (snd (rpc_RemoveTeamMember rt tok t em c)))"
  "spent hash (coStore c) \<Longrightarrow> spent hash (coStore (snd (rpc_DeleteTeam rt tok t c)))"
  "spent hash (coStore c) \<Longrightarrow> spent hash (coStore (snd (rpc_UpdateTeamMemberRole rt tok t em ro c)))"
  "spent hash (coStore c) \<Longrightarrow> spent hash (coStore (snd (rpc_AcceptTeamInvite rt tok code c)))"
  by (auto simp: rpc_CreateTeamInvite_def rpc_RemoveTeamMember_def rpc_DeleteTeam_def rpc_UpdateTeamMemberRole_def
      rpc_AcceptTeamInvite_def with_store_def Let_def split: prod.splits sum.splits if_splits dest: spent_stmts)

lemma spent_op: "spent hash (coStore c) \<Longrightarrow> spent hash (coStore (run_coord_op op c))"
  by (cases op)
    (simp_all add: spent_team_calls spent_kept.keep_register spent_kept.keep_node_calls spent_kept.keep_watch spent_kept.keep_rpc_CreateTeam)

lemma spent_run: "spent hash (coStore c) \<Longrightarrow> spent hash (coStore (fold run_coord_op ops c))"
  by (induction ops arbitrary: c) (simp_all add: spent_op)

lemma coKey_register: "coKey (snd (RegisterNode rt req c)) = coKey c"
  by (simp add: RegisterNode_def Let_def split: prod.split sum.split option.split)

lemma coKey_op: "coKey (run_coord_op op c) = coKey c"
  by (cases op)
    (simp_all add: coKey_register Heartbeat_def reap_def WatchPeerMap_open_def WatchPeerMap_close_def rpc_UpsertRoom_def rpc_CreateTeam_def
      rpc_CreateTeamInvite_def rpc_AcceptTeamInvite_def rpc_RemoveTeamMember_def rpc_UpdateTeamMemberRole_def rpc_DeleteTeam_def
      with_store_def Let_def split: prod.split sum.split option.split)

lemma coKey_run: "coKey (fold run_coord_op ops c) = coKey c"
  by (induction ops arbitrary: c) (simp_all add: coKey_op)

lemma spent_refused:
  assumes "spent (HashToken rt tok) s" and "key = None \<or> \<not> has_prefix tok ''eyJ''"
  shows "\<exists>e. ValidateRegistration rt key tok n s = (Inl e, s)"
proof -
  have "\<exists>e. ValidateAndConsumeToken (crNow rt) (HashToken rt tok) n s = Inl e"
  proof (cases "filter (\<lambda>t. tkHash t = HashToken rt tok) (csTokens s)")
    case (Cons t ts)
    then have "t \<in> set (filter (\<lambda>t. tkHash t = HashToken rt tok) (csTokens s))" by simp
    then have "tkSingleUse t" "tkUsedBy t \<noteq> None" using assms(1) by (auto simp: spent_def)
    then show ?thesis by (simp add: ValidateAndConsumeToken_def sql_def Cons)
  qed (simp add: ValidateAndConsumeToken_def sql_def)
  then show ?thesis
    using assms by (auto simp: ValidateRegistration_def HasAuthTokens_def sql_def spent_def)
qed

lemma admission_spends:
  assumes "ValidateRegistration rt key tok n s = (Inr res, s')" and "key = None \<or> \<not> has_prefix tok ''eyJ''"
    and "distinct (map tkHash (csTokens s))" and "t \<in> set (csTokens s)" and "tkHash t = HashToken rt tok" and "tkSingleUse t"
  shows "spent (HashToken rt tok) s'"
proof -
  have only: "u = t" if "u \<in> set (csTokens s)" "tkHash u = HashToken rt tok" for u
    using that assms(3-5) by (simp add: distinct_map inj_on_def)
  then have "filter (\<lambda>t. tkHash t = HashToken rt tok) (csTokens s) \<noteq> []" using assms(4,5) by (auto simp: filter_empty_conv)
  then obtain ts where f: "filter (\<lambda>t. tkHash t = HashToken rt tok) (csTokens s) = t # ts"
    using only by (cases "filter (\<lambda>t. tkHash t = HashToken rt tok) (csTokens s)") (auto simp: filter_eq_Cons_iff)
  have "ValidateAndConsumeToken (crNow rt) (HashToken rt tok) n s = Inr s'"
    using assms(1,2,4) by (auto simp: ValidateRegistration_def HasAuthTokens_def sql_def split: if_splits sum.splits)
  then have "s' = s\<lparr>csTokens := mark_used (HashToken rt tok) n (csTokens s)\<rparr>"
    by (simp add: ValidateAndConsumeToken_def sql_def f assms(6) split: if_splits)
  then show ?thesis
    using only assms(4,6) by (auto simp: spent_def mark_used_def)
qed

text \<open>
  C20. A single-use token admits one registration, ever. Once a registration has passed admission with
  such a token, every later registration with the same token is refused without any effect, whatever
  calls came in between and whichever node tries: also the node that used it, so that a daemon that
  registers again (as it does whenever its handles change) is locked out.
\<close>

lemma single_use_token_admits_once:
  assumes "ValidateRegistration rt (coKey c) (rqAuthToken req) (rqNodeId req) (coStore c) = (Inr res, s)"
    and "coKey c = None \<or> \<not> has_prefix (rqAuthToken req) ''eyJ''"
    and "distinct (map tkHash (csTokens (coStore c)))" and "t \<in> set (csTokens (coStore c))"
    and "tkHash t = HashToken rt (rqAuthToken req)" and "tkSingleUse t"
    and "c' = fold run_coord_op ops (snd (RegisterNode rt req c))"
    and "rqAuthToken req' = rqAuthToken req" and "crSha rt' = crSha rt"
  shows "\<exists>e. RegisterNode rt' req' c' = (Inl e, c')"
proof -
  have h: "HashToken rt' = HashToken rt" by (simp add: HashToken_def assms(9) fun_eq_iff)
  have "spent (HashToken rt (rqAuthToken req)) (coStore c')"
    unfolding assms(7)
    using spent_run [OF spent_kept.keep_after_admission [OF assms(1), THEN mp, OF admission_spends [OF assms(1-6)]]] .
  moreover have "coKey c' = coKey c" by (simp add: assms(7) coKey_run coKey_register)
  ultimately obtain e where "ValidateRegistration rt' (coKey c') (rqAuthToken req') (rqNodeId req') (coStore c') = (Inl e, coStore c')"
    using spent_refused [of rt' "rqAuthToken req'" "coStore c'" "coKey c'" "rqNodeId req'"] assms(2,8) h by auto
  then show ?thesis by (simp add: RegisterNode_def)
qed

definition demo_token_coord :: coord where
  "demo_token_coord = demo_coord\<lparr>coStore := SeedToken demo_rt ''boot'' ''s3cret'' True (coStore demo_coord)\<rparr>"

theorem single_use_token_admits_once_witness:
  "\<exists>e. RegisterNode demo_rt (demo_request ''n1'' [''h2''] \<lparr>rqAuthToken := ''s3cret''\<rparr>)
       (snd (RegisterNode demo_rt (demo_request ''n1'' [''h''] \<lparr>rqAuthToken := ''s3cret''\<rparr>) demo_token_coord)) =
     (Inl e, snd (RegisterNode demo_rt (demo_request ''n1'' [''h''] \<lparr>rqAuthToken := ''s3cret''\<rparr>) demo_token_coord))"
proof -
  let ?req = "demo_request ''n1'' [''h''] \<lparr>rqAuthToken := ''s3cret''\<rparr>"
  have tokens: "csTokens (coStore demo_token_coord) = [\<lparr>tkName = ''boot'', tkHash = ''s3cret'', tkSingleUse = True, tkUsedBy = None,
      tkCreatedAt = unix (5 * second), tkExpiresAt = None\<rparr>]" "csOK (coStore demo_token_coord)" "coKey demo_token_coord = None"
    by (simp_all add: demo_token_coord_def SeedToken_def InsertAuthToken_def HashToken_def sql_def demo_coord_def NewServer_def NewStore_def demo_rt_def)
  then obtain s res where "ValidateRegistration demo_rt (coKey demo_token_coord) (rqAuthToken ?req) (rqNodeId ?req) (coStore demo_token_coord) = (Inr res, s)"
    by (simp add: ValidateRegistration_def HasAuthTokens_def ValidateAndConsumeToken_def sql_def HashToken_def demo_rt_def)
  from single_use_token_admits_once [OF this, of _ _ "[]"]
  show ?thesis by (simp add: tokens HashToken_def demo_rt_def)
qed

section \<open>Owners\<close>

definition has_owner :: "string \<Rightarrow> coord_store \<Rightarrow> bool" where
  "has_owner team s \<longleftrightarrow> (\<exists>e m. gget (csMembers s) (team, e) = Some m \<and> mbRole m = ''owner'')"

definition owned :: "coord_store \<Rightarrow> bool" where
  "owned s \<longleftrightarrow> gwf (csMembers s) \<and> (\<forall>team. gget (csTeams s) team \<noteq> None \<longrightarrow> has_owner team s)"

text \<open>The tables of teams and members are those of before.\<close>

definition same_teams :: "coord_store \<Rightarrow> coord_store \<Rightarrow> bool" where
  "same_teams s s' \<longleftrightarrow> csTeams s' = csTeams s \<and> csMembers s' = csMembers s"

lemma owned_same: "same_teams s s' \<Longrightarrow> owned s \<Longrightarrow> owned s'"
  by (simp add: same_teams_def owned_def has_owner_def)

lemma same_teams_stmts:
  "UpsertNode rec s = Inr s' \<Longrightarrow> same_teams s s'"
  "UpdateHeartbeat now n hs ms s = Inr s' \<Longrightarrow> same_teams s s'"
  "RemoveStaleNodes now s = Inr (k, s') \<Longrightarrow> same_teams s s'"
  "SetNodeTeam n team s = Inr s' \<Longrightarrow> same_teams s s'"
  "UpsertUser now em s = Inr s' \<Longrightarrow> same_teams s s'"
  "BindNodeToUser now n em s = Inr s' \<Longrightarrow> same_teams s s'"
  "ValidateAndConsumeToken now h n s = Inr s' \<Longrightarrow> same_teams s s'"
  "CreateTeamInvite now cd i em ex mu s = Inr s' \<Longrightarrow> same_teams s s'"
  "ConsumeTeamInvite now cd s = Inr (t, s') \<Longrightarrow> same_teams s s'"
  "UpsertRoom room t s = Inr s' \<Longrightarrow> same_teams s s'"
  by (auto simp: same_teams_def sql_def Let_def UpsertNode_def UpdateHeartbeat_def RemoveStaleNodes_def remove_nodes_def SetNodeTeam_def
      UpsertUser_def BindNodeToUser_def ValidateAndConsumeToken_def CreateTeamInvite_def ConsumeTeamInvite_def UpsertRoom_def
      split: if_splits list.splits option.splits sum.splits)

lemma owned_CreateTeam:
  assumes "CreateTeam now team name em s = Inr s'" and "owned s"
  shows "owned s'"
proof -
  have s': "s' = s\<lparr>csTeams := gput team \<lparr>tmName = name, tmCreatedBy = em, tmCreatedAt = unix now\<rparr> (csTeams s),
      csMembers := gput (team, em) \<lparr>mbRole = ''owner'', mbJoinedAt = unix now\<rparr> (csMembers s)\<rparr>"
    using assms(1) by (simp add: CreateTeam_def split: if_splits)
  have "has_owner t s'" if "t = team \<or> has_owner t s" for t
    using that unfolding s' has_owner_def by auto
  then show ?thesis using assms(2) by (auto simp: owned_def s' split: if_splits)
qed

interpretation owners_kept: node_frame "\<lambda>s s'. owned s \<longrightarrow> owned s'"
  by unfold_locales (auto intro: owned_CreateTeam owned_same same_teams_stmts)

lemma owned_DeleteTeam:
  assumes "DeleteTeam team s = Inr s'" and "owned s"
  shows "owned s'"
proof -
  have s': "csTeams s' = gdel team (csTeams s)" "csMembers s' = filter (\<lambda>(k, m). fst k \<noteq> team) (csMembers s)"
    using assms(1) by (auto simp: DeleteTeam_def sql_def case_prod_unfold split: if_splits)
  have "gget (csMembers s') k = (if fst k \<noteq> team then gget (csMembers s) k else None)" for k
    unfolding s' by (rule gget_filter_key)
  then show ?thesis
    using assms(2) by (auto simp: owned_def s'(1) has_owner_def s'(2) split: if_splits)
qed

lemma owner_claims_role:
  assumes "owner_claims rt tok team c = Inr cl"
  shows "\<exists>m. gget (csMembers (coStore c)) (team, clEmail cl) = Some m \<and> mbRole m = ''owner''"
  using assms by (auto simp: owner_claims_def GetUserTeamRole_def sql_def split: sum.splits if_splits option.splits)

lemma owned_RemoveMember:
  assumes "owned (coStore c)"
  shows "owned (coStore (snd (rpc_RemoveTeamMember rt tok team em c)))"
proof -
  have "owned s'" if "owner_claims rt tok team c = Inr cl" "em \<noteq> clEmail cl" "RemoveTeamMember team em (coStore c) = Inr s'" for cl s'
  proof -
    have s': "csTeams s' = csTeams (coStore c)" "csMembers s' = gdel (team, em) (csMembers (coStore c))"
      using that(3) by (auto simp: RemoveTeamMember_def sql_def split: if_splits)
    have "has_owner t s'" if "has_owner t (coStore c)" for t
      using that owner_claims_role [OF \<open>owner_claims rt tok team c = Inr cl\<close>] \<open>em \<noteq> clEmail cl\<close>
      unfolding has_owner_def s' by (cases "t = team") auto
    then show ?thesis using assms by (auto simp: owned_def s')
  qed
  then show ?thesis
    using assms by (auto simp: rpc_RemoveTeamMember_def with_store_def split: sum.splits)
qed

lemma second_owner:
  assumes "GetTeamMembers team s = Inr ms" and "owner_count ms > 1" and "gwf (csMembers s)"
  shows "\<exists>e m. e \<noteq> x \<and> gget (csMembers s) (team, e) = Some m \<and> mbRole m = ''owner''"
proof -
  define own where "own = filter (\<lambda>((t, e), m). t = team \<and> mbRole m = ''owner'') (csMembers s)"
  have "mset ms = mset (map (\<lambda>((t, e), m). (e, mbRole m)) (filter (\<lambda>((t, e), m). t = team) (csMembers s)))"
    using assms(1) by (auto simp: GetTeamMembers_def sql_def split: if_splits)
  then have "size (filter_mset (\<lambda>(e, r). r = ''owner'') (mset ms)) =
      size (filter_mset (\<lambda>(e, r). r = ''owner'') (mset (map (\<lambda>((t, e), m). (e, mbRole m)) (filter (\<lambda>((t, e), m). t = team) (csMembers s)))))"
    by simp
  then have "owner_count ms = length own"
    by (simp add: owner_count_def own_def mset_filter [symmetric] filter_map comp_def case_prod_unfold conj_commute del: mset_map mset_filter)
  then obtain a b rest where ab: "own = a # b # rest"
    using assms(2) by (cases own; cases "tl own") auto
  have "distinct (map fst own)" unfolding own_def using gwf_filter [OF assms(3)] by (simp add: gwf_def)
  then have ne: "fst a \<noteq> fst b" by (simp add: ab)
  have ok: "\<exists>m. gget (csMembers s) (team, snd (fst k)) = Some m \<and> mbRole m = ''owner''" "fst (fst k) = team" if "k \<in> set own" for k
    using that gget_eq_Some_iff [OF assms(3)] by (auto simp: own_def)
  have "a \<in> set own" "b \<in> set own" by (simp_all add: ab)
  note a = ok [OF this(1)] and b = ok [OF this(2)]
  have "snd (fst a) \<noteq> snd (fst b)" using ne a(2) b(2) by (simp add: prod_eq_iff)
  then have "snd (fst a) \<noteq> x \<or> snd (fst b) \<noteq> x" by auto
  then show ?thesis using a(1) b(1) by blast
qed

lemma owned_update_member:
  assumes "owned s" and "role = ''owner'' \<or> (\<exists>e r. e \<noteq> em \<and> gget (csMembers s) (team, e) = Some r \<and> mbRole r = ''owner'')"
    and "UpdateTeamMemberRole team em role s = Inr s'"
  shows "owned s'"
proof -
  obtain m where s': "csTeams s' = csTeams s" "csMembers s' = gput (team, em) (m\<lparr>mbRole := role\<rparr>) (csMembers s)"
    and m: "gget (csMembers s) (team, em) = Some m"
    using assms(3) by (auto simp: UpdateTeamMemberRole_def sql_def split: if_splits option.splits)
  have "has_owner t s'" if "has_owner t s" for t
    using that assms(2) unfolding has_owner_def s' by (cases "t = team") auto
  then show ?thesis using assms(1) by (auto simp: owned_def s')
qed

lemma owned_role:
  assumes "owned (coStore c)"
  shows "owned (coStore (snd (rpc_UpdateTeamMemberRole rt tok team em role c)))"
proof -
  have key: "owned s'" if cl: "owner_claims rt tok team c = Inr cl" and u: "UpdateTeamMemberRole team em role (coStore c) = Inr s'"
    and g: "em = clEmail cl \<and> role \<noteq> ''owner'' \<longrightarrow> (\<exists>ms. GetTeamMembers team (coStore c) = Inr ms \<and> owner_count ms > 1)" for cl s'
  proof (cases "em = clEmail cl \<and> role \<noteq> ''owner''")
    case True
    then obtain ms where "GetTeamMembers team (coStore c) = Inr ms" "owner_count ms > 1" using g by blast
    then show ?thesis using second_owner [of team "coStore c" ms em] assms owned_update_member [OF assms _ u] by (auto simp: owned_def)
  next
    case False
    then show ?thesis using owner_claims_role [OF cl] by (intro owned_update_member [OF assms _ u]) metis
  qed
  show ?thesis
    using assms by (auto simp: rpc_UpdateTeamMemberRole_def with_store_def Let_def dest: key split: sum.splits)
qed

text \<open>An owner who accepts an invite to the own team becomes a member; every other call is harmless.\<close>

definition accepts_own_invite :: "coord_op \<Rightarrow> coord \<Rightarrow> bool" where
  "accepts_own_invite op c =
     (case op of
        OpAccept rt tok code \<Rightarrow>
          (case (validateJWT rt tok c, gget (csInvites (coStore c)) code) of
             (Inr cl, Some i) \<Rightarrow>
               (case gget (csMembers (coStore c)) (ivTeam i, clEmail cl) of Some m \<Rightarrow> mbRole m = ''owner'' | None \<Rightarrow> False)
           | _ \<Rightarrow> False)
      | _ \<Rightarrow> False)"

inductive team_run :: "coord \<Rightarrow> coord \<Rightarrow> bool" where
  start: "team_run c c"
| step: "team_run c c' \<Longrightarrow> \<not> accepts_own_invite op c' \<Longrightarrow> team_run c (run_coord_op op c')"

lemma owned_accept:
  assumes "owned (coStore c)" and "\<not> accepts_own_invite (OpAccept rt tok code) c"
  shows "owned (coStore (snd (rpc_AcceptTeamInvite rt tok code c)))"
proof -
  have key: "owned s1" "owned s2" if v: "validateJWT rt tok c = Inr cl" and i: "ConsumeTeamInvite (crNow rt) code (coStore c) = Inr (team, s1)"
    and a: "AddTeamMember (crNow rt) team (clEmail cl) ''member'' s1 = Inr s2" for cl team s1 s2
  proof -
    have same: "same_teams (coStore c) s1" using same_teams_stmts(9) [OF i] .
    then show s1: "owned s1" using owned_same assms(1) by blast
    obtain iv where iv: "gget (csInvites (coStore c)) code = Some iv" "team = ivTeam iv"
      using i by (auto simp: ConsumeTeamInvite_def sql_def split: option.splits if_splits)
    obtain row where s2: "csTeams s2 = csTeams s1" "csMembers s2 = gput (team, clEmail cl) row (csMembers s1)"
      using a by (auto simp: AddTeamMember_def sql_def Let_def split: if_splits)
    have "has_owner t s2" if t: "has_owner t s1" for t
    proof -
      obtain e m where em: "gget (csMembers s1) (t, e) = Some m" "mbRole m = ''owner''" using t by (auto simp: has_owner_def)
      then have "(t, e) \<noteq> (team, clEmail cl)"
        using assms(2) same iv v by (auto simp: accepts_own_invite_def same_teams_def)
      then show ?thesis using em unfolding has_owner_def s2 by auto
    qed
    then show "owned s2" using s1 by (auto simp: owned_def s2)
  qed
  have "owned s1" if "ConsumeTeamInvite (crNow rt) code (coStore c) = Inr (team, s1)" for team s1
    using owned_same [OF same_teams_stmts(9) [OF that] assms(1)] .
  then show ?thesis
    using assms(1) by (auto simp: rpc_AcceptTeamInvite_def dest: key split: sum.splits prod.splits)
qed

lemma owned_team_calls:
  "owned (coStore c) \<Longrightarrow> owned (coStore (snd (rpc_CreateTeamInvite rt tok t mu ttl c)))"
  "owned (coStore c) \<Longrightarrow> owned (coStore (snd (rpc_DeleteTeam rt tok t c)))"
  using owned_same [OF same_teams_stmts(8)] owned_DeleteTeam
  by (auto simp: rpc_CreateTeamInvite_def rpc_DeleteTeam_def Let_def split: sum.splits)

lemma owned_op: "owned (coStore c) \<Longrightarrow> \<not> accepts_own_invite op c \<Longrightarrow> owned (coStore (run_coord_op op c))"
  by (cases op) (simp_all add: owned_RemoveMember owned_role owned_accept owned_team_calls
      owners_kept.keep_register owners_kept.keep_node_calls owners_kept.keep_watch owners_kept.keep_rpc_CreateTeam)

text \<open>
  C23. A team never loses its last owner through removals, role changes, registrations and deletions.
  In every state that a server reaches from empty team tables by calls in which no owner accepts an
  invite to the own team, every team has an owner.
\<close>

lemma teams_keep_an_owner:
  assumes "team_run c c'" and "csTeams (coStore c) = []" and "csMembers (coStore c) = []"
    and "gget (csTeams (coStore c')) team = Some row"
  shows "has_owner team (coStore c')"
proof -
  have "owned (coStore c')"
    using assms(1-3)
  proof induction
    case (start c)
    then show ?case by (simp add: owned_def)
  next
    case (step c c' op)
    then show ?case by (blast intro: owned_op)
  qed
  then show ?thesis using assms(4) by (auto simp: owned_def)
qed

text \<open>
  Accepting an invite can orphan a team. When the only owner of a team accepts an invite to it, the
  membership is overwritten with the role member: the call succeeds, the team has no owner, and every
  later attempt to act as its owner is refused for everybody.
\<close>

lemma accepted_invite_demotes_last_owner:
  assumes "csOK (coStore c)" and "validateJWT rt tok c = Inr cl" and "gget (csInvites (coStore c)) code = Some i"
    and "unix (crNow rt) \<le> ivExpiresAt i" and "ivUseCount i < ivMaxUses i"
    and "gget (csTeams (coStore c)) (ivTeam i) = Some trow"
    and "\<And>e m. gget (csMembers (coStore c)) (ivTeam i, e) = Some m \<Longrightarrow> mbRole m = ''owner'' \<longleftrightarrow> e = clEmail cl"
  shows "\<exists>ans c'. rpc_AcceptTeamInvite rt tok code c = (Inr ans, c') \<and> \<not> has_owner (ivTeam i) (coStore c') \<and>
    (\<forall>rt' tok'. \<exists>e. owner_claims rt' tok' (ivTeam i) c' = Inl e)"
proof -
  define s1 where "s1 = (coStore c)\<lparr>csInvites := gput code (i\<lparr>ivUseCount := ivUseCount i + 1\<rparr>) (csInvites (coStore c))\<rparr>"
  define row where "row = (case gget (csMembers (coStore c)) (ivTeam i, clEmail cl) of
      Some m \<Rightarrow> m\<lparr>mbRole := ''member''\<rparr> | None \<Rightarrow> \<lparr>mbRole = ''member'', mbJoinedAt = unix (crNow rt)\<rparr>)"
  define s2 where "s2 = s1\<lparr>csMembers := gput (ivTeam i, clEmail cl) row (csMembers (coStore c))\<rparr>"
  have run: "rpc_AcceptTeamInvite rt tok code c = (Inr (ivTeam i, resolveTeamName (ivTeam i) s2), c\<lparr>coStore := s2\<rparr>)"
    using assms(1-6)
    by (simp add: rpc_AcceptTeamInvite_def ConsumeTeamInvite_def AddTeamMember_def sql_def s1_def s2_def row_def Let_def)
  have "mbRole row = ''member''" by (simp add: row_def split: option.splits)
  then have none: "\<not> has_owner (ivTeam i) s2"
    using assms(7) by (auto simp: has_owner_def s2_def s1_def split: if_splits)
  then have "\<exists>e. owner_claims rt' tok' (ivTeam i) (c\<lparr>coStore := s2\<rparr>) = Inl e" for rt' tok'
    using owner_claims_role [of rt' tok' "ivTeam i" "c\<lparr>coStore := s2\<rparr>"]
    by (cases "owner_claims rt' tok' (ivTeam i) (c\<lparr>coStore := s2\<rparr>)") (auto simp: has_owner_def)
  then show ?thesis using run none by simp
qed

text \<open>A token library that knows two tokens of one user, and a server that uses it.\<close>

definition demo_claims :: "int \<Rightarrow> string \<Rightarrow> claims" where
  "demo_claims dur kind = token_claims (5 * second) dur kind ''u@x'' []"

definition demo_jwt :: jwt_lib where
  "demo_jwt = \<lparr>
     jlSign = (\<lambda>key c. if c = demo_claims accessTokenDuration ''access'' then Some ''eyJa''
                        else if c = demo_claims refreshTokenDuration ''refresh'' then Some ''eyJr'' else None),
     jlParse = (\<lambda>key now t.
        if t = ''eyJa'' \<and> unix now < clExpiresAt (demo_claims accessTokenDuration ''access'')
        then Some (demo_claims accessTokenDuration ''access'')
        else if t = ''eyJr'' \<and> unix now < clExpiresAt (demo_claims refreshTokenDuration ''refresh'')
        then Some (demo_claims refreshTokenDuration ''refresh'') else None)\<rparr>"

definition demo_jwt_rt :: crt where
  "demo_jwt_rt = demo_rt\<lparr>crJwt := demo_jwt\<rparr>"

definition demo_teams :: coord where
  "demo_teams = run_coord_op (OpInvite demo_jwt_rt ''eyJa'' ''x'' 1 0)
     (run_coord_op (OpCreateTeam demo_jwt_rt ''eyJa'' ''crew'') (SetJWT ''key'' demo_coord))"

lemma demo_validate:
  "coKey c = Some key \<Longrightarrow> validateJWT demo_jwt_rt ''eyJa'' c = Inr (demo_claims accessTokenDuration ''access'')"
  by (simp add: validateJWT_def Validate_def demo_jwt_rt_def demo_jwt_def demo_rt_def demo_claims_def token_claims_def
      accessTokenDuration_def unix_def second_def)

lemma demo_jwt_rt_simps:
  "crNow demo_jwt_rt = 5 * second" "crIds demo_jwt_rt = (\<lambda>i. CHR ''x'' # replicate i CHR ''i'')" "crSha demo_jwt_rt = (\<lambda>s. s)"
  "crJwt demo_jwt_rt = demo_jwt"
  by (simp_all add: demo_jwt_rt_def demo_rt_def)

lemma demo_claims_email: "clEmail (demo_claims d k) = ''u@x''"
  by (simp add: demo_claims_def token_claims_def)

lemma demo_create:
  "run_coord_op (OpCreateTeam demo_jwt_rt ''eyJa'' ''crew'') (SetJWT ''key'' demo_coord) =
     (SetJWT ''key'' demo_coord)\<lparr>coStore := (coStore demo_coord)\<lparr>
        csTeams := [(''x'', \<lparr>tmName = ''crew'', tmCreatedBy = ''u@x'', tmCreatedAt = unix (5 * second)\<rparr>)],
        csMembers := [((''x'', ''u@x''), \<lparr>mbRole = ''owner'', mbJoinedAt = unix (5 * second)\<rparr>)]\<rparr>\<rparr>"
  by (simp add: rpc_CreateTeam_def demo_validate SetJWT_def with_store_def CreateTeam_def demo_claims_email demo_jwt_rt_simps
      demo_coord_def NewServer_def NewStore_def)

lemma demo_teams_eq:
  "demo_teams = (SetJWT ''key'' demo_coord)\<lparr>coStore := (coStore demo_coord)\<lparr>
        csTeams := [(''x'', \<lparr>tmName = ''crew'', tmCreatedBy = ''u@x'', tmCreatedAt = unix (5 * second)\<rparr>)],
        csMembers := [((''x'', ''u@x''), \<lparr>mbRole = ''owner'', mbJoinedAt = unix (5 * second)\<rparr>)],
        csInvites := [(''x-xi'', \<lparr>ivTeam = ''x'', ivCreatedBy = ''u@x'', ivCreatedAt = unix (5 * second),
           ivExpiresAt = unix (5 * second + 7 * 24 * 3600 * second), ivMaxUses = 1, ivUseCount = 0\<rparr>)]\<rparr>\<rparr>"
  unfolding demo_teams_def demo_create
  by (simp add: rpc_CreateTeamInvite_def owner_claims_def demo_validate SetJWT_def GetUserTeamRole_def sql_def CreateTeamInvite_def
      demo_claims_email demo_jwt_rt_simps demo_coord_def NewServer_def NewStore_def Let_def duration64_def second_def)

theorem teams_keep_an_owner_witness: "has_owner ''x'' (coStore demo_teams)"
proof -
  have run: "team_run (SetJWT ''key'' demo_coord) demo_teams"
    unfolding demo_teams_def by (intro team_run.intros) (simp_all add: accepts_own_invite_def)
  show ?thesis
    by (rule teams_keep_an_owner [OF run]) (simp_all add: demo_teams_eq SetJWT_def demo_coord_def NewServer_def NewStore_def)
qed

theorem accepted_invite_demotes_last_owner_witness:
  "\<exists>ans c'. rpc_AcceptTeamInvite demo_jwt_rt ''eyJa'' ''x-xi'' demo_teams = (Inr ans, c') \<and> \<not> has_owner ''x'' (coStore c')"
proof -
  have v: "validateJWT demo_jwt_rt ''eyJa'' demo_teams = Inr (demo_claims accessTokenDuration ''access'')"
    by (rule demo_validate) (simp add: demo_teams_eq SetJWT_def)
  have "csOK (coStore demo_teams)"
    and iv: "gget (csInvites (coStore demo_teams)) ''x-xi'' = Some \<lparr>ivTeam = ''x'', ivCreatedBy = ''u@x'', ivCreatedAt = unix (5 * second),
           ivExpiresAt = unix (5 * second + 7 * 24 * 3600 * second), ivMaxUses = 1, ivUseCount = 0\<rparr>"
    and team: "gget (csTeams (coStore demo_teams)) ''x'' = Some \<lparr>tmName = ''crew'', tmCreatedBy = ''u@x'', tmCreatedAt = unix (5 * second)\<rparr>"
    and owner: "gget (csMembers (coStore demo_teams)) (''x'', e) = Some m \<Longrightarrow> mbRole m = ''owner'' \<longleftrightarrow> e = ''u@x''" for e m
    by (auto simp: demo_teams_eq SetJWT_def demo_coord_def NewServer_def NewStore_def split: if_splits)
  from accepted_invite_demotes_last_owner [OF this(1) v iv] show ?thesis
    using team owner by (simp add: demo_claims_email demo_jwt_rt_simps unix_def second_def) blast
qed

section \<open>Signed tokens\<close>

lemma signed_token:
  assumes "jwt_ok J" and "jlSign J key cl = Some t"
  shows "jlParse J key now t = (if unix now < clExpiresAt cl then Some cl else None)" and "has_prefix t ''eyJ''"
  using assms by (simp_all add: jwt_ok_def has_prefix_def numeral_3_eq_3)

text \<open>
  Access and refresh tokens. Of the two tokens issued for a user and team, the access token admits
  registrations for exactly that user and team during the hour after its issue and never refreshes; the
  refresh token never admits a registration, and exchanges for a new pair for the same user and team
  during its thirty days. Refused tokens change nothing.
\<close>

lemma token_kinds_kept_apart:
  assumes "jwt_ok (crJwt rt)" and "IssueWithTeam rt key email team = Inr (a, r)" and "crJwt rt' = crJwt rt"
  shows "fst (ValidateRegistration rt' (Some key) a n s) =
      (if unix (crNow rt') < unix (crNow rt + accessTokenDuration) then Inr \<lparr>arEmail = email, arTeamID = team\<rparr> else Inl JwtInvalid) \<and>
    Refresh rt' key r = (if unix (crNow rt') < unix (crNow rt + refreshTokenDuration) then IssueWithTeam rt' key email team else Inl JwtInvalid) \<and>
    (\<exists>e. ValidateRegistration rt' (Some key) r n s = (Inl e, s)) \<and> (\<exists>e. Refresh rt' key a = Inl e)"
proof -
  have sig: "jlSign (crJwt rt) key (token_claims (crNow rt) accessTokenDuration ''access'' email team) = Some a"
    "jlSign (crJwt rt) key (token_claims (crNow rt) refreshTokenDuration ''refresh'' email team) = Some r"
    using assms(2) by (simp_all add: IssueWithTeam_def split: option.splits)
  note A = signed_token [OF assms(1) sig(1)] and R = signed_token [OF assms(1) sig(2)]
  show ?thesis
    using A R by (simp add: ValidateRegistration_def Refresh_def Issue_def Validate_def assms(3) token_claims_def Let_def)
qed

theorem token_kinds_kept_apart_witness:
  "fst (ValidateRegistration demo_jwt_rt (Some ''k'') ''eyJa'' ''n'' (coStore demo_coord)) = Inr \<lparr>arEmail = ''u@x'', arTeamID = []\<rparr> \<and>
   (\<exists>e. ValidateRegistration demo_jwt_rt (Some ''k'') ''eyJr'' ''n'' (coStore demo_coord) = (Inl e, coStore demo_coord)) \<and>
   Refresh demo_jwt_rt ''k'' ''eyJr'' = Inr (''eyJa'', ''eyJr'')"
proof -
  have ne: "demo_claims accessTokenDuration ''access'' \<noteq> demo_claims refreshTokenDuration ''refresh''"
    by (simp add: demo_claims_def token_claims_def)
  have ok: "jwt_ok (crJwt demo_jwt_rt)"
    using ne by (auto simp: jwt_ok_def demo_jwt_rt_simps demo_jwt_def split: if_splits)
  have issue: "IssueWithTeam demo_jwt_rt ''k'' ''u@x'' [] = Inr (''eyJa'', ''eyJr'')"
    using ne by (simp add: IssueWithTeam_def demo_jwt_rt_simps demo_jwt_def demo_claims_def)
  show ?thesis
    using token_kinds_kept_apart [OF ok issue refl, of "''n''" "coStore demo_coord"]
    by (simp add: issue demo_jwt_rt_simps unix_def second_def accessTokenDuration_def refreshTokenDuration_def)
qed

section \<open>Invites\<close>

text \<open>The accepted invites of a run: how often the code let somebody join.\<close>

fun joined :: "string \<Rightarrow> coord_op \<Rightarrow> coord \<Rightarrow> bool" where
  "joined code (OpAccept rt tok code') c = (code' = code \<and> (\<exists>a c'. rpc_AcceptTeamInvite rt tok code' c = (Inr a, c')))"
| "joined code _ c = False"

fun joins :: "string \<Rightarrow> coord_op list \<Rightarrow> coord \<Rightarrow> nat" where
  "joins code [] c = 0"
| "joins code (op # ops) c = (if joined code op c then 1 else 0) + joins code ops (run_coord_op op c)"

fun draws_code :: "string \<Rightarrow> coord_op \<Rightarrow> bool" where
  "draws_code code (OpInvite rt tok t mu ttl) = (crIds rt 0 @ ''-'' @ crIds rt 1 = code)"
| "draws_code code _ = False"

text \<open>What a code still allows.\<close>

definition left_uses :: "string \<Rightarrow> coord \<Rightarrow> int" where
  "left_uses code c = (case gget (csInvites (coStore c)) code of None \<Rightarrow> 0 | Some i \<Rightarrow> max 0 (ivMaxUses i - ivUseCount i))"

definition same_invites :: "coord_store \<Rightarrow> coord_store \<Rightarrow> bool" where
  "same_invites s s' \<longleftrightarrow> csInvites s' = csInvites s"

lemma same_invites_stmts:
  "UpsertNode rec s = Inr s' \<Longrightarrow> same_invites s s'"
  "UpdateHeartbeat now n hs ms s = Inr s' \<Longrightarrow> same_invites s s'"
  "RemoveStaleNodes now s = Inr (k, s') \<Longrightarrow> same_invites s s'"
  "SetNodeTeam n team s = Inr s' \<Longrightarrow> same_invites s s'"
  "UpsertUser now em s = Inr s' \<Longrightarrow> same_invites s s'"
  "BindNodeToUser now n em s = Inr s' \<Longrightarrow> same_invites s s'"
  "ValidateAndConsumeToken now h n s = Inr s' \<Longrightarrow> same_invites s s'"
  "CreateTeam now i nm em s = Inr s' \<Longrightarrow> same_invites s s'"
  "AddTeamMember now i em ro s = Inr s' \<Longrightarrow> same_invites s s'"
  "RemoveTeamMember i em s = Inr s' \<Longrightarrow> same_invites s s'"
  "UpdateTeamMemberRole i em ro s = Inr s' \<Longrightarrow> same_invites s s'"
  "UpsertRoom room t s = Inr s' \<Longrightarrow> same_invites s s'"
  by (auto simp: same_invites_def sql_def Let_def UpsertNode_def UpdateHeartbeat_def RemoveStaleNodes_def remove_nodes_def SetNodeTeam_def
      UpsertUser_def BindNodeToUser_def ValidateAndConsumeToken_def CreateTeam_def AddTeamMember_def RemoveTeamMember_def
      UpdateTeamMemberRole_def UpsertRoom_def split: if_splits list.splits option.splits sum.splits)

interpretation invites_kept: node_frame same_invites
  by unfold_locales (simp add: same_invites_def, simp add: same_invites_def, (erule same_invites_stmts)+)

lemma left_uses_same: "same_invites (coStore c) (coStore c') \<Longrightarrow> left_uses code c' = left_uses code c"
  by (simp add: left_uses_def same_invites_def)

lemma left_uses_nonneg: "left_uses code c \<ge> 0"
  by (simp add: left_uses_def split: option.split)

lemma gget_filter_le: "gwf m \<Longrightarrow> gget (filter P m) k = None \<or> gget (filter P m) k = gget m k"
proof (cases "gget (filter P m) k")
  case (Some v)
  assume "gwf m"
  then show ?thesis using Some gget_eq_Some_iff [of "filter P m" k v] gget_eq_Some_iff [of m k v] by simp
qed simp

lemma invite_team_calls:
  "same_invites (coStore c) (coStore (snd (rpc_RemoveTeamMember rt tok t em c)))"
  "same_invites (coStore c) (coStore (snd (rpc_UpdateTeamMemberRole rt tok t em ro c)))"
  by (auto simp: rpc_RemoveTeamMember_def rpc_UpdateTeamMemberRole_def with_store_def Let_def invites_kept.keep_refl
      split: sum.splits if_splits intro: same_invites_stmts)

lemma invite_delete:
  assumes "gwf (csInvites (coStore c))"
  shows "left_uses code (snd (rpc_DeleteTeam rt tok t c)) \<le> left_uses code c"
proof -
  have "left_uses code (c\<lparr>coStore := s'\<rparr>) \<le> left_uses code c" if "DeleteTeam t (coStore c) = Inr s'" for s'
  proof -
    have "csInvites s' = filter (\<lambda>(k, i). ivTeam i \<noteq> t) (csInvites (coStore c))"
      using that by (auto simp: DeleteTeam_def sql_def split: if_splits)
    then show ?thesis
      using gget_filter_le [OF assms, of "\<lambda>(k, i). ivTeam i \<noteq> t" code] left_uses_nonneg [of code c] by (auto simp: left_uses_def)
  qed
  then show ?thesis
    by (auto simp: rpc_DeleteTeam_def left_uses_def split: sum.splits)
qed

lemma invite_create:
  assumes "crIds rt 0 @ ''-'' @ crIds rt 1 \<noteq> code"
  shows "left_uses code (snd (rpc_CreateTeamInvite rt tok t mu ttl c)) = left_uses code c"
  using assms by (auto simp: rpc_CreateTeamInvite_def Let_def left_uses_def CreateTeamInvite_def sql_def split: sum.splits if_splits)

lemma invite_accept:
  "left_uses code (snd (rpc_AcceptTeamInvite rt tok code' c)) + (if joined code (OpAccept rt tok code') c then 1 else 0) \<le> left_uses code c"
proof -
  have step: "left_uses code (c\<lparr>coStore := s1\<rparr>) + (if code' = code then 1 else 0) \<le> left_uses code c"
    if "ConsumeTeamInvite (crNow rt) code' (coStore c) = Inr (t, s1)" for t s1
    using that by (auto simp: ConsumeTeamInvite_def sql_def left_uses_def split: option.splits if_splits)
  show ?thesis
  proof (cases "\<exists>cl t s1. validateJWT rt tok c = Inr cl \<and> ConsumeTeamInvite (crNow rt) code' (coStore c) = Inr (t, s1)")
    case True
    then obtain cl t s1 where v: "validateJWT rt tok c = Inr cl" and i: "ConsumeTeamInvite (crNow rt) code' (coStore c) = Inr (t, s1)"
      by blast
    have "left_uses code (snd (rpc_AcceptTeamInvite rt tok code' c)) = left_uses code (c\<lparr>coStore := s1\<rparr>)"
      by (rule left_uses_same) (auto simp: rpc_AcceptTeamInvite_def v i same_invites_def split: sum.split
          dest: same_invites_stmts(9) [unfolded same_invites_def])
    then show ?thesis using step [OF i] by (auto split: if_splits)
  next
    case False
    then show ?thesis by (auto simp: rpc_AcceptTeamInvite_def split: sum.splits)
  qed
qed

lemma same_invites_op: "(case op of OpInvite rt tok t mu ttl \<Rightarrow> False | OpAccept rt tok cd \<Rightarrow> False | OpDeleteTeam rt tok t \<Rightarrow> False | _ \<Rightarrow> True) \<Longrightarrow>
    same_invites (coStore c) (coStore (run_coord_op op c))"
  by (cases op) (simp_all add: invites_kept.keep_register invites_kept.keep_node_calls invites_kept.keep_watch
      invites_kept.keep_rpc_CreateTeam invite_team_calls)

lemma gwf_invites_changes:
  assumes "gwf (csInvites (coStore c))"
  shows "gwf (csInvites (coStore (snd (rpc_CreateTeamInvite rt tok t mu ttl c))))"
    "gwf (csInvites (coStore (snd (rpc_DeleteTeam rt tok t c))))"
    "gwf (csInvites (coStore (snd (rpc_AcceptTeamInvite rt tok code c))))"
  using assms
  by (auto simp: rpc_CreateTeamInvite_def rpc_DeleteTeam_def rpc_AcceptTeamInvite_def CreateTeamInvite_def DeleteTeam_def ConsumeTeamInvite_def
      AddTeamMember_def sql_def Let_def split: sum.splits prod.splits if_splits option.splits)

lemma gwf_invites_op:
  assumes "gwf (csInvites (coStore c))"
  shows "gwf (csInvites (coStore (run_coord_op op c)))"
proof (cases "case op of OpInvite rt tok t mu ttl \<Rightarrow> False | OpAccept rt tok cd \<Rightarrow> False | OpDeleteTeam rt tok t \<Rightarrow> False | _ \<Rightarrow> True")
  case True
  then show ?thesis using same_invites_op [OF True] assms by (simp add: same_invites_def)
next
  case False
  then show ?thesis using gwf_invites_changes [OF assms] by (cases op) auto
qed

lemma left_uses_op:
  assumes "gwf (csInvites (coStore c))" and "\<not> draws_code code op"
  shows "left_uses code (run_coord_op op c) + (if joined code op c then 1 else 0) \<le> left_uses code c"
proof (cases "case op of OpInvite rt tok t mu ttl \<Rightarrow> False | OpAccept rt tok cd \<Rightarrow> False | OpDeleteTeam rt tok t \<Rightarrow> False | _ \<Rightarrow> True")
  case True
  then show ?thesis using left_uses_same [OF same_invites_op [OF True]] by (cases op) simp_all
next
  case False
  then show ?thesis
    using assms invite_accept [of code] invite_delete [OF assms(1)] invite_create by (cases op) simp_all
qed

text \<open>
  C35. An invite is used at most as often as it says. Starting from a state with an invite, over any
  sequence of calls in which the random code is not drawn again, at most the remaining number of uses
  of its \<open>maxUses\<close> accepting calls succeed.
\<close>

lemma invite_uses_bounded:
  assumes "gwf (csInvites (coStore c))" and "gget (csInvites (coStore c)) code = Some i" and "ivUseCount i \<le> ivMaxUses i"
    and "\<forall>op\<in>set ops. \<not> draws_code code op"
  shows "int (joins code ops c) \<le> ivMaxUses i - ivUseCount i"
proof -
  have "int (joins code ops c) \<le> left_uses code c"
    using assms(1,4)
  proof (induction ops arbitrary: c)
    case (Cons op ops)
    have "int (joins code ops (run_coord_op op c)) \<le> left_uses code (run_coord_op op c)"
      using Cons.prems by (intro Cons.IH gwf_invites_op) simp_all
    then show ?case using left_uses_op [OF Cons.prems(1), of code op] Cons.prems(2) by (auto split: if_splits)
  qed (simp add: left_uses_nonneg)
  then show ?thesis using assms(2,3) by (simp add: left_uses_def)
qed

theorem invite_uses_bounded_witness:
  "int (joins ''x-xi'' [OpAccept demo_jwt_rt ''eyJa'' ''x-xi'', OpAccept demo_jwt_rt ''eyJa'' ''x-xi''] demo_teams) \<le> 1"
proof -
  have "gwf (csInvites (coStore demo_teams))" "gget (csInvites (coStore demo_teams)) ''x-xi'' = Some \<lparr>ivTeam = ''x'', ivCreatedBy = ''u@x'',
      ivCreatedAt = unix (5 * second), ivExpiresAt = unix (5 * second + 7 * 24 * 3600 * second), ivMaxUses = 1, ivUseCount = 0\<rparr>"
    by (simp_all add: demo_teams_eq gwf_def)
  from invite_uses_bounded [OF this, of "[OpAccept demo_jwt_rt ''eyJa'' ''x-xi'', OpAccept demo_jwt_rt ''eyJa'' ''x-xi'']"]
  show ?thesis by simp
qed

end
