(* ===== verification/Coord_Updates.thy ===== *)
theory Coord_Updates
  imports Coord_Handles
begin

text \<open>
  What the watchers of the peer map see: the contents of a team's update, which channels a broadcast
  reaches, which changes it keeps to itself, and what a reconnecting watcher loses.
\<close>

section \<open>Contents of an update\<close>

lemma BuildForTeam_Inr:
  assumes "BuildForTeam team s pm = (Inr u, pm')" and "team \<noteq> []"
  shows "puPeers u = map peer_of_record (filter (\<lambda>n. \<not> rcIsRelay n) (map (\<lambda>(n, row). load_record s True True n row)
      (filter (\<lambda>(n, row). nrTeam row = team \<or> nrIsRelay row) (csNodes s))))"
    and "puRelays u = map relay_of_record (filter rcIsRelay (map (\<lambda>(n, row). load_record s True True n row)
      (filter (\<lambda>(n, row). nrTeam row = team \<or> nrIsRelay row) (csNodes s))))"
    and "ListRoomsForHandle [] team s = Inr (puRooms u)"
    and "puVersion u = pmVer pm + 1" and "pm' = pm\<lparr>pmVer := pmVer pm + 1\<rparr>"
  using assms by (auto simp: BuildForTeam_def GetNodesByTeam_def sql_def Let_def split: sum.splits if_splits)

lemma BuildForTeam_total: "csOK s \<Longrightarrow> \<exists>u pm'. BuildForTeam team s pm = (Inr u, pm')"
  by (simp add: BuildForTeam_def GetAllNodes_def GetNodesByTeam_def ListRoomsForHandle_def sql_def Let_def)

lemma prNodeId_relay_of_record [simp]: "prNodeId (relay_of_record rec) = rcNodeID rec"
  by (simp add: relay_of_record_def)

lemma RoomId_room_of_row [simp]: "RoomId (room_of_row s i r) = i"
  by (simp add: room_of_row_def)

text \<open>
  Teams are isolated. An update built for a team lists as peers exactly the team's nodes that are
  not relays, each with exactly the handles it offers, as relays every relay node of any team, and as
  rooms exactly the rooms of the team; its version is one above the last.
\<close>

lemma team_update_contents:
  assumes "gwf (csNodes s)" and "gwf (csRooms s)" and "team \<noteq> []" and "BuildForTeam team s pm = (Inr u, pm')"
  shows "ppNodeId ` set (puPeers u) = {n. \<exists>row. gget (csNodes s) n = Some row \<and> nrTeam row = team \<and> \<not> nrIsRelay row} \<and>
    (\<forall>p h. p \<in> set (puPeers u) \<longrightarrow> h \<in> set (ppHandles p) \<longleftrightarrow> offers s (ppNodeId p) h) \<and>
    prNodeId ` set (puRelays u) = {n. \<exists>row. gget (csNodes s) n = Some row \<and> nrIsRelay row} \<and>
    RoomId ` set (puRooms u) = {i. \<exists>r. gget (csRooms s) i = Some r \<and> rwTeam r = team} \<and>
    puVersion u = pmVer pm + 1"
proof (intro conjI allI impI)
  note B = BuildForTeam_Inr [OF assms(4,3)]
  note G = gget_eq_Some_iff [OF assms(1)] gget_eq_Some_iff [OF assms(2)]
  show "ppNodeId ` set (puPeers u) = {n. \<exists>row. gget (csNodes s) n = Some row \<and> nrTeam row = team \<and> \<not> nrIsRelay row}"
    unfolding B(1) G by (force simp: image_iff)
  show "prNodeId ` set (puRelays u) = {n. \<exists>row. gget (csNodes s) n = Some row \<and> nrIsRelay row}"
    unfolding B(2) G by (force simp: image_iff)
  show "h \<in> set (ppHandles p) \<longleftrightarrow> offers s (ppNodeId p) h" if "p \<in> set (puPeers u)" for p h
    using that unfolding B(1) by (auto simp: offers_load_record simp del: load_record_simps(1))
  have "puRooms u = map (\<lambda>(i, r). room_of_row s i r) (sort_slice (\<lambda>(i, a) (j, b). rwUpdatedAt a > rwUpdatedAt b)
      (filter (\<lambda>(i, r). in_team team (rwTeam r)) (csRooms s)))"
    using B(3) by (auto simp: ListRoomsForHandle_def sql_def split: if_splits)
  then show "RoomId ` set (puRooms u) = {i. \<exists>r. gget (csRooms s) i = Some r \<and> rwTeam r = team}"
    unfolding G using assms(3) by (force simp: in_team_def image_iff)
  show "puVersion u = pmVer pm + 1" by (rule B(4))
qed

theorem team_update_contents_witness:
  "\<exists>u pm. BuildForTeam ''t'' (coStore demo_team) NewPeerMap = (Inr u, pm) \<and> ppNodeId ` set (puPeers u) = {''n1'', ''n2''} \<and> puRooms u = []"
proof -
  have wf: "gwf (csNodes (coStore demo_team))" "gwf (csRooms (coStore demo_team))" "csRooms (coStore demo_team) = []"
    "\<And>n. (\<exists>row. gget (csNodes (coStore demo_team)) n = Some row \<and> nrTeam row = ''t'' \<and> \<not> nrIsRelay row) \<longleftrightarrow> n \<in> {''n1'', ''n2''}"
    by (auto simp: demo_eval gwf_def)
  obtain u pm where u: "BuildForTeam ''t'' (coStore demo_team) NewPeerMap = (Inr u, pm)"
    using BuildForTeam_total [OF demo_team_facts(1)] by blast
  note team_update_contents [OF wf(1,2) _ u]
  then have "ppNodeId ` set (puPeers u) = {''n1'', ''n2''}" "RoomId ` set (puRooms u) = {}"
    using wf(3,4) by auto
  then show ?thesis using u by simp
qed

section \<open>Broadcasts\<close>

text \<open>The watchers' channels are different, known and open.\<close>

definition watch_inv :: "peer_map \<Rightarrow> bool" where
  "watch_inv pm \<longleftrightarrow> gwf (pmWatchers pm) \<and> distinct (map fst (gvals (pmWatchers pm))) \<and>
     (\<forall>(c, t)\<in>set (gvals (pmWatchers pm)). c < pmNextChan pm \<and> (\<exists>ch. gget (pmChans pm) c = Some ch \<and> \<not> ch_closed ch))"

lemma BuildForTeam_frame: "BuildForTeam team s pm = (r, pm') \<Longrightarrow> \<exists>v. pm' = pm\<lparr>pmVer := v\<rparr>"
  by (auto simp: BuildForTeam_def Let_def split: sum.splits intro: exI [of _ "pmVer pm"])

lemma build_updates_Inr:
  assumes "build_updates ts s pm = (Inr us, pm')"
  shows "map fst us = ts \<and> (\<forall>(t, u)\<in>set us. \<exists>p p'. BuildForTeam t s p = (Inr u, p')) \<and> (\<exists>v. pm' = pm\<lparr>pmVer := v\<rparr>)"
  using assms
proof (induction ts arbitrary: pm us)
  case Nil
  then show ?case by (auto intro: exI [of _ "pmVer pm"])
next
  case (Cons t ts)
  then obtain u p1 us' where u: "BuildForTeam t s pm = (Inr u, p1)" and us: "build_updates ts s p1 = (Inr us', pm')" "us = (t, u) # us'"
    by (auto split: prod.splits sum.splits)
  show ?case using Cons.IH [OF us(1)] us(2) u BuildForTeam_frame [OF u] by auto
qed

lemma build_updates_total: "csOK s \<Longrightarrow> \<exists>us pm'. build_updates ts s pm = (Inr us, pm')"
proof (induction ts arbitrary: pm)
  case (Cons t ts)
  then obtain u pm1 where "BuildForTeam t s pm = (Inr u, pm1)" using BuildForTeam_total by blast
  moreover obtain us pm2 where "build_updates ts s pm1 = (Inr us, pm2)" using Cons by blast
  ultimately show ?case by simp
qed simp

lemma Broadcast_total: "csOK s \<Longrightarrow> \<exists>pm'. Broadcast sha s pm = (None, pm')"
  using build_updates_total [of s "watched_teams pm" pm] by (auto simp: Broadcast_def)

lemma fold_send:
  fixes chans :: "(nat, peer_update chan) gomap"
  assumes "distinct (map fst ws)"
  shows "gget (fold (\<lambda>(c, t) chans. if t \<in> T then case (gget us t, gget chans c) of (Some u, Some ch) \<Rightarrow> gput c (try_send u ch) chans | _ \<Rightarrow> chans
      else chans) ws chans) c =
    (case map_of ws c of
       Some t \<Rightarrow> (if t \<in> T then case (gget us t, gget chans c) of (Some u, Some ch) \<Rightarrow> Some (try_send u ch) | _ \<Rightarrow> gget chans c else gget chans c)
     | None \<Rightarrow> gget chans c)"
  using assms
proof (induction ws arbitrary: chans)
  case (Cons w ws)
  obtain k t where w: "w = (k, t)" by (cases w)
  have "map_of ws k = None" using Cons.prems by (simp add: w map_of_eq_None_iff)
  then show ?case using Cons.prems by (auto simp: w Cons.IH split: option.split)
qed simp

lemma gget_fold_gput: "gwf us \<Longrightarrow> gget (fold (\<lambda>(t, u). gput t (f u)) us m) t = (case gget us t of None \<Rightarrow> gget m t | Some u \<Rightarrow> Some (f u))"
proof (induction us arbitrary: m)
  case (Cons a us)
  obtain k u where a: "a = (k, u)" by (cases a)
  have "gget us k = None" "gwf us" using Cons.prems by (simp_all add: a gwf_def map_of_eq_None_iff)
  then show ?case by (auto simp: a Cons.IH split: option.split)
qed simp

lemma changed_teams_iff:
  assumes "gwf us" and "gget us t = Some u"
  shows "t \<in> set (changed_teams sha us pm) \<longleftrightarrow> update_hash sha u \<noteq> gget_or [] (pmLastHash pm) t"
proof -
  have "(t, v) \<in> set us \<longleftrightarrow> v = u" for v using gget_eq_Some_iff [OF assms(1), of t v] assms(2) by auto
  then show ?thesis by (force simp: changed_teams_def)
qed

text \<open>
  What a broadcast does. A successful broadcast puts the update built for a watcher's team at the
  end of the watcher's channel, if the channel has room and the team's topology hash differs from the
  one recorded at the last broadcast; it leaves every other channel as it was, keeps the watchers, and
  records the new hash of every watched team.
\<close>

lemma broadcast_reaches_changed_teams:
  assumes "watch_inv pm" and "Broadcast sha s pm = (None, pm')"
  shows "pmWatchers pm' = pmWatchers pm \<and>
    (\<forall>n c t. gget (pmWatchers pm) n = Some (c, t) \<longrightarrow>
       (\<exists>u ch p p'. BuildForTeam t s p = (Inr u, p') \<and> gget (pmChans pm) c = Some ch \<and> gget (pmLastHash pm') t = Some (update_hash sha u) \<and>
          gget (pmChans pm') c = Some (if update_hash sha u \<noteq> gget_or [] (pmLastHash pm) t then try_send u ch else ch))) \<and>
    (\<forall>c. c \<notin> fst ` set (gvals (pmWatchers pm)) \<longrightarrow> gget (pmChans pm') c = gget (pmChans pm) c)"
proof -
  obtain us pm1 where b: "build_updates (watched_teams pm) s pm = (Inr us, pm1)"
    and pm': "pm' = send_updates (changed_teams sha us pm1) us (note_hashes sha us pm1)"
    using assms(2) by (auto simp: Broadcast_def split: prod.splits sum.splits)
  note U = build_updates_Inr [OF b]
  have fr: "pmWatchers pm1 = pmWatchers pm" "pmChans pm1 = pmChans pm" "pmLastHash pm1 = pmLastHash pm" using U by auto
  have wfu: "gwf us" using U by (simp add: gwf_def watched_teams_def)
  have d: "distinct (map fst (gvals (pmWatchers pm)))" using assms(1) by (simp add: watch_inv_def)
  have chans: "gget (pmChans pm') c =
    (case map_of (gvals (pmWatchers pm)) c of
       Some t \<Rightarrow> (if t \<in> set (changed_teams sha us pm1) then case (gget us t, gget (pmChans pm) c) of (Some u, Some ch) \<Rightarrow> Some (try_send u ch)
          | _ \<Rightarrow> gget (pmChans pm) c else gget (pmChans pm) c)
     | None \<Rightarrow> gget (pmChans pm) c)" for c
    unfolding pm' send_updates_def using fold_send [OF d] by (simp add: note_hashes_def fr)
  have "\<exists>u ch p p'. BuildForTeam t s p = (Inr u, p') \<and> gget (pmChans pm) c = Some ch \<and> gget (pmLastHash pm') t = Some (update_hash sha u) \<and>
      gget (pmChans pm') c = Some (if update_hash sha u \<noteq> gget_or [] (pmLastHash pm) t then try_send u ch else ch)"
    if n: "gget (pmWatchers pm) n = Some (c, t)" for n c t
  proof -
    have mem: "(c, t) \<in> set (gvals (pmWatchers pm))" using gget_in_set [OF n] by force
    have c: "map_of (gvals (pmWatchers pm)) c = Some t" using mem d by simp
    have "t \<in> set (watched_teams pm)" using imageI [OF mem, of snd] by (simp add: watched_teams_def image_image)
    then have "t \<in> set (gkeys us)" using U by simp
    then obtain u where u: "(t, u) \<in> set us" by force
    then have gu: "gget us t = Some u" using wfu by (simp add: gget_eq_Some_iff)
    obtain ch where ch: "gget (pmChans pm) c = Some ch" using assms(1) mem by (fastforce simp: watch_inv_def)
    have "gget (pmLastHash pm') t = Some (update_hash sha u)"
      using gget_fold_gput [OF wfu, of "update_hash sha" "pmLastHash pm1" t] gu
      by (simp add: pm' send_updates_def note_hashes_def)
    moreover have "gget (pmChans pm') c = Some (if update_hash sha u \<noteq> gget_or [] (pmLastHash pm) t then try_send u ch else ch)"
      using changed_teams_iff [OF wfu gu, of sha pm1] by (simp add: chans c gu ch fr)
    ultimately show ?thesis using U u ch by blast
  qed
  moreover have "gget (pmChans pm') c = gget (pmChans pm) c" if "c \<notin> fst ` set (gvals (pmWatchers pm))" for c
  proof -
    have "map_of (gvals (pmWatchers pm)) c = None" using that by (simp only: map_of_eq_None_iff not_False_eq_True set_map)
    then show ?thesis by (simp add: chans)
  qed
  moreover have "pmWatchers pm' = pmWatchers pm" by (simp add: pm' send_updates_def note_hashes_def fr)
  ultimately show ?thesis by blast
qed

text \<open>Two watchers: a node of team \<open>t\<close> opens the stream before another node registers.\<close>

definition demo_watching :: coord where
  "demo_watching = snd (WatchPeerMap_open ''n1'' ''t'' True demo_team)"

lemma demo_watching_facts:
  "watch_inv (coPeers demo_watching)" "gget (pmWatchers (coPeers demo_watching)) ''n1'' = Some (0, ''t'')"
  "coStore demo_watching = coStore demo_team" "gget (pmChans (coPeers demo_watching)) 0 = Some (make_chan 0 8)"
  "pmLastHash (coPeers demo_watching) = []"
proof -
  have "coPeers demo_team = NewPeerMap" by (simp add: demo_eval broadcast_def Broadcast_def watched_teams_def send_updates_def note_hashes_def changed_teams_def NewPeerMap_def)
  then obtain u pm where "BuildForTeam ''t'' (coStore demo_team) (coPeers demo_team) = (Inr u, pm)" and "coPeers demo_team = NewPeerMap"
    using BuildForTeam_total [OF demo_team_facts(1)] by blast
  moreover then obtain v where "pm = NewPeerMap\<lparr>pmVer := v\<rparr>" using BuildForTeam_frame by metis
  ultimately have "coPeers demo_watching = snd (AddWatcher ''n1'' ''t'' (NewPeerMap\<lparr>pmVer := v\<rparr>))" "coStore demo_watching = coStore demo_team"
    by (simp_all add: demo_watching_def WatchPeerMap_open_def watch_team_def Let_def AddWatcher_def)
  then show "watch_inv (coPeers demo_watching)" "gget (pmWatchers (coPeers demo_watching)) ''n1'' = Some (0, ''t'')"
    "coStore demo_watching = coStore demo_team" "gget (pmChans (coPeers demo_watching)) 0 = Some (make_chan 0 8)"
    "pmLastHash (coPeers demo_watching) = []"
    by (simp_all add: AddWatcher_def NewPeerMap_def watch_inv_def make_chan_def gwf_def)
qed

theorem broadcast_reaches_changed_teams_witness:
  "\<exists>pm u. Broadcast (\<lambda>s. CHR ''#'' # s) (coStore demo_team) (coPeers demo_watching) = (None, pm) \<and>
     gget (pmChans pm) 0 = Some (try_send u (make_chan 0 8))"
proof -
  obtain pm where pm: "Broadcast (\<lambda>s. CHR ''#'' # s) (coStore demo_team) (coPeers demo_watching) = (None, pm)"
    using Broadcast_total [OF demo_team_facts(1)] by blast
  from broadcast_reaches_changed_teams [OF demo_watching_facts(1) pm]
  show ?thesis using pm demo_watching_facts(2,4,5)
    by (fastforce simp: update_hash_def peerHash_def gget_or_def)
qed

section \<open>What a broadcast does not announce\<close>

text \<open>The watched teams' topology is the one recorded at the last broadcast.\<close>

definition announced :: "(string \<Rightarrow> string) \<Rightarrow> coord_store \<Rightarrow> peer_map \<Rightarrow> bool" where
  "announced sha s pm \<longleftrightarrow> (\<forall>t u p p'. t \<in> set (watched_teams pm) \<longrightarrow> BuildForTeam t s p = (Inr u, p') \<longrightarrow>
     gget_or [] (pmLastHash pm) t = update_hash sha u)"

text \<open>Peers and relays of an update come from the node and handle tables alone.\<close>

lemma load_record_cong:
  "csHandles s' = csHandles s \<Longrightarrow> csUnmarshal s' = csUnmarshal s \<Longrightarrow> load_record s' = load_record s"
proof -
  assume "csHandles s' = csHandles s" "csUnmarshal s' = csUnmarshal s"
  moreover from this(2) have "row_manifest s' = row_manifest s" by (simp add: row_manifest_def unmarshalManifest_def fun_eq_iff)
  ultimately show ?thesis by (simp add: load_record_def fun_eq_iff)
qed

lemma BuildForTeam_topology:
  assumes "csHandles s' = csHandles s" and "csUnmarshal s' = csUnmarshal s" and "csNodes s' = csNodes s"
    and "BuildForTeam t s p = (Inr u, p1)" and "BuildForTeam t s' q = (Inr u', q1)"
  shows "update_hash sha u' = update_hash sha u"
proof -
  note L = load_record_cong [OF assms(1,2)]
  have "puPeers u' = puPeers u \<and> puRelays u' = puRelays u"
    using assms(4,5)
    by (auto simp: BuildForTeam_def GetAllNodes_def GetNodesByTeam_def sql_def Let_def L assms(3) split: sum.splits if_splits)
  then show ?thesis by (simp add: update_hash_def)
qed

lemma Broadcast_announces:
  assumes "Broadcast sha s pm = (None, pm')"
  shows "announced sha s pm'"
proof -
  obtain us pm1 where b: "build_updates (watched_teams pm) s pm = (Inr us, pm1)"
    and pm': "pm' = send_updates (changed_teams sha us pm1) us (note_hashes sha us pm1)"
    using assms by (auto simp: Broadcast_def split: prod.splits sum.splits)
  note U = build_updates_Inr [OF b]
  have wfu: "gwf us" using U by (simp add: gwf_def watched_teams_def)
  have w: "watched_teams pm' = watched_teams pm" using U by (auto simp: pm' send_updates_def note_hashes_def watched_teams_def)
  show ?thesis
    unfolding announced_def
  proof (intro allI impI)
    fix t u p p' assume t: "t \<in> set (watched_teams pm')" and u: "BuildForTeam t s p = (Inr u, p')"
    have "t \<in> set (gkeys us)" using t U by (simp add: w)
    then obtain v where v: "(t, v) \<in> set us" by force
    obtain q q' where "BuildForTeam t s q = (Inr v, q')" using U v by blast
    then have "update_hash sha v = update_hash sha u" using u by (intro BuildForTeam_topology [OF refl refl refl])
    moreover have "gget us t = Some v" using v wfu by (simp add: gget_eq_Some_iff)
    ultimately show "gget_or [] (pmLastHash pm') t = update_hash sha u"
      using gget_fold_gput [OF wfu, of "update_hash sha" "pmLastHash pm1" t] by (simp add: pm' send_updates_def note_hashes_def gget_or_def)
  qed
qed

lemma Broadcast_silent:
  assumes "announced sha s pm" and "csHandles s' = csHandles s" and "csUnmarshal s' = csUnmarshal s" and "csNodes s' = csNodes s" and "csOK s"
  shows "pmChans (snd (Broadcast sha s' pm)) = pmChans pm"
proof (cases "build_updates (watched_teams pm) s' pm")
  case (Pair r pm1)
  show ?thesis
  proof (cases r)
    case (Inl e)
    have "pmChans pm1 = pmChans pm" if "build_updates ts s' pm = (r, pm1)" for ts r pm pm1
      using that by (induction ts arbitrary: pm r) (auto split: prod.splits sum.splits dest!: BuildForTeam_frame)
    then show ?thesis using Pair Inl by (simp add: Broadcast_def)
  next
    case (Inr us)
    note U = build_updates_Inr [OF Pair [unfolded Inr]]
    have "changed_teams sha us pm1 = []"
      unfolding changed_teams_def
    proof (simp add: filter_empty_conv, intro ballI, clarify)
      fix t u assume tu: "(t, u) \<in> set us" and ne: "update_hash sha u \<noteq> gget_or [] (pmLastHash pm1) t"
      obtain q q' where "BuildForTeam t s' q = (Inr u, q')" using U tu by blast
      moreover obtain v p where v: "BuildForTeam t s pm = (Inr v, p)" using BuildForTeam_total [OF assms(5)] by blast
      ultimately have "update_hash sha u = update_hash sha v" using BuildForTeam_topology [OF assms(2-4)] by blast
      moreover have "t \<in> set (watched_teams pm)" using U tu by (metis in_set_zipE zip_map_fst_snd)
      moreover from this have "gget_or [] (pmLastHash pm) t = update_hash sha v" using assms(1) v unfolding announced_def by blast
      moreover have "pmLastHash pm1 = pmLastHash pm" using U by auto
      ultimately show False using ne by simp
    qed
    moreover have "fold (\<lambda>p c. c) xs z = z" for xs :: "'x list" and z :: 'y by (induction xs) simp_all
    ultimately show ?thesis using U Pair Inr by (auto simp: Broadcast_def send_updates_def note_hashes_def case_prod_unfold)
  qed
qed

text \<open>
  Room changes reach nobody. Right after a broadcast, a successful \<open>UpsertRoom\<close> stores the room, so
  that an update built for its team lists it, but the broadcast it triggers puts nothing on any
  watcher's channel, because the topology hash leaves rooms out: the watchers learn of the room only
  when some node or handle changes.
\<close>

lemma room_upsert_not_announced:
  assumes "csOK (coStore c)" and "rpc_UpsertRoom rt (Some room) team (broadcast rt c) = (None, c')"
  shows "pmChans (coPeers c') = pmChans (coPeers (broadcast rt c)) \<and>
    (\<exists>u pm. BuildForTeam team (coStore c') (coPeers c') = (Inr u, pm) \<and> RoomId room \<in> RoomId ` set (puRooms u))"
proof -
  obtain s where s: "UpsertRoom room team (coStore c) = Inr s" and c': "c' = broadcast rt ((broadcast rt c)\<lparr>coStore := s\<rparr>)"
    using assms(2) by (auto simp: rpc_UpsertRoom_def split: sum.splits)
  obtain row rows where s': "s = (coStore c)\<lparr>csRooms := gput (RoomId room) row (csRooms (coStore c)), csRoomMembers := rows\<rparr>" "rwTeam row = team"
    using s by (auto simp: UpsertRoom_def sql_def Let_def split: if_splits sum.splits)
  obtain pm where pm: "Broadcast (crSha rt) (coStore c) (coPeers c) = (None, pm)" using Broadcast_total [OF assms(1)] by blast
  have "pmChans (snd (Broadcast (crSha rt) s pm)) = pmChans pm"
    by (rule Broadcast_silent [OF Broadcast_announces [OF pm]]) (simp_all add: s' assms(1))
  then have "pmChans (coPeers c') = pmChans (coPeers (broadcast rt c))"
    by (simp add: c' broadcast_def pm)
  moreover have st: "coStore c' = s" and ok: "csOK s" by (simp_all add: c' s' assms(1))
  moreover obtain u pm2 where u: "BuildForTeam team s (coPeers c') = (Inr u, pm2)" using BuildForTeam_total [OF ok] by blast
  moreover have "RoomId room \<in> RoomId ` set (puRooms u)"
  proof -
    have "ListRoomsForHandle [] team s = Inr (puRooms u)"
      using u by (auto simp: BuildForTeam_def Let_def split: sum.splits)
    then have "puRooms u = map (\<lambda>(i, r). room_of_row s i r) (sort_slice (\<lambda>(i, a) (j, b). rwUpdatedAt a > rwUpdatedAt b)
        (filter (\<lambda>(i, r). in_team team (rwTeam r)) (csRooms s)))"
      using ok by (simp add: ListRoomsForHandle_def sql_def)
    moreover have "(RoomId room, row) \<in> set (csRooms s)" by (rule gget_in_set) (simp add: s')
    ultimately show ?thesis using s'(2) by (force simp: in_team_def image_iff)
  qed
  ultimately show ?thesis by blast
qed

definition demo_room :: room_info where
  "demo_room = \<lparr>RoomId = ''r'', Title = ''T'', CreatedBy = ''h'', HomeNodeId = ''n1'', Members = [''h''], Status = ''open'',
     NextSeq = 1, CreatedAtUnix = 5, UpdatedAtUnix = 5\<rparr>"

theorem room_upsert_not_announced_witness:
  "\<exists>c'. rpc_UpsertRoom demo_rt (Some demo_room) ''t'' (broadcast demo_rt demo_watching) = (None, c') \<and>
     pmChans (coPeers c') = pmChans (coPeers (broadcast demo_rt demo_watching))"
proof -
  have ok: "csOK (coStore demo_watching)" by (simp add: demo_watching_facts demo_team_facts(1))
  moreover have "csRoomMembers (coStore demo_team) = []" by (simp add: demo_eval)
  ultimately obtain c' where "rpc_UpsertRoom demo_rt (Some demo_room) ''t'' (broadcast demo_rt demo_watching) = (None, c')"
    by (simp add: rpc_UpsertRoom_def UpsertRoom_def sql_def demo_room_def demo_watching_facts Let_def)
  with room_upsert_not_announced [OF ok this] show ?thesis by blast
qed

section \<open>Reconnecting\<close>

text \<open>
  An old stream takes the new watcher along. When a node opens the peer-map stream again before the
  server noticed the end of its first stream, the end of the first call removes the watcher of the
  second and closes its channel: once its buffer is empty the new stream ends, and the node is in no
  broadcast until it reconnects.
\<close>

lemma reconnected_watcher_removed:
  assumes "WatchPeerMap_open n t1 True c = (Inr (u1, ch1), c1)" and "WatchPeerMap_open n t2 True c1 = (Inr (u2, ch2), c2)"
  shows "ch1 \<noteq> ch2 \<and> gget (pmWatchers (coPeers c2)) n = Some (ch2, watch_team n t2 (coStore c1)) \<and>
    gget (pmWatchers (coPeers (WatchPeerMap_close n c2))) n = None \<and>
    fst (WatchPeerMap_next ch2 (WatchPeerMap_close n c2)) = Ended \<and> fst (WatchPeerMap_next ch1 (WatchPeerMap_close n c2)) = Idle"
proof -
  obtain p1 where p1: "BuildForTeam (watch_team n t1 (coStore c)) (coStore c) (coPeers c) = (Inr u1, p1)"
    and a1: "AddWatcher n (watch_team n t1 (coStore c)) p1 = (ch1, coPeers c1)"
    using assms(1) by (auto simp: WatchPeerMap_open_def Let_def split: prod.splits sum.splits)
  obtain p2 where p2: "BuildForTeam (watch_team n t2 (coStore c1)) (coStore c1) (coPeers c1) = (Inr u2, p2)"
    and a2: "AddWatcher n (watch_team n t2 (coStore c1)) p2 = (ch2, coPeers c2)"
    using assms(2) by (auto simp: WatchPeerMap_open_def Let_def split: prod.splits sum.splits)
  obtain v where "p2 = (coPeers c1)\<lparr>pmVer := v\<rparr>" using BuildForTeam_frame [OF p2] by blast
  moreover have "coPeers c1 = snd (AddWatcher n (watch_team n t1 (coStore c)) p1)" "ch1 = pmNextChan p1" using a1 by (auto simp: AddWatcher_def Let_def)
  moreover have "coPeers c2 = snd (AddWatcher n (watch_team n t2 (coStore c1)) p2)" "ch2 = pmNextChan p2" using a2 by (auto simp: AddWatcher_def Let_def)
  ultimately show ?thesis
    by (simp add: AddWatcher_def Let_def WatchPeerMap_close_def RemoveWatcher_def WatchPeerMap_next_def make_chan_def)
qed

theorem reconnected_watcher_removed_witness:
  "\<exists>u ch c. WatchPeerMap_open ''n1'' ''t'' True demo_watching = (Inr (u, ch), c) \<and>
     fst (WatchPeerMap_next ch (WatchPeerMap_close ''n1'' c)) = Ended"
proof -
  have open_total: "\<exists>u ch c'. WatchPeerMap_open n t True c = (Inr (u, ch), c')" if ok: "csOK (coStore c)" for n t c
  proof -
    obtain u pm where "BuildForTeam (watch_team n t (coStore c)) (coStore c) (coPeers c) = (Inr u, pm)" using BuildForTeam_total [OF ok] by blast
    then show ?thesis by (simp add: WatchPeerMap_open_def Let_def AddWatcher_def)
  qed
  obtain u1 ch1 where 1: "WatchPeerMap_open ''n1'' ''t'' True demo_team = (Inr (u1, ch1), demo_watching)"
    using open_total [OF demo_team_facts(1), of "''n1''" "''t''"] by (auto simp: demo_watching_def)
  obtain u2 ch2 c2 where 2: "WatchPeerMap_open ''n1'' ''t'' True demo_watching = (Inr (u2, ch2), c2)"
    using open_total [of demo_watching "''n1''" "''t''"] demo_watching_facts(3) demo_team_facts(1) by auto
  show ?thesis using reconnected_watcher_removed [OF 1 2] 2 by blast
qed

end
