(* ===== verification/Coord_Rest.thy ===== *)
theory Coord_Rest
  imports Coord_Access
begin

text \<open>
  The REST API of the coordination server (\<open>internal/coord/rest.go\<close>, \<open>cors.go\<close>). A handler is a
  function of the Authorization header, the path values and the decoded body, with the issuer's key
  and the database it shares with the gRPC server. The two front ends are proved to agree.
\<close>

section \<open>Requests and answers\<close>

datatype rest_auth_error = NoBearerHeader | BadToken coord_err | NotAccessToken string

record rest_node =
  rnNodeID :: string
  rnAddr :: string
  rnHandles :: "string list"
  rnHeartbeat :: int
  rnIsRelay :: bool

datatype rest_reply =
    Unauthorized rest_auth_error
  | RestMessage int string
  | RestFailed int coord_err
  | NoContent
  | Me string
  | Teams "(string \<times> string \<times> string) list"
  | TeamCreated string string
  | TeamMembers "(string \<times> string) list"
  | RoleUpdated string string
  | InviteCreated string int
  | Nodes "rest_node list"
  | InviteAccepted string string

definition authenticate :: "crt \<Rightarrow> bytes \<Rightarrow> string \<Rightarrow> rest_auth_error + claims" where
  "authenticate rt key header =
     (if \<not> has_prefix header ''Bearer '' then Inl NoBearerHeader
      else case Validate rt key (drop (length ''Bearer '') header) of
             Inl e \<Rightarrow> Inl (BadToken e)
           | Inr cl \<Rightarrow> if clType cl \<noteq> ''access'' then Inl (NotAccessToken (clType cl)) else Inr cl)"

text \<open>Every handler starts with the caller's claims; most go on with the caller's role in a team.\<close>

definition with_claims ::
  "crt \<Rightarrow> bytes \<Rightarrow> string \<Rightarrow> coord_store \<Rightarrow> (claims \<Rightarrow> rest_reply \<times> coord_store) \<Rightarrow> rest_reply \<times> coord_store" where
  "with_claims rt key header s f = (case authenticate rt key header of Inl e \<Rightarrow> (Unauthorized e, s) | Inr cl \<Rightarrow> f cl)"

definition with_role ::
  "string \<Rightarrow> claims \<Rightarrow> (string \<Rightarrow> bool) \<Rightarrow> string \<Rightarrow> coord_store \<Rightarrow> rest_reply \<times> coord_store \<Rightarrow> rest_reply \<times> coord_store" where
  "with_role team cl allowed msg s r =
     (case GetUserTeamRole team (clEmail cl) s of
        Inl e \<Rightarrow> (RestFailed 500 e, s)
      | Inr role \<Rightarrow> if \<not> allowed role then (RestMessage 403 msg, s) else r)"

definition stored :: "int \<Rightarrow> rest_reply \<Rightarrow> coord_store cresult \<Rightarrow> coord_store \<Rightarrow> rest_reply \<times> coord_store" where
  "stored status ok r s = (case r of Inl e \<Rightarrow> (RestFailed status e, s) | Inr s' \<Rightarrow> (ok, s'))"

section \<open>Handlers\<close>

definition handleMe :: "crt \<Rightarrow> bytes \<Rightarrow> string \<Rightarrow> coord_store \<Rightarrow> rest_reply \<times> coord_store" where
  "handleMe rt key header s = with_claims rt key header s (\<lambda>cl. (Me (clEmail cl), s))"

definition handleListTeams :: "crt \<Rightarrow> bytes \<Rightarrow> string \<Rightarrow> coord_store \<Rightarrow> rest_reply \<times> coord_store" where
  "handleListTeams rt key header s = with_claims rt key header s (\<lambda>cl.
     case ListUserTeams (clEmail cl) s of Inl e \<Rightarrow> (RestFailed 500 e, s) | Inr ts \<Rightarrow> (Teams ts, s))"

definition handleCreateTeam :: "crt \<Rightarrow> bytes \<Rightarrow> string \<Rightarrow> string option \<Rightarrow> coord_store \<Rightarrow> rest_reply \<times> coord_store" where
  "handleCreateTeam rt key header body s = with_claims rt key header s (\<lambda>cl.
     case body of
       None \<Rightarrow> (RestMessage 400 ''name is required'', s)
     | Some name \<Rightarrow>
         if name = [] then (RestMessage 400 ''name is required'', s)
         else stored 409 (TeamCreated (crIds rt 0) name) (CreateTeam (crNow rt) (crIds rt 0) name (clEmail cl) s) s)"

definition handleDeleteTeam :: "crt \<Rightarrow> bytes \<Rightarrow> string \<Rightarrow> string \<Rightarrow> coord_store \<Rightarrow> rest_reply \<times> coord_store" where
  "handleDeleteTeam rt key header team s = with_claims rt key header s (\<lambda>cl.
     with_role team cl (\<lambda>role. role = ''owner'') ''only team owners can delete teams'' s
       (stored 500 NoContent (DeleteTeam team s) s))"

definition handleGetMembers :: "crt \<Rightarrow> bytes \<Rightarrow> string \<Rightarrow> string \<Rightarrow> coord_store \<Rightarrow> rest_reply \<times> coord_store" where
  "handleGetMembers rt key header team s = with_claims rt key header s (\<lambda>cl.
     with_role team cl (\<lambda>role. role \<noteq> []) ''not a member of this team'' s
       (case GetTeamMembers team s of Inl e \<Rightarrow> (RestFailed 500 e, s) | Inr ms \<Rightarrow> (TeamMembers ms, s)))"

definition handleRemoveMember :: "crt \<Rightarrow> bytes \<Rightarrow> string \<Rightarrow> string \<Rightarrow> string \<Rightarrow> coord_store \<Rightarrow> rest_reply \<times> coord_store" where
  "handleRemoveMember rt key header team email s = with_claims rt key header s (\<lambda>cl.
     with_role team cl (\<lambda>role. role = ''owner'') ''only team owners can remove members'' s
       (if email = clEmail cl then (RestMessage 400 ''cannot remove yourself; transfer ownership first or delete the team'', s)
        else stored 404 NoContent (RemoveTeamMember team email s) s))"

definition handleUpdateRole ::
  "crt \<Rightarrow> bytes \<Rightarrow> string \<Rightarrow> string \<Rightarrow> string \<Rightarrow> string option \<Rightarrow> coord_store \<Rightarrow> rest_reply \<times> coord_store" where
  "handleUpdateRole rt key header team email body s = with_claims rt key header s (\<lambda>cl.
     let role = (case body of None \<Rightarrow> [] | Some r \<Rightarrow> r);
         update = stored 404 (RoleUpdated email role) (UpdateTeamMemberRole team email role s) s
     in if role \<noteq> ''owner'' \<and> role \<noteq> ''member'' then (RestMessage 400 (''role must be 'owner' or 'member'' @ [CHR 0x27]), s)
        else with_role team cl (\<lambda>role. role = ''owner'') ''only team owners can change roles'' s
          (if email = clEmail cl \<and> role \<noteq> ''owner''
           then case GetTeamMembers team s of
                  Inl e \<Rightarrow> (RestFailed 500 e, s)
                | Inr ms \<Rightarrow>
                    if owner_count ms \<le> 1 then (RestMessage 400 ''cannot demote the last owner; promote another member first'', s)
                    else update
           else update))"

text \<open>The body of an invite request is optional: what is missing or undecodable is 0.\<close>

definition handleCreateInvite :: "crt \<Rightarrow> bytes \<Rightarrow> string \<Rightarrow> string \<Rightarrow> int \<Rightarrow> int \<Rightarrow> coord_store \<Rightarrow> rest_reply \<times> coord_store" where
  "handleCreateInvite rt key header team reqMaxUses ttlSeconds s = with_claims rt key header s (\<lambda>cl.
     with_role team cl (\<lambda>role. role = ''owner'') ''only team owners can create invites'' s
       (let maxUses = (if reqMaxUses \<le> 0 then 1 else reqMaxUses);
            ttl = duration64 (ttlSeconds * second);
            ttl = (if ttl \<le> 0 then 7 * 24 * 3600 * second else ttl);
            expiresAt = crNow rt + ttl;
            code = crIds rt 0 @ ''-'' @ crIds rt 1
        in stored 500 (InviteCreated code (unix expiresAt)) (CreateTeamInvite (crNow rt) code team (clEmail cl) expiresAt maxUses s) s))"

definition rest_node_of :: "node_record \<Rightarrow> rest_node" where
  "rest_node_of n = \<lparr>rnNodeID = rcNodeID n, rnAddr = rcAddr n, rnHandles = rcHandles n, rnHeartbeat = unix (rcHeartbeat n), rnIsRelay = rcIsRelay n\<rparr>"

definition handleGetNodes :: "crt \<Rightarrow> bytes \<Rightarrow> string \<Rightarrow> string \<Rightarrow> coord_store \<Rightarrow> rest_reply \<times> coord_store" where
  "handleGetNodes rt key header team s = with_claims rt key header s (\<lambda>cl.
     with_role team cl (\<lambda>role. role \<noteq> []) ''not a member of this team'' s
       (case GetNodesByTeam team s of Inl e \<Rightarrow> (RestFailed 500 e, s) | Inr ns \<Rightarrow> (Nodes (map rest_node_of ns), s)))"

definition handleAcceptInvite :: "crt \<Rightarrow> bytes \<Rightarrow> string \<Rightarrow> string option \<Rightarrow> coord_store \<Rightarrow> rest_reply \<times> coord_store" where
  "handleAcceptInvite rt key header body s = with_claims rt key header s (\<lambda>cl.
     let code = (case body of None \<Rightarrow> [] | Some c \<Rightarrow> c)
     in if code = [] then (RestMessage 400 ''code is required'', s)
        else case ConsumeTeamInvite (crNow rt) code s of
               Inl e \<Rightarrow> (RestFailed 400 e, s)
             | Inr (team, s) \<Rightarrow>
                 (case AddTeamMember (crNow rt) team (clEmail cl) ''member'' s of
                    Inl e \<Rightarrow> (RestFailed 500 e, s)
                  | Inr s \<Rightarrow> (InviteAccepted team (resolveTeamName team s), s)))"

text \<open>Cross-origin requests: a preflight request is answered without the handler.\<close>

definition CORSMiddleware :: "string \<Rightarrow> string \<Rightarrow> 'r \<Rightarrow> ('s \<Rightarrow> 'r \<times> 's) \<Rightarrow> 's \<Rightarrow> (string \<times> 'r) \<times> 's" where
  "CORSMiddleware origin method preflight handler s =
     (if method = ''OPTIONS'' then ((origin, preflight), s)
      else case handler s of (r, s) \<Rightarrow> ((origin, r), s))"

section \<open>The two front ends agree\<close>

lemma authenticate_validateJWT:
  assumes "coKey c = Some key"
  shows "(case authenticate rt key (''Bearer '' @ tok) of Inl e \<Rightarrow> \<exists>e'. validateJWT rt tok c = Inl e' | Inr cl \<Rightarrow> validateJWT rt tok c = Inr cl)"
  using assms by (simp add: authenticate_def validateJWT_def has_prefix_def split: sum.splits)

lemma auth_cases:
  assumes "coKey c = Some key"
  obtains (bad) e e' where "authenticate rt key (''Bearer '' @ tok) = Inl e" "validateJWT rt tok c = Inl e'"
    | (ok) cl where "authenticate rt key (''Bearer '' @ tok) = Inr cl" "validateJWT rt tok c = Inr cl"
  using authenticate_validateJWT [OF assms, of rt tok] by (cases "authenticate rt key (''Bearer '' @ tok)") auto

definition agrees :: "rest_reply \<times> coord_store \<Rightarrow> bool \<times> coord_store \<Rightarrow> bool" where
  "agrees r g \<longleftrightarrow> snd r = snd g \<and>
     (case fst r of Unauthorized _ \<Rightarrow> \<not> fst g | RestMessage _ _ \<Rightarrow> \<not> fst g | RestFailed _ _ \<Rightarrow> \<not> fst g | _ \<Rightarrow> fst g)"

definition grpc :: "coord_err option \<times> coord \<Rightarrow> bool \<times> coord_store" where
  "grpc x = (fst x = None, coStore (snd x))"

definition grpc_result :: "'a cresult \<times> coord \<Rightarrow> bool \<times> coord_store" where
  "grpc_result x = (\<not> isl (fst x), coStore (snd x))"

lemmas agree_defs = agrees_def grpc_def grpc_result_def with_claims_def with_role_def stored_def owner_claims_def with_store_def

lemma agree_create:
  assumes "coKey c = Some key" and "name \<noteq> []"
  shows "agrees (handleCreateTeam rt key (''Bearer '' @ tok) (Some name) (coStore c)) (grpc (rpc_CreateTeam rt tok name c))"
  by (rule auth_cases [OF assms(1), of rt tok])
    (simp_all add: agree_defs handleCreateTeam_def rpc_CreateTeam_def assms(2) split: sum.splits)

lemma agree_delete:
  assumes "coKey c = Some key"
  shows "agrees (handleDeleteTeam rt key (''Bearer '' @ tok) team (coStore c)) (grpc (rpc_DeleteTeam rt tok team c))"
  by (rule auth_cases [OF assms, of rt tok])
    (simp_all add: agree_defs handleDeleteTeam_def rpc_DeleteTeam_def split: sum.splits)

lemma agree_remove:
  assumes "coKey c = Some key"
  shows "agrees (handleRemoveMember rt key (''Bearer '' @ tok) team email (coStore c)) (grpc (rpc_RemoveTeamMember rt tok team email c))"
  by (rule auth_cases [OF assms, of rt tok])
    (simp_all add: agree_defs handleRemoveMember_def rpc_RemoveTeamMember_def split: sum.splits)

lemma agree_role:
  assumes "coKey c = Some key"
  shows "agrees (handleUpdateRole rt key (''Bearer '' @ tok) team email (Some role) (coStore c)) (grpc (rpc_UpdateTeamMemberRole rt tok team email role c))"
  by (rule auth_cases [OF assms, of rt tok])
    (simp_all add: agree_defs handleUpdateRole_def rpc_UpdateTeamMemberRole_def Let_def split: sum.splits)

lemma agree_invite:
  assumes "coKey c = Some key"
  shows "agrees (handleCreateInvite rt key (''Bearer '' @ tok) team n ttl (coStore c)) (grpc_result (rpc_CreateTeamInvite rt tok team n ttl c))"
  by (rule auth_cases [OF assms, of rt tok])
    (simp_all add: agree_defs handleCreateInvite_def rpc_CreateTeamInvite_def Let_def split: sum.splits)

lemma agree_accept:
  assumes "coKey c = Some key" and "code \<noteq> []"
  shows "agrees (handleAcceptInvite rt key (''Bearer '' @ tok) (Some code) (coStore c)) (grpc_result (rpc_AcceptTeamInvite rt tok code c))"
  by (rule auth_cases [OF assms(1), of rt tok])
    (simp_all add: agree_defs handleAcceptInvite_def rpc_AcceptTeamInvite_def assms(2) Let_def split: sum.splits prod.splits)



text \<open>
  They differ in what the running nodes hear of it: the gRPC call sends every watcher a new peer map
  after a team is deleted; over REST the watchers of the team keep the old one.
\<close>

lemma rest_delete_not_announced:
  assumes "coKey c = Some key" and "grpc (rpc_DeleteTeam rt tok team c) = (True, s')"
  shows "handleDeleteTeam rt key (''Bearer '' @ tok) team (coStore c) = (NoContent, s') \<and>
    coPeers (snd (rpc_DeleteTeam rt tok team c)) = coPeers (force_broadcast rt (c\<lparr>coStore := s'\<rparr>))"
  by (rule auth_cases [OF assms(1), of rt tok])
    (use assms(2) in \<open>auto simp: agree_defs handleDeleteTeam_def rpc_DeleteTeam_def split: sum.splits if_split_asm\<close>)

end
