(* ===== verification/Coord_Integrity.thy ===== *)
theory Coord_Integrity
  imports Coord_Access
begin

text \<open>
  The tables of the coordination server stay well-formed: keys are unique, references point to rows
  that exist, roles and use counts are in range. Every statement of the store keeps this, hence every
  call of the server, by the frame interfaces.
\<close>

section \<open>Well-formed tables\<close>

definition handles_wf :: "coord_store \<Rightarrow> bool" where
  "handles_wf s \<longleftrightarrow> gwf (csNodes s) \<and> distinct (map (\<lambda>r. (hrHandle r, hrNode r)) (csHandles s)) \<and>
     (\<forall>r\<in>set (csHandles s). gget (csNodes s) (hrNode r) \<noteq> None)"

definition teams_wf :: "coord_store \<Rightarrow> bool" where
  "teams_wf s \<longleftrightarrow> gwf (csTeams s) \<and> gwf (csMembers s) \<and>
     (\<forall>i j x y. gget (csTeams s) i = Some x \<longrightarrow> gget (csTeams s) j = Some y \<longrightarrow> tmName x = tmName y \<longrightarrow> i = j) \<and>
     (\<forall>t e m. gget (csMembers s) (t, e) = Some m \<longrightarrow> gget (csTeams s) t \<noteq> None \<and> mbRole m \<in> {''owner'', ''member''})"

definition invites_wf :: "coord_store \<Rightarrow> bool" where
  "invites_wf s \<longleftrightarrow> gwf (csInvites s) \<and>
     (\<forall>c i. gget (csInvites s) c = Some i \<longrightarrow> gget (csTeams s) (ivTeam i) \<noteq> None \<and> 0 < ivMaxUses i \<and> 0 \<le> ivUseCount i \<and> ivUseCount i \<le> ivMaxUses i)"

definition rooms_wf :: "coord_store \<Rightarrow> bool" where
  "rooms_wf s \<longleftrightarrow> gwf (csRooms s) \<and> distinct (csRoomMembers s) \<and>
     (\<forall>(i, h)\<in>set (csRoomMembers s). gget (csRooms s) i \<noteq> None) \<and>
     (\<forall>i r. gget (csRooms s) i = Some r \<longrightarrow> 0 \<le> rwNextSeq r \<and> rwNextSeq r < 2 ^ 63)"

definition db_wf :: "coord_store \<Rightarrow> bool" where
  "db_wf s \<longleftrightarrow> handles_wf s \<and> teams_wf s \<and> invites_wf s \<and> rooms_wf s"

lemma wf_cong:
  "csNodes s' = csNodes s \<Longrightarrow> csHandles s' = csHandles s \<Longrightarrow> handles_wf s' = handles_wf s"
  "csTeams s' = csTeams s \<Longrightarrow> csMembers s' = csMembers s \<Longrightarrow> teams_wf s' = teams_wf s"
  "csTeams s' = csTeams s \<Longrightarrow> csInvites s' = csInvites s \<Longrightarrow> invites_wf s' = invites_wf s"
  "csRooms s' = csRooms s \<Longrightarrow> csRoomMembers s' = csRoomMembers s \<Longrightarrow> rooms_wf s' = rooms_wf s"
  by (simp_all add: handles_wf_def teams_wf_def invites_wf_def rooms_wf_def)

section \<open>Statements\<close>

lemma wf_admission:
  "UpsertUser now email s = Inr s' \<Longrightarrow> db_wf s' = db_wf s"
  "BindNodeToUser now n email s = Inr s' \<Longrightarrow> db_wf s' = db_wf s"
  "ValidateAndConsumeToken now hash n s = Inr s' \<Longrightarrow> db_wf s' = db_wf s"
  unfolding db_wf_def
  by (intro arg_cong2 [of _ _ _ _ "(\<and>)"] wf_cong;
      auto simp: UpsertUser_def BindNodeToUser_def ValidateAndConsumeToken_def sql_def Let_def split: if_splits list.splits option.splits)+

lemma wf_CreateTeam:
  assumes "CreateTeam now team name email s = Inr s'" and "db_wf s"
  shows "db_wf s'"
proof -
  have new: "gget (csTeams s) team = None" "\<And>i x. gget (csTeams s) i = Some x \<Longrightarrow> tmName x \<noteq> name"
    and s': "s' = s\<lparr>csTeams := gput team \<lparr>tmName = name, tmCreatedBy = email, tmCreatedAt = unix now\<rparr> (csTeams s),
      csMembers := gput (team, email) \<lparr>mbRole = ''owner'', mbJoinedAt = unix now\<rparr> (csMembers s)\<rparr>"
    using assms(1) by (auto simp: CreateTeam_def dest!: gget_in_set split: if_splits)
  have "teams_wf s" "invites_wf s" using assms(2) by (simp_all add: db_wf_def)
  then have "teams_wf s'" "invites_wf s'" using new unfolding s' teams_wf_def invites_wf_def by auto
  then show ?thesis using assms(2) wf_cong(1,4) [of s' s] by (simp add: db_wf_def s')
qed

lemma insert_handles_rows:
  "insert_handles s ms n hs rows = Inr rows' \<Longrightarrow> distinct (map (\<lambda>r. (hrHandle r, hrNode r)) rows) \<Longrightarrow>
     distinct (map (\<lambda>r. (hrHandle r, hrNode r)) rows') \<and> hrNode ` set rows' \<subseteq> insert n (hrNode ` set rows)"
proof (induction hs arbitrary: rows)
  case (Cons h hs)
  let ?row = "new_handle_row s ms n h"
  have "\<not> has_handle_row h n rows" and rec: "insert_handles s ms n hs (rows @ [?row]) = Inr rows'"
    using Cons.prems(1) by (auto split: if_splits)
  then have "distinct (map (\<lambda>r. (hrHandle r, hrNode r)) (rows @ [?row]))"
    using Cons.prems(2) by (auto simp: has_handle_row_def new_handle_row_def Let_def)
  from Cons.IH [OF rec this] show ?case by (auto simp: new_handle_row_def Let_def)
qed auto

lemma replace_handles_rows:
  "distinct (map (\<lambda>r. (hrHandle r, hrNode r)) rows) \<Longrightarrow>
     distinct (map (\<lambda>r. (hrHandle r, hrNode r)) (replace_handles s ms n hs rows)) \<and>
     hrNode ` set (replace_handles s ms n hs rows) \<subseteq> insert n (hrNode ` set rows)"
proof (induction hs arbitrary: rows)
  case (Cons h hs)
  let ?rows = "filter (\<lambda>r. \<not> (hrHandle r = h \<and> hrNode r = n)) rows @ [new_handle_row s ms n h]"
  have "distinct (map (\<lambda>r. (hrHandle r, hrNode r)) ?rows)"
    using Cons.prems by (auto simp: new_handle_row_def Let_def distinct_map_filter)
  from Cons.IH [OF this] show ?case by (auto simp: new_handle_row_def Let_def)
qed auto

lemma rows_without_ok:
  "handles_wf s \<Longrightarrow> distinct (map (\<lambda>r. (hrHandle r, hrNode r)) (rows_without n (csHandles s)))"
  "r \<in> set (rows_without n (csHandles s)) \<Longrightarrow> r \<in> set (csHandles s)"
  by (simp_all add: handles_wf_def rows_without_def distinct_map_filter)

lemma handles_wf_put:
  assumes "handles_wf s" and "distinct (map (\<lambda>r. (hrHandle r, hrNode r)) rows)"
    and "hrNode ` set rows \<subseteq> insert n (hrNode ` set (rows_without n (csHandles s)))"
  shows "handles_wf (s\<lparr>csNodes := gput n row (csNodes s), csHandles := rows\<rparr>)"
proof -
  have "gget (gput n row (csNodes s)) (hrNode r) \<noteq> None" if r: "r \<in> set rows" for r
  proof (cases "hrNode r = n")
    case False
    then have "hrNode r \<in> hrNode ` set (csHandles s)" using assms(3) r rows_without_ok(2) [of _ n s] by blast
    then show ?thesis using assms(1) False by (auto simp: handles_wf_def)
  qed simp
  then show ?thesis using assms(1,2) by (simp add: handles_wf_def)
qed

lemma wf_nodes:
  "UpsertNode rec s = Inr s' \<Longrightarrow> db_wf s \<Longrightarrow> db_wf s'"
  "UpdateHeartbeat now n hs ms s = Inr s' \<Longrightarrow> db_wf s \<Longrightarrow> db_wf s'"
  "SetNodeTeam n team s = Inr s' \<Longrightarrow> db_wf s \<Longrightarrow> db_wf s'"
  "RemoveStaleNodes now s = Inr (k, s') \<Longrightarrow> db_wf s \<Longrightarrow> db_wf s'"
proof -
  show "db_wf s'" if stmt: "UpsertNode rec s = Inr s'" and db: "db_wf s"
  proof -
    obtain rows row where ins: "insert_handles s (rcManifests rec) (rcNodeID rec) (rcHandles rec) (rows_without (rcNodeID rec) (csHandles s)) = Inr rows"
      and s': "s' = s\<lparr>csNodes := gput (rcNodeID rec) row (csNodes s), csHandles := rows\<rparr>"
      using stmt by (auto simp: UpsertNode_def sql_def Let_def split: if_splits sum.splits)
    have wf: "handles_wf s" using db by (simp add: db_wf_def)
    have "handles_wf s'"
      using insert_handles_rows [OF ins rows_without_ok(1) [OF wf]] unfolding s' by (blast intro: handles_wf_put [OF wf])
    then show ?thesis using db wf_cong(2,3,4) [of s' s] by (simp add: db_wf_def s')
  qed
  show "db_wf s'" if stmt: "UpdateHeartbeat now n hs ms s = Inr s'" and db: "db_wf s"
  proof -
    obtain row where row: "gget (csNodes s) n = Some row"
      and s': "s' = s\<lparr>csNodes := gput n (row\<lparr>nrHeartbeat := unix now\<rparr>) (csNodes s),
        csHandles := replace_handles s ms n hs (rows_without n (csHandles s))\<rparr>"
      using stmt by (auto simp: UpdateHeartbeat_def sql_def split: if_splits option.splits)
    have wf: "handles_wf s" using db by (simp add: db_wf_def)
    have "handles_wf s'"
      using replace_handles_rows [OF rows_without_ok(1) [OF wf, of n], of s ms n hs] unfolding s' by (blast intro: handles_wf_put [OF wf])
    then show ?thesis using db wf_cong(2,3,4) [of s' s] by (simp add: db_wf_def s')
  qed
  show "db_wf s'" if stmt: "SetNodeTeam n team s = Inr s'" and db: "db_wf s"
  proof (cases "gget (csNodes s) n")
    case (Some row)
    then have s': "s' = s\<lparr>csNodes := gput n (row\<lparr>nrTeam := team\<rparr>) (csNodes s)\<rparr>" using stmt by (simp add: SetNodeTeam_def sql_def split: if_splits)
    have "handles_wf s'" using db by (auto simp: s' db_wf_def handles_wf_def)
    then show ?thesis using db wf_cong(2,3,4) [of s' s] by (simp add: db_wf_def s')
  qed (use stmt db in \<open>simp add: SetNodeTeam_def sql_def split: if_splits\<close>)
  show "db_wf s'" if stmt: "RemoveStaleNodes now s = Inr (k, s')" and db: "db_wf s"
  proof -
    have s': "s' = remove_nodes (\<lambda>n row. nrHeartbeat row < unix now) s" using stmt by (simp add: RemoveStaleNodes_def sql_def Let_def split: if_splits)
    have "handles_wf s'"
      using db by (auto simp: s' db_wf_def handles_wf_def remove_nodes_def Let_def gget_filter distinct_map_filter)
    then show ?thesis using db wf_cong(2,3,4) [of s' s] by (simp add: db_wf_def s' remove_nodes_def Let_def)
  qed
qed

lemma insert_members_rows:
  "insert_members i hs rows = Inr rows' \<Longrightarrow> distinct rows \<Longrightarrow> distinct rows' \<and> fst ` set rows' \<subseteq> insert i (fst ` set rows)"
proof (induction hs arbitrary: rows)
  case (Cons h hs)
  then have "(i, h) \<notin> set rows" and rec: "insert_members i hs (rows @ [(i, h)]) = Inr rows'" by (auto split: if_splits)
  from Cons.IH [OF rec] this(1) Cons.prems(2) show ?case by auto
qed auto

lemma wf_UpsertRoom:
  assumes stmt: "UpsertRoom room team s = Inr s'" and db: "db_wf s"
  shows "db_wf s'"
proof -
  let ?old = "filter (\<lambda>(i, h). i \<noteq> RoomId room) (csRoomMembers s)"
  define row where "row = \<lparr>rwTitle = Title room, rwCreatedBy = CreatedBy room, rwHome = HomeNodeId room, rwStatus = Status room,
     rwNextSeq = uint (NextSeq room), rwCreatedAt = (case gget (csRooms s) (RoomId room) of Some r \<Rightarrow> rwCreatedAt r | None \<Rightarrow> CreatedAtUnix room),
     rwUpdatedAt = UpdatedAtUnix room, rwTeam = team\<rparr>"
  then have row: "rwNextSeq row = uint (NextSeq room)" by simp
  obtain rows where ins: "insert_members (RoomId room) (Members room) ?old = Inr rows" and seq: "uint (NextSeq room) < 2 ^ 63"
    and s': "s' = s\<lparr>csRooms := gput (RoomId room) row (csRooms s), csRoomMembers := rows\<rparr>"
    using stmt by (auto simp: UpsertRoom_def sql_def Let_def row_def split: if_splits sum.splits)
  have wf: "rooms_wf s" using db by (simp add: db_wf_def)
  have R: "distinct rows" "fst ` set rows \<subseteq> insert (RoomId room) (fst ` set ?old)"
    using insert_members_rows [OF ins] wf by (simp_all add: rooms_wf_def)
  have "gget (csRooms s') i \<noteq> None" if ih: "(i, h) \<in> set rows" for i h
  proof (cases "i = RoomId room")
    case False
    have "i \<in> insert (RoomId room) (fst ` set ?old)" using R(2) ih by (metis fst_conv image_eqI subsetD)
    then have "i \<in> fst ` set (csRoomMembers s)" using False by auto
    then show ?thesis using wf False by (auto simp: rooms_wf_def s')
  qed (simp add: s')
  then have "rooms_wf s'" using wf R(1) row seq by (auto simp: rooms_wf_def s')
  then show ?thesis using db wf_cong(1,2,3) [of s' s] by (simp add: db_wf_def s')
qed

interpretation wf_kept: node_frame "\<lambda>s s'. db_wf s \<longrightarrow> db_wf s'"
  by unfold_locales (auto simp: wf_admission intro: wf_CreateTeam wf_nodes wf_UpsertRoom)

section \<open>Team statements\<close>

lemma wf_members:
  "AddTeamMember now team email role s = Inr s' \<Longrightarrow> role \<in> {''owner'', ''member''} \<Longrightarrow> db_wf s \<Longrightarrow> db_wf s'"
  "RemoveTeamMember team email s = Inr s' \<Longrightarrow> db_wf s \<Longrightarrow> db_wf s'"
  "UpdateTeamMemberRole team email role s = Inr s' \<Longrightarrow> role \<in> {''owner'', ''member''} \<Longrightarrow> db_wf s \<Longrightarrow> db_wf s'"
proof -
  have put: "db_wf (s\<lparr>csMembers := gput (team, email) row (csMembers s)\<rparr>)"
    if db: "db_wf s" and ok: "gget (csTeams s) team \<noteq> None" "mbRole row \<in> {''owner'', ''member''}" for row
  proof -
    have "teams_wf (s\<lparr>csMembers := gput (team, email) row (csMembers s)\<rparr>)"
      using db ok unfolding db_wf_def teams_wf_def by auto
    then show ?thesis using db by (simp add: db_wf_def handles_wf_def invites_wf_def rooms_wf_def)
  qed
  show "db_wf s'" if stmt: "AddTeamMember now team email role s = Inr s'" and ok: "role \<in> {''owner'', ''member''}" and db: "db_wf s"
  proof -
    define row where "row = (case gget (csMembers s) (team, email) of Some m \<Rightarrow> m\<lparr>mbRole := role\<rparr> | None \<Rightarrow> \<lparr>mbRole = role, mbJoinedAt = unix now\<rparr>)"
    have "mbRole row = role" by (simp add: row_def split: option.split)
    moreover have "gget (csTeams s) team \<noteq> None" "s' = s\<lparr>csMembers := gput (team, email) row (csMembers s)\<rparr>"
      using stmt by (simp_all add: AddTeamMember_def sql_def Let_def row_def split: if_split_asm)
    ultimately show ?thesis using put [OF db] ok by simp
  qed
  show "db_wf s'" if stmt: "UpdateTeamMemberRole team email role s = Inr s'" and ok: "role \<in> {''owner'', ''member''}" and db: "db_wf s"
  proof -
    obtain m where m: "gget (csMembers s) (team, email) = Some m" "s' = s\<lparr>csMembers := gput (team, email) (m\<lparr>mbRole := role\<rparr>) (csMembers s)\<rparr>"
      using stmt by (auto simp: UpdateTeamMemberRole_def sql_def split: if_splits option.splits)
    then have "gget (csTeams s) team \<noteq> None" using db by (auto simp: db_wf_def teams_wf_def)
    then show ?thesis using put [OF db] ok m(2) by simp
  qed
  show "db_wf s'" if stmt: "RemoveTeamMember team email s = Inr s'" and db: "db_wf s"
  proof -
    have s': "s' = s\<lparr>csMembers := gdel (team, email) (csMembers s)\<rparr>"
      using stmt by (auto simp: RemoveTeamMember_def sql_def split: if_splits)
    have "teams_wf s'" using db unfolding s' db_wf_def teams_wf_def by auto
    then show ?thesis using db by (simp add: s' db_wf_def handles_wf_def invites_wf_def rooms_wf_def)
  qed
qed

lemma wf_invites:
  "CreateTeamInvite now code team email exp n s = Inr s' \<Longrightarrow> 0 < n \<Longrightarrow> db_wf s \<Longrightarrow> db_wf s'"
  "ConsumeTeamInvite now code s = Inr (team, s') \<Longrightarrow> db_wf s \<Longrightarrow> db_wf s'"
proof -
  have put: "db_wf (s\<lparr>csInvites := gput code i (csInvites s)\<rparr>)"
    if db: "db_wf s" and ok: "gget (csTeams s) (ivTeam i) \<noteq> None" "0 < ivMaxUses i" "0 \<le> ivUseCount i" "ivUseCount i \<le> ivMaxUses i" for i
  proof -
    have "invites_wf (s\<lparr>csInvites := gput code i (csInvites s)\<rparr>)" using db ok unfolding db_wf_def invites_wf_def by auto
    then show ?thesis using db by (simp add: db_wf_def handles_wf_def teams_wf_def rooms_wf_def)
  qed
  show "db_wf s'" if "CreateTeamInvite now code team email exp n s = Inr s'" "0 < n" "db_wf s"
    using that put by (auto simp: CreateTeamInvite_def sql_def split: if_splits)
  show "db_wf s'" if stmt: "ConsumeTeamInvite now code s = Inr (team, s')" and db: "db_wf s"
  proof -
    obtain i where "gget (csInvites s) code = Some i" "ivUseCount i < ivMaxUses i" "s' = s\<lparr>csInvites := gput code (i\<lparr>ivUseCount := ivUseCount i + 1\<rparr>) (csInvites s)\<rparr>"
      using stmt by (auto simp: ConsumeTeamInvite_def sql_def split: if_splits option.splits)
    then show ?thesis using put [OF db, of "i\<lparr>ivUseCount := ivUseCount i + 1\<rparr>"] db by (auto simp: db_wf_def invites_wf_def)
  qed
qed

lemma wf_DeleteTeam:
  assumes stmt: "DeleteTeam team s = Inr s'" and db: "db_wf s"
  shows "db_wf s'"
proof -
  have s': "csTeams s' = gdel team (csTeams s)" "csMembers s' = filter (\<lambda>((t, e), m). t \<noteq> team) (csMembers s)"
    "csInvites s' = filter (\<lambda>(c, i). ivTeam i \<noteq> team) (csInvites s)"
    "csNodes s' = map (\<lambda>(n, row). (n, if nrTeam row = team then row\<lparr>nrTeam := []\<rparr> else row)) (csNodes s)"
    "csHandles s' = csHandles s" "csRooms s' = csRooms s" "csRoomMembers s' = csRoomMembers s"
    using stmt by (auto simp: DeleteTeam_def sql_def split: if_splits)
  have wf: "handles_wf s" "teams_wf s" "invites_wf s" "rooms_wf s" using db by (simp_all add: db_wf_def)
  have "handles_wf s'" using wf(1) by (auto simp: handles_wf_def s' gget_map_snd)
  moreover have "teams_wf s'" using wf(2) by (auto simp: teams_wf_def s' gget_filter split: option.splits if_splits)
  moreover have "invites_wf s'" using wf(3) by (auto simp: invites_wf_def s' gget_filter split: option.splits if_splits)
  moreover have "rooms_wf s'" using wf(4) by (simp add: rooms_wf_def s')
  ultimately show ?thesis by (simp add: db_wf_def)
qed

section \<open>Calls\<close>

lemma wf_team_calls:
  "db_wf (coStore c) \<Longrightarrow> db_wf (coStore (snd (rpc_CreateTeamInvite rt tok t mu ttl c)))"
  "db_wf (coStore c) \<Longrightarrow> db_wf (coStore (snd (rpc_RemoveTeamMember rt tok t em c)))"
  "db_wf (coStore c) \<Longrightarrow> db_wf (coStore (snd (rpc_DeleteTeam rt tok t c)))"
  "db_wf (coStore c) \<Longrightarrow> db_wf (coStore (snd (rpc_UpdateTeamMemberRole rt tok t em ro c)))"
  "db_wf (coStore c) \<Longrightarrow> db_wf (coStore (snd (rpc_AcceptTeamInvite rt tok code c)))"
proof -
  assume db: "db_wf (coStore c)"
  show "db_wf (coStore (snd (rpc_CreateTeamInvite rt tok t mu ttl c)))"
    using db by (auto simp: rpc_CreateTeamInvite_def Let_def dest: wf_invites(1) [rotated 2] split: sum.splits)
  show "db_wf (coStore (snd (rpc_RemoveTeamMember rt tok t em c)))"
    using db by (auto simp: rpc_RemoveTeamMember_def with_store_def dest: wf_members(2) split: sum.splits)
  show "db_wf (coStore (snd (rpc_DeleteTeam rt tok t c)))"
    using db by (auto simp: rpc_DeleteTeam_def dest: wf_DeleteTeam split: sum.splits)
  have upd: "db_wf (coStore (snd (with_store (UpdateTeamMemberRole t em ro (coStore c)) c)))" if "ro \<in> {''owner'', ''member''}"
    using db that wf_members(3) [OF _ that] by (auto simp: with_store_def split: sum.splits)
  then show "db_wf (coStore (snd (rpc_UpdateTeamMemberRole rt tok t em ro c)))"
    using db by (auto simp: rpc_UpdateTeamMemberRole_def Let_def split: sum.splits)
  show "db_wf (coStore (snd (rpc_AcceptTeamInvite rt tok code c)))"
    using db by (auto simp: rpc_AcceptTeamInvite_def dest!: wf_invites(2) dest: wf_members(1) split: sum.splits prod.splits)
qed

lemma wf_op: "db_wf (coStore c) \<Longrightarrow> db_wf (coStore (run_coord_op op c))"
  by (cases op)
    (simp_all add: wf_team_calls wf_kept.keep_register wf_kept.keep_node_calls wf_kept.keep_watch wf_kept.keep_rpc_CreateTeam)

text \<open>
  C21. Whatever calls come, in whatever order, the tables of a server that started empty stay well-formed:
  node, team, membership, invite and room keys are unique, no two teams share a name, no node has two
  rows for one handle, every handle row belongs to a registered node, every membership and invite to an
  existing team, every room member to an existing room, every role is owner or member, and no invite was
  used more often than it allows.
\<close>

theorem tables_stay_well_formed:
  "db_wf (coStore (fold run_coord_op ops (SetJWT key (NewServer (NewStore mar unmar)))))"
proof -
  have "db_wf (coStore c) \<Longrightarrow> db_wf (coStore (fold run_coord_op ops c))" for c
    by (induction ops arbitrary: c) (simp_all add: wf_op)
  moreover have "db_wf (coStore (SetJWT key (NewServer (NewStore mar unmar))))"
    by (simp add: SetJWT_def NewServer_def NewStore_def db_wf_def handles_wf_def teams_wf_def invites_wf_def rooms_wf_def)
  ultimately show ?thesis by blast
qed

end
