(* ===== verification/Identity.thy ===== *)
theory Identity
  imports Relay Router
begin

text \<open>
  Node identity (\<open>internal/identity/keypair.go\<close>, \<open>cert.go\<close>, \<open>tofu.go\<close>): the key pair and its file, the
  certificate a node presents, the key other nodes read from it, and the pinning of the coordination
  server's certificate. Key derivation, PEM, X.509 and SHA-256 are parameters with the laws the code
  relies on. A file is missing, unreadable or has a content.
\<close>

datatype disk_file = Missing | Unreadable | Content bytes

datatype id_error =
    ReadKeyFailed | InvalidPEMBlock | InvalidSeedSize nat | GenerateFailed | SaveKeyFailed
  | CertFailed | NoOrganization | BadOrganization
  | NoCertificates | SaveFingerprintFailed | ReadFingerprintFailed | FingerprintMismatch string string

section \<open>Key pairs\<close>

record crypto_lib =
  cyPublic :: "bytes \<Rightarrow> bytes"
  cyPemEncode :: "string \<Rightarrow> bytes \<Rightarrow> bytes"
  cyPemDecode :: "bytes \<Rightarrow> (string \<times> bytes) option"
  cySha256 :: "bytes \<Rightarrow> bytes"

definition pem_ok :: "crypto_lib \<Rightarrow> bool" where
  "pem_ok L \<longleftrightarrow> (\<forall>t b. cyPemDecode L (cyPemEncode L t b) = Some (t, b))"

text \<open>A private key is its seed.\<close>

record keypair =
  kpPublic :: bytes
  kpSeed :: bytes

definition seedSize :: nat where
  "seedSize = 32"

definition pemType :: string where
  "pemType = ''ED25519 PRIVATE KEY''"

text \<open>\<open>rnd\<close> is the seed drawn, \<open>None\<close> if the random source fails.\<close>

definition Generate :: "crypto_lib \<Rightarrow> bytes option \<Rightarrow> id_error + keypair" where
  "Generate L rnd = (case rnd of None \<Rightarrow> Inl GenerateFailed | Some seed \<Rightarrow> Inr \<lparr>kpPublic = cyPublic L seed, kpSeed = seed\<rparr>)"

definition SavePrivateKey :: "crypto_lib \<Rightarrow> bool \<Rightarrow> keypair \<Rightarrow> disk_file \<Rightarrow> id_error option \<times> disk_file" where
  "SavePrivateKey L canWrite kp f =
     (if canWrite then (None, Content (cyPemEncode L pemType (kpSeed kp))) else (Some SaveKeyFailed, f))"

definition LoadPrivateKey :: "crypto_lib \<Rightarrow> disk_file \<Rightarrow> id_error + keypair" where
  "LoadPrivateKey L f =
     (case f of
        Content data \<Rightarrow>
          (case cyPemDecode L data of
             None \<Rightarrow> Inl InvalidPEMBlock
           | Some (t, b) \<Rightarrow>
               if t \<noteq> pemType then Inl InvalidPEMBlock
               else if length b \<noteq> seedSize then Inl (InvalidSeedSize (length b))
               else Inr \<lparr>kpPublic = cyPublic L b, kpSeed = b\<rparr>)
      | _ \<Rightarrow> Inl ReadKeyFailed)"

text \<open>\<open>os.Stat\<close> succeeds on a file that exists, readable or not.\<close>

definition LoadOrGenerate :: "crypto_lib \<Rightarrow> bytes option \<Rightarrow> bool \<Rightarrow> disk_file \<Rightarrow> (id_error + keypair) \<times> disk_file" where
  "LoadOrGenerate L rnd canWrite f =
     (if f \<noteq> Missing then (LoadPrivateKey L f, f)
      else case Generate L rnd of
             Inl e \<Rightarrow> (Inl e, f)
           | Inr kp \<Rightarrow> (case SavePrivateKey L canWrite kp f of (Some e, f) \<Rightarrow> (Inl e, f) | (None, f) \<Rightarrow> (Inr kp, f)))"

section \<open>Certificates\<close>

text \<open>What matters of a certificate: the Organization of its subject and the ECDSA key it certifies.\<close>

record cert =
  ctOrganization :: "string list"
  ctKey :: bytes

record x509_lib =
  xlCreate :: "cert \<Rightarrow> bytes option"
  xlParse :: "bytes \<Rightarrow> cert option"

definition x509_ok :: "x509_lib \<Rightarrow> bool" where
  "x509_ok X \<longleftrightarrow> (\<forall>c der. xlCreate X c = Some der \<longrightarrow> xlParse X der = Some c)"

definition SelfSignedCert :: "x509_lib \<Rightarrow> bytes \<Rightarrow> keypair \<Rightarrow> id_error + bytes" where
  "SelfSignedCert X ecKey kp =
     (case xlCreate X \<lparr>ctOrganization = [EncodeToString (kpPublic kp)], ctKey = ecKey\<rparr> of None \<Rightarrow> Inl CertFailed | Some der \<Rightarrow> Inr der)"

definition PubKeyFromCert :: "x509_lib \<Rightarrow> bytes \<Rightarrow> id_error + bytes" where
  "PubKeyFromCert X der =
     (case xlParse X der of
        None \<Rightarrow> Inl CertFailed
      | Some c \<Rightarrow>
          (case ctOrganization c of
             [] \<Rightarrow> Inl NoOrganization
           | org # _ \<Rightarrow> (case DecodeString org of None \<Rightarrow> Inl BadOrganization | Some k \<Rightarrow> Inr k)))"

section \<open>Trust on first use\<close>

definition Fingerprint :: "crypto_lib \<Rightarrow> bytes \<Rightarrow> string" where
  "Fingerprint L der = EncodeToString (cySha256 L der)"

text \<open>\<open>strings.TrimSpace\<close> on ASCII text.\<close>

definition is_space :: "char \<Rightarrow> bool" where
  "is_space c \<longleftrightarrow> c \<in> set [CHR '' '', CHR 0x09, CHR 0x0A, CHR 0x0B, CHR 0x0C, CHR 0x0D]"

definition TrimSpace :: "string \<Rightarrow> string" where
  "TrimSpace s = rev (dropWhile is_space (rev (dropWhile is_space s)))"

definition Verify :: "crypto_lib \<Rightarrow> bool \<Rightarrow> bytes list \<Rightarrow> disk_file \<Rightarrow> id_error option \<times> disk_file" where
  "Verify L canWrite rawCerts f =
     (case rawCerts of
        [] \<Rightarrow> (Some NoCertificates, f)
      | c # _ \<Rightarrow>
          (let fp = Fingerprint L c
           in case f of
                Missing \<Rightarrow> if canWrite then (None, Content fp) else (Some SaveFingerprintFailed, f)
              | Unreadable \<Rightarrow> (Some ReadFingerprintFailed, f)
              | Content data \<Rightarrow> if TrimSpace data \<noteq> fp then (Some (FingerprintMismatch fp (TrimSpace data)), f) else (None, f)))"

section \<open>The key file\<close>

text \<open>
  C33. A node keeps its identity: once \<open>LoadOrGenerate\<close> has returned a key pair, every later call on the
  file returns the same pair and leaves the file alone, and the certificate made from it gives back
  exactly the pair's public key.
\<close>

theorem identity_survives_restart:
  assumes "pem_ok L" and "x509_ok X" and "rnd \<noteq> None \<longrightarrow> length (the rnd) = seedSize"
    and "LoadOrGenerate L rnd w f = (Inr kp, f')"
  shows "LoadOrGenerate L rnd' w' f' = (Inr kp, f') \<and>
    (\<forall>ecKey der. SelfSignedCert X ecKey kp = Inr der \<longrightarrow> PubKeyFromCert X der = Inr (kpPublic kp))"
proof
  show "LoadOrGenerate L rnd' w' f' = (Inr kp, f')"
    using assms(1,3,4)
    by (auto simp: LoadOrGenerate_def Generate_def SavePrivateKey_def LoadPrivateKey_def pem_ok_def split: if_splits option.splits)
  show "\<forall>ecKey der. SelfSignedCert X ecKey kp = Inr der \<longrightarrow> PubKeyFromCert X der = Inr (kpPublic kp)"
    using assms(2) by (auto simp: SelfSignedCert_def PubKeyFromCert_def x509_ok_def simp: DecodeString_Encode split: option.splits)
qed

text \<open>A library whose PEM encoding puts the type before the data, and X.509 that encodes a certificate by its organization and key.\<close>

definition toy_crypto :: crypto_lib where
  "toy_crypto = \<lparr>cyPublic = rev, cyPemEncode = (\<lambda>t b. replicate (length t) CHR ''1'' @ CHR ''0'' # t @ b),
     cyPemDecode = (\<lambda>d. let n = length (takeWhile (\<lambda>c. c = CHR ''1'') d); r = drop (Suc n) d in Some (take n r, drop n r)),
     cySha256 = (\<lambda>b. b)\<rparr>"

lemma toy_crypto_ok: "pem_ok toy_crypto"
  by (simp add: pem_ok_def toy_crypto_def takeWhile_tail Let_def)

definition toy_x509 :: x509_lib where
  "toy_x509 = \<lparr>xlCreate = (\<lambda>c. case ctOrganization c of [org] \<Rightarrow> Some (replicate (length org) CHR ''1'' @ CHR ''0'' # org @ ctKey c) | _ \<Rightarrow> None),
     xlParse = (\<lambda>d. let n = length (takeWhile (\<lambda>c. c = CHR ''1'') d); r = drop (Suc n) d in Some \<lparr>ctOrganization = [take n r], ctKey = drop n r\<rparr>)\<rparr>"

lemma toy_x509_ok: "x509_ok toy_x509"
  by (auto simp: x509_ok_def toy_x509_def takeWhile_tail Let_def split: list.splits)

theorem identity_survives_restart_witness:
  "\<exists>kp f. LoadOrGenerate toy_crypto (Some (replicate 32 CHR ''s'')) True Missing = (Inr kp, f) \<and>
     LoadOrGenerate toy_crypto None False f = (Inr kp, f) \<and>
     PubKeyFromCert toy_x509 (the (xlCreate toy_x509 \<lparr>ctOrganization = [EncodeToString (kpPublic kp)], ctKey = ''ec''\<rparr>)) = Inr (kpPublic kp)"
proof -
  let ?rnd = "Some (replicate 32 CHR ''s'')"
  obtain kp f where run: "LoadOrGenerate toy_crypto ?rnd True Missing = (Inr kp, f)"
    by (simp add: LoadOrGenerate_def Generate_def SavePrivateKey_def)
  have "?rnd \<noteq> None \<longrightarrow> length (the ?rnd) = seedSize" by (simp add: seedSize_def)
  from identity_survives_restart [OF toy_crypto_ok toy_x509_ok this run]
  have "LoadOrGenerate toy_crypto None False f = (Inr kp, f)"
    and cert: "\<forall>ecKey der. SelfSignedCert toy_x509 ecKey kp = Inr der \<longrightarrow> PubKeyFromCert toy_x509 der = Inr (kpPublic kp)" by blast+
  moreover have "SelfSignedCert toy_x509 ''ec'' kp = Inr (the (xlCreate toy_x509 \<lparr>ctOrganization = [EncodeToString (kpPublic kp)], ctKey = ''ec''\<rparr>))"
    by (simp add: SelfSignedCert_def toy_x509_def)
  ultimately show ?thesis using run by blast
qed

section \<open>What a certificate proves\<close>

text \<open>
  A certificate does not prove an identity. \<open>SelfSignedCert\<close> uses the public key alone: whoever knows
  the public key a peer map lists for an address, with any seed and any ECDSA key of their own, makes a
  certificate that every verifying transport accepts for that address and takes for the listed node.
\<close>

theorem certificate_proves_nothing:
  assumes "x509_ok X" and "\<And>der. nPubKeyFromCert n der = (case PubKeyFromCert X der of Inl e \<Rightarrow> None | Inr k \<Rightarrow> Some k)"
    and "tlsCert t" and "verifierSet t" and "VerifyPeerKey r addr k = None"
    and "SelfSignedCert X ecKey \<lparr>kpPublic = k, kpSeed = seed\<rparr> = Inr der"
  shows "verify_certs n r t addr [der] = Inr (Some k)"
proof -
  have "PubKeyFromCert X der = Inr k"
    using assms(1,6) by (auto simp: SelfSignedCert_def PubKeyFromCert_def x509_ok_def DecodeString_Encode split: option.splits)
  then show ?thesis using assms(2-5) by (simp add: verify_certs_def)
qed

theorem certificate_proves_nothing_witness:
  "verify_certs (relay_only\<lparr>nPubKeyFromCert := (\<lambda>der. case PubKeyFromCert toy_x509 der of Inl e \<Rightarrow> None | Inr k \<Rightarrow> Some k)\<rparr>)
     sample_resolver (NewGRPCTransport True True ()) ''b:1'' [the (xlCreate toy_x509 \<lparr>ctOrganization = [EncodeToString ''kB''], ctKey = ''mallory''\<rparr>)] =
   Inr (Some ''kB'')"
proof -
  have cert: "SelfSignedCert toy_x509 ''mallory'' \<lparr>kpPublic = ''kB'', kpSeed = ''not the seed''\<rparr> =
      Inr (the (xlCreate toy_x509 \<lparr>ctOrganization = [EncodeToString ''kB''], ctKey = ''mallory''\<rparr>))"
    by (simp add: SelfSignedCert_def toy_x509_def)
  show ?thesis
    by (rule certificate_proves_nothing [OF toy_x509_ok _ _ _ _ cert])
      (simp_all add: NewGRPCTransport_def VerifyPeerKey_def sample_resolver_def GetPeerMap_def)
qed

section \<open>Pinning\<close>

lemma EncodeToString_no_space: "c \<in> set (EncodeToString bs) \<Longrightarrow> \<not> is_space c"
proof -
  have "list_all (\<lambda>n. \<not> is_space (hex_digit n)) [0..<16]" by code_simp
  then have digit: "\<not> is_space (hex_digit n)" if "n < 16" for n using that by (simp add: list_all_iff)
  have "of_char b div 16 < (16 :: nat)" "of_char b mod 16 < (16 :: nat)" for b :: char
    using nat_of_char_less_256 [of b] by linarith+
  then show "c \<in> set (EncodeToString bs) \<Longrightarrow> ?thesis" by (auto simp: EncodeToString_def digit)
qed

lemma TrimSpace_Fingerprint: "TrimSpace (Fingerprint L der) = Fingerprint L der"
proof -
  have "dropWhile is_space s = s" if "\<And>c. c \<in> set s \<Longrightarrow> \<not> is_space c" for s
    using that by (cases s) auto
  from this [of "Fingerprint L der"] this [of "rev (Fingerprint L der)"] show ?thesis
    using EncodeToString_no_space [of _ "cySha256 L der"] by (simp add: TrimSpace_def Fingerprint_def)
qed

fun verify_all :: "crypto_lib \<Rightarrow> (bool \<times> bytes list) list \<Rightarrow> disk_file \<Rightarrow> id_error option list" where
  "verify_all L [] f = []"
| "verify_all L ((w, cs) # xs) f = (case Verify L w cs f of (r, f) \<Rightarrow> r # verify_all L xs f)"

text \<open>
  C34. The first certificate is pinned: after one accepted connection on a fresh file, every later
  connection is accepted exactly when the first certificate it presents has the same fingerprint, in
  whatever number and order they come.
\<close>

theorem first_certificate_pinned:
  assumes "Verify L w cs Missing = (None, f)"
  shows "map (\<lambda>r. r = None) (verify_all L xs f) = map (\<lambda>(w, cs'). cs' \<noteq> [] \<and> Fingerprint L (hd cs') = Fingerprint L (hd cs)) xs"
proof -
  obtain c where f: "f = Content (Fingerprint L c)" "hd cs = c"
    using assms by (auto simp: Verify_def Let_def split: list.splits if_splits)
  have "fst (Verify L w' cs' f) = None \<longleftrightarrow> cs' \<noteq> [] \<and> Fingerprint L (hd cs') = Fingerprint L c" for w' cs'
    by (cases cs') (auto simp: Verify_def f TrimSpace_Fingerprint Let_def)
  moreover have "snd (Verify L w' cs' f) = f" for w' cs'
    by (cases cs') (auto simp: Verify_def f Let_def)
  ultimately show ?thesis
    by (induction xs) (auto simp: f(2) case_prod_unfold)
qed

theorem first_certificate_pinned_witness:
  "map (\<lambda>r. r = None) (verify_all toy_crypto [(True, [''other'']), (True, [''server'']), (True, [])] (Content (Fingerprint toy_crypto ''server''))) =
     [False, True, False]"
proof -
  have "Verify toy_crypto True [''server''] Missing = (None, Content (Fingerprint toy_crypto ''server''))" by (simp add: Verify_def)
  from first_certificate_pinned [OF this, of "[(True, [''other'']), (True, [''server'']), (True, [])]"]
  show ?thesis by (simp add: Fingerprint_def toy_crypto_def)
qed

end
