(* ===== verification/Team_Cli.thy ===== *)
theory Team_Cli
  imports Cli Coord_Integrity
begin

text \<open>
  The team commands (\<open>cmd/tailbus/team.go\<close>) over the coordination server and the credentials file. A
  command is a function of its arguments and of the pair of both; it prints lines and exits. What happens to
  each call on the way, the wording of errors, quoting, time formats and \<open>time.ParseDuration\<close> are
  arguments.
\<close>

section \<open>Calls of a command\<close>

text \<open>
  The fate of a call: it is answered, or does not reach the server, or is carried out and its answer does
  not come back within ten seconds.
\<close>

datatype fate = Answered | NotReached | AnswerLost

record team_env =
  teRt :: "nat \<Rightarrow> crt"
  teFate :: "nat \<Rightarrow> fate"
  teDials :: bool
  teCanWrite :: bool
  teQuote :: "string \<Rightarrow> string"
  teError :: "coord_err \<Rightarrow> string"
  teTime :: "int \<Rightarrow> string"
  teParseDuration :: "string \<Rightarrow> int option"
  teSeconds :: "int \<Rightarrow> int"

record world =
  woCoord :: coord
  woFile :: "credentials option"

type_synonym team_result = "string list \<times> nat \<times> world"

text \<open>
  The \<open>n\<close>-th call of a command. \<open>Inl\<close> carries the lines printed before the process exits with status 1:
  none for a failed call (it is logged), the error for an answer that has one.
\<close>

definition team_call :: "team_env \<Rightarrow> nat \<Rightarrow> (crt \<Rightarrow> coord \<Rightarrow> 'a cresult \<times> coord) \<Rightarrow> world \<Rightarrow> (string list + 'a) \<times> world" where
  "team_call te n f w =
     (case teFate te n of
        NotReached \<Rightarrow> (Inl [], w)
      | AnswerLost \<Rightarrow> (Inl [], w\<lparr>woCoord := snd (f (teRt te n) (woCoord w))\<rparr>)
      | Answered \<Rightarrow>
          (case f (teRt te n) (woCoord w) of
             (Inl e, c) \<Rightarrow> (Inl [''Error: '' @ teError te e], w\<lparr>woCoord := c\<rparr>)
           | (Inr r, c) \<Rightarrow> (Inr r, w\<lparr>woCoord := c\<rparr>)))"

text \<open>Calls that only have an error to report, and calls that change nothing.\<close>

definition unit_call :: "coord_err option \<times> coord \<Rightarrow> unit cresult \<times> coord" where
  "unit_call r = (case r of (Some e, c) \<Rightarrow> (Inl e, c) | (None, c) \<Rightarrow> (Inr (), c))"

definition or_exit :: "(string list + 'a) \<times> world \<Rightarrow> ('a \<Rightarrow> world \<Rightarrow> team_result) \<Rightarrow> team_result" where
  "or_exit r f = (case r of (Inl ls, w) \<Rightarrow> (ls, 1, w) | (Inr x, w) \<Rightarrow> f x w)"

definition not_logged_in :: string where
  "not_logged_in = ''Not logged in. Run 'tailbus login' first.''"

definition teamCoordClient :: "team_env \<Rightarrow> world \<Rightarrow> (string list + credentials) \<times> world" where
  "teamCoordClient te w =
     (case woFile w of
        None \<Rightarrow> (Inl [not_logged_in], w)
      | Some creds \<Rightarrow> (if teDials te then Inr creds else Inl [''Failed to connect to coord''], w))"

definition ListTeams_call :: "team_env \<Rightarrow> nat \<Rightarrow> credentials \<Rightarrow> world \<Rightarrow> (string list + (string \<times> string \<times> string) list) \<times> world" where
  "ListTeams_call te n creds = team_call te n (\<lambda>rt c. (rpc_ListTeams rt (crAccess creds) c, c))"

definition resolveTeamIDByName :: "team_env \<Rightarrow> credentials \<Rightarrow> string \<Rightarrow> world \<Rightarrow> (string list + string) \<times> world" where
  "resolveTeamIDByName te creds name w =
     (case ListTeams_call te 0 creds w of
        (Inl ls, w) \<Rightarrow> (Inl ls, w)
      | (Inr ts, w) \<Rightarrow>
          (case find (\<lambda>(i, n, r). n = name) ts of
             Some (i, _) \<Rightarrow> (Inr i, w)
           | None \<Rightarrow> (Inl [''Team '' @ teQuote te name @ '' not found. Use 'tailbus team list' to see your teams.''], w)))"

text \<open>Most commands connect, look the team up by its name and make one more call.\<close>

definition with_team :: "team_env \<Rightarrow> string \<Rightarrow> (credentials \<Rightarrow> string \<Rightarrow> world \<Rightarrow> team_result) \<Rightarrow> world \<Rightarrow> team_result" where
  "with_team te name f w =
     or_exit (teamCoordClient te w) (\<lambda>creds w. or_exit (resolveTeamIDByName te creds name w) (f creds))"

section \<open>Commands\<close>

definition team_usage :: "string \<Rightarrow> world \<Rightarrow> team_result" where
  "team_usage text w = ([''Usage: tailbus team '' @ text], 1, w)"

definition teamCreate :: "team_env \<Rightarrow> string list \<Rightarrow> world \<Rightarrow> team_result" where
  "teamCreate te args w =
     (case args of
        [] \<Rightarrow> team_usage ''create <name>'' w
      | name # _ \<Rightarrow>
          or_exit (teamCoordClient te w) (\<lambda>creds w.
          or_exit (team_call te 0 (\<lambda>rt c. unit_call (rpc_CreateTeam rt (crAccess creds) name c)) w) (\<lambda>_ w.
            ([''Team '' @ teQuote te name @ '' created (ID: '' @ crIds (teRt te 0) 0 @ '')'',
              ''You are the owner. Use 'tailbus team switch '' @ name @ [CHR 0x27] @ '' to activate.''], 0, w))))"

definition team_line :: "string \<Rightarrow> string \<times> string \<times> string \<Rightarrow> string" where
  "team_line activeTeam = (\<lambda>(i, n, r). ''  '' @ n @ ''  ['' @ r @ '']'' @ (if i = activeTeam then '' (active)'' else []))"

definition teamList :: "team_env \<Rightarrow> world \<Rightarrow> team_result" where
  "teamList te w =
     or_exit (teamCoordClient te w) (\<lambda>creds w. or_exit (ListTeams_call te 0 creds w) (\<lambda>ts w.
       (if ts = [] then [''No teams. Create one with 'tailbus team create <name>'' @ [CHR 0x27]] else map (team_line (crTeamID creds)) ts, 0, w)))"

definition teamMembers :: "team_env \<Rightarrow> string list \<Rightarrow> world \<Rightarrow> team_result" where
  "teamMembers te args w =
     or_exit (teamCoordClient te w) (\<lambda>creds w.
       let members = (\<lambda>team w.
             or_exit (team_call te 1 (\<lambda>rt c. (rpc_GetTeamMembers rt (crAccess creds) team c, c)) w) (\<lambda>ms w.
               (map (\<lambda>(e, r). ''  '' @ e @ ''  ['' @ r @ '']'') ms, 0, w)))
       in case args of
            name # _ \<Rightarrow> or_exit (resolveTeamIDByName te creds name w) members
          | [] \<Rightarrow> if crTeamID creds \<noteq> [] then members (crTeamID creds) w
                  else team_usage ''members <name>  (or set active team with 'tailbus team switch')'' w)"

text \<open>
  The lifetime of an invite. \<open>Sscanf\<close> with \<open>%dd\<close> skips spaces, reads an optional sign and the digits and
  stores the number if it fits 64 bits; what comes after the digits cannot take that back. A day count is
  multiplied out at 64 bits.
\<close>

definition scan_days :: "string \<Rightarrow> int" where
  "scan_days s =
     (let s = dropWhile (\<lambda>c. is_space c \<and> c \<noteq> CHR 0x0A) s;
          neg = (s \<noteq> [] \<and> hd s = CHR ''-'');
          s = (if s \<noteq> [] \<and> (hd s = CHR ''-'' \<or> hd s = CHR ''+'') then tl s else s);
          ds = takeWhile is_digit s;
          n = (if neg then - int (digits_val ds) else int (digits_val ds))
      in if ds = [] \<or> n \<ge> 2 ^ 63 \<or> n < - (2 ^ 63) then 0 else n)"

definition day :: int where
  "day = 24 * 3600 * second"

definition invite_ttl :: "(string \<Rightarrow> int option) \<Rightarrow> string \<Rightarrow> int option" where
  "invite_ttl parseDuration ttl =
     (case parseDuration ttl of
        Some d \<Rightarrow> Some d
      | None \<Rightarrow>
          if length ttl > 1 \<and> last ttl = CHR ''d''
          then let days = scan_days ttl in if days > 0 then Some (duration64 (days * day)) else None
          else None)"

text \<open>
  \<open>int64(d.Seconds())\<close> is computed in floating point, which is exact for whole seconds and left to \<open>frac\<close>
  otherwise; \<open>int32(uses)\<close> wraps.
\<close>

definition ttl_seconds :: "(int \<Rightarrow> int) \<Rightarrow> int \<Rightarrow> int" where
  "ttl_seconds frac d = (if d mod second = 0 then d div second else frac d)"

definition teamInvite :: "team_env \<Rightarrow> int \<Rightarrow> string \<Rightarrow> string list \<Rightarrow> world \<Rightarrow> team_result" where
  "teamInvite te uses ttl args w =
     (case args of
        [] \<Rightarrow> team_usage ''invite <name> [--uses N] [--ttl 7d]'' w
      | name # _ \<Rightarrow> with_team te name (\<lambda>creds team w.
          case invite_ttl (teParseDuration te) ttl of
            None \<Rightarrow> ([''Invalid TTL: '' @ ttl], 1, w)
          | Some d \<Rightarrow>
              or_exit (team_call te 1 (\<lambda>rt. rpc_CreateTeamInvite rt (crAccess creds) team (int32 uses) (ttl_seconds (teSeconds te) d)) w)
                (\<lambda>(code, expires) w. ([''Invite code: '' @ code, ''Expires: '' @ teTime te expires @ ''  Max uses: '' @ FormatInt uses,
                   [], ''Share this code. Others can join with:'', ''  tailbus team join '' @ code], 0, w))) w)"

definition teamJoin :: "team_env \<Rightarrow> string list \<Rightarrow> world \<Rightarrow> team_result" where
  "teamJoin te args w =
     (case args of
        [] \<Rightarrow> team_usage ''join <code>'' w
      | code # _ \<Rightarrow>
          or_exit (teamCoordClient te w) (\<lambda>creds w.
          or_exit (team_call te 0 (\<lambda>rt. rpc_AcceptTeamInvite rt (crAccess creds) code) w) (\<lambda>(team, name) w.
            ([''Joined team '' @ teQuote te name @ '' (ID: '' @ team @ '')'', ''Use 'tailbus team switch '' @ name @ [CHR 0x27] @ '' to activate.''], 0, w))))"

definition set_team :: "team_env \<Rightarrow> credentials \<Rightarrow> string \<Rightarrow> string \<Rightarrow> string list \<Rightarrow> world \<Rightarrow> team_result" where
  "set_team te creds team name lines w =
     (if teCanWrite te then (lines @ [''Restart tailbusd for the change to take effect.''], 0, w\<lparr>woFile := Some (creds\<lparr>crTeamID := team, crTeamName := name\<rparr>)\<rparr>)
      else ([], 1, w))"

definition teamSwitch :: "team_env \<Rightarrow> string list \<Rightarrow> world \<Rightarrow> team_result" where
  "teamSwitch te args w =
     (case args of
        [] \<Rightarrow> ([''Usage: tailbus team switch <name>'', ''Use empty string to switch to personal mode:'', ''  tailbus team switch \"\"''], 1, w)
      | name # _ \<Rightarrow>
          (case woFile w of
             None \<Rightarrow> ([not_logged_in], 1, w)
           | Some creds \<Rightarrow>
               if name = [] \<or> name = ''personal'' then set_team te creds [] [] [''Switched to personal mode (no team).''] w
               else with_team te name (\<lambda>_ team. set_team te creds team name
                      [''Active team set to '' @ teQuote te name @ '' (ID: '' @ team @ '')'']) w))"

definition teamRemove :: "team_env \<Rightarrow> string list \<Rightarrow> world \<Rightarrow> team_result" where
  "teamRemove te args w =
     (case args of
        name # email # _ \<Rightarrow> with_team te name (\<lambda>creds team w.
          or_exit (team_call te 1 (\<lambda>rt c. unit_call (rpc_RemoveTeamMember rt (crAccess creds) team email c)) w)
            (\<lambda>_ w. ([''Removed '' @ email @ '' from '' @ name], 0, w))) w
      | _ \<Rightarrow> team_usage ''remove <team-name> <email>'' w)"

definition teamRole :: "team_env \<Rightarrow> string list \<Rightarrow> world \<Rightarrow> team_result" where
  "teamRole te args w =
     (case args of
        name # email # role # _ \<Rightarrow> with_team te name (\<lambda>creds team w.
          or_exit (team_call te 1 (\<lambda>rt c. unit_call (rpc_UpdateTeamMemberRole rt (crAccess creds) team email role c)) w)
            (\<lambda>_ w. ([''Updated '' @ email @ '' to '' @ role @ '' in '' @ name], 0, w))) w
      | _ \<Rightarrow> team_usage ''role <team-name> <email> <owner|member>'' w)"

text \<open>A deleted team that was active is cleared from the credentials; a failed write is ignored.\<close>

definition teamDelete :: "team_env \<Rightarrow> string list \<Rightarrow> world \<Rightarrow> team_result" where
  "teamDelete te args w =
     (case args of
        [] \<Rightarrow> team_usage ''delete <team-name>'' w
      | name # _ \<Rightarrow> with_team te name (\<lambda>creds team w.
          or_exit (team_call te 1 (\<lambda>rt c. unit_call (rpc_DeleteTeam rt (crAccess creds) team c)) w) (\<lambda>_ w.
            if crTeamID creds = team
            then ([''Team '' @ teQuote te name @ '' deleted'', ''Active team cleared (was the deleted team).''], 0,
                  if teCanWrite te then w\<lparr>woFile := Some (creds\<lparr>crTeamID := [], crTeamName := []\<rparr>)\<rparr> else w)
            else ([''Team '' @ teQuote te name @ '' deleted''], 0, w))) w)"

definition team_help :: "string list" where
  "team_help = [''Usage: tailbus team <subcommand>'', [], ''Subcommands:'',
     ''  create <name>              Create a team (you become owner)'',
     ''  list                       List your teams'',
     ''  members [name]             List team members'',
     ''  invite <name>              Generate invite code'',
     ''  join <code>                Accept invite and join team'',
     ''  switch <name>              Set active team in credentials'',
     ''  remove <name> <email>      Remove a member (owner only)'',
     ''  role <name> <email> <role>  Change member role (owner only)'',
     ''  delete <name>              Delete a team (owner only)'']"

text \<open>The arguments are those left after the flags of the subcommand; \<open>uses\<close> and \<open>ttl\<close> are flags of \<open>invite\<close>.\<close>

definition runTeam :: "team_env \<Rightarrow> int \<Rightarrow> string \<Rightarrow> string list \<Rightarrow> world \<Rightarrow> team_result" where
  "runTeam te uses ttl args w =
     (case args of
        [] \<Rightarrow> (team_help, 1, w)
      | sub # rest \<Rightarrow>
          if sub = ''create'' then teamCreate te rest w
          else if sub = ''list'' then teamList te w
          else if sub = ''members'' then teamMembers te rest w
          else if sub = ''invite'' then teamInvite te uses ttl rest w
          else if sub = ''join'' then teamJoin te rest w
          else if sub = ''switch'' then teamSwitch te rest w
          else if sub = ''remove'' then teamRemove te rest w
          else if sub = ''role'' then teamRole te rest w
          else if sub = ''delete'' then teamDelete te rest w
          else ([''Unknown team subcommand: '' @ sub], 1, w))"

section \<open>Looking a team up\<close>

lemma gwf_gget: "gwf m \<Longrightarrow> (k, v) \<in> set m \<Longrightarrow> gget m k = Some v"
  by (simp add: gwf_def map_of_is_SomeI)

lemma ListUserTeams_iff:
  assumes "gwf (csTeams s)" and "csOK s"
  shows "\<exists>ts. ListUserTeams email s = Inr ts \<and>
    (\<forall>i n r. (i, n, r) \<in> set ts \<longleftrightarrow>
       (\<exists>t m. gget (csTeams s) i = Some t \<and> gget (csMembers s) (i, email) = Some m \<and> tmName t = n \<and> mbRole m = r))"
proof -
  let ?f = "\<lambda>(i, t). map_option (\<lambda>m. (i, tmName t, mbRole m)) (gget (csMembers s) (i, email))"
  have mem: "(i, t) \<in> set (csTeams s) \<longleftrightarrow> gget (csTeams s) i = Some t" for i t
    using gwf_gget [OF assms(1)] gget_in_set by metis
  have "y \<in> set (List.map_filter ?f (csTeams s)) \<longleftrightarrow> (\<exists>i t. (i, t) \<in> set (csTeams s) \<and> ?f (i, t) = Some y)" for y
    by (induction "csTeams s") (force simp: List.map_filter_def)+
  then have "(i, n, r) \<in> set (List.map_filter ?f (csTeams s)) \<longleftrightarrow>
      (\<exists>t m. gget (csTeams s) i = Some t \<and> gget (csMembers s) (i, email) = Some m \<and> tmName t = n \<and> mbRole m = r)" for i n r
    unfolding mem by auto
  then show ?thesis using assms(2) by (simp add: ListUserTeams_def sql_def)
qed

text \<open>
  Looking a team up by its name finds it exactly if the caller is one of its members, and does not
  depend on the order in which the teams are listed, because names are unique.
\<close>

lemma resolveTeamIDByName_iff:
  assumes wf: "teams_wf (coStore (woCoord w))" and "csOK (coStore (woCoord w))" and "teFate te 0 = Answered"
    and "validateJWT (teRt te 0) (crAccess creds) (woCoord w) = Inr cl"
  shows "fst (resolveTeamIDByName te creds name w) = Inr i \<longleftrightarrow>
    (\<exists>t m. gget (csTeams (coStore (woCoord w))) i = Some t \<and> tmName t = name \<and> gget (csMembers (coStore (woCoord w))) (i, clEmail cl) = Some m)"
    (is "_ \<longleftrightarrow> ?mine i")
proof -
  have g: "gwf (csTeams (coStore (woCoord w)))" using wf by (simp add: teams_wf_def)
  obtain ts where ts: "ListUserTeams (clEmail cl) (coStore (woCoord w)) = Inr ts"
    "\<forall>i n r. (i, n, r) \<in> set ts \<longleftrightarrow> (\<exists>t m. gget (csTeams (coStore (woCoord w))) i = Some t \<and>
       gget (csMembers (coStore (woCoord w))) (i, clEmail cl) = Some m \<and> tmName t = n \<and> mbRole m = r)"
    using ListUserTeams_iff [OF g assms(2), of "clEmail cl"] by blast
  have r: "fst (resolveTeamIDByName te creds name w) = Inr i \<longleftrightarrow> (\<exists>r. find (\<lambda>(i, n, r). n = name) ts = Some (i, r))"
    using assms(3,4) ts(1) by (auto simp: resolveTeamIDByName_def ListTeams_call_def team_call_def rpc_ListTeams_def split: option.splits)
  have mine: "?mine i \<longleftrightarrow> (\<exists>r. (i, name, r) \<in> set ts)" for i using ts(2) by blast
  have one: "?mine i \<Longrightarrow> ?mine j \<Longrightarrow> i = j" for i j
    using wf unfolding teams_wf_def by metis
  show ?thesis
  proof (cases "find (\<lambda>(i, n, r). n = name) ts")
    case None
    then have "\<nexists>q. (i, name, q) \<in> set ts" by (auto simp: find_None_iff)
    then show ?thesis unfolding r mine using None by simp
  next
    case (Some x)
    obtain j n q where x: "x = (j, n, q)" by (cases x)
    have "(j, n, q) \<in> set ts" "n = name" using Some by (auto simp: x find_Some_iff in_set_conv_nth)
    then have "?mine j" using mine by blast
    then show ?thesis using one [of i j] r Some by (auto simp: x)
  qed
qed

lemma resolveTeamIDByName_world [simp]: "snd (resolveTeamIDByName te creds name w) = w"
  by (auto simp: resolveTeamIDByName_def ListTeams_call_def team_call_def split: fate.split prod.split sum.split option.split)

lemma resolveTeamIDByName_ok:
  assumes "fst (resolveTeamIDByName te creds name w) = Inr i"
  obtains cl where "validateJWT (teRt te 0) (crAccess creds) (woCoord w) = Inr cl" "csOK (coStore (woCoord w))" "teFate te 0 = Answered"
  using assms by (auto simp: resolveTeamIDByName_def ListTeams_call_def team_call_def rpc_ListTeams_def ListUserTeams_def sql_def
      split: fate.splits prod.splits sum.splits if_splits)

section \<open>The active team\<close>


text \<open>A user in one team, with the calls answered.\<close>

definition demo_creds :: credentials where
  "demo_creds = \<lparr>crAccess = ''eyJa'', crRefresh = [], crEmail = ''u@x'', crCoordAddr = [], crExpires = 0, crTeamID = [], crTeamName = []\<rparr>"

definition demo_world :: world where
  "demo_world = \<lparr>woCoord = run_coord_op (OpCreateTeam demo_jwt_rt ''eyJa'' ''crew'') (SetJWT ''key'' demo_coord), woFile = Some demo_creds\<rparr>"

definition demo_env :: team_env where
  "demo_env = \<lparr>teRt = (\<lambda>_. demo_jwt_rt), teFate = (\<lambda>_. Answered), teDials = True, teCanWrite = True, teQuote = id, teError = (\<lambda>_. []),
     teTime = (\<lambda>_. []), teParseDuration = (\<lambda>_. None), teSeconds = id\<rparr>"


text \<open>A team named \<open>personal\<close> can be created, but never made active: switching to it leaves all teams.\<close>

lemma personal_team_never_active:
  "teamSwitch te (''personal'' # rest) w = (ls, 0, w') \<Longrightarrow> scTeamID cfg = [] \<Longrightarrow> resolveTeamID cfg (woFile w') = []"
  by (auto simp: teamSwitch_def set_team_def resolveTeamID_def split: option.splits if_splits)

text \<open>
  A team that was just created can be made active at once.
\<close>

lemma created_team_resolves:
  assumes wf: "db_wf (coStore (woCoord w))" and creds: "woFile w = Some creds" and ok: "teamCreate te (name # rest) w = (ls, 0, w')"
    and "teFate te' 0 = Answered" and v: "validateJWT (teRt te' 0) (crAccess creds) (woCoord w') = validateJWT (teRt te 0) (crAccess creds) (woCoord w)"
  shows "fst (resolveTeamIDByName te' creds name w') = Inr (crIds (teRt te 0) 0)"
proof -
  let ?s = "coStore (woCoord w)" and ?rt = "teRt te 0"
  obtain cl s' where cl: "validateJWT ?rt (crAccess creds) (woCoord w) = Inr cl"
    and s': "CreateTeam (crNow ?rt) (crIds ?rt 0) name (clEmail cl) ?s = Inr s'" and w': "coStore (woCoord w') = s'"
    using ok creds by (auto simp: teamCreate_def teamCoordClient_def or_exit_def team_call_def unit_call_def rpc_CreateTeam_def with_store_def
        split: fate.splits prod.splits sum.splits option.splits if_splits)
  have "db_wf s'" by (rule wf_CreateTeam [OF s' wf])
  then have "teams_wf (coStore (woCoord w'))" "csOK (coStore (woCoord w'))"
    using s' by (auto simp: w' db_wf_def CreateTeam_def split: if_splits)
  then show ?thesis
    using resolveTeamIDByName_iff [of w' te' creds cl name "crIds ?rt 0"] assms(4) v cl s'
    by (auto simp: w' CreateTeam_def split: if_splits)
qed

text \<open>Deleting the active team leaves it: the daemon is in no team after its next start.\<close>

lemma deleted_team_not_active:
  assumes ok: "teamDelete te (name # rest) w = (ls, 0, w')" and "teCanWrite te" and creds: "woFile w = Some creds" and "scTeamID cfg = []"
    and i: "fst (resolveTeamIDByName te creds name w) = Inr i"
  shows "gget (csTeams (coStore (woCoord w'))) i = None \<and> resolveTeamID cfg (woFile w') = (if crTeamID creds = i then [] else crTeamID creds)"
proof -
  obtain r where r: "resolveTeamIDByName te creds name w = (Inr i, w)"
    using i resolveTeamIDByName_world [of te creds name w] by (cases "resolveTeamIDByName te creds name w") simp
  obtain cl s where s: "DeleteTeam i (coStore (woCoord w)) = Inr s" and w': "coStore (woCoord w') = coStore (force_broadcast (teRt te 1) ((woCoord w)\<lparr>coStore := s\<rparr>))"
    "woFile w' = Some (if crTeamID creds = i then creds\<lparr>crTeamID := [], crTeamName := []\<rparr> else creds)"
    using ok creds assms(2) r by (auto simp: teamDelete_def with_team_def teamCoordClient_def or_exit_def team_call_def unit_call_def rpc_DeleteTeam_def
        split: fate.splits prod.splits sum.splits option.splits if_splits)
  have "gget (csTeams s) i = None" using s by (auto simp: DeleteTeam_def sql_def split: if_splits)
  then show ?thesis using w' assms(4) by (simp add: resolveTeamID_def)
qed

section \<open>The lifetime of invites\<close>

lemma scan_days_dec: "n < 2 ^ 63 \<Longrightarrow> scan_days (dec_nat n @ ''d'') = int n"
proof -
  assume n: "n < 2 ^ 63"
  obtain c cs where c: "dec_nat n = c # cs" "is_digit c" "list_all is_digit cs"
    using dec_nat_digits [of n] by (cases "dec_nat n") auto
  have "\<not> is_space c" "c \<noteq> CHR ''-''" "c \<noteq> CHR ''+''"
    using c(2) by (auto simp: is_digit_def is_space_def less_eq_char_def)
  moreover have "takeWhile is_digit (dec_nat n @ ''d'') = dec_nat n"
    using dec_nat_digits [of n] by (subst takeWhile_append2) (auto simp: list_all_iff is_digit_def less_eq_char_def)
  ultimately show ?thesis
    using n dec_nat_digits [of n] by (simp add: scan_days_def c Let_def)
qed

text \<open>
  A number of days is taken as it is as long as it is at most 106751, about 292 years: the invite expires
  that many days after its creation. One more day wraps to a negative duration, for which the
  server takes seven days.
\<close>

theorem day_ttl_exact:
  assumes "0 < n" and "n \<le> 106751" and "parseDuration (dec_nat n @ ''d'') = None"
  shows "invite_ttl parseDuration (dec_nat n @ ''d'') = Some (int n * day) \<and>
    duration64 (ttl_seconds frac (int n * day) * second) = int n * day"
proof -
  have small: "duration64 (int n * day) = int n * day"
    using assms(1,2) by (simp add: duration64_def day_def second_def)
  have "scan_days (dec_nat n @ ''d'') = int n" using assms(2) by (intro scan_days_dec) simp
  moreover have "dec_nat n \<noteq> []" using dec_nat_digits [of n] by simp
  ultimately have "invite_ttl parseDuration (dec_nat n @ ''d'') = Some (int n * day)"
    using assms small by (simp add: invite_ttl_def)
  moreover have "ttl_seconds frac (int n * day) * second = int n * day"
    by (simp add: ttl_seconds_def day_def second_def)
  ultimately show ?thesis using small by simp
qed

theorem day_ttl_exact_witness:
  "invite_ttl (\<lambda>s. None) (dec_nat 30 @ ''d'') = Some (int 30 * day) \<and> duration64 (ttl_seconds id (int 30 * day) * second) = int 30 * day"
  by (rule day_ttl_exact) simp_all

lemma long_ttl_wraps:
  assumes "parseDuration (dec_nat 106752 @ ''d'') = None" and "\<And>d. \<bar>frac d - d div second\<bar> \<le> 1"
  shows "\<exists>d. invite_ttl parseDuration (dec_nat 106752 @ ''d'') = Some d \<and> duration64 (ttl_seconds frac d * second) < 0"
proof -
  have "scan_days (dec_nat 106752 @ ''d'') = 106752" using scan_days_dec [of 106752] by simp
  moreover define d where "d = duration64 (106752 * day)"
  ultimately have "invite_ttl parseDuration (dec_nat 106752 @ ''d'') = Some d"
    using assms(1) dec_nat_digits [of 106752] by (simp add: invite_ttl_def)
  moreover have d: "d = - 9223371273709551616" by (simp add: d_def duration64_def day_def second_def)
  have "- 9223371275 \<le> frac d" "frac d \<le> - 9223371273" using assms(2) [of d] by (auto simp: d second_def abs_le_iff)
  then have "duration64 (ttl_seconds frac d * second) < 0"
    by (auto simp: ttl_seconds_def duration64_def d second_def)
  ultimately show ?thesis by blast
qed

end
