(* ===== verification/Dashboard.thy ===== *)
theory Dashboard
  imports Cli
begin

text \<open>
  The terminal dashboard (\<open>cmd/tailbus/dashboard.go\<close>): its model, the update function over key presses, ticks,
  status answers and activity events, and what the views compute from the model: states of handles and nodes, the
  topology, chains of open sessions and the usage grid. Styles are names; layout and colours are left to the
  terminal library.
\<close>

section \<open>The model\<close>

datatype topViewMode = TopologyView | DetailView

datatype rightPanelMode = ActivityPanel | UsagePanel

datatype usageRange = Last7d | Last30d | AllTime

definition watchRetryDelay :: int where
  "watchRetryDelay = 1500000000"

definition busyTurnStaleAfter :: int where
  "busyTurnStaleAfter = 30 * second"

definition flashDuration :: int where
  "flashDuration = 2 * second"

definition maxActivity :: nat where
  "maxActivity = 50"

record edge_flash =
  efFrom :: string
  efTo :: string
  efAt :: time

text \<open>The times of a turn are readings of the clock and never the zero time.\<close>

record busy_turn =
  btTurn :: string
  btRoom :: string
  btFrom :: string
  btTo :: string
  btRound :: "32 word"
  btSince :: time
  btStatus :: string
  btLast :: time

datatype handleTurnState = TurnIdle | TurnWorking | TurnStalled | TurnError

record topo_node =
  tnId :: string
  tnHandles :: "string list"
  tnAddr :: string
  tnConnected :: bool
  tnConnectivity :: string
  tnLocal :: bool
  tnRelay :: bool

datatype act_style = ActMsg | ActSess | ActReg | ActRoom | Help

record activity_entry =
  aeTime :: time
  aeLabel :: string
  aeStyle :: act_style

datatype status_code = Unavailable | Canceled | DeadlineExceeded | OtherCode

record dash_error =
  deCode :: status_code
  deText :: string

record dash =
  dmStatus :: "node_status option"
  dmActivity :: "activity_entry list"
  dmFlashes :: "edge_flash list"
  dmBusy :: "(string, busy_turn) gomap"
  dmLast :: "(string, handleTurnState) gomap"
  dmFrame :: int
  dmWidth :: int
  dmHeight :: int
  dmErr :: "dash_error option"
  dmQuitting :: bool
  dmTopView :: topViewMode
  dmRightPanel :: rightPanelMode
  dmMetric :: usage_metric
  dmRange :: usageRange

definition newDashboardModel :: dash where
  "newDashboardModel = \<lparr>dmStatus = None, dmActivity = [], dmFlashes = [], dmBusy = [], dmLast = [], dmFrame = 0, dmWidth = 0, dmHeight = 0,
     dmErr = None, dmQuitting = False, dmTopView = TopologyView, dmRightPanel = ActivityPanel, dmMetric = MESSAGES_ROUTED, dmRange = Last30d\<rparr>"

text \<open>The posted event of an activity event.\<close>

record posted =
  poRoom :: string
  poSeq :: "64 word"
  poFrom :: string
  poMembers :: "string list"
  poTrace :: string
  poType :: string
  poKind :: string
  poTarget :: string
  poTurn :: string
  poStatus :: string
  poRound :: "32 word"

fun posted_of :: "bus_event \<Rightarrow> posted option" where
  "posted_of (EvRoomMessagePosted room seq f ms tr ty kind target turn st round) =
     Some \<lparr>poRoom = room, poSeq = seq, poFrom = f, poMembers = ms, poTrace = tr, poType = ty, poKind = kind, poTarget = target,
           poTurn = turn, poStatus = st, poRound = round\<rparr>"
| "posted_of _ = None"

section \<open>Activity lines\<close>

definition HasSuffix :: "string \<Rightarrow> string \<Rightarrow> bool" where
  "HasSuffix s suffix \<longleftrightarrow> length suffix \<le> length s \<and> drop (length s - length suffix) s = suffix"

definition isTurnReplyKind :: "string \<Rightarrow> bool" where
  "isTurnReplyKind kind \<longleftrightarrow> HasSuffix kind ''_reply'' \<or> kind = ''apply_result''"

definition isTurnLifecycleKind :: "string \<Rightarrow> bool" where
  "isTurnLifecycleKind kind \<longleftrightarrow> kind \<in> {''turn_request'', ''turn_progress'', ''turn_timeout''} \<or> isTurnReplyKind kind"

definition shouldFlashRoomBroadcast :: "posted \<Rightarrow> bool" where
  "shouldFlashRoomBroadcast e \<longleftrightarrow> \<not> isTurnLifecycleKind (poKind e)"

definition shouldDisplayActivity :: "bus_event \<Rightarrow> bool" where
  "shouldDisplayActivity e = (case posted_of e of None \<Rightarrow> True | Some p \<Rightarrow> poKind p \<noteq> ''turn_progress'')"

definition trace_tag :: "string \<Rightarrow> string" where
  "trace_tag t = (if t = [] then [] else '' t:'' @ short t)"

definition or_default :: "string \<Rightarrow> string \<Rightarrow> string" where
  "or_default d s = (if s = [] then d else s)"

definition round_text :: "posted \<Rightarrow> string" where
  "round_text p = '' r'' @ dec_nat (unat (poRound p)) @ '' ''"

definition posted_label :: "posted \<Rightarrow> string" where
  "posted_label p =
     (let room = short (poRoom p); tag = trace_tag (poTrace p); kind = poKind p;
          reply = ''REPLY '' @ room @ round_text p @ poFrom p @ '' ['' @ or_default ''ok'' (poStatus p) @ '']'' @ tag
      in if kind = ''investigation_started'' then ''START '' @ room @ '' by '' @ poFrom p @ tag
         else if kind = ''specialist_discovered'' then ''DISCOVER '' @ room @ '' -> '' @ or_default ''?'' (poTarget p) @ tag
         else if kind = ''turn_request'' then ''TURN '' @ room @ round_text p @ poFrom p @ '' -> '' @ poTarget p @ tag
         else if kind = ''turn_progress'' then ''PING '' @ room @ round_text p @ or_default (poFrom p) (poTarget p) @ '' [working]'' @ tag
         else if kind = ''solver_reply'' then reply
         else if kind = ''turn_timeout'' then ''TIMEOUT '' @ room @ round_text p @ poTarget p @ tag
         else if kind = ''problem_opened'' then ''PROBLEM '' @ room @ '' by '' @ poFrom p @ tag
         else if kind = ''final_summary'' then ''FINAL '' @ room @ '' by '' @ poFrom p @ tag
         else if isTurnReplyKind kind then reply
         else ''ROOM '' @ room @ '' #'' @ dec_nat (unat (poSeq p)) @ '' '' @ poFrom p @ '' -> '' @ dec_nat (length (poMembers p) - 1) @ '' peers'' @ tag)"

definition event_label :: "(string \<Rightarrow> string) \<Rightarrow> bus_event \<Rightarrow> string \<times> act_style" where
  "event_label quote e =
     (case e of
        EvMessageRouted sid f t remote tr mid \<Rightarrow>
          (''MSG '' @ f @ '' -> '' @ t @ '' '' @ (if remote then ''[REMOTE -->]'' else ''[LOCAL]'') @ trace_tag tr, ActMsg)
      | EvSessionOpened sid f t \<Rightarrow> (''OPEN '' @ f @ '' -> '' @ t @ '' ('' @ short sid @ '')'', ActSess)
      | EvSessionResolved sid f \<Rightarrow> (''RESOLVE '' @ f @ '' ('' @ short sid @ '')'', ActSess)
      | EvHandleRegistered h \<Rightarrow> (''REG '' @ quote h, ActReg)
      | EvRoomCreated room title by ms \<Rightarrow>
          (''ROOM+ '' @ short room @ '' by '' @ by @ '' ['' @ dec_nat (length ms) @ '' members]'', ActRoom)
      | EvRoomMemberJoined room h ms \<Rightarrow> (''JOIN '' @ h @ '' -> room '' @ short room, ActRoom)
      | EvRoomMemberLeft room h ms \<Rightarrow> (''LEAVE '' @ h @ '' <- room '' @ short room, ActRoom)
      | EvRoomClosed room by ms \<Rightarrow> (''ROOM- '' @ short room @ '' by '' @ by, ActRoom)
      | EvRoomMessagePosted room seq f ms tr ty kind target turn st round \<Rightarrow>
          (case posted_of e of Some p \<Rightarrow> (posted_label p, ActRoom) | None \<Rightarrow> (''???'', Help)))"

definition formatActivity :: "(string \<Rightarrow> string) \<Rightarrow> activity_event \<Rightarrow> activity_entry" where
  "formatActivity quote = (\<lambda>(ts, e). \<lparr>aeTime = ts, aeLabel = fst (event_label quote e), aeStyle = snd (event_label quote e)\<rparr>)"

section \<open>Turns\<close>

definition updateBusyTurns :: "posted \<Rightarrow> time \<Rightarrow> (string, busy_turn) gomap \<Rightarrow> (string, busy_turn) gomap" where
  "updateBusyTurns e now busy =
     (let turnID = poTurn e; kind = poKind e; target = or_default (poFrom e) (poTarget e);
          new = (\<lambda>to. \<lparr>btTurn = turnID, btRoom = poRoom e, btFrom = poFrom e, btTo = to, btRound = poRound e, btSince = now,
                       btStatus = ''working'', btLast = now\<rparr>)
      in if turnID = [] then busy
         else if kind = ''turn_request'' then if poTarget e = [] then busy else gput turnID (new (poTarget e)) busy
         else if kind = ''turn_progress'' then
           if target = [] then busy
           else gput turnID (case gget busy turnID of
                  Some bt \<Rightarrow> if btTurn bt = [] then new target else bt\<lparr>btStatus := ''working'', btLast := now\<rparr>
                | None \<Rightarrow> new target) busy
         else if kind = ''turn_timeout'' then gdel turnID busy
         else if isTurnReplyKind kind then gdel turnID busy else busy)"

definition updateHandleTurnState :: "posted \<Rightarrow> (string, handleTurnState) gomap \<Rightarrow> (string, handleTurnState) gomap" where
  "updateHandleTurnState e lasts =
     (let kind = poKind e; target = or_default (poFrom e) (poTarget e); handle = or_default (poTarget e) (poFrom e)
      in if kind = ''turn_request'' \<or> kind = ''turn_progress'' then if target \<noteq> [] then gdel target lasts else lasts
         else if kind = ''turn_timeout'' then if target \<noteq> [] then gput target TurnError lasts else lasts
         else if \<not> isTurnReplyKind kind \<or> handle = [] then lasts
         else if poStatus e = [] \<or> poStatus e = ''ok'' then gdel handle lasts else gput handle TurnError lasts)"

definition prune_turn :: "time \<Rightarrow> busy_turn \<Rightarrow> busy_turn" where
  "prune_turn now t = (if now - btLast t > busyTurnStaleAfter \<and> btStatus t = ''working'' then t\<lparr>btStatus := ''stalled''\<rparr> else t)"

definition pruneBusyTurns :: "time \<Rightarrow> (string, busy_turn) gomap \<Rightarrow> (string, busy_turn) gomap" where
  "pruneBusyTurns now = map (\<lambda>(k, t). (k, prune_turn now t))"

text \<open>The loop of \<open>handleState\<close> over the turns, in the order of the map's iteration.\<close>

fun turn_scan :: "string \<Rightarrow> busy_turn list \<Rightarrow> handleTurnState \<Rightarrow> handleTurnState" where
  "turn_scan h [] state = state"
| "turn_scan h (t # ts) state =
     (if btTo t \<noteq> h then turn_scan h ts state
      else if btStatus t = ''working'' then TurnWorking
      else if btStatus t = ''stalled'' then turn_scan h ts TurnStalled
      else turn_scan h ts state)"

definition handleState :: "dash \<Rightarrow> string \<Rightarrow> handleTurnState" where
  "handleState m h =
     (if h = [] then TurnIdle
      else case turn_scan h (gvals (dmBusy m)) TurnIdle of
             TurnWorking \<Rightarrow> TurnWorking
           | TurnStalled \<Rightarrow> TurnStalled
           | _ \<Rightarrow> if gget (dmLast m) h = Some TurnError then TurnError else TurnIdle)"

fun node_scan :: "dash \<Rightarrow> string list \<Rightarrow> handleTurnState \<Rightarrow> handleTurnState" where
  "node_scan m [] state = state"
| "node_scan m (h # hs) state =
     (case handleState m h of
        TurnWorking \<Rightarrow> TurnWorking
      | TurnStalled \<Rightarrow> node_scan m hs TurnStalled
      | TurnError \<Rightarrow> node_scan m hs (if state \<noteq> TurnStalled then TurnError else state)
      | TurnIdle \<Rightarrow> node_scan m hs state)"

definition nodeState :: "dash \<Rightarrow> topo_node \<Rightarrow> handleTurnState" where
  "nodeState m n = node_scan m (tnHandles n) TurnIdle"

section \<open>Update\<close>

definition contains :: "string \<Rightarrow> string \<Rightarrow> bool" where
  "contains s sub \<longleftrightarrow> list_ex (\<lambda>i. take (length sub) (drop i s) = sub) [0..<length s + 1]"

definition shouldClearStatus :: "unicode \<Rightarrow> dash_error \<Rightarrow> bool" where
  "shouldClearStatus U e \<longleftrightarrow> deCode e \<noteq> OtherCode \<or>
     list_ex (contains (ToLower U (deText e)))
       [''connection refused'', ''no such file'', ''transport is closing'', ''error reading from server: eof'', ''closed network connection'']"

fun cycleUsageRange :: "usageRange \<Rightarrow> usageRange" where
  "cycleUsageRange Last7d = Last30d"
| "cycleUsageRange Last30d = AllTime"
| "cycleUsageRange AllTime = Last7d"

definition metric_order :: "usage_metric list" where
  "metric_order = [MESSAGES_ROUTED, SESSIONS_OPENED, ROOM_MESSAGES_POSTED, ROOMS_CREATED]"

definition cycleUsageMetric :: "usage_metric \<Rightarrow> usage_metric" where
  "cycleUsageMetric current =
     (case find (\<lambda>i. metric_order ! i = current) [0..<length metric_order] of
        Some i \<Rightarrow> metric_order ! ((i + 1) mod length metric_order)
      | None \<Rightarrow> metric_order ! 0)"

datatype dash_msg =
    Key string
  | WindowSize int int
  | StatusMsg node_status
  | StatusErr dash_error
  | ActivityMsg activity_event
  | ActivityErr dash_error
  | WatchRetry
  | AnimTick
  | Tick

datatype dash_cmd = Quit | FetchStatus | WatchNext | WatchRetryCmd | AnimTickCmd | TickCmd

definition add_activity :: "activity_entry \<Rightarrow> activity_entry list \<Rightarrow> activity_entry list" where
  "add_activity x xs = (let ys = xs @ [x] in if length ys > maxActivity then drop (length ys - maxActivity) ys else ys)"

definition event_flashes :: "time \<Rightarrow> bus_event \<Rightarrow> edge_flash list" where
  "event_flashes now e =
     (case e of
        EvMessageRouted sid f t remote tr mid \<Rightarrow> [\<lparr>efFrom = f, efTo = t, efAt = now\<rparr>]
      | EvSessionOpened sid f t \<Rightarrow> [\<lparr>efFrom = f, efTo = t, efAt = now\<rparr>]
      | _ \<Rightarrow>
          (case posted_of e of
             Some p \<Rightarrow>
               if shouldFlashRoomBroadcast p
               then map (\<lambda>h. \<lparr>efFrom = poFrom p, efTo = h, efAt = now\<rparr>) (filter (\<lambda>h. h \<noteq> [] \<and> h \<noteq> poFrom p) (poMembers p))
               else []
           | None \<Rightarrow> []))"

definition on_activity :: "(string \<Rightarrow> string) \<Rightarrow> time \<Rightarrow> activity_event \<Rightarrow> dash \<Rightarrow> dash" where
  "on_activity quote now ev m =
     (let e = snd ev;
          m = (if shouldDisplayActivity e then m\<lparr>dmActivity := add_activity (formatActivity quote ev) (dmActivity m)\<rparr> else m);
          m = (case posted_of e of
                 Some p \<Rightarrow> m\<lparr>dmBusy := updateBusyTurns p now (dmBusy m), dmLast := updateHandleTurnState p (dmLast m)\<rparr>
               | None \<Rightarrow> m)
      in m\<lparr>dmFlashes := dmFlashes m @ event_flashes now e\<rparr>)"

definition on_key :: "string \<Rightarrow> dash \<Rightarrow> dash \<times> dash_cmd list" where
  "on_key k m =
     (if k = ''q'' \<or> k = ''ctrl+c'' then (m\<lparr>dmQuitting := True\<rparr>, [Quit])
      else if k = ''R'' then (m, [FetchStatus])
      else if k = ''r'' then (m\<lparr>dmRange := cycleUsageRange (dmRange m)\<rparr>, [])
      else if k = ''m'' then (m\<lparr>dmMetric := cycleUsageMetric (dmMetric m)\<rparr>, [])
      else if k = ''u'' then (m\<lparr>dmRightPanel := (if dmRightPanel m = ActivityPanel then UsagePanel else ActivityPanel)\<rparr>, [])
      else if k = ''c'' then (m\<lparr>dmActivity := []\<rparr>, [])
      else if k = ''tab'' then (m\<lparr>dmTopView := (if dmTopView m = TopologyView then DetailView else TopologyView)\<rparr>, [])
      else (m, []))"

definition Update :: "unicode \<Rightarrow> (string \<Rightarrow> string) \<Rightarrow> time \<Rightarrow> dash_msg \<Rightarrow> dash \<Rightarrow> dash \<times> dash_cmd list" where
  "Update U quote now msg m =
     (case msg of
        Key k \<Rightarrow> on_key k m
      | WindowSize w h \<Rightarrow> (m\<lparr>dmWidth := w, dmHeight := h\<rparr>, [])
      | StatusMsg st \<Rightarrow> (m\<lparr>dmStatus := Some st, dmErr := None\<rparr>, [])
      | StatusErr e \<Rightarrow> (let m = m\<lparr>dmErr := Some e\<rparr> in if shouldClearStatus U e then m\<lparr>dmStatus := None\<rparr> else m, [])
      | ActivityMsg ev \<Rightarrow> (on_activity quote now ev m, [WatchNext])
      | ActivityErr e \<Rightarrow> (m\<lparr>dmErr := Some e\<rparr>, [WatchRetryCmd])
      | WatchRetry \<Rightarrow> (m, [WatchNext])
      | AnimTick \<Rightarrow>
          (m\<lparr>dmFrame := (dmFrame m + 1) mod 120, dmFlashes := filter (\<lambda>f. now - efAt f < flashDuration) (dmFlashes m),
             dmBusy := pruneBusyTurns now (dmBusy m)\<rparr>, [AnimTickCmd])
      | Tick \<Rightarrow> (m, [FetchStatus, TickCmd]))"

definition Init :: "dash_cmd list" where
  "Init = [FetchStatus, WatchNext, TickCmd, AnimTickCmd]"

section \<open>Topology\<close>

definition active_in :: "dash \<Rightarrow> topo_node \<Rightarrow> edge_flash list" where
  "active_in m n = filter (\<lambda>f. efTo f \<in> set (tnHandles n)) (dmFlashes m)"

text \<open>The two bits of a direction: from the first node to the second, and back.\<close>

definition flashDirBetween :: "dash \<Rightarrow> topo_node \<Rightarrow> topo_node \<Rightarrow> bool \<times> bool" where
  "flashDirBetween m a b =
     fold (\<lambda>f (ab, ba). (ab \<or> efFrom f \<in> set (tnHandles a) \<and> efTo f \<in> set (tnHandles b),
                          ba \<or> efFrom f \<in> set (tnHandles b) \<and> efTo f \<in> set (tnHandles a))) (dmFlashes m) (False, False)"

definition isNodeActive :: "dash \<Rightarrow> topo_node \<Rightarrow> bool" where
  "isNodeActive m n \<longleftrightarrow> active_in m n \<noteq> []"

definition shouldAnimateNodeBorder :: "dash \<Rightarrow> topo_node \<Rightarrow> bool" where
  "shouldAnimateNodeBorder m n \<longleftrightarrow> isNodeActive m n \<or> nodeState m n = TurnWorking"

definition activeHandlesFor :: "dash \<Rightarrow> topo_node \<Rightarrow> (string, bool) gomap" where
  "activeHandlesFor m n = fold (\<lambda>f. gput (efTo f) True) (active_in m n) []"

definition peer_node :: "peer_status \<Rightarrow> topo_node" where
  "peer_node p = \<lparr>tnId = psNode p, tnHandles = sort_slice (<) (psHandles p), tnAddr = psAddr p, tnConnected = psConnected p,
     tnConnectivity = (if psConnectivity p = [] then if psConnected p then ''direct'' else ''offline'' else psConnectivity p),
     tnLocal = False, tnRelay = False\<rparr>"

definition buildTopoNodes :: "node_status option \<Rightarrow> topo_node list" where
  "buildTopoNodes status =
     (case status of
        None \<Rightarrow> []
      | Some st \<Rightarrow>
          \<lparr>tnId = stNode st, tnHandles = sort_slice (<) (map hiName (stHandles st)), tnAddr = [], tnConnected = True, tnConnectivity = [],
           tnLocal = True, tnRelay = False\<rparr> #
          sort_slice (\<lambda>a b. tnId a < tnId b) (map peer_node (filter (\<lambda>p. psNode p \<noteq> stNode st) (stPeers st))) @
          sort_slice (\<lambda>a b. tnId a < tnId b)
            (map (\<lambda>r. \<lparr>tnId = rsNode r, tnHandles = [], tnAddr = rsAddr r, tnConnected = rsConnected r, tnConnectivity = [],
                       tnLocal = False, tnRelay = True\<rparr>) (stRelays st)))"

section \<open>Chains of sessions\<close>

definition open_edges :: "node_status \<Rightarrow> (string \<times> string) list" where
  "open_edges st = map (\<lambda>s. (siFrom s, siTo s)) (filter (\<lambda>s. siState s = ''open'') (stSessions st))"

definition outgoing :: "(string \<times> string) list \<Rightarrow> (string, string list) gomap" where
  "outgoing es = fold (\<lambda>(a, b) m. gput a (gget_or [] m a @ [b]) m) es []"

definition hasIncoming :: "(string \<times> string) list \<Rightarrow> (string, bool) gomap" where
  "hasIncoming es = fold (\<lambda>(a, b). gput b True) es []"

definition chain_roots :: "(string \<times> string) list \<Rightarrow> string list" where
  "chain_roots es =
     sort_slice (<) (gkeys (fold (\<lambda>(a, b) roots. if \<not> gget_or False (hasIncoming es) a then gput a True roots else roots) es []))"

lemma gget_outgoing: "gget_or [] (outgoing es) h = map snd (filter (\<lambda>(a, b). a = h) es)"
proof -
  have "gget_or [] (fold (\<lambda>(a, b) m. gput a (gget_or [] m a @ [b]) m) es m) h = gget_or [] m h @ map snd (filter (\<lambda>(a, b). a = h) es)" for m
    by (induction es arbitrary: m) (auto simp: gget_or_def split: option.splits)
  from this [of "[]"] show ?thesis by (simp add: outgoing_def gget_or_def)
qed

text \<open>The inner loop: the nodes appended to a chain and the visited nodes after it.\<close>

function follow :: "(string \<times> string) list \<Rightarrow> string \<Rightarrow> string list \<Rightarrow> string list \<times> string list" where
  "follow es current visited =
     (case gget_or [] (outgoing es) current of
        [] \<Rightarrow> ([], visited)
      | n # _ \<Rightarrow> if n \<in> set visited then ([], visited)
                 else case follow es n (n # visited) of (chain, visited) \<Rightarrow> (n # chain, visited))"
  by pat_completeness auto
termination
proof (relation "measure (\<lambda>(es, current, visited). card (snd ` set es - set visited))")
  fix es :: "(string \<times> string) list" and current n rest and visited :: "string list"
  assume "gget_or [] (outgoing es) current = n # rest" and new: "n \<notin> set visited"
  then have "n \<in> set (map snd (filter (\<lambda>(a, b). a = current) es))" by (simp add: gget_outgoing)
  then have "n \<in> snd ` set es" by auto
  then have "snd ` set es - set (n # visited) \<subset> snd ` set es - set visited" using new by auto
  then have "card (snd ` set es - set (n # visited)) < card (snd ` set es - set visited)" by (intro psubset_card_mono) simp_all
  then show "((es, n, n # visited), es, current, visited) \<in> measure (\<lambda>(es, current, visited). card (snd ` set es - set visited))"
    by simp
qed simp

declare follow.simps [simp del]

fun chains_from :: "(string \<times> string) list \<Rightarrow> string list \<Rightarrow> string list \<Rightarrow> string list list" where
  "chains_from es [] visited = []"
| "chains_from es (root # roots) visited =
     (case follow es root (root # visited) of (chain, visited) \<Rightarrow>
        (if chain \<noteq> [] then [root # chain] else []) @ chains_from es roots visited)"

definition detectFlowChains :: "node_status option \<Rightarrow> string list list" where
  "detectFlowChains status =
     (case status of
        None \<Rightarrow> []
      | Some st \<Rightarrow> (let es = open_edges st in if es = [] then [] else chains_from es (chain_roots es) []))"

section \<open>Usage\<close>

text \<open>
  A day is its number since 1 January 1970, a Thursday. Differences of times saturate at 64 bits of nanoseconds
  and are cut to whole days.
\<close>

definition dayStartUTC :: "int \<Rightarrow> int" where
  "dayStartUTC unixTime = unixTime div 86400"

definition weekday :: "int \<Rightarrow> int" where
  "weekday d = (d + 4) mod 7"

definition mondayOffset :: "int \<Rightarrow> int" where
  "mondayOffset wd = (wd + 6) mod 7"

definition quotient :: "int \<Rightarrow> int \<Rightarrow> int" where
  "quotient x y = (if x < 0 then - ((- x) div y) else x div y)"

definition days_between :: "int \<Rightarrow> int \<Rightarrow> int" where
  "days_between a b = quotient (max (- (2 ^ 63)) (min (2 ^ 63 - 1) ((a - b) * 86400 * second))) (86400 * second)"

definition metricHistory :: "node_status option \<Rightarrow> usage_metric \<Rightarrow> usage_history option" where
  "metricHistory status metric = (case status of None \<Rightarrow> None | Some st \<Rightarrow> find (\<lambda>h. uhMetric h = metric) (stUsage st))"

definition range_start :: "usageRange \<Rightarrow> int \<Rightarrow> (int \<times> int) list \<Rightarrow> int" where
  "range_start r today buckets =
     (case r of
        Last7d \<Rightarrow> today - 6
      | Last30d \<Rightarrow> today - 29
      | AllTime \<Rightarrow> (case buckets of
                      [] \<Rightarrow> today - 29
                    | (b, _) # bs \<Rightarrow> foldl (\<lambda>start (b, _). if dayStartUTC b < start then dayStartUTC b else start) (dayStartUTC b) bs))"

definition daily_counts :: "int \<Rightarrow> int \<Rightarrow> (int \<times> int) list \<Rightarrow> (int, int) gomap" where
  "daily_counts start today buckets =
     foldl (\<lambda>m (b, n). let d = dayStartUTC b
        in if n \<le> 0 \<or> d < start \<or> d > today then m else gput d (int64 (gget_or 0 m d + n)) m) [] buckets"

text \<open>Total, active days and the busiest day, over the days in the order of the map's iteration.\<close>

definition usage_totals :: "(int, int) gomap \<Rightarrow> int \<times> nat \<times> (int \<times> int) option" where
  "usage_totals counts =
     (foldl (\<lambda>t (d, n). int64 (t + n)) 0 counts, length counts,
      foldl (\<lambda>best (d, n). if n > (case best of None \<Rightarrow> 0 | Some (_, c) \<Rightarrow> c) then Some (d, n) else best) None counts)"

record usage_grid =
  ugStart :: int
  ugCols :: int
  ugClipped :: bool

definition grid_of :: "int \<Rightarrow> int \<Rightarrow> int \<Rightarrow> usage_grid" where
  "grid_of width rangeStart today =
     (let gridStart = rangeStart - mondayOffset (weekday rangeStart);
          cols = quotient (days_between today gridStart) 7 + 1;
          maxCols = (if width - 8 < 8 then 8 else width - 8)
      in if cols > maxCols then \<lparr>ugStart = gridStart + (cols - maxCols) * 7, ugCols = maxCols, ugClipped = True\<rparr>
         else \<lparr>ugStart = gridStart, ugCols = cols, ugClipped = False\<rparr>)"

text \<open>The cell in a row and a column: its count, or nothing outside the range. A negative number of columns makes \<open>renderUsage\<close> panic.\<close>

definition grid_cell :: "usage_grid \<Rightarrow> int \<Rightarrow> int \<Rightarrow> (int, int) gomap \<Rightarrow> int \<Rightarrow> int \<Rightarrow> int option" where
  "grid_cell g rangeStart today counts row col =
     (let d = ugStart g + col * 7 + row in if d < rangeStart \<or> d > today then None else Some (gget_or 0 counts d))"

datatype usage_panel =
    UsageWaiting
  | UsagePanic
  | UsageShown "int \<times> nat \<times> (int \<times> int) option" "int option list list"

definition renderUsage :: "dash \<Rightarrow> int \<Rightarrow> int \<Rightarrow> usage_panel" where
  "renderUsage m now width =
     (if dmStatus m = None then UsageWaiting
      else let today = dayStartUTC now;
               buckets = (case metricHistory (dmStatus m) (dmMetric m) of None \<Rightarrow> [] | Some h \<Rightarrow> uhDailyBuckets h);
               start = range_start (dmRange m) today buckets;
               counts = daily_counts start today buckets; g = grid_of width start today
           in if ugCols g < 0 then UsagePanic
              else UsageShown (usage_totals counts) (map (\<lambda>row. map (grid_cell g start today counts row) [0..ugCols g - 1]) [0..6]))"

text \<open>The shade of a cell; the ratio of the count to the maximum is compared with quarters, which is exact below \<open>2 ^ 53\<close>.\<close>

datatype shade = Dot | Low | Mid | High | Peak

definition renderUsageIntensity :: "int \<Rightarrow> int \<Rightarrow> shade" where
  "renderUsageIntensity cnt mx =
     (if cnt \<le> 0 then Dot else if mx \<le> 1 then Peak
      else if 4 * cnt < mx then Low else if 2 * cnt < mx then Mid else if 4 * cnt < 3 * mx then High else Peak)"

section \<open>Panels\<close>

text \<open>
  The rows of the lower panels as plain text; the terminal library colours them, and \<open>shorten\<close> cuts a row to the
  width of the panel. The loops over handles, rooms, turns and sessions stop when the lines of the panel are used up.
\<close>

definition bytes :: "nat list \<Rightarrow> string" where
  "bytes = map char_of"

definition handle_row :: "handle_status \<Rightarrow> string" where
  "handle_row h = ''  '' @ hiName h @ '' ('' @ FormatInt (hiSubscribers h) @ '' subs) '' @ bytes [0xE2, 0x86, 0x93] @ FormatInt (sint (hiIn h)) @ '' '' @
     bytes [0xE2, 0x86, 0x91] @ FormatInt (sint (hiOut h)) @ (if hiQueueDepth h > 0 then '' q:'' @ FormatInt (hiQueueDepth h) else []) @
     (if sint (hiDrops h) > 0 then '' drop:'' @ FormatInt (sint (hiDrops h)) else [])"

definition room_row :: "room_info \<Rightarrow> string" where
  "room_row r = (let seq = int64 (sint (NextSeq r) - 1); seq = (if seq < 0 then 0 else seq)
     in ''  '' @ short (RoomId r) @ '' '' @ or_default ''(untitled)'' (Title r) @ '' m:'' @ dec_nat (length (Members r)) @ '' seq:'' @ FormatInt seq @
        '' ['' @ (if Status r = ''open'' then ''open'' else Status r) @ '']'')"

definition turn_row :: "(int \<Rightarrow> string) \<Rightarrow> time \<Rightarrow> busy_turn \<Rightarrow> string" where
  "turn_row elapsed now t = ''  '' @ btTo t @ '' r'' @ dec_nat (unat (btRound t)) @ '' '' @ btStatus t @ '' ('' @ elapsed (now - btSince t) @ '')''"

definition session_row :: "session_info \<Rightarrow> string" where
  "session_row s = ''  '' @ short (siId s) @ '' '' @ siFrom s @ '' -> '' @ siTo s @ (if siState s = ''resolved'' then '' [resolved]'' else '' [open]'')"

text \<open>A section: its header and its rows, or what it says if there are none. \<open>limit\<close> is the number of rows it may have.\<close>

definition panel_section :: "string \<Rightarrow> string \<Rightarrow> int \<Rightarrow> string list \<Rightarrow> string list" where
  "panel_section header none limit rows = header # (if rows = [] then [none] else take (nat limit) rows)"

definition status_rows :: "(node_status \<Rightarrow> 'a list) \<Rightarrow> dash \<Rightarrow> 'a list" where
  "status_rows f m = (case dmStatus m of None \<Rightarrow> [] | Some st \<Rightarrow> f st)"

definition renderHandlesSessions :: "(int \<Rightarrow> string) \<Rightarrow> (string \<Rightarrow> string) \<Rightarrow> dash \<Rightarrow> time \<Rightarrow> int \<Rightarrow> string list" where
  "renderHandlesSessions elapsed shorten m now maxLines =
     (let used = (\<lambda>ls. int (length ls));
          ls = panel_section ''HANDLES'' ''  (none)'' (maxLines - 3) (map (shorten \<circ> handle_row) (status_rows stHandles m));
          ls = ls @ panel_section ''ROOMS'' ''  (none)'' (min 6 (maxLines - used ls - 1)) (map (shorten \<circ> room_row) (status_rows stRooms m));
          turns = sort_slice (\<lambda>a b. btSince a < btSince b) (gvals (dmBusy m));
          ls = ls @ panel_section ''WORK'' ''  (idle)'' (min 4 (maxLines - used ls - 1)) (map (shorten \<circ> turn_row elapsed now) turns)
      in ls @ panel_section ''SESSIONS'' ''  (none)'' (maxLines - used ls - 1) (map (shorten \<circ> session_row) (status_rows stSessions m)))"

definition renderActivity :: "(time \<Rightarrow> string) \<Rightarrow> (string \<Rightarrow> string) \<Rightarrow> dash \<Rightarrow> int \<Rightarrow> string list" where
  "renderActivity clock shorten m maxLines =
     (let showLines = (if maxLines - 1 < 1 then 1 else maxLines - 1);
          start = (if int (length (dmActivity m)) > showLines then length (dmActivity m) - nat showLines else 0)
      in ''ACTIVITY'' # (if dmActivity m = [] then [''  (waiting for events...)'']
           else map (\<lambda>x. shorten (''  '' @ clock (aeTime x) @ '' '' @ aeLabel x)) (drop start (dmActivity m))))"

text \<open>The heights and widths that \<open>View\<close> gives to its panels: rows of the upper and lower panels, widths of the upper, left and right one.\<close>

definition view_layout :: "int \<Rightarrow> int \<Rightarrow> int \<times> int \<times> int \<times> int \<times> int" where
  "view_layout width height =
     (let total = (if width < 40 then 40 else width);
          top = (if quotient height 2 - 4 < 5 then 5 else quotient height 2 - 4);
          bottom = (if quotient height 2 - 2 < 6 then 6 else quotient height 2 - 2);
          left = quotient total 2 - 2
      in (top, bottom - 2, total - 4, left, total - left - 4))"

end
