(* ===== verification/Dashboard_Views.thy ===== *)
theory Dashboard_Views
  imports Dashboard
begin

text \<open>
  What the dashboard shows: states of handles and nodes do not depend on the iteration order of the maps; busy turns
  and activity lines are those of the history of events; chains are disjoint paths of open sessions; the
  usage grid shows every day of the range once, on its weekday.
\<close>

section \<open>States of handles and nodes\<close>

definition has_turn :: "dash \<Rightarrow> string \<Rightarrow> string \<Rightarrow> bool" where
  "has_turn m st h \<longleftrightarrow> (\<exists>t\<in>set (gvals (dmBusy m)). btTo t = h \<and> btStatus t = st)"

lemma turn_scan_eq:
  "turn_scan h ts st = (if \<exists>t\<in>set ts. btTo t = h \<and> btStatus t = ''working'' then TurnWorking
     else if \<exists>t\<in>set ts. btTo t = h \<and> btStatus t = ''stalled'' then TurnStalled else st)"
  by (induction ts arbitrary: st) auto

lemma handleState_eq:
  "handleState m h = (if h = [] then TurnIdle else if has_turn m ''working'' h then TurnWorking
     else if has_turn m ''stalled'' h then TurnStalled
     else if gget (dmLast m) h = Some TurnError then TurnError else TurnIdle)"
proof -
  have "turn_scan h (gvals (dmBusy m)) TurnIdle =
      (if has_turn m ''working'' h then TurnWorking else if has_turn m ''stalled'' h then TurnStalled else TurnIdle)"
    unfolding turn_scan_eq has_turn_def by (rule refl)
  then show ?thesis by (simp add: handleState_def)
qed

lemma node_scan_eq:
  "node_scan m hs st = (if \<exists>h\<in>set hs. handleState m h = TurnWorking then TurnWorking
     else if st = TurnStalled \<or> (\<exists>h\<in>set hs. handleState m h = TurnStalled) then TurnStalled
     else if \<exists>h\<in>set hs. handleState m h = TurnError then TurnError else st)"
  by (induction hs arbitrary: st) (auto split: handleTurnState.splits)

text \<open>
  The dot of a node is that of its most urgent handle: working if some turn for one of its handles is at work,
  else stalled if one is overdue, else an error if the last turn of one failed, else idle. It does not
  depend on the order in which the turns are stored or iterated.
\<close>

theorem node_state_spec:
  "nodeState m n =
     (let hs = {h \<in> set (tnHandles n). h \<noteq> []}
      in if \<exists>h\<in>hs. has_turn m ''working'' h then TurnWorking
         else if \<exists>h\<in>hs. has_turn m ''stalled'' h then TurnStalled
         else if \<exists>h\<in>hs. gget (dmLast m) h = Some TurnError then TurnError else TurnIdle)"
  unfolding nodeState_def node_scan_eq handleState_eq Let_def by (auto split: if_splits)

section \<open>Runs\<close>

definition dash_run :: "unicode \<Rightarrow> (string \<Rightarrow> string) \<Rightarrow> (time \<times> dash_msg) list \<Rightarrow> dash \<Rightarrow> dash" where
  "dash_run U quote = fold (\<lambda>(now, msg) m. fst (Update U quote now msg m))"

lemma dash_run_simps [simp]:
  "dash_run U quote [] m = m" "dash_run U quote ((now, msg) # msgs) m = dash_run U quote msgs (fst (Update U quote now msg m))"
  by (simp_all add: dash_run_def)

lemma dash_run_append: "dash_run U quote (xs @ ys) m = dash_run U quote ys (dash_run U quote xs m)"
  by (simp add: dash_run_def)

text \<open>What an event means for a turn: it begins or goes on, it ends, or nothing.\<close>

definition turn_effect :: "string \<Rightarrow> posted \<Rightarrow> bool option" where
  "turn_effect t p =
     (if t = [] \<or> poTurn p \<noteq> t then None
      else if poKind p = ''turn_request'' then if poTarget p = [] then None else Some True
      else if poKind p = ''turn_progress'' then if poTarget p = [] \<and> poFrom p = [] then None else Some True
      else if poKind p = ''turn_timeout'' \<or> isTurnReplyKind (poKind p) then Some False else None)"

definition msg_effect :: "string \<Rightarrow> dash_msg \<Rightarrow> bool option" where
  "msg_effect t msg = (case msg of ActivityMsg ev \<Rightarrow> (case posted_of (snd ev) of Some p \<Rightarrow> turn_effect t p | None \<Rightarrow> None) | _ \<Rightarrow> None)"

lemma updateBusyTurns_dom:
  "(gget (updateBusyTurns p now busy) t \<noteq> None) = (case turn_effect t p of None \<Rightarrow> gget busy t \<noteq> None | Some b \<Rightarrow> b)"
  by (auto simp: updateBusyTurns_def turn_effect_def Let_def or_default_def)

lemma gget_prune: "gget (pruneBusyTurns now busy) t = map_option (prune_turn now) (gget busy t)"
  by (induction busy) (auto simp: pruneBusyTurns_def)

lemma Update_busy:
  "(gget (dmBusy (fst (Update U quote now msg m))) t \<noteq> None) = (case msg_effect t msg of None \<Rightarrow> gget (dmBusy m) t \<noteq> None | Some b \<Rightarrow> b)"
proof (cases msg)
  case (Key k)
  then show ?thesis by (simp add: Update_def msg_effect_def on_key_def)
next
  case (ActivityMsg ev)
  then show ?thesis
    using updateBusyTurns_dom [of _ now "dmBusy m" t]
    by (simp add: Update_def msg_effect_def on_activity_def Let_def split: option.split)
qed (simp_all add: Update_def msg_effect_def gget_prune Let_def)

text \<open>
  C27. The busy turns are exactly those whose last event began them or reported progress: however key presses,
  ticks, status answers and activity events are interleaved, a turn is shown as busy if and only if there is an
  event about it and the last one is a request or a progress report, not a reply or a timeout.
\<close>

theorem busy_turns_follow_events:
  "gget (dmBusy (dash_run U quote msgs newDashboardModel)) t \<noteq> None \<longleftrightarrow>
     (let effects = List.map_filter (\<lambda>(now, msg). msg_effect t msg) msgs in effects \<noteq> [] \<and> last effects)"
proof (induction msgs rule: rev_induct)
  case (snoc x msgs)
  obtain now msg where x: "x = (now, msg)" by (cases x)
  show ?case
    using snoc Update_busy [of U quote now msg "dash_run U quote msgs newDashboardModel" t]
    by (cases "msg_effect t msg") (simp_all add: x dash_run_append List.map_filter_def Let_def)
qed (simp add: newDashboardModel_def List.map_filter_def)

text \<open>The lines since the last time the panel was cleared.\<close>

definition lines_step :: "(string \<Rightarrow> string) \<Rightarrow> time \<times> dash_msg \<Rightarrow> activity_entry list \<Rightarrow> activity_entry list" where
  "lines_step quote = (\<lambda>(now, msg) ls. case msg of
     Key k \<Rightarrow> if k = ''c'' then [] else ls
   | ActivityMsg ev \<Rightarrow> if shouldDisplayActivity (snd ev) then ls @ [formatActivity quote ev] else ls
   | _ \<Rightarrow> ls)"

definition newest :: "nat \<Rightarrow> 'a list \<Rightarrow> 'a list" where
  "newest n xs = drop (length xs - n) xs"

lemma newest_snoc: "add_activity x (newest maxActivity xs) = newest maxActivity (xs @ [x])"
proof (cases "length xs < maxActivity")
  case False
  then have "Suc (length xs - maxActivity) = Suc (length xs) - maxActivity" and "maxActivity > 0" by (auto simp: maxActivity_def)
  then show ?thesis using False by (simp add: add_activity_def newest_def Let_def)
qed (simp add: add_activity_def newest_def Let_def)

lemma on_key_activity: "dmActivity (fst (on_key k m)) = (if k = ''c'' then [] else dmActivity m)"
  by (simp add: on_key_def)

text \<open>
  The activity panel keeps the newest fifty lines: it holds exactly the last fifty displayable events since it
  was last cleared, in order.
\<close>

theorem activity_shows_newest:
  "dmActivity (dash_run U quote msgs newDashboardModel) = newest maxActivity (fold (lines_step quote) msgs [])"
proof (induction msgs rule: rev_induct)
  case Nil
  show ?case by (simp add: newDashboardModel_def newest_def)
next
  case (snoc x msgs)
  obtain now msg where x: "x = (now, msg)" by (cases x)
  have c: "newest maxActivity ([] :: activity_entry list) = []" by (simp add: newest_def)
  show ?case
  proof (cases msg)
    case (Key k)
    then show ?thesis using snoc c by (simp add: x dash_run_append lines_step_def Update_def on_key_activity)
  next
    case (ActivityMsg ev)
    then show ?thesis
      using snoc by (simp add: x dash_run_append lines_step_def Update_def on_activity_def Let_def newest_snoc split: option.split)
  qed (use snoc in \<open>simp_all add: x dash_run_append lines_step_def Update_def Let_def\<close>)
qed

text \<open>After a tick of the animation nothing outdated is shown: flashes are younger than two seconds, and no turn without a sign of life for more than thirty seconds is at work.\<close>

lemma tick_expires:
  assumes "m' = fst (Update U quote now AnimTick m)"
  shows "\<forall>f\<in>set (dmFlashes m'). now - efAt f < flashDuration"
    and "\<forall>t\<in>set (gvals (dmBusy m')). btStatus t = ''working'' \<longrightarrow> now - btLast t \<le> busyTurnStaleAfter"
  using assms by (auto simp: Update_def pruneBusyTurns_def prune_turn_def split: if_splits)

section \<open>Panels\<close>

lemma length_append_section:
  "limit \<le> L - int (length ls) - 1 \<Longrightarrow> int (length (ls @ panel_section header none limit rows)) \<le> max (int (length ls) + 2) L"
  by (auto simp: panel_section_def)

text \<open>
  The list of handles, rooms, turns and sessions is at most four lines longer than its panel, whatever the
  daemon reports, in every window; the panel has at least four lines.
\<close>

theorem panel_rows_bounded:
  "view_layout width height = (rows, maxLines, w, left, right) \<Longrightarrow>
     4 \<le> maxLines \<and> 18 \<le> left \<and> 18 \<le> right \<and> int (length (renderHandlesSessions elapsed shorten m now maxLines)) \<le> maxLines + 4"
proof -
  assume v: "view_layout width height = (rows, maxLines, w, left, right)"
  then have dims: "4 \<le> maxLines" "18 \<le> left" "18 \<le> right"
    by (auto simp: view_layout_def quotient_def Let_def split: if_splits)
  define h where "h = panel_section ''HANDLES'' ''  (none)'' (maxLines - 3) (map (shorten \<circ> handle_row) (status_rows stHandles m))"
  define r where "r = h @ panel_section ''ROOMS'' ''  (none)'' (min 6 (maxLines - int (length h) - 1)) (map (shorten \<circ> room_row) (status_rows stRooms m))"
  define t where "t = r @ panel_section ''WORK'' ''  (idle)'' (min 4 (maxLines - int (length r) - 1))
    (map (shorten \<circ> turn_row elapsed now) (sort_slice (\<lambda>a b. btSince a < btSince b) (gvals (dmBusy m))))"
  define s where "s = t @ panel_section ''SESSIONS'' ''  (none)'' (maxLines - int (length t) - 1) (map (shorten \<circ> session_row) (status_rows stSessions m))"
  have "int (length h) \<le> maxLines - 2" using dims(1) by (auto simp: h_def panel_section_def)
  moreover have "int (length r) \<le> max (int (length h) + 2) maxLines" unfolding r_def by (rule length_append_section) simp
  moreover have "int (length t) \<le> max (int (length r) + 2) maxLines" unfolding t_def by (rule length_append_section) simp
  moreover have "int (length s) \<le> max (int (length t) + 2) maxLines" unfolding s_def by (rule length_append_section) simp
  ultimately have "int (length s) \<le> maxLines + 4" by linarith
  moreover have "renderHandlesSessions elapsed shorten m now maxLines = s"
    unfolding renderHandlesSessions_def Let_def s_def t_def r_def h_def by (rule refl)
  ultimately show ?thesis using dims by simp
qed

theorem panel_rows_bounded_witness: "int (length (renderHandlesSessions (\<lambda>_. []) id newDashboardModel 0 4)) \<le> 8"
  using panel_rows_bounded [of 80 10 5 4 76 38 38 "\<lambda>_. []" id newDashboardModel 0] by (simp add: view_layout_def quotient_def Let_def)

section \<open>Chains\<close>

lemma gget_hasIncoming: "gget_or False (hasIncoming es) h \<longleftrightarrow> h \<in> snd ` set es"
proof -
  have "gget_or False (fold (\<lambda>(a, b). gput b True) es m) h \<longleftrightarrow> gget_or False m h \<or> h \<in> snd ` set es" for m
    by (induction es arbitrary: m) (auto simp: gget_or_def)
  from this [of "[]"] show ?thesis by (simp add: hasIncoming_def gget_or_def)
qed

lemma chain_roots_facts: "set (chain_roots es) = fst ` set es - snd ` set es" "distinct (chain_roots es)"
proof -
  let ?f = "\<lambda>(a, b) roots. if \<not> gget_or False (hasIncoming es) a then gput a True roots else roots"
  have k: "set (gkeys (fold ?f xs m)) = set (gkeys m) \<union> (fst ` set xs - snd ` set es) \<and> (distinct (gkeys m) \<longrightarrow> distinct (gkeys (fold ?f xs m)))" for xs m
  proof (induction xs arbitrary: m)
    case (Cons x xs)
    obtain a b where x: "x = (a, b)" by (cases x)
    show ?case
      using Cons.IH [of "gput a True m"] Cons.IH [of m]
      by (cases "a \<in> snd ` set es") (simp_all add: x gget_hasIncoming distinct_update dom_update, blast+)
  qed simp
  then show "set (chain_roots es) = fst ` set es - snd ` set es" "distinct (chain_roots es)"
    unfolding chain_roots_def using k [of es "[]"] by simp_all
qed

text \<open>A path: every step is an edge.\<close>

fun path :: "(string \<times> string) list \<Rightarrow> string list \<Rightarrow> bool" where
  "path es (a # b # xs) \<longleftrightarrow> (a, b) \<in> set es \<and> path es (b # xs)"
| "path es _ \<longleftrightarrow> True"

lemma follow_facts:
  "follow es current visited = (chain, visited') \<Longrightarrow>
     path es (current # chain) \<and> distinct chain \<and> set chain \<inter> set visited = {} \<and> set visited' = set visited \<union> set chain \<and> set chain \<subseteq> snd ` set es"
proof (induction es current visited arbitrary: chain visited' rule: follow.induct)
  case (1 es current visited)
  show ?case
  proof (cases "gget_or [] (outgoing es) current")
    case Nil
    then show ?thesis using 1(2) by (simp add: follow.simps [of es current])
  next
    case (Cons n rest)
    then have "n \<in> set (map snd (filter (\<lambda>(a, b). a = current) es))" by (simp add: gget_outgoing)
    then have e: "(current, n) \<in> set es" by auto
    show ?thesis
    proof (cases "n \<in> set visited")
      case True
      then show ?thesis using 1(2) Cons by (simp add: follow.simps [of es current])
    next
      case False
      obtain c v where f: "follow es n (n # visited) = (c, v)" by (cases "follow es n (n # visited)")
      have r: "chain = n # c" "visited' = v" using 1(2) Cons False f by (simp_all add: follow.simps [of es current])
      from 1(1) [OF Cons False f] show ?thesis using e False image_eqI [OF _ e, of n snd] unfolding r by auto
    qed
  qed
qed

lemma chains_from_facts:
  assumes "distinct roots" and "set roots \<inter> (snd ` set es \<union> set visited) = {}" and "\<forall>r\<in>set roots. r \<in> fst ` set es"
  shows "distinct (concat (chains_from es roots visited)) \<and> set (concat (chains_from es roots visited)) \<inter> set visited = {} \<and>
    set (concat (chains_from es roots visited)) \<subseteq> set roots \<union> snd ` set es \<and>
    (\<forall>c\<in>set (chains_from es roots visited). path es c \<and> length c > 1 \<and> hd c \<in> set roots)"
  using assms
proof (induction roots arbitrary: visited)
  case (Cons r roots)
  obtain chain v where f: "follow es r (r # visited) = (chain, v)" by (cases "follow es r (r # visited)")
  note ff = follow_facts [OF f]
  have "set roots \<inter> (snd ` set es \<union> set v) = {}" using Cons.prems ff by auto
  then have IH: "distinct (concat (chains_from es roots v)) \<and> set (concat (chains_from es roots v)) \<inter> set v = {} \<and>
    set (concat (chains_from es roots v)) \<subseteq> set roots \<union> snd ` set es \<and>
    (\<forall>c\<in>set (chains_from es roots v). path es c \<and> length c > 1 \<and> hd c \<in> set roots)"
    using Cons.prems by (intro Cons.IH) auto
  have c: "concat (chains_from es (r # roots) visited) = (if chain \<noteq> [] then r # chain else []) @ concat (chains_from es roots v)"
    by (simp add: f)
  have "r \<notin> set visited" "r \<notin> set chain" using Cons.prems(2) ff by auto
  then show ?case using IH ff unfolding c by (auto simp: f)
qed simp

text \<open>
  The flow line shows disjoint paths: every chain follows open sessions, starts at a handle that no open session
  leads to, has at least two handles, and no handle occurs twice, in one chain or in two. The loop that builds a
  chain ends even if sessions form a cycle.
\<close>

theorem flow_chains_are_paths:
  "distinct (concat (detectFlowChains (Some st))) \<and>
   (\<forall>c\<in>set (detectFlowChains (Some st)). path (open_edges st) c \<and> length c > 1 \<and>
      hd c \<in> fst ` set (open_edges st) - snd ` set (open_edges st))"
proof -
  let ?es = "open_edges st"
  have "set (chain_roots ?es) \<inter> (snd ` set ?es \<union> set []) = {}" "\<forall>r\<in>set (chain_roots ?es). r \<in> fst ` set ?es"
    unfolding chain_roots_facts(1) by auto
  from chains_from_facts [OF chain_roots_facts(2) this]
  show ?thesis unfolding detectFlowChains_def Let_def chain_roots_facts(1) by auto
qed

definition demo_status :: node_status where
  "demo_status = \<lparr>stNode = [], stStarted = 0, stHandles = [], stPeers = [],
     stSessions = [\<lparr>siId = ''1'', siFrom = ''b'', siTo = ''c'', siState = ''open'', siCreated = 0, siUpdated = 0\<rparr>,
                   \<lparr>siId = ''2'', siFrom = ''a'', siTo = ''b'', siState = ''open'', siCreated = 0, siUpdated = 0\<rparr>],
     stCounters = busCounters NewActivityBus, stRelays = [], stRooms = [], stUsage = []\<rparr>"

theorem flow_chains_are_paths_witness:
  "detectFlowChains (Some demo_status) = [[''a'', ''b'', ''c'']] \<and> path (open_edges demo_status) [''a'', ''b'', ''c''] \<and>
   hd [''a'', ''b'', ''c''] \<in> fst ` set (open_edges demo_status) - snd ` set (open_edges demo_status)"
proof -
  have e: "open_edges demo_status = [(''b'', ''c''), (''a'', ''b'')]" by (simp add: open_edges_def demo_status_def)
  have "chain_roots [(''b'', ''c''), (''a'', ''b'')] = [''a'']"
    by (simp add: chain_roots_def hasIncoming_def gget_or_def sort_slice_def)
  moreover have "follow [(''b'', ''c''), (''a'', ''b'')] ''a'' [''a''] = ([''b'', ''c''], [''c'', ''b'', ''a''])"
    by (simp add: follow.simps gget_outgoing)
  ultimately have c: "detectFlowChains (Some demo_status) = [[''a'', ''b'', ''c'']]" by (simp add: detectFlowChains_def e)
  show ?thesis using flow_chains_are_paths [of demo_status] unfolding c by simp
qed

text \<open>Sessions that only form a cycle, and the second of two chains that meet, are not shown.\<close>

lemma hidden_sessions:
  assumes "open_edges st = [(''a'', ''c''), (''b'', ''c'')]" and "open_edges st' = [(''a'', ''b''), (''b'', ''a'')]"
  shows "detectFlowChains (Some st) = [[''a'', ''c'']]" and "detectFlowChains (Some st') = []"
proof -
  have r: "chain_roots [(''a'', ''c''), (''b'', ''c'')] = [''a'', ''b'']" "chain_roots [(''a'', ''b''), (''b'', ''a'')] = []"
    by (simp_all add: chain_roots_def hasIncoming_def gget_or_def sort_slice_def)
  have "follow [(''a'', ''c''), (''b'', ''c'')] ''a'' [''a''] = ([''c''], [''c'', ''a''])"
    "follow [(''a'', ''c''), (''b'', ''c'')] ''b'' [''b'', ''c'', ''a''] = ([], [''b'', ''c'', ''a''])"
    by (simp_all add: follow.simps gget_outgoing)
  then show "detectFlowChains (Some st) = [[''a'', ''c'']]" "detectFlowChains (Some st') = []"
    by (simp_all add: detectFlowChains_def assms r)
qed

section \<open>Usage\<close>

lemma days_between_eq: "0 \<le> a - b \<Longrightarrow> a - b \<le> 100000 \<Longrightarrow> days_between a b = a - b"
  by (simp add: days_between_def quotient_def second_def)

lemma mondayOffset_weekday: "mondayOffset (weekday d) = (d + 3) mod 7"
  unfolding mondayOffset_def weekday_def by presburger

lemma grid_position:
  fixes u d row col :: int
  assumes "(u + 3) mod 7 = 0"
  shows "0 \<le> row \<and> row < 7 \<and> u + col * 7 + row = d \<longleftrightarrow> row = (d + 3) mod 7 \<and> col = (d - u) div 7"
proof -
  obtain q where u: "u + 3 = 7 * q" using assms by (auto simp: mod_0_imp_dvd elim: dvdE)
  have "(d - u) mod 7 = (d + 3 + (- q) * 7) mod 7" using u by (intro arg_cong [of _ _ "\<lambda>x. x mod 7"]) linarith
  then have m: "(d - u) mod 7 = (d + 3) mod 7" by (simp only: mod_mult_self1)
  show ?thesis
  proof
    assume l: "0 \<le> row \<and> row < 7 \<and> u + col * 7 + row = d"
    then have e: "d - u = row + col * 7" and r: "0 \<le> row" "row < 7" by linarith+
    have "(d - u) div 7 = col" "(d - u) mod 7 = row" unfolding e using r by simp_all
    then show "row = (d + 3) mod 7 \<and> col = (d - u) div 7" using m by simp
  next
    assume "row = (d + 3) mod 7 \<and> col = (d - u) div 7"
    then show "0 \<le> row \<and> row < 7 \<and> u + col * 7 + row = d"
      using m div_mult_mod_eq [of "d - u" 7] by auto
  qed
qed

lemma grid_of_facts:
  assumes "rangeStart \<le> today" and "today - rangeStart \<le> 90000" and "g = grid_of width rangeStart today"
  shows "(ugStart g + 3) mod 7 = 0" and "ugStart g \<le> today" and "0 < ugCols g" and "ugCols g \<le> max 8 (width - 8)"
    and "ugCols g = (today - ugStart g) div 7 + 1"
proof -
  define gs where "gs = rangeStart - mondayOffset (weekday rangeStart)"
  define mc where "mc = max 8 (width - 8)"
  define k where "k = (today - gs) div 7"
  have gs: "(gs + 3) mod 7 = 0" "gs \<le> rangeStart" "rangeStart - gs < 7"
    unfolding gs_def mondayOffset_weekday by presburger+
  have "0 \<le> today - gs" "today - gs \<le> 100000" using assms(1,2) gs by linarith+
  then have cols: "quotient (days_between today gs) 7 + 1 = k + 1" "0 \<le> k"
    by (simp_all add: days_between_eq quotient_def k_def)
  have g: "g = (if k + 1 > mc then \<lparr>ugStart = gs + (k + 1 - mc) * 7, ugCols = mc, ugClipped = True\<rparr>
      else \<lparr>ugStart = gs, ugCols = k + 1, ugClipped = False\<rparr>)"
    unfolding assms(3) grid_of_def Let_def gs_def [symmetric] cols(1) by (auto simp: mc_def max_def)
  have mc: "8 \<le> mc" by (simp add: mc_def)
  have k7: "7 * k \<le> today - gs" unfolding k_def by linarith
  have "(gs + x * 7 + 3) mod 7 = 0" for x
  proof -
    have "gs + x * 7 + 3 = gs + 3 + x * 7" by simp
    then show ?thesis by (simp only: mod_mult_self1 gs(1))
  qed
  from this [of "k + 1 - mc"] show "(ugStart g + 3) mod 7 = 0"
    using gs(1) unfolding g by (cases "k + 1 > mc") (simp_all only: if_True if_False usage_grid.simps)
  show "ugStart g \<le> today" using k7 mc cols(2) unfolding g by (auto simp: algebra_simps)
  show "0 < ugCols g" "ugCols g \<le> max 8 (width - 8)" using mc cols(2) unfolding g mc_def by auto
  have "(today - (gs + (k + 1 - mc) * 7)) div 7 = k - (k + 1 - mc)"
    unfolding k_def by (simp add: algebra_simps)
  then show "ugCols g = (today - ugStart g) div 7 + 1" unfolding g by (simp add: k_def [symmetric])
qed

text \<open>
  The usage grid shows every day of the range that fits, once, and on its weekday: a day from the first column on
  and up to today is in exactly one cell, Mondays in the first row; today is always shown; and the grid is
  never wider than the panel, or eight columns.
\<close>

theorem usage_grid_complete:
  assumes "rangeStart \<le> today" and "today - rangeStart \<le> 90000" and "g = grid_of width rangeStart today"
  shows "ugStart g \<le> today \<and> 0 < ugCols g \<and> ugCols g \<le> max 8 (width - 8) \<and>
    (\<forall>d row col. ugStart g \<le> d \<longrightarrow> d \<le> today \<longrightarrow>
       (0 \<le> row \<and> row < 7 \<and> 0 \<le> col \<and> col < ugCols g \<and> ugStart g + col * 7 + row = d \<longleftrightarrow>
        row = mondayOffset (weekday d) \<and> col = (d - ugStart g) div 7))"
proof -
  note g = grid_of_facts [OF assms]
  have "0 \<le> row \<and> row < 7 \<and> 0 \<le> col \<and> col < ugCols g \<and> ugStart g + col * 7 + row = d \<longleftrightarrow>
      row = mondayOffset (weekday d) \<and> col = (d - ugStart g) div 7" if d: "ugStart g \<le> d" "d \<le> today" for d row col
  proof -
    have "(d - ugStart g) div 7 < ugCols g" "0 \<le> (d - ugStart g) div 7"
      using d zdiv_mono1 [of "d - ugStart g" "today - ugStart g" 7] unfolding g(5) by (simp_all add: pos_imp_zdiv_nonneg_iff)
    moreover have "(d - ugStart g) mod 7 = (d + 3) mod 7" using g(1) by presburger
    ultimately show ?thesis unfolding mondayOffset_weekday using grid_position [OF g(1)] by auto
  qed
  then show ?thesis using g by blast
qed

theorem usage_grid_complete_witness:
  "ugStart (grid_of 40 20000 20010) \<le> 20010 \<and> ugCols (grid_of 40 20000 20010) \<le> 32"
  using usage_grid_complete [of 20000 20010 "grid_of 40 20000 20010" 40] by simp

text \<open>A history that lies more than two weeks ahead of the clock makes the panel panic.\<close>

lemma future_usage_panics:
  assumes "dmStatus m = Some st" and "dmRange m = AllTime" and "metricHistory (dmStatus m) (dmMetric m) = Some h"
    and "uhDailyBuckets h = [(b, n)]" and late: "dayStartUTC b > dayStartUTC now + 20" "dayStartUTC b < dayStartUTC now + 90000"
  shows "renderUsage m now width = UsagePanic"
proof -
  let ?t = "dayStartUTC now" and ?s = "dayStartUTC b"
  let ?gs = "?s - mondayOffset (weekday ?s)"
  have "0 \<le> mondayOffset (weekday ?s)" "mondayOffset (weekday ?s) < 7" by (simp_all add: mondayOffset_weekday)
  then have gs: "?gs - ?t > 13" "?gs - ?t < 90000" using late by linarith+
  then have "days_between ?t ?gs = ?t - ?gs"
    by (simp add: days_between_def quotient_def second_def)
  then have "quotient (days_between ?t ?gs) 7 + 1 < 0" using gs by (simp add: quotient_def)
  then have "ugCols (grid_of width ?s ?t) < 0" by (auto simp: grid_of_def Let_def)
  then show ?thesis using assms by (simp add: renderUsage_def range_start_def Let_def)
qed

section \<open>Watching activity\<close>

text \<open>
  The command \<open>watchActivity\<close> opens a stream, takes one event and closes the stream again: the stream's deferred
  \<open>CloseSend\<close> closes the connection, which ends the daemon's subscription. The next subscription is only made when
  the event has been handled.
\<close>

definition watch_one :: "nat \<Rightarrow> ('r, 'w) daemon \<Rightarrow> activity_event option \<times> ('r, 'w) daemon" where
  "watch_one c d =
     (case WatchActivity_turn False False c d of
        (Forwarded e, d) \<Rightarrow> (Some e, WatchActivity_close c d)
      | (_, d) \<Rightarrow> (None, d))"

definition emit_daemon :: "activity_event \<Rightarrow> ('r, 'w) daemon \<Rightarrow> ('r, 'w) daemon" where
  "emit_daemon e d = d\<lparr>dBus := Emit e (dBus d)\<rparr>"

lemma sends_extend: "ch_id (fold try_send es ch) = ch_id ch" "\<exists>xs. ch_buf (fold try_send es ch) = ch_buf ch @ xs"
proof -
  show "ch_id (fold try_send es ch) = ch_id ch" by (induction es arbitrary: ch) (simp_all add: try_send_def)
  show "\<exists>xs. ch_buf (fold try_send es ch) = ch_buf ch @ xs"
  proof (induction es arbitrary: ch)
    case (Cons e es)
    from Cons [of "try_send e ch"] show ?case by (auto simp: try_send_def)
  qed simp
qed

lemma watch_one_takes:
  assumes "filter (\<lambda>ch. ch_id ch = c) (busSubs (dBus d)) = ch # chs" and "ch_buf ch = e # buf"
  shows "fst (watch_one c d) = Some e" "busSubs (dBus (snd (watch_one c d))) = filter (\<lambda>ch. ch_id ch \<noteq> c) (busSubs (dBus d))"
    "busNextChan (dBus (snd (watch_one c d))) = busNextChan (dBus d)"
proof -
  have "filter (\<lambda>ch. ch_id ch \<noteq> c) (map (\<lambda>ch. if ch_id ch = c then ch\<lparr>ch_buf := buf\<rparr> else ch) xs) = filter (\<lambda>ch. ch_id ch \<noteq> c) xs" for xs
    by (induction xs) auto
  then show "fst (watch_one c d) = Some e" "busSubs (dBus (snd (watch_one c d))) = filter (\<lambda>ch. ch_id ch \<noteq> c) (busSubs (dBus d))"
    "busNextChan (dBus (snd (watch_one c d))) = busNextChan (dBus d)"
    using assms by (simp_all add: watch_one_def WatchActivity_turn_def take_event_def WatchActivity_close_def UnsubscribeBus_def)
qed

lemma emits_bus: "dBus (fold emit_daemon es d) = (dBus d)\<lparr>busSubs := map (fold try_send es) (busSubs (dBus d))\<rparr>"
  by (induction es arbitrary: d) (simp_all add: emit_daemon_def Emit_def)

text \<open>
  Events that follow each other closely are lost: of a first event and whatever the daemon emits before the
  dashboard has subscribed again, the dashboard sees only the first; the new subscription starts empty.
\<close>

theorem dashboard_misses_events:
  assumes "WatchActivity_open d = (c, d1)" and old: "\<forall>ch\<in>set (busSubs (dBus d)). ch_id ch < busNextChan (dBus d)"
  shows "\<exists>d2 c' d3. watch_one c (fold emit_daemon (e # es) d1) = (Some e, d2) \<and>
    WatchActivity_open (fold emit_daemon later d2) = (c', d3) \<and> fst (watch_one c' d3) = None"
proof -
  define n where "n = busNextChan (dBus d)"
  define f where "f = fold try_send (e # es)"
  define D where "D = fold emit_daemon (e # es) d1"
  have c: "c = n" and b1: "busSubs (dBus d1) = busSubs (dBus d) @ [make_chan n 64]" "busNextChan (dBus d1) = Suc n"
    using assms(1) by (auto simp: WatchActivity_open_def SubscribeBus_def n_def)
  have f: "ch_id (f ch) = ch_id ch" for ch :: "activity_event chan" by (simp add: f_def sends_extend(1) del: fold_Cons)
  have D: "busSubs (dBus D) = map f (busSubs (dBus d)) @ [f (make_chan n 64)]" "busNextChan (dBus D) = Suc n"
    by (simp_all add: D_def emits_bus b1 f_def del: fold_Cons)
  have "filter (\<lambda>ch. ch_id ch = c) (map f (busSubs (dBus d))) = []"
    using old by (auto simp: f filter_empty_conv c n_def)
  then have ch: "filter (\<lambda>ch. ch_id ch = c) (busSubs (dBus D)) = [f (make_chan n 64)]"
    by (simp add: D f) (simp add: c make_chan_def)
  obtain buf where buf: "ch_buf (f (make_chan n 64)) = e # buf"
    using sends_extend(2) [of es "try_send e (make_chan n 64)"] by (auto simp: f_def try_send_def make_chan_def has_room_def)
  define d2 where "d2 = snd (watch_one c D)"
  note w = watch_one_takes [OF ch buf, folded d2_def]
  have "\<forall>ch\<in>set (busSubs (dBus d2)). ch_id ch < n" using old unfolding w(2) D(1) by (auto simp: f c make_chan_def n_def)
  then have "filter (\<lambda>ch. ch_id ch = Suc n) (busSubs (dBus (fold emit_daemon later d2))) = []" "busNextChan (dBus (fold emit_daemon later d2)) = Suc n"
    by (auto simp: emits_bus filter_empty_conv sends_extend(1) w(3) D(2))
  then have "fst (watch_one (Suc n) (snd (WatchActivity_open (fold emit_daemon later d2)))) = None" "fst (WatchActivity_open (fold emit_daemon later d2)) = Suc n"
    by (simp_all add: WatchActivity_open_def SubscribeBus_def watch_one_def WatchActivity_turn_def take_event_def make_chan_def)
  moreover have "watch_one c D = (Some e, d2)" using w(1) by (simp add: d2_def prod_eq_iff)
  ultimately show ?thesis unfolding D_def by (metis prod.collapse)
qed

theorem dashboard_misses_events_witness:
  "\<exists>d2 c' d3. watch_one 0 (fold emit_daemon [(0, EvHandleRegistered ''a''), (0, EvHandleRegistered ''b'')] (snd (WatchActivity_open (NewDaemon ''n'' blob_codec ())))) =
      (Some (0, EvHandleRegistered ''a''), d2) \<and>
    WatchActivity_open (fold emit_daemon [] d2) = (c', d3) \<and> fst (watch_one c' d3) = None"
proof -
  have o: "WatchActivity_open (NewDaemon ''n'' blob_codec ()) = (0, snd (WatchActivity_open (NewDaemon ''n'' blob_codec ())))"
    by (simp add: WatchActivity_open_def SubscribeBus_def NewDaemon_def NewActivityBus_def SetUsageRecorder_def)
  show ?thesis by (rule dashboard_misses_events [OF o]) (simp add: NewDaemon_def NewActivityBus_def SetUsageRecorder_def)
qed

end
