(* ===== verification/Config.thy ===== *)
theory Config
  imports Cli Relay
begin

text \<open>
  Configuration (\<open>internal/config/config.go\<close>) and how the three servers and \<open>tailbus up\<close> arrive at it
  (\<open>cmd/tailbusd\<close>, \<open>cmd/tailbus-coord\<close>, \<open>cmd/tailbus-relay\<close>, \<open>cmd/tailbus/up.go\<close>): defaults, files, flags and
  the order in which they win. Of the standard library, \<open>filepath.Join\<close> and \<open>flag.Parse\<close> are written out; the
  TOML decoder, the files, the host name and the directories are arguments.
\<close>

section \<open>Paths\<close>

text \<open>\<open>filepath.Clean\<close> on Unix, element by element; \<open>out\<close> is what has been written, newest last.\<close>

definition clean_step :: "bool \<Rightarrow> string list \<Rightarrow> string \<Rightarrow> string list" where
  "clean_step rooted out e =
     (if e = [] \<or> e = ''.'' then out
      else if e = ''..'' then
        (if out \<noteq> [] \<and> last out \<noteq> ''..'' then butlast out else if rooted then out else out @ [e])
      else out @ [e])"

definition Clean :: "string \<Rightarrow> string" where
  "Clean path =
     (let rooted = (take 1 path = ''/'');
          out = foldl (clean_step rooted) [] (split_on CHR ''/'' path);
          text = (if rooted then ''/'' else []) @ join_with ''/'' out
      in if text = [] then ''.'' else text)"

definition Join :: "string list \<Rightarrow> string" where
  "Join elems = (case dropWhile (\<lambda>e. e = []) elems of [] \<Rightarrow> [] | es \<Rightarrow> Clean (join_with ''/'' es))"

section \<open>Configuration files\<close>

record OIDCProvider =
  opName :: string
  opIssuer :: string
  opClientID :: string
  opClientSecret :: string

record CoordConfig =
  kcListenAddr :: string
  kcDataDir :: string
  kcKeyFile :: string
  kcAuthTokens :: "string list"
  kcOAuthProviders :: "OIDCProvider list"
  kcJWTSecret :: string
  kcOAuthHTTPAddr :: string
  kcExternalURL :: string
  kcInsecureGRPC :: bool
  kcRelayAddr :: string
  kcRelayAdvertiseAddr :: string
  kcWebAppURL :: string

record DaemonConfig =
  dcNodeID :: string
  dcCoordAddr :: string
  dcAdvertiseAddr :: string
  dcListenAddr :: string
  dcSocketPath :: string
  dcKeyFile :: string
  dcDataDir :: string
  dcMetricsAddr :: string
  dcAuthToken :: string
  dcMCPAddr :: string
  dcChatAddr :: string
  dcMeshToken :: string
  dcCredentialFile :: string
  dcOAuthURL :: string
  dcTeamID :: string

record RelayConfig =
  lcRelayID :: string
  lcCoordAddr :: string
  lcListenAddr :: string
  lcKeyFile :: string
  lcAuthToken :: string

definition zero_coord_config :: CoordConfig where
  "zero_coord_config = \<lparr>kcListenAddr = [], kcDataDir = [], kcKeyFile = [], kcAuthTokens = [], kcOAuthProviders = [],
     kcJWTSecret = [], kcOAuthHTTPAddr = [], kcExternalURL = [], kcInsecureGRPC = False, kcRelayAddr = [],
     kcRelayAdvertiseAddr = [], kcWebAppURL = []\<rparr>"

definition zero_daemon_config :: DaemonConfig where
  "zero_daemon_config = \<lparr>dcNodeID = [], dcCoordAddr = [], dcAdvertiseAddr = [], dcListenAddr = [], dcSocketPath = [],
     dcKeyFile = [], dcDataDir = [], dcMetricsAddr = [], dcAuthToken = [], dcMCPAddr = [], dcChatAddr = [],
     dcMeshToken = [], dcCredentialFile = [], dcOAuthURL = [], dcTeamID = []\<rparr>"

definition zero_relay_config :: RelayConfig where
  "zero_relay_config = \<lparr>lcRelayID = [], lcCoordAddr = [], lcListenAddr = [], lcKeyFile = [], lcAuthToken = []\<rparr>"

datatype config_error = ReadConfigFailed | ParseConfigFailed

definition or_default :: "string \<Rightarrow> string \<Rightarrow> string" where
  "or_default d v = (if v = [] then d else v)"

text \<open>\<open>data\<close> is what reading the file gave, \<open>toml\<close> the decoder into the zero value of the struct.\<close>

definition LoadRelayConfig :: "(bytes \<Rightarrow> RelayConfig option) \<Rightarrow> bytes option \<Rightarrow> config_error + RelayConfig" where
  "LoadRelayConfig toml data =
     (case data of
        None \<Rightarrow> Inl ReadConfigFailed
      | Some bs \<Rightarrow>
          (case toml bs of
             None \<Rightarrow> Inl ParseConfigFailed
           | Some cfg \<Rightarrow>
               Inr (cfg\<lparr>lcListenAddr := or_default '':7443'' (lcListenAddr cfg),
                        lcCoordAddr := or_default ''127.0.0.1:8443'' (lcCoordAddr cfg),
                        lcKeyFile := or_default ''/var/lib/tailbus-relay/relay.key'' (lcKeyFile cfg)\<rparr>)))"

definition LoadCoordConfig :: "(bytes \<Rightarrow> CoordConfig option) \<Rightarrow> bytes option \<Rightarrow> config_error + CoordConfig" where
  "LoadCoordConfig toml data =
     (case data of
        None \<Rightarrow> Inl ReadConfigFailed
      | Some bs \<Rightarrow>
          (case toml bs of
             None \<Rightarrow> Inl ParseConfigFailed
           | Some cfg \<Rightarrow>
               (let cfg = cfg\<lparr>kcListenAddr := or_default '':8443'' (kcListenAddr cfg)\<rparr>;
                    cfg = cfg\<lparr>kcDataDir := or_default ''/var/lib/tailbus-coord'' (kcDataDir cfg)\<rparr>
                in Inr (cfg\<lparr>kcKeyFile := or_default (Join [kcDataDir cfg, ''coord.key'']) (kcKeyFile cfg)\<rparr>))))"

definition LoadDaemonConfig :: "(bytes \<Rightarrow> DaemonConfig option) \<Rightarrow> bytes option \<Rightarrow> config_error + DaemonConfig" where
  "LoadDaemonConfig toml data =
     (case data of
        None \<Rightarrow> Inl ReadConfigFailed
      | Some bs \<Rightarrow>
          (case toml bs of
             None \<Rightarrow> Inl ParseConfigFailed
           | Some cfg \<Rightarrow>
               Inr (cfg\<lparr>dcSocketPath := or_default ''/var/run/tailbus/tailbusd.sock'' (dcSocketPath cfg),
                        dcListenAddr := or_default '':9443'' (dcListenAddr cfg),
                        dcKeyFile := or_default ''/var/lib/tailbusd/node.key'' (dcKeyFile cfg),
                        dcMetricsAddr := or_default '':9090'' (dcMetricsAddr cfg)\<rparr>)))"

section \<open>Flags\<close>

text \<open>
  \<open>flag.FlagSet\<close>: the flags of a command with their defaults, and the loop of \<open>Parse\<close>. A boolean flag needs no
  argument; the values of boolean flags are kept as \<open>true\<close> and \<open>false\<close>. With \<open>ExitOnError\<close> a help request
  ends the process with 0, everything else that fails with 2.
\<close>

datatype flag_kind = StringFlag | BoolFlag

type_synonym flag_set = "(string \<times> flag_kind \<times> string) list"

datatype flag_error = FlagHelp | FlagBadSyntax string | FlagUndefined string | FlagNeedsArgument string | FlagBadBool string

definition ParseBool :: "string \<Rightarrow> string option" where
  "ParseBool s =
     (if s \<in> set [''1'', ''t'', ''T'', ''true'', ''TRUE'', ''True''] then Some ''true''
      else if s \<in> set [''0'', ''f'', ''F'', ''false'', ''FALSE'', ''False''] then Some ''false''
      else None)"

text \<open>The name and the value after the first \<open>=\<close> that is not at its start.\<close>

fun cut_value :: "string \<Rightarrow> string \<Rightarrow> string \<times> string option" where
  "cut_value name [] = (name, None)"
| "cut_value name (c # cs) = (if name \<noteq> [] \<and> c = CHR ''='' then (name, Some cs) else cut_value (name @ [c]) cs)"

type_synonym flag_values = "(string, string) gomap"

definition set_flag :: "flag_set \<Rightarrow> string \<Rightarrow> string option \<Rightarrow> string list \<Rightarrow> flag_error + (string \<times> string \<times> string list)" where
  "set_flag fs name value args =
     (case map_of fs name of
        None \<Rightarrow> if name = ''help'' \<or> name = ''h'' then Inl FlagHelp else Inl (FlagUndefined name)
      | Some (BoolFlag, _) \<Rightarrow>
          (case value of
             None \<Rightarrow> Inr (name, ''true'', args)
           | Some v \<Rightarrow> (case ParseBool v of None \<Rightarrow> Inl (FlagBadBool name) | Some b \<Rightarrow> Inr (name, b, args)))
      | Some (StringFlag, _) \<Rightarrow>
          (case (value, args) of
             (Some v, _) \<Rightarrow> Inr (name, v, args)
           | (None, a # as) \<Rightarrow> Inr (name, a, as)
           | (None, []) \<Rightarrow> Inl (FlagNeedsArgument name)))"

lemma set_flag_rest: "set_flag fs name value args = Inr (n, v, rest) \<Longrightarrow> length rest \<le> length args"
  by (auto simp: set_flag_def split: option.splits if_splits flag_kind.splits list.splits)

definition flag_text :: "string \<Rightarrow> string option" where
  "flag_text s = (if length s < 2 \<or> hd s \<noteq> CHR ''-'' then None
     else if s = ''--'' then None
     else Some (if s ! 1 = CHR ''-'' then drop 2 s else drop 1 s))"

function (sequential) parse_flags :: "flag_set \<Rightarrow> string list \<Rightarrow> flag_values \<Rightarrow> flag_error + (flag_values \<times> string list)" where
  "parse_flags fs [] vs = Inr (vs, [])"
| "parse_flags fs (s # args) vs =
     (case flag_text s of
        None \<Rightarrow> Inr (vs, if s = ''--'' then args else s # args)
      | Some text \<Rightarrow>
          if text = [] \<or> hd text = CHR ''-'' \<or> hd text = CHR ''='' then Inl (FlagBadSyntax s)
          else case cut_value [] text of
                 (name, value) \<Rightarrow>
                   (case set_flag fs name value args of
                      Inl e \<Rightarrow> Inl e
                    | Inr (n, v, rest) \<Rightarrow> parse_flags fs rest (gput n v vs)))"
  by pat_completeness auto

termination by (relation "measure (\<lambda>(fs, args, vs). length args)") (auto simp: less_Suc_eq_le set_flag_rest)

declare parse_flags.simps [simp del]

definition flag_get :: "flag_set \<Rightarrow> flag_values \<Rightarrow> string \<Rightarrow> string" where
  "flag_get fs vs name = (case gget vs name of Some v \<Rightarrow> v | None \<Rightarrow> (case map_of fs name of Some (k, d) \<Rightarrow> d | None \<Rightarrow> []))"

definition flag_exit :: "flag_error \<Rightarrow> nat" where
  "flag_exit e = (if e = FlagHelp then 0 else 2)"

definition string_flags :: "(string \<times> string) list \<Rightarrow> flag_set" where
  "string_flags ds = map (\<lambda>(n, d). (n, StringFlag, d)) ds"

section \<open>The node daemon\<close>

text \<open>What a server process finds around it: files, decoder, host name (empty when unknown) and directory for temporary files.\<close>

record 'c proc_env =
  peFile :: "string \<Rightarrow> bytes option"
  peToml :: "bytes \<Rightarrow> 'c option"
  peHostname :: string
  peTempDir :: string

definition tailbusd_flags :: flag_set where
  "tailbusd_flags = string_flags [(''config'', []), (''node-id'', []), (''coord'', ''coord.tailbus.co:8443''), (''advertise'', []),
     (''listen'', '':9443''), (''socket'', ''/tmp/tailbusd.sock''), (''key'', []), (''metrics'', '':9090''), (''auth-token'', []),
     (''mcp'', []), (''chat'', []), (''mesh-token'', []), (''oauth-url'', [])]"

definition tailbusd_base :: "DaemonConfig proc_env \<Rightarrow> (string \<Rightarrow> string) \<Rightarrow> config_error + DaemonConfig" where
  "tailbusd_base pe f =
     (if f ''config'' \<noteq> [] then LoadDaemonConfig (peToml pe) (peFile pe (f ''config''))
      else Inr (zero_daemon_config\<lparr>dcNodeID := f ''node-id'', dcCoordAddr := f ''coord'', dcAdvertiseAddr := f ''advertise'',
        dcListenAddr := f ''listen'', dcSocketPath := f ''socket'', dcKeyFile := f ''key'', dcMetricsAddr := f ''metrics'',
        dcAuthToken := f ''auth-token'', dcMCPAddr := f ''mcp'', dcChatAddr := f ''chat'', dcMeshToken := f ''mesh-token''\<rparr>))"

definition tailbusd_override :: "(string \<Rightarrow> string) \<Rightarrow> DaemonConfig \<Rightarrow> DaemonConfig" where
  "tailbusd_override f cfg = cfg\<lparr>
     dcAuthToken := or_default (dcAuthToken cfg) (f ''auth-token''),
     dcMCPAddr := or_default (dcMCPAddr cfg) (f ''mcp''),
     dcChatAddr := or_default (dcChatAddr cfg) (f ''chat''),
     dcMeshToken := or_default (dcMeshToken cfg) (f ''mesh-token''),
     dcOAuthURL := or_default (dcOAuthURL cfg) (f ''oauth-url'')\<rparr>"

definition tailbusd_fill :: "'c proc_env \<Rightarrow> DaemonConfig \<Rightarrow> DaemonConfig" where
  "tailbusd_fill pe cfg =
     (let cfg = cfg\<lparr>dcNodeID := or_default (peHostname pe) (dcNodeID cfg)\<rparr>
      in cfg\<lparr>dcKeyFile := or_default (Join [peTempDir pe, ''tailbusd-'' @ dcNodeID cfg @ ''.key'']) (dcKeyFile cfg)\<rparr>)"

text \<open>The configuration the daemon is created with, or the code the process exits with.\<close>

definition tailbusd_config :: "DaemonConfig proc_env \<Rightarrow> string list \<Rightarrow> nat + DaemonConfig" where
  "tailbusd_config pe args =
     (case parse_flags tailbusd_flags args [] of
        Inl e \<Rightarrow> Inl (flag_exit e)
      | Inr (vs, _) \<Rightarrow>
          (let f = flag_get tailbusd_flags vs
           in case tailbusd_base pe f of
                Inl e \<Rightarrow> Inl 1
              | Inr cfg \<Rightarrow> Inr (tailbusd_fill pe (tailbusd_override f cfg))))"

section \<open>The relay\<close>

definition relay_flags :: flag_set where
  "relay_flags = string_flags [(''config'', []), (''relay-id'', []), (''coord'', ''127.0.0.1:8443''), (''listen'', '':7443''),
     (''key'', []), (''health-addr'', '':8080''), (''auth-token'', [])]"

definition relay_base :: "RelayConfig proc_env \<Rightarrow> (string \<Rightarrow> string) \<Rightarrow> config_error + RelayConfig" where
  "relay_base pe f =
     (if f ''config'' \<noteq> [] then LoadRelayConfig (peToml pe) (peFile pe (f ''config''))
      else Inr \<lparr>lcRelayID = f ''relay-id'', lcCoordAddr = f ''coord'', lcListenAddr = f ''listen'', lcKeyFile = f ''key'',
        lcAuthToken = f ''auth-token''\<rparr>)"

definition relay_fill :: "'c proc_env \<Rightarrow> (string \<Rightarrow> string) \<Rightarrow> RelayConfig \<Rightarrow> RelayConfig" where
  "relay_fill pe f cfg =
     (let cfg = cfg\<lparr>lcAuthToken := or_default (lcAuthToken cfg) (f ''auth-token'')\<rparr>;
          cfg = cfg\<lparr>lcRelayID := or_default (''relay-'' @ peHostname pe) (lcRelayID cfg)\<rparr>
      in cfg\<lparr>lcKeyFile := or_default (Join [peTempDir pe, ''tailbus-relay-'' @ lcRelayID cfg @ ''.key'']) (lcKeyFile cfg)\<rparr>)"

definition relay_config :: "RelayConfig proc_env \<Rightarrow> string list \<Rightarrow> nat + RelayConfig" where
  "relay_config pe args =
     (case parse_flags relay_flags args [] of
        Inl e \<Rightarrow> Inl (flag_exit e)
      | Inr (vs, _) \<Rightarrow>
          (let f = flag_get relay_flags vs
           in case relay_base pe f of Inl e \<Rightarrow> Inl 1 | Inr cfg \<Rightarrow> Inr (relay_fill pe f cfg)))"

section \<open>The coordination server\<close>

definition coord_flags :: flag_set where
  "coord_flags = string_flags [(''config'', []), (''listen'', '':8443''), (''data-dir'', []), (''health-addr'', '':8080''), (''auth-token'', [])]"

definition coord_base :: "CoordConfig proc_env \<Rightarrow> (string \<Rightarrow> string) \<Rightarrow> config_error + CoordConfig" where
  "coord_base pe f =
     (if f ''config'' \<noteq> [] then LoadCoordConfig (peToml pe) (peFile pe (f ''config''))
      else Inr (zero_coord_config\<lparr>kcListenAddr := f ''listen'', kcDataDir := f ''data-dir''\<rparr>))"

definition flag_tokens :: "unicode \<Rightarrow> string \<Rightarrow> string list" where
  "flag_tokens U v = (if v = [] then [] else filter (\<lambda>tok. tok \<noteq> []) (map (TrimSpace U) (split_on CHR '','' v)))"

definition coord_fill :: "unicode \<Rightarrow> (string \<Rightarrow> string) \<Rightarrow> CoordConfig \<Rightarrow> CoordConfig" where
  "coord_fill U f cfg =
     (let cfg = cfg\<lparr>kcAuthTokens := kcAuthTokens cfg @ flag_tokens U (f ''auth-token'')\<rparr>
      in cfg\<lparr>kcDataDir := or_default ''.'' (kcDataDir cfg)\<rparr>)"

text \<open>The configuration and the address of the health endpoint, which only a flag sets.\<close>

definition coord_config :: "unicode \<Rightarrow> CoordConfig proc_env \<Rightarrow> string list \<Rightarrow> nat + CoordConfig \<times> string" where
  "coord_config U pe args =
     (case parse_flags coord_flags args [] of
        Inl e \<Rightarrow> Inl (flag_exit e)
      | Inr (vs, _) \<Rightarrow>
          (let f = flag_get coord_flags vs
           in case coord_base pe f of Inl e \<Rightarrow> Inl 1 | Inr cfg \<Rightarrow> Inr (coord_fill U f cfg, f ''health-addr'')))"

section \<open>tailbus up\<close>

definition up_flags :: flag_set where
  "up_flags = [(''coord'', StringFlag, ''coord.tailbus.co:8443''), (''chat'', StringFlag, '':3000''), (''mcp'', StringFlag, '':1423''),
     (''token'', StringFlag, []), (''fg'', BoolFlag, ''false''), (''socket'', StringFlag, ''/tmp/tailbusd.sock'')]"

text \<open>The token: the one of the flag, else that of the file, else sixteen random bytes in hexadecimal.\<close>

definition up_token :: "string \<Rightarrow> string option \<Rightarrow> bytes option \<Rightarrow> string option" where
  "up_token token file rnd =
     (if token \<noteq> [] then Some token
      else case file of
             Some (c # cs) \<Rightarrow> Some (c # cs)
           | _ \<Rightarrow> map_option EncodeToString rnd)"

definition up_args :: "string \<Rightarrow> string \<Rightarrow> string \<Rightarrow> string \<Rightarrow> string \<Rightarrow> string list" where
  "up_args coord socket chat mcp meshToken =
     [''-coord'', coord, ''-socket'', socket]
     @ (if chat \<noteq> [] then [''-chat'', chat] else [])
     @ (if mcp \<noteq> [] then [''-mcp'', mcp] else [])
     @ (if meshToken \<noteq> [] then [''-mesh-token'', meshToken] else [])"

text \<open>\<open>net.SplitHostPort\<close>, as far as the port goes; \<open>None\<close> is an error.\<close>

definition last_index :: "char \<Rightarrow> string \<Rightarrow> nat option" where
  "last_index c s = (if c \<in> set s then Some (length s - 1 - length (takeWhile (\<lambda>x. x \<noteq> c) (rev s))) else None)"

definition index :: "char \<Rightarrow> string \<Rightarrow> nat option" where
  "index c s = (if c \<in> set s then Some (length (takeWhile (\<lambda>x. x \<noteq> c) s)) else None)"

definition SplitHostPort_port :: "string \<Rightarrow> string option" where
  "SplitHostPort_port hp =
     (case last_index CHR '':'' hp of
        None \<Rightarrow> None
      | Some i \<Rightarrow>
          if hd hp = CHR ''['' then
            (case index CHR '']'' hp of
               None \<Rightarrow> None
             | Some e \<Rightarrow>
                 if e + 1 \<noteq> i then None
                 else if CHR ''['' \<in> set (drop 1 hp) \<or> CHR '']'' \<in> set (drop (e + 1) hp) then None
                 else Some (drop (i + 1) hp))
          else if CHR '':'' \<in> set (take i hp) then None
          else if CHR ''['' \<in> set hp \<or> CHR '']'' \<in> set hp then None
          else Some (drop (i + 1) hp))"

text \<open>
  What \<open>up\<close> meets: whether the \<open>i\<close>-th attempt to reach the socket succeeds, the token file and whether it can
  be written, random bytes, the path of the own binary, the files that exist, what the search path finds,
  and whether the daemon's process starts or, in the foreground, ends without error.
\<close>

record up_env =
  ueAlive :: "nat \<Rightarrow> bool"
  ueRandom :: "bytes option"
  ueCanWrite :: bool
  ueExecutable :: "string option"
  ueExists :: "string \<Rightarrow> bool"
  ueLookPath :: "string option"
  ueStarts :: bool

definition Dir :: "string \<Rightarrow> string" where
  "Dir path = Clean (rev (dropWhile (\<lambda>c. c \<noteq> CHR ''/'') (rev path)))"

definition findDaemonBinary :: "up_env \<Rightarrow> string option" where
  "findDaemonBinary ue =
     (case map_option (\<lambda>exe. Join [Dir exe, ''tailbusd'']) (ueExecutable ue) of
        Some candidate \<Rightarrow> if ueExists ue candidate then Some candidate else ueLookPath ue
      | None \<Rightarrow> ueLookPath ue)"

definition printStatus :: "string option \<Rightarrow> string \<Rightarrow> string list" where
  "printStatus tokenFile chatAddr =
     [[]]
     @ (if chatAddr = [] then []
        else case SplitHostPort_port chatAddr of
               Some (c # cs) \<Rightarrow> [''  Chat UI: http://localhost:'' @ c # cs]
             | _ \<Rightarrow> [])
     @ (case tokenFile of
          Some (c # cs) \<Rightarrow> [''  Mesh token: '' @ c # cs, [], ''  To connect other machines: tailbus up --token '' @ c # cs]
        | _ \<Rightarrow> [])
     @ [[]]"

text \<open>The loop that waits for the daemon: at most \<open>n\<close> more attempts.\<close>

fun wait_ready :: "(nat \<Rightarrow> bool) \<Rightarrow> nat \<Rightarrow> nat \<Rightarrow> bool" where
  "wait_ready alive i 0 = False"
| "wait_ready alive i (Suc n) = (alive i \<or> wait_ready alive (Suc i) n)"

text \<open>
  The whole command: what it prints to standard output, the exit code, the token file, and the binary and
  arguments of the process it started.
\<close>

record up_result =
  urOut :: "string list"
  urExit :: nat
  urFile :: "string option"
  urStarted :: "(string \<times> string list) option"

definition runUp :: "up_env \<Rightarrow> string list \<Rightarrow> string option \<Rightarrow> up_result" where
  "runUp ue args file =
     (case parse_flags up_flags args [] of
        Inl e \<Rightarrow> \<lparr>urOut = [], urExit = flag_exit e, urFile = file, urStarted = None\<rparr>
      | Inr (vs, _) \<Rightarrow>
          (let f = flag_get up_flags vs; chat = f ''chat''
           in if ueAlive ue 0
              then \<lparr>urOut = ''Tailbus is already running.'' # printStatus file chat, urExit = 0, urFile = file, urStarted = None\<rparr>
              else case up_token (f ''token'') file (ueRandom ue) of
                     None \<Rightarrow> \<lparr>urOut = [], urExit = 1, urFile = file, urStarted = None\<rparr>
                   | Some meshToken \<Rightarrow>
                       (let file = (if ueCanWrite ue then Some meshToken else file);
                            dargs = up_args (f ''coord'') (f ''socket'') chat (f ''mcp'') meshToken
                        in case findDaemonBinary ue of
                             None \<Rightarrow> \<lparr>urOut = [], urExit = 1, urFile = file, urStarted = None\<rparr>
                           | Some bin \<Rightarrow>
                               if f ''fg'' = ''true''
                               then \<lparr>urOut = [], urExit = (if ueStarts ue then 0 else 1), urFile = file, urStarted = Some (bin, dargs)\<rparr>
                               else if \<not> ueStarts ue
                               then \<lparr>urOut = [], urExit = 1, urFile = file, urStarted = None\<rparr>
                               else if wait_ready (ueAlive ue) 1 30
                               then \<lparr>urOut = ''Starting tailbus... done'' # printStatus file chat, urExit = 0, urFile = file,
                                     urStarted = Some (bin, dargs)\<rparr>
                               else \<lparr>urOut = [''Starting tailbus... failed''], urExit = 1, urFile = file,
                                     urStarted = Some (bin, dargs)\<rparr>)))"

section \<open>Flags that are given as pairs\<close>

text \<open>A list of defined string flags, each written with a single dash and followed by its value, is read back as it is.\<close>

definition pair_args :: "(string \<times> string) list \<Rightarrow> string list" where
  "pair_args ps = concat (map (\<lambda>(n, v). [CHR ''-'' # n, v]) ps)"

definition plain_flag :: "flag_set \<Rightarrow> string \<Rightarrow> bool" where
  "plain_flag fs n \<longleftrightarrow> n \<noteq> [] \<and> hd n \<noteq> CHR ''-'' \<and> CHR ''='' \<notin> set n \<and> (\<exists>d. map_of fs n = Some (StringFlag, d))"

lemma cut_value_plain: "CHR ''='' \<notin> set cs \<Longrightarrow> cut_value name cs = (name @ cs, None)"
  by (induction cs arbitrary: name) auto

lemma flag_text_plain: "n \<noteq> [] \<Longrightarrow> hd n \<noteq> CHR ''-'' \<Longrightarrow> flag_text (CHR ''-'' # n) = Some n"
  by (cases n) (auto simp: flag_text_def)

lemma parse_pair:
  assumes "plain_flag fs n"
  shows "parse_flags fs ((CHR ''-'' # n) # v # rest) vs = parse_flags fs rest (gput n v vs)"
proof -
  have "hd n \<noteq> CHR ''=''" using assms by (cases n) (auto simp: plain_flag_def)
  then show ?thesis
    using assms by (auto simp: plain_flag_def flag_text_plain cut_value_plain set_flag_def parse_flags.simps(2))
qed

lemma parse_pairs:
  "list_all (\<lambda>(n, v). plain_flag fs n) ps \<Longrightarrow>
     parse_flags fs (pair_args ps) vs = Inr (fold (\<lambda>(n, v). gput n v) ps vs, [])"
  by (induction ps arbitrary: vs) (auto simp: pair_args_def parse_pair parse_flags.simps(1))

lemma plain_tailbusd:
  "list_all (plain_flag tailbusd_flags) [''config'', ''coord'', ''socket'', ''chat'', ''mcp'', ''mesh-token'', ''metrics'', ''auth-token'', ''oauth-url'']"
  by (simp add: plain_flag_def tailbusd_flags_def string_flags_def)

lemma tailbusd_defaults:
  "flag_get tailbusd_flags [] ''config'' = []" "flag_get tailbusd_flags [] ''node-id'' = []" "flag_get tailbusd_flags [] ''advertise'' = []"
  "flag_get tailbusd_flags [] ''listen'' = '':9443''" "flag_get tailbusd_flags [] ''key'' = []" "flag_get tailbusd_flags [] ''metrics'' = '':9090''"
  "flag_get tailbusd_flags [] ''auth-token'' = []" "flag_get tailbusd_flags [] ''oauth-url'' = []"
  by (simp_all add: flag_get_def tailbusd_flags_def string_flags_def)

section \<open>From tailbus up to the daemon\<close>

lemma up_args_pairs:
  "up_args coord socket chat mcp tok = pair_args ([(''coord'', coord), (''socket'', socket)]
     @ (if chat \<noteq> [] then [(''chat'', chat)] else []) @ (if mcp \<noteq> [] then [(''mcp'', mcp)] else [])
     @ (if tok \<noteq> [] then [(''mesh-token'', tok)] else []))"
  by (simp add: up_args_def pair_args_def)

text \<open>The settings \<open>up\<close> asks for.\<close>

definition up_settings :: "string \<Rightarrow> string \<Rightarrow> string \<Rightarrow> string \<Rightarrow> string \<Rightarrow> DaemonConfig" where
  "up_settings coord socket chat mcp tok = zero_daemon_config\<lparr>dcCoordAddr := coord, dcSocketPath := socket, dcListenAddr := '':9443'',
     dcMetricsAddr := '':9090'', dcMCPAddr := mcp, dcChatAddr := chat, dcMeshToken := tok\<rparr>"

lemma tailbusd_of_up:
  "tailbusd_config pe (up_args coord socket chat mcp tok) = Inr (tailbusd_fill pe (up_settings coord socket chat mcp tok))"
proof -
  let ?ps = "[(''coord'', coord), (''socket'', socket)]
     @ (if chat \<noteq> [] then [(''chat'', chat)] else []) @ (if mcp \<noteq> [] then [(''mcp'', mcp)] else [])
     @ (if tok \<noteq> [] then [(''mesh-token'', tok)] else [])"
  obtain vs where vs: "vs = fold (\<lambda>(n, v). gput n v) ?ps []" by blast
  have p: "parse_flags tailbusd_flags (up_args coord socket chat mcp tok) [] = Inr (vs, [])"
    unfolding up_args_pairs vs by (rule parse_pairs) (use plain_tailbusd in simp)
  have f: "flag_get tailbusd_flags vs n =
      (if n = ''coord'' then coord else if n = ''socket'' then socket else if n = ''chat'' then chat
       else if n = ''mcp'' then mcp else if n = ''mesh-token'' then tok
       else flag_get tailbusd_flags [] n)" for n
    unfolding vs by (auto simp: flag_get_def tailbusd_flags_def string_flags_def)
  show ?thesis
    by (simp add: tailbusd_config_def p f tailbusd_defaults Let_def tailbusd_base_def tailbusd_override_def or_default_def
        up_settings_def zero_daemon_config_def)
qed

text \<open>What a run of \<open>up\<close> that started a daemon was asked for.\<close>

lemma runUp_started:
  assumes "urStarted (runUp ue args file) = Some (bin, dargs)"
  obtains f tok where "ueAlive ue 0 = False" "findDaemonBinary ue = Some bin" "up_token (f ''token'') file (ueRandom ue) = Some tok"
    "dargs = up_args (f ''coord'') (f ''socket'') (f ''chat'') (f ''mcp'') tok"
    "urFile (runUp ue args file) = (if ueCanWrite ue then Some tok else file)"
    "\<exists>vs rest. parse_flags up_flags args [] = Inr (vs, rest) \<and> f = flag_get up_flags vs"
proof (cases "parse_flags up_flags args []")
  case (Inl e)
  then show ?thesis using assms by (simp add: runUp_def)
next
  case (Inr r)
  obtain vs rest where r: "r = (vs, rest)" by (cases r)
  define f where "f = flag_get up_flags vs"
  have alive: "\<not> ueAlive ue 0" using assms by (rule contrapos_pn) (simp add: runUp_def Inr r Let_def)
  obtain tok where tok: "up_token (f ''token'') file (ueRandom ue) = Some tok"
    using assms by (cases "up_token (f ''token'') file (ueRandom ue)") (simp_all add: runUp_def Inr r Let_def alive f_def)
  obtain b where b: "findDaemonBinary ue = Some b"
    using assms by (cases "findDaemonBinary ue") (simp_all add: runUp_def Inr r Let_def alive tok [unfolded f_def])
  let ?dargs = "up_args (f ''coord'') (f ''socket'') (f ''chat'') (f ''mcp'') tok"
  have "urStarted (runUp ue args file) = (if f ''fg'' \<noteq> ''true'' \<and> \<not> ueStarts ue then None else Some (b, ?dargs))"
    "urFile (runUp ue args file) = (if ueCanWrite ue then Some tok else file)"
    using Inr r alive tok b unfolding f_def by (simp_all add: runUp_def Let_def)
  then show ?thesis
    using that [of f tok] assms alive tok b Inr r f_def by (simp split: if_splits)
qed

lemma EncodeToString_nil: "EncodeToString bs = [] \<longleftrightarrow> bs = []"
  using length_EncodeToString [of bs] by (cases bs) (auto simp: EncodeToString_def)

lemma up_token_nonempty: "up_token t file rnd = Some tok \<Longrightarrow> (\<And>bs. rnd = Some bs \<Longrightarrow> length bs = 16) \<Longrightarrow> tok \<noteq> []"
  by (auto simp: up_token_def EncodeToString_nil split: if_splits option.splits list.splits)


text \<open>A token once stored is used again: later runs without \<open>-token\<close> start the daemon with the same token.\<close>

lemma mesh_token_kept:
  assumes "urStarted (runUp ue args file) = Some (bin, dargs)" and "ueCanWrite ue"
    and "\<And>bs. ueRandom ue = Some bs \<Longrightarrow> length bs = 16"
    and "urStarted (runUp ue' args' (urFile (runUp ue args file))) = Some (bin', dargs')"
    and "parse_flags up_flags args' [] = Inr (vs', rest')" and "flag_get up_flags vs' ''token'' = []"
  shows "\<exists>cfg cfg'. tailbusd_config pe dargs = Inr cfg \<and> tailbusd_config pe' dargs' = Inr cfg' \<and> dcMeshToken cfg' = dcMeshToken cfg"
proof -
  obtain f tok where 1: "up_token (f ''token'') file (ueRandom ue) = Some tok" "dargs = up_args (f ''coord'') (f ''socket'') (f ''chat'') (f ''mcp'') tok"
    "urFile (runUp ue args file) = Some tok"
    using assms(1,2) by (elim runUp_started) (auto split: if_splits)
  have "tok \<noteq> []" using up_token_nonempty [OF 1(1)] assms(3) by blast
  obtain f' tok' where 2: "up_token (f' ''token'') (Some tok) (ueRandom ue') = Some tok'"
    "dargs' = up_args (f' ''coord'') (f' ''socket'') (f' ''chat'') (f' ''mcp'') tok'" "f' = flag_get up_flags vs'"
    using assms(4,5) unfolding 1(3) by (elim runUp_started) auto
  then have "tok' = tok" using assms(6) \<open>tok \<noteq> []\<close> by (cases tok) (simp_all add: up_token_def)
  then show ?thesis using 1(2) 2(2) by (simp add: tailbusd_of_up tailbusd_fill_def up_settings_def Let_def)
qed

definition demo_up_env :: up_env where
  "demo_up_env = \<lparr>ueAlive = (\<lambda>i. i = 3), ueRandom = Some (replicate 16 (CHR ''a'')), ueCanWrite = True, ueExecutable = Some ''/usr/bin/tailbus'',
     ueExists = (\<lambda>p. p = ''/usr/bin/tailbusd''), ueLookPath = None, ueStarts = True\<rparr>"

lemma demo_up_binary: "findDaemonBinary demo_up_env = Some ''/usr/bin/tailbusd''"
  by (simp add: findDaemonBinary_def demo_up_env_def Dir_def Join_def Clean_def clean_step_def)

lemma demo_up_flags:
  "parse_flags up_flags [''-chat'', []] [] = Inr ([(''chat'', [])], [])"
  "flag_get up_flags [(''chat'', [])] ''chat'' = []" "flag_get up_flags [(''chat'', [])] ''token'' = []"
  "flag_get up_flags [(''chat'', [])] ''fg'' = ''false''" "flag_get up_flags [(''chat'', [])] ''coord'' = ''coord.tailbus.co:8443''"
  "flag_get up_flags [(''chat'', [])] ''socket'' = ''/tmp/tailbusd.sock''" "flag_get up_flags [(''chat'', [])] ''mcp'' = '':1423''"
  by (simp_all add: flag_get_def up_flags_def parse_flags.simps flag_text_def set_flag_def)

lemma demo_up_runs:
  "\<exists>dargs. urStarted (runUp demo_up_env [''-chat'', []] None) = Some (''/usr/bin/tailbusd'', dargs)"
proof -
  have e: "ueAlive demo_up_env = (\<lambda>i. i = 3)" "ueRandom demo_up_env = Some (replicate 16 (CHR ''a''))" "ueStarts demo_up_env"
    by (simp_all add: demo_up_env_def)
  have w: "wait_ready (\<lambda>i. i = 3) 1 30" by (simp add: numeral_eq_Suc)
  show ?thesis by (simp add: runUp_def demo_up_flags e up_token_def w demo_up_binary Let_def)
qed

definition demo_proc :: "DaemonConfig proc_env" where
  "demo_proc = \<lparr>peFile = (\<lambda>_. None), peToml = (\<lambda>_. None), peHostname = ''host'', peTempDir = ''/tmp''\<rparr>"


section \<open>Files and flags\<close>

text \<open>
  With \<open>-config\<close> the file decides: of the flags only the authentication token, the gateways' addresses, the mesh token
  and the URL of the login server are looked at, and each wins over the file when it is not empty.
\<close>

definition file_flags :: "string list" where
  "file_flags = [''config'', ''auth-token'', ''mcp'', ''chat'', ''mesh-token'', ''oauth-url'']"

lemma config_file_hides_flags:
  assumes "parse_flags tailbusd_flags args [] = Inr (vs, rest)" and "parse_flags tailbusd_flags args' [] = Inr (vs', rest')"
    and "flag_get tailbusd_flags vs ''config'' \<noteq> []"
    and same: "list_all (\<lambda>n. flag_get tailbusd_flags vs' n = flag_get tailbusd_flags vs n) file_flags"
  shows "tailbusd_config pe args' = tailbusd_config pe args"
proof -
  define f f' where "f = flag_get tailbusd_flags vs" and "f' = flag_get tailbusd_flags vs'"
  have eq: "f' ''config'' = f ''config''" "f' ''auth-token'' = f ''auth-token''" "f' ''mcp'' = f ''mcp''" "f' ''chat'' = f ''chat''"
    "f' ''mesh-token'' = f ''mesh-token''" "f' ''oauth-url'' = f ''oauth-url''"
    using same by (simp_all add: file_flags_def f_def f'_def)
  have "f ''config'' \<noteq> []" using assms(3) by (simp add: f_def)
  then have "tailbusd_base pe f' = tailbusd_base pe f" by (simp add: tailbusd_base_def eq)
  moreover have "tailbusd_override f' = tailbusd_override f" by (rule ext) (simp add: tailbusd_override_def eq)
  ultimately show ?thesis unfolding f_def f'_def by (simp add: tailbusd_config_def assms(1,2) Let_def split: sum.split)
qed

text \<open>So \<open>-coord\<close> next to \<open>-config\<close> has no effect, and a file without \<open>coord_addr\<close> leaves the daemon without a server.\<close>

lemma coord_flag_ignored:
  assumes "peFile pe path = Some bs" and "peToml pe bs = Some zero_daemon_config" and "path \<noteq> []"
  shows "\<exists>cfg. tailbusd_config pe (pair_args [(''config'', path), (''coord'', addr)]) = Inr cfg \<and> dcCoordAddr cfg = []"
proof -
  have p: "parse_flags tailbusd_flags (pair_args [(''config'', path), (''coord'', addr)]) [] = Inr ([(''config'', path), (''coord'', addr)], [])"
    by (subst parse_pairs) (use plain_tailbusd in simp_all)
  have f: "flag_get tailbusd_flags [(''config'', path), (''coord'', addr)] ''config'' = path" by (simp add: flag_get_def)
  show ?thesis
    using assms
    by (simp add: tailbusd_config_def p f Let_def tailbusd_base_def LoadDaemonConfig_def tailbusd_override_def tailbusd_fill_def zero_daemon_config_def)
qed

text \<open>The metrics endpoint can be switched off with a flag, never with a file.\<close>

lemma metrics_off_by_flag:
  "\<exists>cfg. tailbusd_config pe (pair_args [(''metrics'', [])]) = Inr cfg \<and> dcMetricsAddr cfg = []"
proof -
  have p: "parse_flags tailbusd_flags (pair_args [(''metrics'', [])]) [] = Inr ([(''metrics'', [])], [])"
    by (subst parse_pairs) (use plain_tailbusd in simp_all)
  have f: "flag_get tailbusd_flags [(''metrics'', [])] ''metrics'' = []" "flag_get tailbusd_flags [(''metrics'', [])] ''config'' = []"
    by (simp_all add: flag_get_def tailbusd_flags_def string_flags_def)
  show ?thesis
    by (simp add: tailbusd_config_def p f Let_def tailbusd_base_def tailbusd_override_def tailbusd_fill_def zero_daemon_config_def)
qed

lemma metrics_on_by_file: "LoadDaemonConfig toml data = Inr cfg \<Longrightarrow> dcMetricsAddr cfg \<noteq> []"
  by (auto simp: LoadDaemonConfig_def or_default_def split: option.splits if_splits)

text \<open>The files of the other servers leave nothing they need empty.\<close>

lemma loaded_relay_complete:
  "LoadRelayConfig toml data = Inr cfg \<Longrightarrow> lcListenAddr cfg \<noteq> [] \<and> lcCoordAddr cfg \<noteq> [] \<and> lcKeyFile cfg \<noteq> []"
  by (auto simp: LoadRelayConfig_def or_default_def split: option.splits if_splits)

lemma Join_nonempty: "a \<noteq> [] \<Longrightarrow> Join [a, b] \<noteq> []"
  by (simp add: Join_def Clean_def Let_def)

lemma loaded_coord_complete:
  "LoadCoordConfig toml data = Inr cfg \<Longrightarrow> kcListenAddr cfg \<noteq> [] \<and> kcDataDir cfg \<noteq> [] \<and> kcKeyFile cfg \<noteq> []"
  by (auto simp: LoadCoordConfig_def Let_def or_default_def Join_nonempty split: option.splits if_splits)

end
