(* ===== verification/Coord_Main.thy ===== *)
theory Coord_Main
  imports Config Identity Coord_Updates
begin

text \<open>
  The coordination server's process (\<open>cmd/tailbus-coord/main.go\<close>) and the stand-alone relay's
  (\<open>cmd/tailbus-relay/main.go\<close>): from a configuration to a running server. The database, the key files, random
  bytes, discovery of login providers, the environment and the listening sockets are arguments; what is started
  is built from the components' own operations.
\<close>

section \<open>The signing key\<close>

definition jwtKeySize :: nat where
  "jwtKeySize = 32"

text \<open>\<open>file\<close> is the content of \<open>jwt.key\<close> if it can be read; \<open>canWrite\<close> covers the directory and the file.\<close>

definition NewJWTIssuer :: "bytes option \<Rightarrow> bool \<Rightarrow> string \<Rightarrow> bytes option \<Rightarrow> bytes option \<times> bytes option" where
  "NewJWTIssuer rnd canWrite secret file =
     (if secret \<noteq> [] then (Some secret, file)
      else case (case file of Some key \<Rightarrow> if jwtKeySize \<le> length key then Some key else None | None \<Rightarrow> None) of
             Some key \<Rightarrow> (Some key, file)
           | None \<Rightarrow>
               (case rnd of
                  None \<Rightarrow> (None, file)
                | Some key \<Rightarrow> if canWrite then (Some key, Some key) else (None, file)))"

section \<open>Seeding tokens\<close>

definition token_name :: "nat \<Rightarrow> string" where
  "token_name i = ''token-'' @ dec_nat i"

text \<open>The loop over the configured tokens; \<open>SeedToken\<close> swallows the error of the insertion.\<close>

fun seed_tokens :: "crt \<Rightarrow> nat \<Rightarrow> string list \<Rightarrow> coord_store \<Rightarrow> coord_store" where
  "seed_tokens rt i [] s = s"
| "seed_tokens rt i (tok # toks) s = seed_tokens rt (Suc i) toks (SeedToken rt (token_name i) tok False s)"

section \<open>Start of the server\<close>

datatype start_error =
    MkdirFailed | OpenStoreFailed | IdentityFailed id_error | ServerCertFailed | JwtKeyFailed | OAuthFailed string
  | ListenFailed | RelayCertFailed | RelayListenFailed | RelayRegisterFailed coord_err

text \<open>
  What the process finds. The database is the one of earlier runs; \<open>cpKeyFile\<close> and \<open>cpJwtFile\<close> are the files at a
  path, \<open>cpListen\<close> says which addresses can be listened on.
\<close>

record coord_proc =
  cpMkdir :: bool
  cpStore :: "coord_store option"
  cpCrypto :: crypto_lib
  cpX509 :: x509_lib
  cpRandom :: "bytes option"
  cpEcKey :: bytes
  cpKeyWritable :: bool
  cpKeyFile :: "string \<Rightarrow> disk_file"
  cpJwtRandom :: "bytes option"
  cpJwtWritable :: bool
  cpJwtFile :: "string \<Rightarrow> bytes option"
  cpDiscover :: "provider_config \<Rightarrow> string \<Rightarrow> oauth_provider option"
  cpGetenv :: "string \<Rightarrow> string"
  cpListen :: "string \<Rightarrow> bool"

definition coord_keypair :: "coord_proc \<Rightarrow> CoordConfig \<Rightarrow> id_error + keypair option" where
  "coord_keypair cp cfg =
     (if kcInsecureGRPC cfg then Inr None
      else case fst (LoadOrGenerate (cpCrypto cp) (cpRandom cp) (cpKeyWritable cp)
                       (cpKeyFile cp (or_default (Join [kcDataDir cfg, ''coord.key'']) (kcKeyFile cfg)))) of
             Inl e \<Rightarrow> Inl e
           | Inr kp \<Rightarrow> Inr (Some kp))"

definition cert_ok :: "coord_proc \<Rightarrow> keypair option \<Rightarrow> bool" where
  "cert_ok cp kp = (case kp of None \<Rightarrow> True | Some kp \<Rightarrow> (case SelfSignedCert (cpX509 cp) (cpEcKey cp) kp of Inl e \<Rightarrow> False | Inr c \<Rightarrow> True))"

definition login_base_url :: "CoordConfig \<Rightarrow> string" where
  "login_base_url cfg =
     (if kcExternalURL cfg \<noteq> [] then kcExternalURL cfg
      else if kcOAuthHTTPAddr cfg = [] then ''http://localhost:8080''
      else ''http://localhost'' @ kcOAuthHTTPAddr cfg)"

definition provider_of_config :: "(string \<Rightarrow> string) \<Rightarrow> OIDCProvider \<Rightarrow> provider_config" where
  "provider_of_config env p = \<lparr>cfgName = opName p, cfgIssuer = opIssuer p,
     cfgClientID = or_default (env ''OAUTH_CLIENT_ID'') (opClientID p),
     cfgClientSecret = or_default (env ''OAUTH_CLIENT_SECRET'') (opClientSecret p)\<rparr>"

text \<open>Signed tokens are on with a provider or a secret, the login server with a provider.\<close>

definition uses_jwt :: "CoordConfig \<Rightarrow> bool" where
  "uses_jwt cfg \<longleftrightarrow> kcOAuthProviders cfg \<noteq> [] \<or> kcJWTSecret cfg \<noteq> []"

definition web_app_url :: "CoordConfig \<Rightarrow> string" where
  "web_app_url cfg = or_default ''https://tailbus.co'' (kcWebAppURL cfg)"

definition coord_login :: "coord_proc \<Rightarrow> CoordConfig \<Rightarrow> coord_store \<Rightarrow> start_error + (bytes option \<times> oauth_server option)" where
  "coord_login cp cfg s =
     (if \<not> uses_jwt cfg then Inr (None, None)
      else case fst (NewJWTIssuer (cpJwtRandom cp) (cpJwtWritable cp) (kcJWTSecret cfg) (cpJwtFile cp (Join [kcDataDir cfg, ''jwt.key'']))) of
             None \<Rightarrow> Inl JwtKeyFailed
           | Some key \<Rightarrow>
               if kcOAuthProviders cfg = [] then Inr (Some key, None)
               else case NewOAuthServer (cpDiscover cp) key (Some s) (map (provider_of_config (cpGetenv cp)) (kcOAuthProviders cfg))
                           (login_base_url cfg) (web_app_url cfg) of
                      Inl e \<Rightarrow> Inl (OAuthFailed e)
                    | Inr oa \<Rightarrow> Inr (Some key, Some oa))"

definition relay_node :: string where
  "relay_node = ''embedded-relay''"

definition relay_record :: "time \<Rightarrow> string \<Rightarrow> bytes \<Rightarrow> node_record" where
  "relay_record now addr pub = \<lparr>rcNodeID = relay_node, rcPublicKey = pub, rcAddr = addr, rcHandles = [], rcManifests = [],
     rcHeartbeat = now, rcIsRelay = True, rcTeamID = []\<rparr>"

definition advertised :: "CoordConfig \<Rightarrow> string" where
  "advertised cfg = or_default (kcRelayAddr cfg) (kcRelayAdvertiseAddr cfg)"

definition start_relay :: "coord_proc \<Rightarrow> time \<Rightarrow> CoordConfig \<Rightarrow> keypair option \<Rightarrow> coord_store \<Rightarrow> start_error + coord_store" where
  "start_relay cp now cfg kp s =
     (if kcRelayAddr cfg = [] then Inr s
      else if \<not> cert_ok cp kp then Inl RelayCertFailed
      else if \<not> cpListen cp (kcRelayAddr cfg) then Inl RelayListenFailed
      else case UpsertNode (relay_record now (advertised cfg) (case kp of None \<Rightarrow> [] | Some kp \<Rightarrow> kpPublic kp)) s of
             Inl e \<Rightarrow> Inl (RelayRegisterFailed e)
           | Inr s \<Rightarrow> Inr s)"

text \<open>
  The running process: the server, its login server, the addresses of the HTTP and health endpoints and of the
  embedded relay, the allowed origin.
\<close>

record coord_process =
  cmCoord :: coord
  cmOAuth :: "oauth_server option"
  cmHTTP :: "string option"
  cmHealth :: "string option"
  cmRelay :: "string option"
  cmCORS :: string

text \<open>\<open>HTTPHandler\<close> is nil without login server and REST API; the REST API is set up with the signing key.\<close>

definition http_addr :: "CoordConfig \<Rightarrow> bytes option \<Rightarrow> oauth_server option \<Rightarrow> string option" where
  "http_addr cfg key oa = (if oa = None \<and> key = None then None else Some (or_default '':8080'' (kcOAuthHTTPAddr cfg)))"

definition address_of :: "string \<Rightarrow> string option" where
  "address_of a = (if a = [] then None else Some a)"

text \<open>The database is returned as well: what was written before a failure stays.\<close>

definition start_services ::
  "coord_proc \<Rightarrow> crt \<Rightarrow> CoordConfig \<Rightarrow> string \<Rightarrow> keypair option \<Rightarrow> coord_store \<Rightarrow> (start_error + coord_process) \<times> coord_store" where
  "start_services cp rt cfg health kp s =
     (case coord_login cp cfg s of
        Inl e \<Rightarrow> (Inl e, s)
      | Inr (key, oa) \<Rightarrow>
          if \<not> cpListen cp (kcListenAddr cfg) then (Inl ListenFailed, s)
          else case start_relay cp (crNow rt) cfg kp s of
                 Inl e \<Rightarrow> (Inl e, s)
               | Inr s \<Rightarrow>
                   (Inr \<lparr>cmCoord = \<lparr>coStore = s, coPeers = NewPeerMap, coKey = key\<rparr>, cmOAuth = oa, cmHTTP = http_addr cfg key oa,
                         cmHealth = address_of health, cmRelay = address_of (kcRelayAddr cfg), cmCORS = web_app_url cfg\<rparr>, s))"

definition coord_start ::
  "coord_proc \<Rightarrow> crt \<Rightarrow> CoordConfig \<Rightarrow> string \<Rightarrow> (start_error + coord_process) \<times> coord_store option" where
  "coord_start cp rt cfg health =
     (if \<not> cpMkdir cp then (Inl MkdirFailed, cpStore cp)
      else case cpStore cp of
             None \<Rightarrow> (Inl OpenStoreFailed, None)
           | Some s \<Rightarrow>
               (case coord_keypair cp cfg of
                  Inl e \<Rightarrow> (Inl (IdentityFailed e), Some s)
                | Inr kp \<Rightarrow>
                    if \<not> cert_ok cp kp then (Inl ServerCertFailed, Some s)
                    else apsnd Some (start_services cp rt cfg health kp (seed_tokens rt 0 (kcAuthTokens cfg) s))))"

text \<open>One turn of the embedded relay's heartbeat loop; an error is logged.\<close>

definition relay_beat :: "time \<Rightarrow> coord \<Rightarrow> coord" where
  "relay_beat now c = c\<lparr>coStore := or_log (UpdateHeartbeat now relay_node [] [] (coStore c)) (coStore c)\<rparr>"

section \<open>Start of a stand-alone relay\<close>

text \<open>
  The relay registers its own listening address as the one to be reached at, without handles; the result is the
  request, or the exit code.
\<close>

definition relay_client :: "RelayConfig \<Rightarrow> keypair \<Rightarrow> coord_client" where
  "relay_client cfg kp = SetIsRelay True (NewCoordClient (lcRelayID cfg) (kpPublic kp) (lcListenAddr cfg) (lcAuthToken cfg))"

definition relay_start :: "crypto_lib \<Rightarrow> x509_lib \<Rightarrow> bytes option \<Rightarrow> bytes \<Rightarrow> bool \<Rightarrow> (string \<Rightarrow> disk_file) \<Rightarrow> RelayConfig \<Rightarrow> nat + register_request" where
  "relay_start L X rnd ecKey canWrite files cfg =
     (case fst (LoadOrGenerate L rnd canWrite (files (lcKeyFile cfg))) of
        Inl e \<Rightarrow> Inl 1
      | Inr kp \<Rightarrow>
          (case SelfSignedCert X ecKey kp of
             Inl e \<Rightarrow> Inl 1
           | Inr cert \<Rightarrow> Inr (Register_request [] [] (relay_client cfg kp))))"

section \<open>Keys survive restarts\<close>

lemma jwt_key_kept:
  assumes "NewJWTIssuer rnd w secret file = (Some key, file')" and "\<And>k. rnd = Some k \<Longrightarrow> length k = jwtKeySize"
  shows "NewJWTIssuer rnd' w' secret file' = (Some key, file')"
  using assms by (auto simp: NewJWTIssuer_def split: if_splits option.splits)

section \<open>Configured tokens\<close>

lemma dec_nat_inj: "dec_nat i = dec_nat j \<longleftrightarrow> i = j"
  using dec_nat_digits by metis

lemma token_name_inj [simp]: "token_name i = token_name j \<longleftrightarrow> i = j"
  by (simp add: token_name_def dec_nat_inj)

definition holds_token :: "string \<Rightarrow> coord_store \<Rightarrow> bool" where
  "holds_token h s \<longleftrightarrow> (\<exists>t\<in>set (csTokens s). tkHash t = h)"

text \<open>All tokens with this hash may be used any number of times and never expire.\<close>

definition lasting :: "coord_store \<Rightarrow> bool" where
  "lasting s \<longleftrightarrow> (\<forall>t\<in>set (csTokens s). \<not> tkSingleUse t \<and> tkExpiresAt t = None)"

lemma SeedToken_keeps:
  "csOK (SeedToken rt name raw u s) = csOK s" "lasting s \<Longrightarrow> lasting (SeedToken rt name raw False s)"
  "holds_token h s \<Longrightarrow> holds_token h (SeedToken rt name raw u s)"
  by (auto simp: SeedToken_def InsertAuthToken_def sql_def lasting_def holds_token_def)

lemma SeedToken_fresh:
  assumes "csOK s" and "\<And>t. t \<in> set (csTokens s) \<Longrightarrow> tkName t \<noteq> name"
  shows "holds_token (HashToken rt raw) (SeedToken rt name raw u s)"
  using assms by (auto simp: SeedToken_def InsertAuthToken_def sql_def holds_token_def)

lemma SeedToken_names: "t \<in> set (csTokens (SeedToken rt name raw u s)) \<Longrightarrow> t \<in> set (csTokens s) \<or> tkName t = name"
  by (auto simp: SeedToken_def InsertAuthToken_def sql_def split: if_splits)

lemma seed_tokens_keeps:
  "csOK (seed_tokens rt i toks s) = csOK s" "lasting s \<Longrightarrow> lasting (seed_tokens rt i toks s)"
  "holds_token h s \<Longrightarrow> holds_token h (seed_tokens rt i toks s)"
  by (induction toks arbitrary: i s) (auto simp: SeedToken_keeps)

lemma seed_tokens_hold:
  assumes "csOK s" and "\<And>t. t \<in> set (csTokens s) \<Longrightarrow> \<exists>j<i. tkName t = token_name j" and "tok \<in> set toks"
  shows "holds_token (HashToken rt tok) (seed_tokens rt i toks s)"
  using assms
proof (induction toks arbitrary: i s)
  case (Cons x toks)
  let ?s = "SeedToken rt (token_name i) x False s"
  have names: "\<exists>j<Suc i. tkName t = token_name j" if "t \<in> set (csTokens ?s)" for t
    using SeedToken_names [OF that] Cons.prems(2) less_Suc_eq by blast
  show ?case
  proof (cases "tok = x")
    case True
    have "holds_token (HashToken rt x) ?s" by (rule SeedToken_fresh) (use Cons.prems in fastforce)+
    then show ?thesis using True by (simp add: seed_tokens_keeps)
  next
    case False
    then show ?thesis using Cons.IH [of ?s "Suc i"] Cons.prems names by (simp add: SeedToken_keeps)
  qed
qed simp

lemma held_token_validates:
  assumes "csOK s" and "lasting s" and "holds_token h s"
  shows "ValidateAndConsumeToken now h n s = Inr s"
proof -
  obtain t ts where ts: "filter (\<lambda>t. tkHash t = h) (csTokens s) = t # ts"
    using assms(3) by (cases "filter (\<lambda>t. tkHash t = h) (csTokens s)") (auto simp: holds_token_def filter_empty_conv)
  then have "t \<in> set (filter (\<lambda>t. tkHash t = h) (csTokens s))" by simp
  then have "t \<in> set (csTokens s)" by simp
  then show ?thesis using assms(1,2) ts by (simp add: ValidateAndConsumeToken_def sql_def lasting_def)
qed

lemma start_relay_tokens:
  "start_relay cp now cfg kp s = Inr s' \<Longrightarrow> csTokens s' = csTokens s \<and> csOK s' = csOK s"
  by (auto simp: start_relay_def UpsertNode_def sql_def Let_def split: if_splits sum.splits)

lemma start_services_store:
  assumes "start_services cp rt cfg health kp s = (Inr p, s')"
  shows "start_relay cp (crNow rt) cfg kp s = Inr s'" "coStore (cmCoord p) = s'"
proof -
  obtain key oa where "coord_login cp cfg s = Inr (key, oa)"
    using assms by (cases "coord_login cp cfg s") (auto simp: start_services_def)
  then show "start_relay cp (crNow rt) cfg kp s = Inr s'" "coStore (cmCoord p) = s'"
    using assms by (cases "start_relay cp (crNow rt) cfg kp s"; auto simp: start_services_def split: if_splits)+
qed

lemma coord_start_services:
  assumes "coord_start cp rt cfg health = (Inr p, st)" and "cpStore cp = Some s"
  obtains kp s' where "start_services cp rt cfg health kp (seed_tokens rt 0 (kcAuthTokens cfg) s) = (Inr p, s')"
    "st = Some s'" "coord_keypair cp cfg = Inr kp"
proof -
  have mk: "cpMkdir cp" using assms by (simp add: coord_start_def split: if_splits)
  obtain k where k: "coord_keypair cp cfg = Inr k"
    using assms mk by (cases "coord_keypair cp cfg") (simp_all add: coord_start_def)
  have ok: "cert_ok cp k" using assms mk k by (simp add: coord_start_def split: if_splits)
  obtain r s' where r: "start_services cp rt cfg health k (seed_tokens rt 0 (kcAuthTokens cfg) s) = (r, s')"
    by (cases "start_services cp rt cfg health k (seed_tokens rt 0 (kcAuthTokens cfg) s)")
  have "r = Inr p" and "st = Some s'" using assms mk k ok r by (simp_all add: coord_start_def)
  then show ?thesis using that r k by simp
qed

lemma coord_start_store:
  assumes "coord_start cp rt cfg health = (Inr p, st)" and "cpStore cp = Some s"
  obtains "csTokens (coStore (cmCoord p)) = csTokens (seed_tokens rt 0 (kcAuthTokens cfg) s)" "csOK (coStore (cmCoord p)) = csOK s"
    "st = Some (coStore (cmCoord p))"
  using assms
proof (rule coord_start_services)
  fix kp s'
  assume kp: "start_services cp rt cfg health kp (seed_tokens rt 0 (kcAuthTokens cfg) s) = (Inr p, s')" and st: "st = Some s'"
  note s' = start_services_store [OF kp]
  show ?thesis using that start_relay_tokens [OF s'(1)] st s'(2) seed_tokens_keeps(1) [of rt 0 "kcAuthTokens cfg" s] by simp
qed


text \<open>
  Rotated tokens are ignored. Tokens are stored under their position, and an insertion under a taken name is
  dropped: when the only token of the configuration is replaced and the server restarts, the database is as it
  was, the old token still admits and the new one is refused.
\<close>

lemma rotated_token_ignored:
  assumes "csOK s" and "csTokens s = []" and "HashToken rt old \<noteq> HashToken rt new" and "old \<noteq> []" and "new \<noteq> []"
    and "crSha rt' = crSha rt"
  defines "s' \<equiv> seed_tokens rt' 0 [new] (seed_tokens rt 0 [old] s)"
  shows "s' = seed_tokens rt 0 [old] s"
    and "ValidateRegistration rt' None old n s' = (Inr \<lparr>arEmail = [], arTeamID = []\<rparr>, s')"
    and "ValidateRegistration rt' None new n s' = (Inl (TokenRejected InvalidAuthToken), s')"
proof -
  have h: "HashToken rt' = HashToken rt" by (rule ext) (simp add: HashToken_def assms(6))
  have old: "seed_tokens rt 0 [old] s = s\<lparr>csTokens := [\<lparr>tkName = token_name 0, tkHash = HashToken rt old, tkSingleUse = False,
      tkUsedBy = None, tkCreatedAt = unix (crNow rt), tkExpiresAt = None\<rparr>]\<rparr>"
    using assms(1,2) by (simp add: SeedToken_def InsertAuthToken_def sql_def)
  show eq: "s' = seed_tokens rt 0 [old] s"
    using assms(1,3) unfolding s'_def old by (simp add: SeedToken_def InsertAuthToken_def sql_def h)
  show "ValidateRegistration rt' None old n s' = (Inr \<lparr>arEmail = [], arTeamID = []\<rparr>, s')"
    "ValidateRegistration rt' None new n s' = (Inl (TokenRejected InvalidAuthToken), s')"
    using assms(1,3-5) unfolding eq old
    by (simp_all add: ValidateRegistration_def HasAuthTokens_def ValidateAndConsumeToken_def sql_def h)
qed

section \<open>The embedded relay\<close>

definition reaper_ttl :: int where
  "reaper_ttl = 90 * second"

datatype relay_event = Beat time | Call coord_op

fun run_event :: "relay_event \<Rightarrow> coord \<Rightarrow> coord" where
  "run_event (Beat now) c = relay_beat now c"
| "run_event (Call op) c = run_coord_op op c"

text \<open>Nobody else uses the relay's node id, and the reaper, with its lifetime, never comes later than that after a heartbeat.\<close>

fun beats_in_time :: "time \<Rightarrow> relay_event list \<Rightarrow> bool" where
  "beats_in_time t0 [] = True"
| "beats_in_time t0 (Beat now # es) = beats_in_time now es"
| "beats_in_time t0 (Call op # es) =
     ((case op of
         OpRegister rt req \<Rightarrow> rqNodeId req \<noteq> relay_node
       | OpHeartbeat rt n hs ds ms \<Rightarrow> n \<noteq> relay_node
       | OpReap rt ttl \<Rightarrow> ttl = reaper_ttl \<and> crNow rt - t0 \<le> reaper_ttl
       | _ \<Rightarrow> True) \<and> beats_in_time t0 es)"

definition relay_row :: "string \<Rightarrow> bytes \<Rightarrow> time \<Rightarrow> coord_store \<Rightarrow> bool" where
  "relay_row addr pub t0 s \<longleftrightarrow> csOK s \<and> gwf (csNodes s) \<and>
     (\<exists>row. gget (csNodes s) relay_node = Some row \<and> nrIsRelay row \<and> nrAddr row = addr \<and> nrPublicKey row = pub \<and> nrHeartbeat row = unix t0)"

definition other_node :: "coord_store \<Rightarrow> coord_store \<Rightarrow> bool" where
  "other_node s s' \<longleftrightarrow> csOK s' = csOK s \<and> (gwf (csNodes s) \<longrightarrow> gwf (csNodes s')) \<and> gget (csNodes s') relay_node = gget (csNodes s) relay_node"

lemma relay_row_other: "other_node s s' \<Longrightarrow> relay_row addr pub t0 s \<Longrightarrow> relay_row addr pub t0 s'"
  by (auto simp: other_node_def relay_row_def)

lemma other_node_same: "same_nodes s s' \<Longrightarrow> other_node s s'"
  by (simp add: same_nodes_def other_node_def)

lemma unix_mono: "a \<le> b \<Longrightarrow> unix a \<le> unix b"
  by (simp add: unix_def second_def zdiv_mono1)

lemma other_node_trans: "other_node s t \<Longrightarrow> other_node t u \<Longrightarrow> other_node s u"
  by (auto simp: other_node_def)

lemma other_node_upsert: "UpsertNode rec s = Inr s' \<Longrightarrow> rcNodeID rec \<noteq> relay_node \<Longrightarrow> other_node s s'"
  by (auto simp: UpsertNode_def sql_def Let_def other_node_def split: if_splits sum.splits)

lemma other_node_team: "n \<noteq> relay_node \<Longrightarrow> other_node s (or_log (SetNodeTeam n team s) s)"
  by (auto simp: SetNodeTeam_def sql_def or_log_def other_node_def split: option.splits)

lemma other_node_register:
  assumes "rqNodeId req \<noteq> relay_node"
  shows "other_node (coStore c) (coStore (snd (RegisterNode rt req c)))"
proof -
  obtain r s where v: "ValidateRegistration rt (coKey c) (rqAuthToken req) (rqNodeId req) (coStore c) = (r, s)"
    by (cases "ValidateRegistration rt (coKey c) (rqAuthToken req) (rqNodeId req) (coStore c)")
  have s: "other_node (coStore c) s"
    using nodes_kept.keep_admission [of "coStore c" rt "coKey c" "rqAuthToken req" "rqNodeId req"] v other_node_same by simp
  have "other_node s s1" "other_node s (or_log (SetNodeTeam (rqNodeId req) team s1) s1)"
    if "registry_RegisterNode (record_of_request rt req t) s = Inr s1" for t team s1
  proof -
    show s1: "other_node s s1"
      by (rule other_node_upsert [OF registry_RegisterNode_upserts [OF that]]) (simp add: record_of_request_def assms)
    show "other_node s (or_log (SetNodeTeam (rqNodeId req) team s1) s1)"
      by (rule other_node_trans [OF s1 other_node_team [OF assms]])
  qed
  then have "other_node s (coStore (snd (RegisterNode rt req c)))"
    by (auto simp: RegisterNode_def v Let_def other_node_def split: sum.splits option.splits)
  then show ?thesis by (rule other_node_trans [OF s])
qed

lemma other_node_heartbeat: "n \<noteq> relay_node \<Longrightarrow> other_node (coStore c) (coStore (snd (Heartbeat rt n hs ds ms c)))"
  by (auto simp: Heartbeat_def UpdateHeartbeat_def sql_def Let_def other_node_def split: sum.splits option.splits)

lemma relay_row_reap:
  assumes "relay_row addr pub t0 (coStore c)" and "crNow rt - t0 \<le> reaper_ttl"
  shows "relay_row addr pub t0 (coStore (reap rt reaper_ttl c))"
proof -
  let ?P = "\<lambda>n row. nrHeartbeat row < unix (crNow rt - reaper_ttl)"
  have "unix (crNow rt - reaper_ttl) \<le> unix t0" using assms(2) by (simp add: unix_mono)
  moreover obtain row where row: "csOK (coStore c)" "gwf (csNodes (coStore c))" "gget (csNodes (coStore c)) relay_node = Some row"
    "nrIsRelay row" "nrAddr row = addr" "nrPublicKey row = pub" "nrHeartbeat row = unix t0"
    using assms(1) by (auto simp: relay_row_def)
  moreover have "r = row" if "(relay_node, r) \<in> set (csNodes (coStore c))" for r
    using that row(2,3) by (simp add: gget_eq_Some_iff [symmetric])
  ultimately have "relay_node \<notin> set (map fst (filter (\<lambda>(n, row). ?P n row) (csNodes (coStore c))))" by fastforce
  then have "relay_row addr pub t0 (remove_nodes ?P (coStore c))"
    using row by (simp add: relay_row_def remove_nodes_def Let_def gget_filter)
  then show ?thesis using assms(1) by (simp add: reap_def RemoveStaleNodes_def sql_def relay_row_def Let_def)
qed

lemma relay_row_delete:
  assumes "relay_row addr pub t0 (coStore c)"
  shows "relay_row addr pub t0 (coStore (snd (rpc_DeleteTeam rt tok t c)))"
proof -
  have "relay_row addr pub t0 s'" if "DeleteTeam t (coStore c) = Inr s'" for s'
    using assms that by (auto simp: DeleteTeam_def sql_def relay_row_def gget_map_snd split: if_splits)
  then show ?thesis using assms by (auto simp: rpc_DeleteTeam_def Let_def split: sum.splits)
qed

lemma relay_row_op:
  assumes "relay_row addr pub t0 (coStore c)" and "beats_in_time t0 [Call op]"
  shows "relay_row addr pub t0 (coStore (run_coord_op op c))"
proof -
  note same = relay_row_other [OF other_node_same assms(1)]
  show ?thesis
  proof (cases op)
    case (OpRegister rt req)
    then show ?thesis using relay_row_other [OF other_node_register] assms by simp
  next
    case (OpHeartbeat rt n hs ds ms)
    then show ?thesis using relay_row_other [OF other_node_heartbeat] assms by simp
  next
    case (OpReap rt ttl)
    then show ?thesis using relay_row_reap assms by simp
  next
    case (OpDeleteTeam rt tok t)
    then show ?thesis using relay_row_delete [OF assms(1)] by simp
  qed (simp_all add: same same_nodes_ops same_nodes_role same_nodes_accept nodes_kept.keep_watch nodes_kept.keep_rpc_CreateTeam)
qed

lemma relay_row_beat: "relay_row addr pub t0 (coStore c) \<Longrightarrow> relay_row addr pub now (coStore (relay_beat now c))"
  by (auto simp: relay_row_def relay_beat_def UpdateHeartbeat_def sql_def or_log_def)

lemma relay_row_run:
  "relay_row addr pub t0 (coStore c) \<Longrightarrow> beats_in_time t0 es \<Longrightarrow> \<exists>t. relay_row addr pub t (coStore (fold run_event es c))"
proof (induction es arbitrary: t0 c)
  case (Cons e es)
  show ?case
  proof (cases e)
    case (Beat now)
    then show ?thesis using Cons.IH [of now "relay_beat now c"] relay_row_beat [OF Cons.prems(1)] Cons.prems(2) by simp
  next
    case (Call op)
    then show ?thesis using Cons.IH [of t0 "run_coord_op op c"] relay_row_op [OF Cons.prems(1), of op] Cons.prems(2) by simp
  qed
qed auto

lemma SeedToken_nodes: "csNodes (SeedToken rt name raw u s) = csNodes s"
  by (auto simp: SeedToken_def InsertAuthToken_def sql_def)

lemma seed_tokens_nodes: "csNodes (seed_tokens rt i toks s) = csNodes s"
  by (induction toks arbitrary: i s) (simp_all add: SeedToken_nodes)

lemma start_relay_row:
  assumes "start_relay cp now cfg kp s = Inr s'" and "kcRelayAddr cfg \<noteq> []" and "csOK s" and "gwf (csNodes s)"
  shows "relay_row (advertised cfg) (case kp of None \<Rightarrow> [] | Some kp \<Rightarrow> kpPublic kp) now s'"
  using assms by (auto simp: start_relay_def UpsertNode_def sql_def relay_record_def relay_row_def split: if_splits)

lemma relay_row_listed:
  assumes "relay_row addr pub t0 s"
  shows "\<exists>u pm'. BuildForTeam team s pm = (Inr u, pm') \<and> \<lparr>prNodeId = relay_node, prPublicKey = pub, prAddr = addr\<rparr> \<in> set (puRelays u)"
proof -
  obtain row where row: "csOK s" "(relay_node, row) \<in> set (csNodes s)" "nrIsRelay row" "nrAddr row = addr" "nrPublicKey row = pub"
    using assms by (auto simp: relay_row_def dest: gget_in_set)
  obtain u pm' where u: "BuildForTeam team s pm = (Inr u, pm')" using BuildForTeam_total [OF row(1)] by blast
  have "relay_of_record (load_record s True True relay_node row) \<in> set (puRelays u)"
  proof -
    let ?ns = "if team = [] then csNodes s else filter (\<lambda>(n, row). nrTeam row = team \<or> nrIsRelay row) (csNodes s)"
    have "puRelays u = map relay_of_record (filter rcIsRelay (map (\<lambda>(n, row). load_record s True True n row) ?ns))"
      using u row(1) by (auto simp: BuildForTeam_def GetAllNodes_def GetNodesByTeam_def ListRoomsForHandle_def sql_def Let_def)
    moreover have "(relay_node, row) \<in> set ?ns" using row(2,3) by simp
    moreover have "rcIsRelay (load_record s True True relay_node row)" using row(3) by (simp add: load_record_def Let_def)
    ultimately show ?thesis by force
  qed
  then show ?thesis using u row(4,5) by (auto simp: relay_of_record_def load_record_def Let_def)
qed


section \<open>Addresses\<close>

text \<open>
  With signed tokens and the default flags the health endpoint and the login server are given the same address, the one
  of the documentation; of the two only the first to listen is reachable.
\<close>

lemma coord_login_key:
  assumes "coord_login cp cfg s = Inr (key, oa)" and "uses_jwt cfg"
  shows "key \<noteq> None"
proof (cases "fst (NewJWTIssuer (cpJwtRandom cp) (cpJwtWritable cp) (kcJWTSecret cfg) (cpJwtFile cp (Join [kcDataDir cfg, ''jwt.key''])))")
  case None
  then show ?thesis using assms by (simp add: coord_login_def)
next
  case (Some k)
  then have "Some k = key" using assms by (simp add: coord_login_def split: if_splits sum.splits)
  then show ?thesis by blast
qed

lemma endpoints_collide:
  assumes "coord_start cp rt cfg '':8080'' = (Inr p, st)" and "uses_jwt cfg"
    and "kcOAuthHTTPAddr cfg = [] \<or> kcOAuthHTTPAddr cfg = '':8080''"
  shows "cmHealth p = Some '':8080'' \<and> cmHTTP p = Some '':8080''"
proof (cases "cpStore cp")
  case None
  then show ?thesis using assms(1) by (simp add: coord_start_def split: if_splits)
next
  case (Some s)
  let ?s = "seed_tokens rt 0 (kcAuthTokens cfg) s"
  obtain kp s' where k: "start_services cp rt cfg '':8080'' kp ?s = (Inr p, s')"
    using coord_start_services [OF assms(1) Some] by blast
  obtain key oa where l: "coord_login cp cfg ?s = Inr (key, oa)"
    using k by (cases "coord_login cp cfg ?s") (auto simp: start_services_def)
  have "key \<noteq> None" using coord_login_key [OF l assms(2)] .
  then show ?thesis
    using k l assms(3)
    by (cases "start_relay cp (crNow rt) cfg kp ?s")
      (auto simp: start_services_def http_addr_def address_of_def or_default_def split: if_splits)
qed

lemma default_health_addr:
  "\<exists>cfg. coord_config U pe [] = Inr (cfg, '':8080'')"
  by (simp add: coord_config_def parse_flags.simps coord_base_def flag_get_def coord_flags_def string_flags_def)

text \<open>
  A stand-alone relay tells the mesh the address it listens on: with the default that is a port without a host, which
  every node resolves to itself.
\<close>

lemma relay_advertises_listen_addr:
  "relay_start L X rnd ec w files cfg = Inr req \<Longrightarrow> rqAddr req = lcListenAddr cfg \<and> rqIsRelay req \<and> rqHandles req = []"
  by (auto simp: relay_start_def Register_request_def relay_client_def SetIsRelay_def NewCoordClient_def split: sum.splits)

lemma default_relay_addr: "\<exists>cfg. relay_config pe [] = Inr cfg \<and> lcListenAddr cfg = '':7443''"
  by (simp add: relay_config_def parse_flags.simps relay_base_def relay_fill_def flag_get_def relay_flags_def string_flags_def)

section \<open>A server to start\<close>

definition demo_config :: CoordConfig where
  "demo_config = zero_coord_config\<lparr>kcListenAddr := '':8443'', kcDataDir := ''.'', kcAuthTokens := [''s3cret'', ''other''],
     kcInsecureGRPC := True, kcRelayAddr := '':7443'', kcRelayAdvertiseAddr := ''relay:7443''\<rparr>"

definition demo_machine :: coord_proc where
  "demo_machine = \<lparr>cpMkdir = True, cpStore = Some (coStore demo_coord), cpCrypto = toy_crypto, cpX509 = toy_x509, cpRandom = None,
     cpEcKey = [], cpKeyWritable = True, cpKeyFile = (\<lambda>_. Missing), cpJwtRandom = None, cpJwtWritable = True, cpJwtFile = (\<lambda>_. None),
     cpDiscover = (\<lambda>_ _. None), cpGetenv = (\<lambda>_. []), cpListen = (\<lambda>_. True)\<rparr>"

lemma demo_store:
  "csOK (coStore demo_coord)" "csTokens (coStore demo_coord) = []" "gwf (csNodes (coStore demo_coord))"
  "cpStore demo_machine = Some (coStore demo_coord)"
  by (simp_all add: demo_coord_def Coord_Server.NewServer_def NewStore_def demo_machine_def)

lemma demo_starts: "\<exists>p st. coord_start demo_machine demo_rt demo_config [] = (Inr p, st) \<and> coKey (cmCoord p) = None"
proof -
  have cfg: "\<not> uses_jwt demo_config" "kcInsecureGRPC demo_config" "kcRelayAddr demo_config = '':7443''"
    by (simp_all add: uses_jwt_def demo_config_def zero_coord_config_def)
  define s where "s = seed_tokens demo_rt 0 (kcAuthTokens demo_config) (coStore demo_coord)"
  have "csOK s" by (simp add: s_def seed_tokens_keeps demo_store)
  then obtain s' where s': "UpsertNode (relay_record (crNow demo_rt) (advertised demo_config) []) s = Inr s'"
    by (simp add: UpsertNode_def sql_def relay_record_def)
  show ?thesis
    by (simp add: coord_start_def demo_machine_def coord_keypair_def cfg cert_ok_def start_services_def coord_login_def start_relay_def
        s' [unfolded s_def])
qed



end
