(* ===== verification/Daemon_Run.thy ===== *)
theory Daemon_Run
  imports Config Identity
begin

text \<open>
  The life of the node daemon: creation with the durable database and its lock (\<open>daemon.New\<close>), the order of
  \<open>Daemon.Run\<close> from restoration to shutdown, the agent socket and its token file (\<open>agentserver.go\<close>), and the health
  and metrics endpoints (\<open>internal/health\<close>, \<open>metrics.go\<close>). Restoration, authentication, team and retries are the
  definitions of the other theories; whether an address can be listened on, whether a gateway starts and
  what the login server answers are arguments. Starting a goroutine or a listener is a step of a run.
\<close>

section \<open>The database and its lock\<close>

text \<open>The file: its content, and whether another process holds the lock.\<close>

record 'r db_file =
  dfLocked :: bool
  dfStore :: "'r message_store"

datatype db_error = DbTimeout | DbOther

definition isLockTimeout :: "db_error \<Rightarrow> bool" where
  "isLockTimeout e \<longleftrightarrow> e = DbTimeout"

definition open_db :: "'r codec \<Rightarrow> bool \<Rightarrow> 'r db_file option \<Rightarrow> db_error + 'r message_store" where
  "open_db C canCreate f =
     (case f of
        None \<Rightarrow> if canCreate then Inr (NewMessageStore C) else Inl DbOther
      | Some f \<Rightarrow> if dfLocked f then Inl DbTimeout else Inr (dfStore f))"

datatype new_error =
    LoadIdentityFailed id_error | TLSCertFailed id_error | CreateDataDirFailed | StaleDatabaseKept | AlreadyRunning | OpenMessageStoreFailed

text \<open>
  The store \<open>New\<close> works with and the file afterwards. A locked file is removed and created anew when nobody answers
  on the socket.
\<close>

definition open_message_store ::
  "'r codec \<Rightarrow> bool \<Rightarrow> bool \<Rightarrow> bool \<Rightarrow> 'r db_file option \<Rightarrow> (new_error + 'r message_store) \<times> 'r db_file option" where
  "open_message_store C canCreate canRemove alive f =
     (let finish = (\<lambda>r f. case r of
                      Inl e \<Rightarrow> (Inl (if isLockTimeout e then AlreadyRunning else OpenMessageStoreFailed), f)
                    | Inr ms \<Rightarrow> (Inr ms, Some \<lparr>dfLocked = True, dfStore = ms\<rparr>))
      in case open_db C canCreate f of
           Inl e \<Rightarrow>
             if isLockTimeout e \<and> \<not> alive
             then (if canRemove then finish (open_db C canCreate None) None else (Inl StaleDatabaseKept, f))
             else finish (Inl e) f
         | Inr ms \<Rightarrow> finish (Inr ms) f)"

text \<open>What the process finds; files are given by path.\<close>

record 'r machine =
  maCrypto :: crypto_lib
  maX509 :: x509_lib
  maRandom :: "bytes option"
  maEcKey :: bytes
  maKeyFile :: "string \<Rightarrow> disk_file"
  maKeyWritable :: bool
  maTempDir :: string
  maMkdir :: "string \<Rightarrow> bool"
  maCodec :: "'r codec"
  maDatabase :: "string \<Rightarrow> 'r db_file option"
  maCanCreate :: bool
  maCanRemove :: bool
  maAlive :: "string \<Rightarrow> bool"

definition data_dir :: "'r machine \<Rightarrow> DaemonConfig \<Rightarrow> string" where
  "data_dir m cfg = or_default (Join [maTempDir m, ''tailbusd-'' @ dcNodeID cfg]) (dcDataDir cfg)"

definition db_path :: "'r machine \<Rightarrow> DaemonConfig \<Rightarrow> string" where
  "db_path m cfg = Join [data_dir m cfg, ''messages.db'']"

text \<open>The daemon, or the error, and the database file afterwards.\<close>

definition New :: "'r machine \<Rightarrow> 'w \<Rightarrow> DaemonConfig \<Rightarrow> (new_error + ('r, 'w) daemon) \<times> 'r db_file option" where
  "New m w cfg =
     (let f = maDatabase m (db_path m cfg)
      in case fst (LoadOrGenerate (maCrypto m) (maRandom m) (maKeyWritable m) (maKeyFile m (dcKeyFile cfg))) of
           Inl e \<Rightarrow> (Inl (LoadIdentityFailed e), f)
         | Inr kp \<Rightarrow>
             (case SelfSignedCert (maX509 m) (maEcKey m) kp of
                Inl e \<Rightarrow> (Inl (TLSCertFailed e), f)
              | Inr cert \<Rightarrow>
                  if \<not> maMkdir m (data_dir m cfg) then (Inl CreateDataDirFailed, f)
                  else case open_message_store (maCodec m) (maCanCreate m) (maCanRemove m) (maAlive m (dcSocketPath cfg)) f of
                         (Inl e, f) \<Rightarrow> (Inl e, f)
                       | (Inr ms, f) \<Rightarrow> (Inr ((NewDaemon (dcNodeID cfg) (maCodec m) w)\<lparr>dStore := ms\<rparr>), f)))"

section \<open>The agent socket\<close>

definition token_path :: "string \<Rightarrow> string" where
  "token_path socketPath = socketPath @ ''.token''"

datatype serve_error = TokenRandomFailed | TokenWriteFailed | ListenUnixFailed

text \<open>
  \<open>ServeUnix\<close> up to the moment connections are accepted: the token is written and set before the socket
  exists. The result is an error or nothing, the token file, and the daemon.
\<close>

definition ServeUnix ::
  "bytes option \<Rightarrow> bool \<Rightarrow> bool \<Rightarrow> string option \<Rightarrow> ('r, 'w) daemon \<Rightarrow> serve_error option \<times> string option \<times> ('r, 'w) daemon" where
  "ServeUnix rnd canWrite canListen file d =
     (case rnd of
        None \<Rightarrow> (Some TokenRandomFailed, file, d)
      | Some bs \<Rightarrow>
          if \<not> canWrite then (Some TokenWriteFailed, file, d)
          else let token = EncodeToString bs; d = d\<lparr>dAuthToken := token\<rparr>
               in if canListen then (None, Some token, d) else (Some ListenUnixFailed, Some token, d))"

section \<open>Health and metrics\<close>

text \<open>\<open>readyFn\<close> is nil, or gives the readiness.\<close>

definition readyz :: "bool option \<Rightarrow> nat \<times> string" where
  "readyz readyFn = (if readyFn = Some False then (503, ''not_ready'') else (200, ''ready''))"

definition healthz :: "nat \<times> string" where
  "healthz = (200, ''ok'')"

text \<open>The counters of a scrape, read from the activity bus at that moment; \<open>float64\<close> of a signed counter.\<close>

definition Collect :: "activity_bus \<Rightarrow> (string \<times> int) list" where
  "Collect b = (let c = busCounters b in
     [(''tailbus_messages_routed_total'', sint (MessagesRouted c)),
      (''tailbus_messages_delivered_local_total'', sint (MessagesDeliveredLocal c)),
      (''tailbus_messages_sent_remote_total'', sint (MessagesSentRemote c)),
      (''tailbus_messages_received_remote_total'', sint (MessagesReceivedRemote c)),
      (''tailbus_sessions_opened_total'', sint (SessionsOpened c)),
      (''tailbus_sessions_resolved_total'', sint (SessionsResolved c))])"

section \<open>Run\<close>

datatype run_step =
    TransportStarted | SessionsRestored | PendingRestored | EvictionStarted | RetryLoopStarted | DashboardWired
  | CoordConnected string | RefreshInstalled | RelayCallbackSet | Registered | ReadySet | HandleCallbackSet
  | P2PServing string | AgentServing string | WatchingPeerMap | HeartbeatStarted
  | MetricsServing string "bool option" | McpServing string | ChatServing string string
  | Running | AgentStopped bool | TransportClosed | StoreClosed

datatype run_error = AuthFailed poll_error | CoordClientFailed | RegisterCancelled | P2PListenFailed

record run_env =
  reLogin :: login_env
  reNow :: time
  reDial :: bool
  reRegister :: "nat \<Rightarrow> attempt"
  reListen :: "string \<Rightarrow> bool"
  reMcpStarts :: bool
  reChatStarts :: bool
  reGraceful :: bool

definition start_config_of :: "DaemonConfig \<Rightarrow> start_config" where
  "start_config_of cfg = \<lparr>scAuthToken = dcAuthToken cfg, scTeamID = dcTeamID cfg, scCoordAddr = dcCoordAddr cfg, scOAuthURL = dcOAuthURL cfg\<rparr>"

text \<open>Sessions first, then pending messages, from the database the daemon was created with.\<close>

definition restore :: "('r, 'w) daemon \<Rightarrow> ('r, 'w) daemon" where
  "restore d =
     (let d = (case restore_sessions (dStore d) of (s, ms) \<Rightarrow> d\<lparr>dSessions := s, dStore := ms\<rparr>)
      in case restore_pending (dStore d) of
           (a, st) \<Rightarrow> d\<lparr>dAck := a, dStore := (case st of Some ms \<Rightarrow> ms | None \<Rightarrow> dStore d)\<rparr>)"

definition serving_steps :: "run_env \<Rightarrow> DaemonConfig \<Rightarrow> run_step list" where
  "serving_steps re cfg =
     [P2PServing (dcListenAddr cfg), AgentServing (dcSocketPath cfg), WatchingPeerMap, HeartbeatStarted]
     @ (if dcMetricsAddr cfg \<noteq> [] then [MetricsServing (dcMetricsAddr cfg) (Some True)] else [])
     @ (if dcMCPAddr cfg \<noteq> [] \<and> reMcpStarts re then [McpServing (dcMCPAddr cfg)] else [])
     @ (if dcChatAddr cfg \<noteq> [] \<and> reChatStarts re then [ChatServing (dcChatAddr cfg) (dcMeshToken cfg)] else [])
     @ [Running]"

definition shutdown_steps :: "run_env \<Rightarrow> run_step list" where
  "shutdown_steps re = [AgentStopped (\<not> reGraceful re), TransportClosed, StoreClosed]"

record ('r, 'w) run_result =
  rrError :: "run_error option"
  rrSteps :: "run_step list"
  rrDaemon :: "('r, 'w) daemon"
  rrCreds :: "credentials option"

definition connect_steps :: "DaemonConfig \<Rightarrow> string \<Rightarrow> string \<Rightarrow> run_step list" where
  "connect_steps cfg authToken teamID =
     [CoordConnected teamID]
     @ (if authToken \<noteq> [] \<and> dcAuthToken cfg = [] then [RefreshInstalled] else [])
     @ [RelayCallbackSet]"

text \<open>
  The run up to its end, which follows the cancellation of the context; \<open>None\<close> when the login or the registration
  goes on for ever.
\<close>

definition Run :: "run_env \<Rightarrow> DaemonConfig \<Rightarrow> credentials option \<Rightarrow> ('r, 'w) daemon \<Rightarrow> ('r, 'w) run_result option" where
  "Run re cfg file d =
     (let d = restore d;
          steps = [TransportStarted, SessionsRestored, PendingRestored, EvictionStarted, RetryLoopStarted, DashboardWired]
      in case resolveAuth (reLogin re) (reNow re) (start_config_of cfg) file of
           None \<Rightarrow> None
         | Some (Inl e, file) \<Rightarrow> Some \<lparr>rrError = Some (AuthFailed e), rrSteps = steps, rrDaemon = d, rrCreds = file\<rparr>
         | Some (Inr authToken, file) \<Rightarrow>
             (let teamID = resolveTeamID (start_config_of cfg) file
              in if \<not> reDial re then Some \<lparr>rrError = Some CoordClientFailed, rrSteps = steps, rrDaemon = d, rrCreds = file\<rparr>
                 else let d = d\<lparr>dCoordSet := True\<rparr>; steps = steps @ connect_steps cfg authToken teamID
                      in case registerWithRetry (reRegister re) of
                           None \<Rightarrow> None
                         | Some (RetryCancelled, _) \<Rightarrow>
                             Some \<lparr>rrError = Some RegisterCancelled, rrSteps = steps, rrDaemon = d, rrCreds = file\<rparr>
                         | Some (RetryOk, _) \<Rightarrow>
                             (let d = d\<lparr>dHandleChangeSet := True\<rparr>; steps = steps @ [Registered, ReadySet, HandleCallbackSet]
                              in if \<not> reListen re (dcListenAddr cfg)
                                 then Some \<lparr>rrError = Some P2PListenFailed, rrSteps = steps, rrDaemon = d, rrCreds = file\<rparr>
                                 else Some \<lparr>rrError = None, rrSteps = steps @ serving_steps re cfg @ shutdown_steps re,
                                           rrDaemon = d, rrCreds = file\<rparr>)))"

section \<open>The order of a run\<close>

lemma Run_cases:
  assumes "Run re cfg file d = Some r"
  obtains (auth) e where "rrError r = Some (AuthFailed e)"
      "rrSteps r = [TransportStarted, SessionsRestored, PendingRestored, EvictionStarted, RetryLoopStarted, DashboardWired]"
  | (dial) "rrError r = Some CoordClientFailed"
      "rrSteps r = [TransportStarted, SessionsRestored, PendingRestored, EvictionStarted, RetryLoopStarted, DashboardWired]"
  | (cancelled) tok team where "rrError r = Some RegisterCancelled"
      "rrSteps r = [TransportStarted, SessionsRestored, PendingRestored, EvictionStarted, RetryLoopStarted, DashboardWired]
         @ connect_steps cfg tok team"
  | (listen) tok team where "rrError r = Some P2PListenFailed"
      "rrSteps r = [TransportStarted, SessionsRestored, PendingRestored, EvictionStarted, RetryLoopStarted, DashboardWired]
         @ connect_steps cfg tok team @ [Registered, ReadySet, HandleCallbackSet]"
  | (served) tok team where "rrError r = None"
      "rrSteps r = [TransportStarted, SessionsRestored, PendingRestored, EvictionStarted, RetryLoopStarted, DashboardWired]
         @ connect_steps cfg tok team @ [Registered, ReadySet, HandleCallbackSet] @ serving_steps re cfg @ shutdown_steps re"
proof -
  obtain res file' where a: "resolveAuth (reLogin re) (reNow re) (start_config_of cfg) file = Some (res, file')"
    using assms by (cases "resolveAuth (reLogin re) (reNow re) (start_config_of cfg) file") (auto simp: Run_def)
  show ?thesis
  proof (cases res)
    case (Inl e)
    then show ?thesis using assms a auth by (auto simp: Run_def)
  next
    case (Inr tok)
    show ?thesis
    proof (cases "reDial re")
      case False
      then show ?thesis using assms a Inr dial by (auto simp: Run_def)
    next
      case True
      obtain o' sl where "registerWithRetry (reRegister re) = Some (o', sl)"
        using assms a Inr True by (cases "registerWithRetry (reRegister re)") (auto simp: Run_def)
      then show ?thesis
        using assms a Inr True cancelled listen served
        by (cases o'; cases "reListen re (dcListenAddr cfg)") (auto simp: Run_def)
    qed
  qed
qed

text \<open>What is served at all, and what came before the first of it.\<close>

fun serves :: "run_step \<Rightarrow> bool" where
  "serves (P2PServing a) = True"
| "serves (AgentServing a) = True"
| "serves (MetricsServing a f) = True"
| "serves (McpServing a) = True"
| "serves (ChatServing a t) = True"
| "serves _ = False"

lemma connect_serves: "filter serves (connect_steps cfg tok team) = []"
  by (simp add: connect_steps_def)


text \<open>
  The readiness endpoint exists only after readiness was declared: it never answers that the daemon is not ready.
\<close>

lemma readyz_always_ready:
  assumes "Run re cfg file d = Some r" and "MetricsServing a f \<in> set (rrSteps r)"
  shows "readyz f = (200, ''ready'')"
  using assms
  by (cases rule: Run_cases) (auto simp: connect_steps_def serving_steps_def shutdown_steps_def readyz_def split: if_splits)

lemma registerWithRetry_ends:
  assumes "ends (reRegister re k)"
  shows "\<exists>o' sl. registerWithRetry (reRegister re) = Some (o', sl)"
proof -
  define k0 where "k0 = (LEAST k. ends (reRegister re k))"
  have "ends (reRegister re k0)" "\<And>i. i < k0 \<Longrightarrow> \<not> ends (reRegister re i)"
    using assms by (auto simp: k0_def intro: LeastI dest: not_less_Least)
  then show ?thesis
    using retryWithBackoff_stops [of k0 "reRegister re" second "30 * second"] by (simp add: registerWithRetry_def second_def)
qed

text \<open>
  A run with a configured token returns as soon as one attempt to register succeeds or the context ends: it does not
  depend on the login server.
\<close>

lemma run_returns:
  assumes "dcAuthToken cfg \<noteq> []" and "ends (reRegister re k)"
  shows "\<exists>r. Run re cfg file d = Some r"
proof -
  obtain o' sl where "registerWithRetry (reRegister re) = Some (o', sl)" using registerWithRetry_ends [OF assms(2)] by blast
  then show ?thesis
    using assms(1) by (cases o') (simp_all add: Run_def resolveAuth_def start_config_of_def Let_def)
qed

section \<open>Two daemons and one database\<close>

lemma LoadSessions_New [simp]: "LoadSessions (NewMessageStore C) = []"
  by (simp add: LoadSessions_def NewMessageStore_def)

lemma LoadPending_New [simp]: "LoadPending (NewMessageStore C) = []"
  by (simp add: LoadPending_def NewMessageStore_def)

lemma New_identity:
  assumes "New m w cfg = (Inr d, f)"
  obtains kp cert where "fst (LoadOrGenerate (maCrypto m) (maRandom m) (maKeyWritable m) (maKeyFile m (dcKeyFile cfg))) = Inr kp"
    "SelfSignedCert (maX509 m) (maEcKey m) kp = Inr cert" "maMkdir m (data_dir m cfg)"
  using assms by (auto simp: New_def Let_def split: sum.splits if_splits)

text \<open>
  A daemon whose socket answers is protected: a second one on the same database gives up and leaves the file alone.
\<close>

lemma second_daemon_refused:
  assumes "New m w cfg = (Inr d, f)" and "maDatabase m' (db_path m' cfg) = Some \<lparr>dfLocked = True, dfStore = ms\<rparr>"
    and "m' = m\<lparr>maDatabase := db, maAlive := al\<rparr>" and "al (dcSocketPath cfg)"
  shows "New m' w' cfg = (Inl AlreadyRunning, Some \<lparr>dfLocked = True, dfStore = ms\<rparr>)"
  using assms(1)
proof (rule New_identity)
  fix kp cert
  assume id: "fst (LoadOrGenerate (maCrypto m) (maRandom m) (maKeyWritable m) (maKeyFile m (dcKeyFile cfg))) = Inr kp"
    "SelfSignedCert (maX509 m) (maEcKey m) kp = Inr cert" "maMkdir m (data_dir m cfg)"
  have "data_dir m' cfg = data_dir m cfg" by (simp add: assms(3) data_dir_def)
  then show ?thesis
    using assms(2-4) id by (simp add: New_def Let_def open_message_store_def open_db_def isLockTimeout_def)
qed

text \<open>
  C39. A daemon that is still logging in or registering is not: the socket is served only afterwards, so a second daemon takes
  the lock for a stale one, removes the database of the living daemon and starts with an empty one. Its
  sessions and pending messages are not restored by any later start.
\<close>

theorem live_database_dropped:
  assumes "New m w cfg = (Inr d, f)" and "maDatabase m' (db_path m' cfg) = Some \<lparr>dfLocked = True, dfStore = ms\<rparr>"
    and "m' = m\<lparr>maDatabase := db, maAlive := al\<rparr>" and "\<not> al (dcSocketPath cfg)" and "maCanRemove m" and "maCanCreate m"
  shows "\<exists>d'. New m' w' cfg = (Inr d', Some \<lparr>dfLocked = True, dfStore = NewMessageStore (maCodec m)\<rparr>) \<and>
    LoadSessions (dStore d') = [] \<and> LoadPending (dStore d') = []"
  using assms(1)
proof (rule New_identity)
  fix kp cert
  assume id: "fst (LoadOrGenerate (maCrypto m) (maRandom m) (maKeyWritable m) (maKeyFile m (dcKeyFile cfg))) = Inr kp"
    "SelfSignedCert (maX509 m) (maEcKey m) kp = Inr cert" "maMkdir m (data_dir m cfg)"
  have "data_dir m' cfg = data_dir m cfg" by (simp add: assms(3) data_dir_def)
  then show ?thesis
    using assms(2-6) id by (simp add: New_def Let_def open_message_store_def open_db_def isLockTimeout_def)
qed

section \<open>The token file\<close>

lemma hex_plain: "is_ascii (EncodeToString bs)" "trim (EncodeToString bs) = EncodeToString bs"
proof -
  have "list_all (\<lambda>n. \<not> Handle.is_space (hex_digit n) \<and> of_char (hex_digit n) < (128::nat)) [0..<16]" by code_simp
  then have digit: "\<not> Handle.is_space (hex_digit n)" "of_char (hex_digit n) < (128::nat)" if "n < 16" for n
    using that by (simp_all add: list_all_iff)
  have "of_char b div 16 < (16 :: nat)" "of_char b mod 16 < (16 :: nat)" for b :: char
    using nat_of_char_less_256 [of b] by linarith+
  then have c: "\<not> Handle.is_space c \<and> of_char c < (128::nat)" if "c \<in> set (EncodeToString bs)" for c
    using that by (auto simp: EncodeToString_def digit)
  then show "is_ascii (EncodeToString bs)" by (simp add: is_ascii_def)
  have "dropWhile Handle.is_space s = s" if "\<And>c. c \<in> set s \<Longrightarrow> \<not> Handle.is_space c" for s
    using that by (cases s) auto
  from this [of "EncodeToString bs"] this [of "rev (EncodeToString bs)"] show "trim (EncodeToString bs) = EncodeToString bs"
    using c by (simp add: trim_def)
qed

text \<open>
  C40. The socket belongs to those who can read the token file. Once the agent server accepts connections, a client that reads the file
  is let in, and a call is let in only if it carries exactly the token of the file: the socket is never open to
  everybody.
\<close>

theorem token_file_admits:
  assumes "ServeUnix rnd w l file d = (None, file', d')" and "\<And>bs. rnd = Some bs \<Longrightarrow> length bs = 32"
  shows "checkAuth (Some (call_metadata U file')) d' = None \<and>
    (\<forall>md. checkAuth md d' = None \<longrightarrow> (\<exists>m v vs. md = Some m \<and> gget m ''authorization'' = Some (v # vs) \<and> Some (TrimPrefix v ''Bearer '') = file')) \<and>
    checkAuth (Some (call_metadata U None)) d' \<noteq> None"
proof -
  obtain bs where bs: "rnd = Some bs" "file' = Some (EncodeToString bs)" "d' = d\<lparr>dAuthToken := EncodeToString bs\<rparr>"
    using assms(1) by (auto simp: ServeUnix_def Let_def split: option.splits if_splits)
  have ne: "EncodeToString bs \<noteq> []" using assms(2) [OF bs(1)] by (auto simp: EncodeToString_nil)
  have "TrimPrefix (''Bearer '' @ EncodeToString bs) ''Bearer '' = EncodeToString bs" by (simp add: TrimPrefix_def)
  then have "checkAuth (Some (call_metadata U file')) d' = None"
    by (simp add: checkAuth_def bs call_metadata_def GetRequestMetadata_def gget_or_def Handle.TrimSpace_def hex_plain)
  moreover have "\<exists>m v vs. md = Some m \<and> gget m ''authorization'' = Some (v # vs) \<and> Some (TrimPrefix v ''Bearer '') = file'"
    if "checkAuth md d' = None" for md
    using that ne by (auto simp: checkAuth_def bs gget_or_def split: option.splits list.splits if_splits)
  moreover have "checkAuth (Some (call_metadata U None)) d' \<noteq> None"
    using ne by (simp add: checkAuth_def bs call_metadata_def gget_or_def)
  ultimately show ?thesis by blast
qed

section \<open>A daemon to start\<close>

definition demo_login :: login_env where
  "demo_login = \<lparr>leRefresh = (\<lambda>_ _. None), leDevice = (\<lambda>_. None), leTicks = (\<lambda>_ _ _. Cancelled), leCanWrite = True\<rparr>"

definition demo_run :: run_env where
  "demo_run = \<lparr>reLogin = demo_login, reNow = 0, reDial = True,
     reRegister = (\<lambda>n. \<lparr>atFails = (n = 0), atCtxErr = False, atDone = False, atJitter = (\<lambda>_. 0)\<rparr>),
     reListen = (\<lambda>_. True), reMcpStarts = True, reChatStarts = True, reGraceful = False\<rparr>"

definition demo_daemon_config :: DaemonConfig where
  "demo_daemon_config = (up_settings ''c:1'' ''/s'' '':3000'' '':1423'' ''tok'')\<lparr>dcAuthToken := ''a''\<rparr>"

lemma demo_run_serves:
  "\<exists>r. Run demo_run demo_daemon_config None (NewDaemon ''n'' blob_codec ()) = Some r \<and> AgentServing ''/s'' \<in> set (rrSteps r)"
proof -
  have stops: "registerWithRetry (reRegister demo_run) = Some (RetryOk, [second])"
  proof -
    have "retryWithBackoff second (30 * second) (reRegister demo_run) =
        Some (outcome (reRegister demo_run 1), map (\<lambda>i. backoff_at second (30 * second) i + atJitter (reRegister demo_run i) (backoff_at second (30 * second) i)) [0..<1])"
      by (rule retryWithBackoff_stops) (simp_all add: demo_run_def ends_def second_def)
    then show ?thesis by (simp add: registerWithRetry_def outcome_def demo_run_def backoff_at_def second_def)
  qed
  have e: "reDial demo_run" "reListen demo_run = (\<lambda>_. True)" by (simp_all add: demo_run_def)
  have c: "dcAuthToken demo_daemon_config = ''a''" "dcSocketPath demo_daemon_config = ''/s''"
    by (simp_all add: demo_daemon_config_def up_settings_def)
  show ?thesis
    by (simp add: Run_def resolveAuth_def start_config_of_def c stops e Let_def serving_steps_def)
qed


definition demo_disk :: "blob machine" where
  "demo_disk = \<lparr>maCrypto = toy_crypto, maX509 = toy_x509, maRandom = Some (replicate 32 CHR ''s''), maEcKey = ''ec'',
     maKeyFile = (\<lambda>_. Missing), maKeyWritable = True, maTempDir = ''/tmp'', maMkdir = (\<lambda>_. True), maCodec = blob_codec,
     maDatabase = (\<lambda>_. None), maCanCreate = True, maCanRemove = True, maAlive = (\<lambda>_. False)\<rparr>"

lemma demo_new: "\<exists>d f. New demo_disk () demo_daemon_config = (Inr d, f)"
  by (simp add: New_def demo_disk_def LoadOrGenerate_def Generate_def SavePrivateKey_def SelfSignedCert_def toy_x509_def
      open_message_store_def open_db_def Let_def)

text \<open>The first daemon's database holds a session that is not over.\<close>

definition demo_held :: "blob message_store" where
  "demo_held = (NewMessageStore blob_codec)\<lparr>bucketSessions := [(''s1'', BSession (stored_of (Session.New ''s1'' 0 ''a'' ''b'')))]\<rparr>"

theorem live_database_dropped_witness:
  "LoadSessions demo_held \<noteq> [] \<and>
   (\<exists>d'. New (demo_disk\<lparr>maDatabase := (\<lambda>_. Some \<lparr>dfLocked = True, dfStore = demo_held\<rparr>), maAlive := (\<lambda>_. False)\<rparr>) () demo_daemon_config =
     (Inr d', Some \<lparr>dfLocked = True, dfStore = NewMessageStore blob_codec\<rparr>) \<and> LoadSessions (dStore d') = [])"
proof
  show "LoadSessions demo_held \<noteq> []"
    by (simp add: demo_held_def LoadSessions_def NewMessageStore_def blob_codec_def List.map_filter_def)
  obtain d f where "New demo_disk () demo_daemon_config = (Inr d, f)" using demo_new by blast
  from live_database_dropped [OF this, of "demo_disk\<lparr>maDatabase := (\<lambda>_. Some \<lparr>dfLocked = True, dfStore = demo_held\<rparr>), maAlive := (\<lambda>_. False)\<rparr>"
      demo_held "\<lambda>_. False" "\<lambda>_. Some \<lparr>dfLocked = True, dfStore = demo_held\<rparr>" "()"]
  show "\<exists>d'. New (demo_disk\<lparr>maDatabase := (\<lambda>_. Some \<lparr>dfLocked = True, dfStore = demo_held\<rparr>), maAlive := (\<lambda>_. False)\<rparr>) () demo_daemon_config =
     (Inr d', Some \<lparr>dfLocked = True, dfStore = NewMessageStore blob_codec\<rparr>) \<and> LoadSessions (dStore d') = []"
    by (auto simp: demo_disk_def)
qed

theorem token_file_admits_witness:
  "\<exists>file' d'. ServeUnix (Some (replicate 32 CHR ''x'')) True True None (NewDaemon ''n'' blob_codec ()) = (None, file', d') \<and>
     checkAuth (Some (call_metadata \<lparr>uLower = id, uTrim = id\<rparr> file')) d' = None \<and> checkAuth None d' \<noteq> None"
proof -
  obtain file' d' where s: "ServeUnix (Some (replicate 32 CHR ''x'')) True True None (NewDaemon ''n'' blob_codec ()) = (None, file', d')"
    by (simp add: ServeUnix_def Let_def)
  have "length bs = 32" if "Some (replicate 32 CHR ''x'') = Some bs" for bs using that by auto
  from token_file_admits [OF s this, of "\<lparr>uLower = id, uTrim = id\<rparr>"] show ?thesis using s by blast
qed

end
