(* ===== verification/Spec2Isabelle.thy ===== *)
theory Spec2Isabelle
  imports Handle Relay Two_Nodes Node_Status Mcp_Http Chat_Gateway Coord_Access Coord_Client Coord_Updates Coord_Rest Coord_Integrity
    Login_Client Daemon_Start Identity Fire Team_Cli Dashboard_Views Coord_Main Daemon_Run
begin

text \<open>
  \<^bold>\<open>Tailbus: a verification development.\<close>

  Tailbus is a message bus between agents on many machines. Agents connect to the daemon of their
  machine, register handles and open sessions or rooms; daemons exchange envelopes directly or through
  a relay; a coordination server admits nodes, keeps their handles per team and pushes peer maps to
  them. The theories follow the packages under \<open>src/internal\<close>. An operation of the code is a function on
  the state of its component, with the clock, random identifiers, the network and the libraries it
  calls as arguments; where the code holds a lock only for a part, that part is a step of its own.

  \<^bold>\<open>Foundations.\<close>
  \<^item> \<open>Prelude\<close>: Go maps as association lists, bounded channels, \<open>sort.Slice\<close>, time, decimal texts; the
    interface of finite maps, interpreted for Go maps and for sorted buckets; the theorem collections.
  \<^item> \<open>Messages\<close>: errors and the messages of \<open>proto/tailbus/v1\<close>.

  \<^bold>\<open>One daemon\<close> (\<open>internal/daemon\<close>, \<open>session\<close>, \<open>handle\<close>, \<open>transport\<close>).
  \<^item> \<open>Handle\<close> (\<open>handle/handle.go\<close>): parsing and printing of handles, regular expressions by derivatives.
  \<^item> \<open>Resolver\<close> (\<open>handle/resolver.go\<close>): the cached peer map; discovery is an exact, ranked search that does
    not depend on the iteration order of the map.
  \<^item> \<open>Session\<close> (\<open>session/session.go\<close>): sessions, their store and the interface of its persistence callbacks.
  \<^item> \<open>Message_Store\<close> (\<open>msgstore.go\<close>): the durable store; sessions survive a restart; replay and retention of
    room logs, with the wrap-around of the 64-bit sequence number.
  \<^item> \<open>Ack_Tracker\<close> (\<open>acktracker.go\<close>): retries with their lock regions as a step relation: resends are bounded,
    acknowledged messages are never resent, retries run out, pending messages survive a restart.
  \<^item> \<open>Trace_Store\<close> (\<open>tracestore.go\<close>): the indexed ring buffer refines the history of spans.
  \<^item> \<open>Activity_Bus\<close> (\<open>activitybus.go\<close>): counters and the fan-out of events that never blocks.
  \<^item> \<open>Transport\<close> (\<open>transport/grpc.go\<close>, \<open>peerverifier.go\<close>): connections, verification, direct sending with one
    reconnect and relay fallback; a send hands the message to one stream or to none.
  \<^item> \<open>Daemon_State\<close>, \<open>Router\<close> (\<open>router.go\<close>, \<open>daemon.go\<close>): the components wired together, delivery, routing and
    what arrives from the transport. Goroutines that have been started and not run are a list of tasks.
  \<^item> \<open>Agent_Server\<close> (\<open>agentserver.go\<close>): authentication, ownership, registration, sessions, subscriptions: sequence
    numbers, resolved sessions, disconnects, absence and presence of panics.
  \<^item> \<open>Node_Status\<close> (\<open>agentserver.go\<close>): status, activity stream, introspection and discovery over the merged directory.
  \<^item> \<open>Rooms\<close>, \<open>Room_Log\<close>, \<open>Room_Publish\<close> (\<open>roommanager.go\<close>): room commands on the home node and across nodes; the log
    of a room is the history of its accepted commands; access control; what publication delivers.
  \<^item> \<open>Two_Nodes\<close>: a message from one daemon to another and the acknowledgement back.
  \<^item> \<open>Daemon_Start\<close> (\<open>daemon.go\<close>): where the token and the team come from, and the retry loop of registration.
  \<^item> \<open>Daemon_Run\<close> (\<open>daemon.go\<close>, \<open>metrics.go\<close>, \<open>health\<close>): creation on a locked database, the order of \<open>Run\<close>, the token file of the
    agent socket, readiness: what is served when, who is let in, and how a second start loses the database.

  \<^bold>\<open>Relay and identity.\<close>
  \<^item> \<open>Relay\<close> (\<open>relay/server.go\<close>): streams registered under keys, forwarding, as a state machine.
  \<^item> \<open>Identity\<close> (\<open>identity\<close>): key file, certificates, trust on first use, and what a certificate proves.

  \<^bold>\<open>Coordination server\<close> (\<open>internal/coord\<close>) and its clients.
  \<^item> \<open>Coord_Store\<close> (\<open>store.go\<close>), \<open>Coord_Admission\<close> (\<open>admission.go\<close>, \<open>jwt.go\<close>), \<open>Peer_Map\<close> (\<open>peermap.go\<close>), \<open>Coord_Server\<close>
    (\<open>server.go\<close>, \<open>registry.go\<close>): tables, tokens, updates, and every call.
  \<^item> \<open>Coord_Frame\<close>: interfaces that lift what each statement of the store keeps to what each call keeps. They
    are interpreted five times: for untouched node tables and for consumed tokens, owned teams and
    invites in \<open>Coord_Handles\<close> and \<open>Coord_Access\<close>, and for well-formed tables in \<open>Coord_Integrity\<close>.
  \<^item> \<open>Coord_Handles\<close>: a handle has one node per team as long as no heartbeat claims one; \<open>Coord_Access\<close>: single-use
    tokens, owners, kinds of tokens, invites; \<open>Coord_Updates\<close>: contents and reach of broadcasts.
  \<^item> \<open>Coord_Rest\<close> (\<open>rest.go\<close>, \<open>cors.go\<close>): the REST handlers agree with the gRPC handlers.
  \<^item> \<open>Coord_Client\<close> (\<open>daemon/coordclient.go\<close>): requests and application of updates; registered handles resolve.
  \<^item> \<open>Device_Login\<close> (\<open>oauth.go\<close>), \<open>Login_Client\<close> (\<open>auth\<close>): device and browser login as runs of requests; tokens are
    issued only for confirmed logins; polling ends.
  \<^item> \<open>Coord_Main\<close> (\<open>cmd/tailbus-coord\<close>, \<open>cmd/tailbus-relay\<close>, \<open>jwt.go\<close>): the start of the server: seeded tokens, signing key, login,
    the embedded relay and its heartbeats against the reaper; the addresses the processes give out.

  \<^bold>\<open>Gateways.\<close>
  \<^item> \<open>Mcp_Gateway\<close> (\<open>mcp/gateway.go\<close>): tools and the hand-over of answers to waiting calls; \<open>Mcp_Http\<close>: its JSON-RPC,
    event-stream and REST endpoints, and a tool call from the request to the response.
  \<^item> \<open>Chat_Gateway\<close> (\<open>chat\<close>): token check, handlers, waiters and WebSocket clients.

  \<^bold>\<open>Configuration and command-line tools\<close> (\<open>internal/config\<close>, \<open>cmd\<close>).
  \<^item> \<open>Config\<close> (\<open>config.go\<close>, the \<open>main.go\<close> of the servers, \<open>up.go\<close>): files, defaults and flags with the loop of \<open>flag.Parse\<close> and
    \<open>filepath.Join\<close> written out; \<open>up\<close> and the daemon it starts agree on every setting.
  \<^item> \<open>Agent_Bridge\<close> (\<open>agent.go\<close>): the commands of the line-based agent bridge; each gets one answer.
  \<^item> \<open>Bridge_Daemon\<close>: the bridge on a daemon, over an interface of handle ownership interpreted for the agent server.
  \<^item> \<open>Bridge_Loop\<close> (\<open>runBridge\<close>): scanner and main loop as a step relation: order, termination, and the
    cancellation that can hang.
  \<^item> \<open>Attach\<close> (\<open>attach.go\<close>): flags, initial commands, exec mode; \<open>Cli\<close> (\<open>main.go\<close>): the mesh and login commands, and which
    of them can succeed; \<open>Fire\<close>: a one-shot request and its answer through one daemon, in both orders of
    subscription and answer.
  \<^item> \<open>Team_Cli\<close> (\<open>team.go\<close>): the team commands over the coordination server and the credentials file.
  \<^item> \<open>Dashboard\<close>, \<open>Dashboard_Views\<close> (\<open>dashboard.go\<close>): the update function of the terminal dashboard and what it shows: busy
    turns, activity lines, states of nodes, chains of sessions, the usage grid; and the events it misses.

  \<^bold>\<open>Loops, bounds and integers.\<close> Loops over data are structural recursions or folds; \<open>sendViaRelay\<close>, retention,
  regular expressions and mentions have measures; loops that wait for the outside (\<open>PollForToken\<close>,
  \<open>retryWithBackoff\<close>) are partial functions whose result \<open>None\<close> is not returning, and the theorems say exactly
  when they return. No fuel is used. Counters, sequence numbers and connection identifiers are 64-bit
  words; durations and times are integers, with the 64-bit wrap written out where a request's value is
  multiplied; SQL integers are checked against \<open>2 ^ 63\<close>.

  \<^bold>\<open>Hypotheses.\<close> Libraries enter with the behaviour their documentation promises: codecs read back what they
  wrote (\<open>codec_ok\<close>), signed tokens parse until they expire (\<open>jwt_ok\<close>), PEM and X.509 (\<open>pem_ok\<close>, \<open>x509_ok\<close>); other
  goroutines keep the connection cache keyed by address (\<open>others_ok\<close>). Each has an instance in a witness.

  \<^bold>\<open>Not modelled.\<close> Accepting connections, gRPC streams and TLS handshakes, HTTP routing, JSON and TOML, the Prometheus
  histograms, signals and logging: input and output without logic of their own, or libraries. Starting a goroutine
  or a listener is a step of the daemon's run, its effect is that of the component it starts. The colours, boxes and
  animation of the dashboard, child processes, \<open>stop\<close> and the launchd integration, the examples, and the stubs
  generated from \<open>proto\<close>. A \<open>Broadcast\<close> is taken as one step.
\<close>

end
